(* ===== verification/Prelude.thy ===== *)
theory Prelude
  imports Main
begin

text \<open>
  What the components share: the errors the TypeScript code throws as values, the sequencing of
  fallible steps, JavaScript's insertion-ordered \<^verbatim>\<open>Map\<close> and \<^verbatim>\<open>Set\<close> as association lists, stable
  sorting, string tests, and the transition systems over which the stateful components state
  their invariants. A thrown error is the left injection of a sum; a string is a list of
  characters, one per code unit (the code's identifiers, keys and protocol constants are ASCII).
\<close>

section \<open>Errors and sequencing\<close>

text \<open>
  The classes of thrown values. \<^verbatim>\<open>DomainError\<close> keeps its code: its retry directive and its HTTP
  status are recomputed from the error registry by its constructor, and the message and the
  details are display data.
\<close>

datatype js_error =
    Plain_Error string
  | Range_Error string
  | Contract_Error string
  | Domain_Error string
  | Kcip_Error string
  | Zod_Error
  | Json_Conversion_Error string string
  | Pg_Error string

type_synonym 'a outcome = "js_error + 'a"

definition bindE :: "'e + 'a \<Rightarrow> ('a \<Rightarrow> 'e + 'b) \<Rightarrow> 'e + 'b" where
  "bindE m k = (case m of Inl e \<Rightarrow> Inl e | Inr x \<Rightarrow> k x)"

definition is_ok :: "'e + 'a \<Rightarrow> bool" where
  "is_ok m = (case m of Inl _ \<Rightarrow> False | Inr _ \<Rightarrow> True)"

fun forE :: "('s \<Rightarrow> 'a \<Rightarrow> 'e + 's) \<Rightarrow> 's \<Rightarrow> 'a list \<Rightarrow> 'e + 's" where
  "forE f s [] = Inr s"
| "forE f s (x # xs) = (case f s x of Inl e \<Rightarrow> Inl e | Inr s' \<Rightarrow> forE f s' xs)"

named_theorems outcome_simps

lemma bindE_simps [simp, outcome_simps]:
  "bindE (Inl e) k = Inl e" "bindE (Inr x) k = k x"
  by (simp_all add: bindE_def)

lemma bindE_Inr_iff [outcome_simps]: "bindE m k = Inr y \<longleftrightarrow> (\<exists>x. m = Inr x \<and> k x = Inr y)"
  by (cases m) auto

lemma bindE_Inl_iff: "bindE m k = Inl e \<longleftrightarrow> m = Inl e \<or> (\<exists>x. m = Inr x \<and> k x = Inl e)"
  by (cases m) auto

lemma is_ok_simps [simp]: "is_ok (Inl e) = False" "is_ok (Inr x) = True"
  by (simp_all add: is_ok_def)

lemma is_ok_iff: "is_ok m \<longleftrightarrow> (\<exists>x. m = Inr x)"
  by (cases m) auto

lemma forE_Cons_Inr: "forE f s (x # xs) = Inr t \<longleftrightarrow> (\<exists>s'. f s x = Inr s' \<and> forE f s' xs = Inr t)"
  by (auto split: sum.splits)

lemma forE_cong [fundef_cong]:
  "xs = ys \<Longrightarrow> s = t \<Longrightarrow> (\<And>u x. x \<in> set ys \<Longrightarrow> f u x = g u x) \<Longrightarrow> forE f s xs = forE g t ys"
  by (induction ys arbitrary: xs s t) (auto split: sum.splits)

lemma forE_append:
  "forE f s (xs @ ys) = bindE (forE f s xs) (\<lambda>s'. forE f s' ys)"
  by (induction xs arbitrary: s) (auto split: sum.splits)

lemma forE_invariant:
  assumes "forE f s xs = Inr t" and "P s"
    and "\<And>s x t. x \<in> set xs \<Longrightarrow> P s \<Longrightarrow> f s x = Inr t \<Longrightarrow> P t"
  shows "P t"
  using assms
proof (induction xs arbitrary: s)
  case Nil
  then show ?case by simp
next
  case (Cons x xs)
  from Cons.prems(1) obtain s' where s': "f s x = Inr s'" "forE f s' xs = Inr t"
    by (auto split: sum.splits)
  have "P s'" using Cons.prems(2,3) s'(1) by auto
  then show ?case using Cons.IH [OF s'(2)] Cons.prems(3) by auto
qed

lemma forE_unit: "forE (\<lambda>_. f) () xs = Inr u \<Longrightarrow> x \<in> set xs \<Longrightarrow> f x = Inr ()"
  by (induction xs) (auto split: sum.splits)

section \<open>Insertion-ordered maps\<close>

text \<open>
  \<^verbatim>\<open>Map.prototype.set\<close> keeps the position of a key that is already present and appends a new one;
  \<^verbatim>\<open>delete\<close> removes it. \<^verbatim>\<open>get\<close> is \<^const>\<open>map_of\<close> and \<^verbatim>\<open>size\<close> is \<^const>\<open>length\<close>.
\<close>

fun jm_set :: "'k \<Rightarrow> 'v \<Rightarrow> ('k \<times> 'v) list \<Rightarrow> ('k \<times> 'v) list" where
  "jm_set k v [] = [(k, v)]"
| "jm_set k v ((k', v') # m) = (if k = k' then (k, v) # m else (k', v') # jm_set k v m)"

definition jm_get :: "('k \<times> 'v) list \<Rightarrow> 'k \<Rightarrow> 'v option" where
  "jm_get m k = map_of m k"

definition jm_has :: "('k \<times> 'v) list \<Rightarrow> 'k \<Rightarrow> bool" where
  "jm_has m k = (map_of m k \<noteq> None)"

definition jm_delete :: "'k \<Rightarrow> ('k \<times> 'v) list \<Rightarrow> ('k \<times> 'v) list" where
  "jm_delete k m = filter (\<lambda>(k', _). k' \<noteq> k) m"

definition jm_wf :: "('k \<times> 'v) list \<Rightarrow> bool" where
  "jm_wf m = distinct (map fst m)"

lemma map_of_jm_set: "map_of (jm_set k v m) = (map_of m)(k \<mapsto> v)"
  by (induction m) auto

lemma map_of_jm_delete: "map_of (jm_delete k m) = (map_of m)(k := None)"
  by (induction m) (auto simp: jm_delete_def fun_eq_iff)

lemma jm_set_keys: "fst ` set (jm_set k v m) = insert k (fst ` set m)"
proof (induction m)
  case (Cons p m)
  then show ?case by (cases p) (auto simp: insert_commute)
qed simp

lemma set_jm_set_subset: "set (jm_set k v m) \<subseteq> insert (k, v) (set m)"
  by (induction m) (auto split: if_splits)

lemma map_fst_map_snd: "map fst (map (\<lambda>(k, v). (k, f v)) es) = map fst es"
  by (induction es) auto

lemma jm_wf_set: "jm_wf m \<Longrightarrow> jm_wf (jm_set k v m)"
  using jm_set_keys [of k v] by (induction m) (fastforce simp: jm_wf_def)+

lemma jm_wf_delete: "jm_wf m \<Longrightarrow> jm_wf (jm_delete k m)"
  by (induction m) (auto simp: jm_wf_def jm_delete_def image_iff)

lemma jm_wf_filter: "jm_wf m \<Longrightarrow> jm_wf (filter P m)"
  by (induction m) (auto simp: jm_wf_def image_iff)

lemma jm_set_length: "length (jm_set k v m) = (if jm_has m k then length m else Suc (length m))"
  by (induction m) (auto simp: jm_has_def)

lemma jm_set_fresh: "\<not> jm_has m k \<Longrightarrow> jm_set k v m = m @ [(k, v)]"
  by (induction m) (auto simp: jm_has_def split: if_splits)

text \<open>
  The interface the clients of a map rely on, stated on the lookup function.
\<close>

locale keyed_store =
  fixes empty :: "'m"
    and lookup :: "'m \<Rightarrow> 'k \<Rightarrow> 'v option"
    and store :: "'k \<Rightarrow> 'v \<Rightarrow> 'm \<Rightarrow> 'm"
    and remove :: "'k \<Rightarrow> 'm \<Rightarrow> 'm"
    and invar :: "'m \<Rightarrow> bool"
  assumes lookup_empty: "lookup empty k = None"
    and lookup_store: "invar m \<Longrightarrow> lookup (store k v m) k' = (if k' = k then Some v else lookup m k')"
    and lookup_remove: "invar m \<Longrightarrow> lookup (remove k m) k' = (if k' = k then None else lookup m k')"
    and invar_empty: "invar empty"
    and invar_store: "invar m \<Longrightarrow> invar (store k v m)"
    and invar_remove: "invar m \<Longrightarrow> invar (remove k m)"
begin

lemma invar_foldl_store: "invar m \<Longrightarrow> invar (foldl (\<lambda>m x. store (key x) (val x) m) m xs)"
  by (induction xs arbitrary: m) (auto intro: invar_store)

lemma lookup_foldl_store_notin:
  "invar m \<Longrightarrow> k \<notin> key ` set xs \<Longrightarrow> lookup (foldl (\<lambda>m x. store (key x) (val x) m) m xs) k = lookup m k"
  by (induction xs arbitrary: m) (auto simp: lookup_store invar_store)

lemma lookup_foldl_store_in:
  assumes "invar m" and "distinct (map key xs)" and "x \<in> set xs"
  shows "lookup (foldl (\<lambda>m x. store (key x) (val x) m) m xs) (key x) = Some (val x)"
  using assms
proof (induction xs arbitrary: m)
  case Nil
  then show ?case by simp
next
  case (Cons y ys)
  show ?case
  proof (cases "x = y")
    case True
    with Cons.prems show ?thesis
      by (auto simp: lookup_foldl_store_notin [OF invar_store] lookup_store)
  next
    case False
    with Cons.prems show ?thesis by (auto intro!: Cons.IH invar_store)
  qed
qed

lemma lookup_foldl_store_Some:
  assumes "invar m" and "lookup (foldl (\<lambda>m x. store (key x) (val x) m) m xs) k = Some v"
  shows "lookup m k = Some v \<or> (\<exists>x \<in> set xs. key x = k \<and> val x = v)"
  using assms
proof (induction xs arbitrary: m)
  case Nil
  then show ?case by simp
next
  case (Cons y ys)
  from Cons.IH [of "store (key y) (val y) m"] Cons.prems
  have "lookup (store (key y) (val y) m) k = Some v \<or> (\<exists>x \<in> set ys. key x = k \<and> val x = v)"
    by (auto intro: invar_store)
  then show ?case using Cons.prems(1) by (auto simp: lookup_store split: if_splits)
qed

end

interpretation jsmap: keyed_store "[]" jm_get jm_set jm_delete jm_wf
  by unfold_locales
    (auto simp: jm_get_def map_of_jm_set map_of_jm_delete jm_wf_set jm_wf_delete, simp add: jm_wf_def)

definition jm_of :: "('x \<Rightarrow> 'k) \<Rightarrow> 'x list \<Rightarrow> ('k \<times> 'x) list" where
  "jm_of key xs = foldl (\<lambda>m x. jm_set (key x) x m) [] xs"

lemma jm_of_Some: "jm_get (jm_of key xs) k = Some v \<Longrightarrow> v \<in> set xs \<and> key v = k"
  using jsmap.lookup_foldl_store_Some [of "[]" key "\<lambda>x. x" xs k v]
  by (auto simp: jm_of_def jm_get_def jm_wf_def)

lemma jm_of_in: "distinct (map key xs) \<Longrightarrow> x \<in> set xs \<Longrightarrow> jm_get (jm_of key xs) (key x) = Some x"
  using jsmap.lookup_foldl_store_in [of "[]" key xs x "\<lambda>x. x"]
  by (simp add: jm_of_def jm_wf_def)

lemma jm_of_None: "k \<notin> key ` set xs \<Longrightarrow> jm_get (jm_of key xs) k = None"
  using jsmap.lookup_foldl_store_notin [of "[]" k key xs "\<lambda>x. x"]
  by (simp add: jm_of_def jm_wf_def jm_get_def)

section \<open>Stable sorting\<close>

text \<open>
  \<^verbatim>\<open>Array.prototype.sort\<close> is stable, so for a consistent comparator its result is determined:
  insertion from the right, before the elements that do not compare smaller.
\<close>

fun insort_by :: "('a \<Rightarrow> 'a \<Rightarrow> bool) \<Rightarrow> 'a \<Rightarrow> 'a list \<Rightarrow> 'a list" where
  "insort_by le x [] = [x]"
| "insort_by le x (y # ys) = (if le x y then x # y # ys else y # insort_by le x ys)"

definition js_sort :: "('a \<Rightarrow> 'a \<Rightarrow> bool) \<Rightarrow> 'a list \<Rightarrow> 'a list" where
  "js_sort le xs = foldr (insort_by le) xs []"

lemma set_insort_by [simp]: "set (insort_by le x ys) = insert x (set ys)"
  by (induction ys) auto

lemma set_js_sort [simp]: "set (js_sort le xs) = set xs"
  by (induction xs) (auto simp: js_sort_def)

lemma length_insort_by [simp]: "length (insort_by le x ys) = Suc (length ys)"
  by (induction ys) auto

lemma length_js_sort [simp]: "length (js_sort le xs) = length xs"
  by (induction xs) (auto simp: js_sort_def)

lemma js_sort_Nil [simp]: "js_sort le [] = []"
  by (simp add: js_sort_def)

lemma distinct_insort_by: "distinct (x # ys) \<Longrightarrow> distinct (insort_by le x ys)"
  by (induction ys) auto

lemma distinct_map_insort_by:
  "distinct (map f (x # ys)) \<Longrightarrow> distinct (map f (insort_by le x ys))"
  by (induction ys) auto

lemma distinct_map_js_sort: "distinct (map f xs) \<Longrightarrow> distinct (map f (js_sort le xs))"
proof (induction xs)
  case (Cons x xs)
  have "f ` set (js_sort le xs) = f ` set xs" by simp
  with Cons show ?case
    using distinct_map_insort_by [of f x "js_sort le xs" le] by (simp add: js_sort_def)
qed simp

definition total_preorder :: "('a \<Rightarrow> 'a \<Rightarrow> bool) \<Rightarrow> bool" where
  "total_preorder le = ((\<forall>x y. le x y \<or> le y x) \<and> (\<forall>x y z. le x y \<longrightarrow> le y z \<longrightarrow> le x z))"

lemma sorted_insort_by:
  assumes "total_preorder le" and "sorted_wrt le ys"
  shows "sorted_wrt le (insort_by le x ys)"
  using assms by (induction ys) (auto simp: total_preorder_def)

lemma sorted_js_sort: "total_preorder le \<Longrightarrow> sorted_wrt le (js_sort le xs)"
  by (induction xs) (auto simp: js_sort_def sorted_insort_by)

text \<open>
  Where the comparator separates the elements, the sorted list depends on their set only.
\<close>

lemma sorted_wrt_set_unique:
  assumes "sorted_wrt le xs" and "sorted_wrt le ys" and "set xs = set ys"
    and "distinct xs" and "distinct ys"
    and anti: "\<And>x y. x \<in> set xs \<Longrightarrow> y \<in> set xs \<Longrightarrow> le x y \<Longrightarrow> le y x \<Longrightarrow> x = y"
  shows "xs = ys"
  using assms
proof (induction xs arbitrary: ys)
  case Nil
  then show ?case by simp
next
  case (Cons x xs)
  then obtain y ys' where ys: "ys = y # ys'" by (cases ys) auto
  have xy: "x = y"
  proof (rule ccontr)
    assume ne: "x \<noteq> y"
    with Cons.prems ys have "x \<in> set ys'" "y \<in> set xs" by (metis insert_iff list.set(2))+
    with Cons.prems ys have "le y x" "le x y" by auto
    with Cons.prems(6) [of x y] \<open>y \<in> set xs\<close> ne show False by simp
  qed
  have "set xs = set ys'"
  proof -
    have "insert y (set xs) = insert y (set ys')" "y \<notin> set xs" "y \<notin> set ys'"
      using Cons.prems(3,4,5) xy ys by simp_all
    then show ?thesis by (metis insert_ident)
  qed
  with Cons.IH [of ys'] Cons.prems ys have "xs = ys'" by auto
  with xy ys show ?case by simp
qed

section \<open>Strings\<close>

definition starts_with :: "string \<Rightarrow> string \<Rightarrow> bool" where
  "starts_with p s = (take (length p) s = p)"

definition ends_with :: "string \<Rightarrow> string \<Rightarrow> bool" where
  "ends_with p s = (length p \<le> length s \<and> drop (length s - length p) s = p)"

fun includes_str :: "string \<Rightarrow> string \<Rightarrow> bool" where
  "includes_str p [] = (p = [])"
| "includes_str p (c # cs) = (starts_with p (c # cs) \<or> includes_str p cs)"

definition in_range :: "char \<Rightarrow> char \<Rightarrow> char \<Rightarrow> bool" where
  "in_range lo hi c = ((of_char lo :: nat) \<le> of_char c \<and> (of_char c :: nat) \<le> of_char hi)"

definition is_digit :: "char \<Rightarrow> bool" where
  "is_digit c = in_range CHR ''0'' CHR ''9'' c"

definition is_lower :: "char \<Rightarrow> bool" where
  "is_lower c = in_range CHR ''a'' CHR ''z'' c"

definition is_upper :: "char \<Rightarrow> bool" where
  "is_upper c = in_range CHR ''A'' CHR ''Z'' c"

definition is_hex_lower :: "char \<Rightarrow> bool" where
  "is_hex_lower c = (is_digit c \<or> in_range CHR ''a'' CHR ''f'' c)"

text \<open>\<^verbatim>\<open>split\<close> with a separator of one character.\<close>

fun split_on :: "char \<Rightarrow> string \<Rightarrow> string list" where
  "split_on sep [] = [[]]"
| "split_on sep (c # cs) =
     (if c = sep then [] # split_on sep cs
      else (case split_on sep cs of [] \<Rightarrow> [[c]] | w # ws \<Rightarrow> (c # w) # ws))"

lemmas char_class_defs = in_range_def is_digit_def is_lower_def is_upper_def is_hex_lower_def

text \<open>\<^verbatim>\<open>/^sha256:[0-9a-f]{64}$/u\<close>\<close>

definition is_digest :: "string \<Rightarrow> bool" where
  "is_digest s = (starts_with ''sha256:'' s \<and> length s = 71 \<and> list_all is_hex_lower (drop 7 s))"

lemma starts_with_append: "starts_with p (p @ s)"
  by (simp add: starts_with_def)

lemma starts_with_iff: "starts_with p s \<longleftrightarrow> (\<exists>r. s = p @ r)"
  by (auto simp: starts_with_def) (metis append_take_drop_id)

section \<open>Rows with a key\<close>

lemma distinct_map_eq: "distinct (map k xs) \<Longrightarrow> x \<in> set xs \<Longrightarrow> y \<in> set xs \<Longrightarrow> k x = k y \<Longrightarrow> x = y"
  by (auto simp: distinct_map dest: inj_onD)

lemma filter_key_unique: "distinct (map k xs) \<Longrightarrow> y \<in> set xs \<Longrightarrow> filter (\<lambda>x. k x = k y) xs = [y]"
  by (induction xs) (auto simp: filter_empty_conv intro: rev_image_eqI)

section \<open>Transition systems\<close>

text \<open>
  A stateful component is an initial state and a step relation; a property every step keeps holds
  in every reachable state.
\<close>

locale transition_system =
  fixes initial :: "'s \<Rightarrow> bool"
    and step :: "'s \<Rightarrow> 's \<Rightarrow> bool"
begin

inductive reach :: "'s \<Rightarrow> bool" where
  reach_init: "initial s \<Longrightarrow> reach s"
| reach_step: "reach s \<Longrightarrow> step s t \<Longrightarrow> reach t"

lemma invariant_rule:
  assumes "\<And>s. initial s \<Longrightarrow> I s"
    and "\<And>s t. reach s \<Longrightarrow> I s \<Longrightarrow> step s t \<Longrightarrow> I t"
    and "reach s"
  shows "I s"
  using assms(3) by induction (auto intro: assms(1,2))

end

end
