(* ===== verification/CanonicalJson.thy ===== *)
theory CanonicalJson
  imports Prelude "HOL-Library.Word"
begin

text \<open>
  Canonical JSON (\<^verbatim>\<open>packages/schemas/src/index.ts\<close>): the conversion of arbitrary runtime values to
  the one JSON representation that persistence, digests and transports share, its serialisation,
  and the digest. JavaScript objects live in a store, so that sharing and cycles are represented;
  \<^verbatim>\<open>localeCompare\<close> is a parameter (its collation data is the host's), as is SHA-256.
\<close>

section \<open>Runtime values\<close>

text \<open>
  A number is \<^verbatim>\<open>NaN\<close>, an infinity, negative zero, an integer below \<open>10 ^ 21\<close> in absolute value, or
  any other finite double, represented by the text \<^verbatim>\<open>Number::toString\<close> prints for it (the printing is
  injective on finite doubles).
\<close>

type_synonym byte = "8 word"

datatype js_number = JNaN | JInf bool | JNegZero | JInt int | JDec string

datatype js_value =
    JNull
  | JBool bool
  | JStr string
  | JBigint int
  | JNumber js_number
  | JUndefined
  | JFunction
  | JSymbol
  | JDate "string option" \<comment> \<open>the ISO text, or an invalid date\<close>
  | JBytes "byte list"
  | JRef nat

datatype js_object =
    OArray "js_value list"
  | OPlain "(string \<times> js_value) list" \<comment> \<open>prototype \<open>Object.prototype\<close> or null; own properties as inserted\<close>
  | OInstance string \<comment> \<open>any other prototype, with its constructor's name\<close>

type_synonym js_store = "js_object list"

datatype cjson =
    CNull
  | CBool bool
  | CNum js_number
  | CStr string
  | CArr "cjson list"
  | CObj "(string \<times> cjson) list"

section \<open>Text of numbers, strings and byte arrays\<close>

definition digit_char :: "nat \<Rightarrow> char" where
  "digit_char d = char_of (48 + d)"

fun nat_text :: "nat \<Rightarrow> string" where
  "nat_text n = (if n < 10 then [digit_char n] else nat_text (n div 10) @ [digit_char (n mod 10)])"

declare nat_text.simps [simp del]

definition int_text :: "int \<Rightarrow> string" where
  "int_text i = (if i < 0 then CHR ''-'' # nat_text (nat (- i)) else nat_text (nat i))"

fun number_text :: "js_number \<Rightarrow> string" where
  "number_text JNaN = ''null''"
| "number_text (JInf _) = ''null''"
| "number_text JNegZero = ''0''"
| "number_text (JInt i) = int_text i"
| "number_text (JDec s) = s"

definition hex_char :: "nat \<Rightarrow> char" where
  "hex_char d = (if d < 10 then char_of (48 + d) else char_of (87 + d))"

definition json_escape :: "char \<Rightarrow> string" where
  "json_escape c =
     (if c = CHR 0x22 then [CHR 0x5C, CHR 0x22]
      else if c = CHR 0x5C then [CHR 0x5C, CHR 0x5C]
      else if c = CHR 0x08 then CHR 0x5C # ''b''
      else if c = CHR 0x0C then CHR 0x5C # ''f''
      else if c = CHR 0x0A then CHR 0x5C # ''n''
      else if c = CHR 0x0D then CHR 0x5C # ''r''
      else if c = CHR 0x09 then CHR 0x5C # ''t''
      else if (of_char c :: nat) < 32
        then CHR 0x5C # ''u00'' @ [hex_char (of_char c div 16), hex_char (of_char c mod 16)]
      else [c])"

definition json_quote :: "string \<Rightarrow> string" where
  "json_quote s = CHR 0x22 # concat (map json_escape s) @ [CHR 0x22]"

fun join_with :: "string \<Rightarrow> string list \<Rightarrow> string" where
  "join_with sep [] = []"
| "join_with sep [x] = x"
| "join_with sep (x # xs) = x @ sep @ join_with sep xs"

definition base64_char :: "nat \<Rightarrow> char" where
  "base64_char n =
     (if n < 26 then char_of (65 + n) else if n < 52 then char_of (71 + n)
      else if n < 62 then char_of (n - 4) else if n = 62 then CHR ''+'' else CHR ''/'')"

fun base64 :: "byte list \<Rightarrow> string" where
  "base64 [] = []"
| "base64 [a] = (let n = unat a in [base64_char (n div 4), base64_char (n mod 4 * 16)] @ ''=='')"
| "base64 [a, b] = (let n = unat a * 256 + unat b in
     [base64_char (n div 1024), base64_char (n div 16 mod 64), base64_char (n mod 16 * 4)] @ ''='')"
| "base64 (a # b # c # bs) = (let n = (unat a * 256 + unat b) * 256 + unat c in
     [base64_char (n div 262144), base64_char (n div 4096 mod 64), base64_char (n div 64 mod 64), base64_char (n mod 64)]) @ base64 bs"

definition utf8_char :: "char \<Rightarrow> byte list" where
  "utf8_char c = (let n = (of_char c :: nat) in
     if n < 128 then [of_nat n] else [of_nat (192 + n div 64), of_nat (128 + n mod 64)])"

definition utf8 :: "string \<Rightarrow> byte list" where
  "utf8 s = concat (map utf8_char s)"

section \<open>Property enumeration\<close>

text \<open>
  \<^verbatim>\<open>Object.keys\<close> and \<^verbatim>\<open>Object.entries\<close> list the array-index keys in ascending order first and the
  others in insertion order. Assigning \<^verbatim>\<open>output["__proto__"]\<close> runs the setter of \<^verbatim>\<open>Object.prototype\<close>
  and creates no own property.
\<close>

definition is_array_index :: "string \<Rightarrow> bool" where
  "is_array_index k = (k \<noteq> [] \<and> list_all is_digit k \<and> (k = ''0'' \<or> hd k \<noteq> CHR ''0'')
     \<and> foldl (\<lambda>n c. n * 10 + (of_char c - 48)) (0::nat) k < 4294967295)"

definition index_le :: "string \<Rightarrow> string \<Rightarrow> bool" where
  "index_le a b = (foldl (\<lambda>n c. n * 10 + (of_char c - 48)) (0::nat) a
     \<le> foldl (\<lambda>n c. n * 10 + (of_char c - 48)) (0::nat) b)"

definition object_entries :: "(string \<times> 'v) list \<Rightarrow> (string \<times> 'v) list" where
  "object_entries es = js_sort (\<lambda>a b. index_le (fst a) (fst b)) (filter (\<lambda>e. is_array_index (fst e)) es)
     @ filter (\<lambda>e. \<not> is_array_index (fst e)) es"

definition assign_property :: "string \<Rightarrow> 'v \<Rightarrow> (string \<times> 'v) list \<Rightarrow> (string \<times> 'v) list" where
  "assign_property k v output = (if k = ''__proto__'' then output else jm_set k v output)"

lemma set_object_entries [simp]: "set (object_entries es) = set es"
  by (auto simp: object_entries_def)

lemma distinct_object_entries:
  "distinct (map fst es) \<Longrightarrow> distinct (map fst (object_entries es))"
  by (auto simp: object_entries_def distinct_map_js_sort distinct_map_filter)

section \<open>Conversion\<close>

type_synonym collation = "string \<Rightarrow> string \<Rightarrow> bool" \<comment> \<open>\<open>left.localeCompare(right) <= 0\<close>\<close>

lemma card_fresh_ancestor:
  "a \<notin> anc \<Longrightarrow> a < n \<Longrightarrow> card ({..<n} - insert a anc) < card ({..<n::nat} - anc)"
  by (rule psubset_card_mono) auto

function (sequential) visit :: "collation \<Rightarrow> js_store \<Rightarrow> nat set \<Rightarrow> js_value \<Rightarrow> string \<Rightarrow> cjson outcome"
  and visit_items :: "collation \<Rightarrow> js_store \<Rightarrow> nat set \<Rightarrow> js_value list \<Rightarrow> nat \<Rightarrow> string \<Rightarrow> cjson list outcome"
  and visit_props :: "collation \<Rightarrow> js_store \<Rightarrow> nat set \<Rightarrow> (string \<times> js_value) list \<Rightarrow> string
    \<Rightarrow> (string \<times> cjson) list \<Rightarrow> (string \<times> cjson) list outcome" where
  "visit le h anc JNull path = Inr CNull"
| "visit le h anc (JStr s) path = Inr (CStr s)"
| "visit le h anc (JBool b) path = Inr (CBool b)"
| "visit le h anc (JBigint i) path = Inr (CStr (int_text i))"
| "visit le h anc (JNumber n) path =
     (case n of JNaN \<Rightarrow> Inl (Json_Conversion_Error path ''non-finite number'')
      | JInf _ \<Rightarrow> Inl (Json_Conversion_Error path ''non-finite number'')
      | JNegZero \<Rightarrow> Inr (CNum (JInt 0))
      | _ \<Rightarrow> Inr (CNum n))"
| "visit le h anc JUndefined path = Inl (Json_Conversion_Error path ''undefined'')"
| "visit le h anc JFunction path = Inl (Json_Conversion_Error path ''function'')"
| "visit le h anc JSymbol path = Inl (Json_Conversion_Error path ''symbol'')"
| "visit le h anc (JDate d) path =
     (case d of None \<Rightarrow> Inl (Json_Conversion_Error path ''invalid Date'') | Some text \<Rightarrow> Inr (CStr text))"
| "visit le h anc (JBytes bs) path = Inr (CStr (''base64:'' @ base64 bs))"
| "visit le h anc (JRef a) path =
     (if a \<in> anc then Inl (Json_Conversion_Error path ''cycle'')
      else if a < length h then
        (case h ! a of
           OInstance name \<Rightarrow> Inl (Json_Conversion_Error path name)
         | OArray vs \<Rightarrow> (case visit_items le h (insert a anc) vs 0 path of
             Inl e \<Rightarrow> Inl e | Inr cs \<Rightarrow> Inr (CArr cs))
         | OPlain es \<Rightarrow>
             (case visit_props le h (insert a anc) (js_sort (\<lambda>x y. le (fst x) (fst y)) (object_entries es)) path [] of
               Inl e \<Rightarrow> Inl e | Inr output \<Rightarrow> Inr (CObj output)))
      else Inl (Json_Conversion_Error path ''undefined''))"
| "visit_items le h anc [] index path = Inr []"
| "visit_items le h anc (v # vs) index path =
     (case visit le h anc v (path @ ''['' @ nat_text index @ '']'') of Inl e \<Rightarrow> Inl e
      | Inr c \<Rightarrow> (case visit_items le h anc vs (Suc index) path of Inl e \<Rightarrow> Inl e | Inr cs \<Rightarrow> Inr (c # cs)))"
| "visit_props le h anc [] path output = Inr output"
| "visit_props le h anc ((k, v) # es) path output =
     (case visit le h anc v (path @ ''.'' @ k) of Inl e \<Rightarrow> Inl e
      | Inr c \<Rightarrow> visit_props le h anc es path (assign_property k c output))"
  by pat_completeness auto
termination
  by (relation "measures [\<lambda>x. case x of Inl (_, h, anc, _, _) \<Rightarrow> card ({..<length h} - anc)
        | Inr (Inl (_, h, anc, _, _, _)) \<Rightarrow> card ({..<length h} - anc)
        | Inr (Inr (_, h, anc, _, _, _)) \<Rightarrow> card ({..<length h} - anc),
      \<lambda>x. case x of Inl _ \<Rightarrow> 0 | Inr (Inl (_, _, _, vs, _, _)) \<Rightarrow> Suc (length vs)
        | Inr (Inr (_, _, _, es, _, _)) \<Rightarrow> Suc (length es)]")
    (auto simp: card_fresh_ancestor simp del: card_Diff_insert)

definition toCanonicalJsonValue :: "collation \<Rightarrow> js_store \<Rightarrow> js_value \<Rightarrow> cjson outcome" where
  "toCanonicalJsonValue le h v = visit le h {} v ''$''"

section \<open>Serialisation and digest\<close>

lemma size_entry_less: "(k, v) \<in> set es \<Longrightarrow> size v < size_list (size_prod (\<lambda>_. 0) size) es"
  by (induction es) auto

function (sequential) canonicalJson :: "collation \<Rightarrow> cjson \<Rightarrow> string" where
  "canonicalJson le CNull = ''null''"
| "canonicalJson le (CBool b) = (if b then ''true'' else ''false'')"
| "canonicalJson le (CNum n) = number_text n"
| "canonicalJson le (CStr s) = json_quote s"
| "canonicalJson le (CArr vs) = ''['' @ join_with '','' (map (canonicalJson le) vs) @ '']''"
| "canonicalJson le (CObj es) =
     ''{'' @ join_with '','' (map (\<lambda>(k, v). json_quote k @ '':'' @ canonicalJson le v)
       (js_sort (\<lambda>x y. le (fst x) (fst y)) (object_entries es))) @ ''}''"
  by pat_completeness auto
termination
  by (relation "measure (\<lambda>(_, v). size v)")
    (auto simp: less_Suc_eq_le dest!: size_entry_less intro: size_list_estimation' order_less_imp_le)

definition canonicalDigest :: "(string \<Rightarrow> string) \<Rightarrow> collation \<Rightarrow> cjson \<Rightarrow> string" where
  "canonicalDigest sha256 le v = sha256 (canonicalJson le v)"

section \<open>The serialisation determines the value\<close>

text \<open>
  Serialising sorts the properties at every level; \<open>norm_json\<close> is that reordering alone and
  \<open>render\<close> the printing alone.
\<close>

function (sequential) norm_json :: "collation \<Rightarrow> cjson \<Rightarrow> cjson" where
  "norm_json le (CArr vs) = CArr (map (norm_json le) vs)"
| "norm_json le (CObj es) =
     CObj (map (\<lambda>(k, v). (k, norm_json le v)) (js_sort (\<lambda>x y. le (fst x) (fst y)) (object_entries es)))"
| "norm_json le v = v"
  by pat_completeness auto
termination
  by (relation "measure (\<lambda>(_, v). size v)")
    (auto simp: less_Suc_eq_le dest!: size_entry_less intro: size_list_estimation' order_less_imp_le)

function (sequential) render :: "cjson \<Rightarrow> string" where
  "render CNull = ''null''"
| "render (CBool b) = (if b then ''true'' else ''false'')"
| "render (CNum n) = number_text n"
| "render (CStr s) = json_quote s"
| "render (CArr vs) = ''['' @ join_with '','' (map render vs) @ '']''"
| "render (CObj es) = ''{'' @ join_with '','' (map (\<lambda>(k, v). json_quote k @ '':'' @ render v) es) @ ''}''"
  by pat_completeness auto
termination
  by (relation "measure size")
    (auto simp: less_Suc_eq_le dest!: size_entry_less intro: size_list_estimation' order_less_imp_le)

lemma canonicalJson_render: "canonicalJson le v = render (norm_json le v)"
proof (induction le v rule: canonicalJson.induct)
  case (5 le vs)
  then show ?case by (simp add: o_def cong: map_cong)
next
  case (6 le es)
  have "map (\<lambda>(k, v). json_quote k @ '':'' @ canonicalJson le v) (js_sort (\<lambda>x y. le (fst x) (fst y)) (object_entries es))
    = map (\<lambda>(k, v). json_quote k @ '':'' @ render (norm_json le v)) (js_sort (\<lambda>x y. le (fst x) (fst y)) (object_entries es))"
    using 6 by (intro map_cong) auto
  then show ?case by (simp only: canonicalJson.simps norm_json.simps render.simps map_map o_def case_prod_unfold fst_conv snd_conv)
qed simp_all

definition is_number_char :: "char \<Rightarrow> bool" where
  "is_number_char c = (is_digit c \<or> c \<in> set ''-+.e'')"

definition is_dec_text :: "string \<Rightarrow> bool" where
  "is_dec_text s = (s \<noteq> [] \<and> (is_digit (hd s) \<or> hd s = CHR ''-'') \<and> list_all is_number_char s
     \<and> (CHR ''.'' \<in> set s \<or> CHR ''e'' \<in> set s))"

fun number_wf :: "js_number \<Rightarrow> bool" where
  "number_wf (JInt i) = True"
| "number_wf (JDec s) = is_dec_text s"
| "number_wf _ = False"

function (sequential) cj_wf :: "cjson \<Rightarrow> bool" where
  "cj_wf (CNum n) = number_wf n"
| "cj_wf (CArr vs) = (\<forall>v \<in> set vs. cj_wf v)"
| "cj_wf (CObj es) = (distinct (map fst es) \<and> (\<forall>e \<in> set es. cj_wf (snd e)))"
| "cj_wf v = True"
  by pat_completeness auto
termination
  by (relation "measure size")
    (auto simp: less_Suc_eq_le dest!: size_entry_less intro: size_list_estimation' order_less_imp_le)

subsection \<open>Numbers\<close>

definition text_value :: "string \<Rightarrow> nat" where
  "text_value s = foldl (\<lambda>n c. n * 10 + (of_char c - 48)) 0 s"

lemma of_digit_char: "d < 10 \<Longrightarrow> (of_char (digit_char d) :: nat) = 48 + d"
  by (simp add: digit_char_def)

lemma is_digit_digit_char: "d < 10 \<Longrightarrow> is_digit (digit_char d)"
  by (simp add: is_digit_def in_range_def of_digit_char)

lemma nat_text_value: "text_value (nat_text n) = n"
proof (induction n rule: nat_text.induct)
  case (1 n)
  show ?case
  proof (cases "n < 10")
    case True
    then show ?thesis by (subst nat_text.simps) (simp add: text_value_def of_digit_char)
  next
    case False
    with 1 have "text_value (nat_text (n div 10)) = n div 10" by simp
    with False show ?thesis
      by (subst nat_text.simps) (simp add: text_value_def of_digit_char)
  qed
qed

lemma nat_text_digits: "nat_text n \<noteq> [] \<and> list_all is_digit (nat_text n)"
proof (induction n rule: nat_text.induct)
  case (1 n)
  then show ?case
    by (subst nat_text.simps, subst (2) nat_text.simps) (auto simp: is_digit_digit_char)
qed

lemma nat_text_inj: "nat_text m = nat_text n \<Longrightarrow> m = n"
  by (metis nat_text_value)

lemma int_text_inj: "int_text i = int_text j \<Longrightarrow> i = j"
proof -
  have no_minus: "nat_text n \<noteq> CHR ''-'' # s" for n s
    using nat_text_digits [of n] by (auto simp: is_digit_def in_range_def)
  assume "int_text i = int_text j"
  then show ?thesis
    using no_minus no_minus [symmetric]
    by (auto simp: int_text_def dest!: nat_text_inj split: if_splits)
qed

lemma int_text_chars:
  "int_text i \<noteq> [] \<and> (is_digit (hd (int_text i)) \<or> hd (int_text i) = CHR ''-'')
   \<and> list_all is_number_char (int_text i) \<and> CHR ''.'' \<notin> set (int_text i) \<and> CHR ''e'' \<notin> set (int_text i)"
proof -
  have digits: "nat_text n \<noteq> []" "is_digit (hd (nat_text n))" "\<forall>c \<in> set (nat_text n). is_digit c" for n
    using nat_text_digits [of n] by (auto simp: list_all_iff)
  have "\<not> is_digit CHR ''.''" "\<not> is_digit CHR ''e''" by (simp_all add: char_class_defs)
  then show ?thesis
    using digits by (auto simp: int_text_def list_all_iff is_number_char_def)
qed

lemma number_text_chars:
  "number_wf n \<Longrightarrow> number_text n \<noteq> [] \<and> (is_digit (hd (number_text n)) \<or> hd (number_text n) = CHR ''-'')
   \<and> list_all is_number_char (number_text n)"
  using int_text_chars by (cases n) (auto simp: is_dec_text_def)

lemma number_text_inj:
  "number_wf m \<Longrightarrow> number_wf n \<Longrightarrow> number_text m = number_text n \<Longrightarrow> m = n"
proof -
  have dec: "is_dec_text s \<Longrightarrow> s \<noteq> int_text i" for s i
    using int_text_chars [of i] by (auto simp: is_dec_text_def)
  assume "number_wf m" "number_wf n" "number_text m = number_text n"
  then show "m = n" by (cases m; cases n) (auto dest: int_text_inj dec)
qed

definition delimited :: "string \<Rightarrow> bool" where
  "delimited r = (r = [] \<or> hd r \<in> set '',]}'')"

lemma delimited_simps [simp]: "delimited []" "delimited (c # r) \<longleftrightarrow> c \<in> set '',]}''"
  by (auto simp: delimited_def)

lemma takeWhile_number:
  assumes "list_all is_number_char s" and "delimited r"
  shows "takeWhile is_number_char (s @ r) = s"
proof -
  have "takeWhile is_number_char r = []"
    using assms(2) by (cases r) (auto simp: is_number_char_def char_class_defs)
  then show ?thesis using assms(1) by (simp add: list_all_iff takeWhile_append)
qed

lemma number_prefix:
  assumes "number_wf m" "number_wf n" "delimited r" "delimited s"
    and "number_text m @ r = number_text n @ s"
  shows "m = n \<and> r = s"
proof -
  have "number_text m = number_text n"
    using assms number_text_chars takeWhile_number by metis
  with assms number_text_inj show ?thesis by auto
qed

subsection \<open>Strings\<close>

lemma hex_char_inj: "a < 16 \<Longrightarrow> b < 16 \<Longrightarrow> hex_char a = hex_char b \<Longrightarrow> a = b"
proof -
  assume ab: "a < 16" "b < 16" and eq: "hex_char a = hex_char b"
  have val: "(of_char (hex_char d) :: nat) = (if d < 10 then 48 + d else 87 + d)" if "d < 16" for d
    using that by (simp add: hex_char_def)
  from eq have "(of_char (hex_char a) :: nat) = of_char (hex_char b)" by simp
  with ab show "a = b" by (simp add: val split: if_splits)
qed

lemma json_escape_prefix:
  assumes "json_escape c @ r = json_escape d @ s"
  shows "c = d \<and> r = s"
proof -
  have split16: "c = d" if "(of_char c :: nat) div 16 = of_char d div 16" "(of_char c :: nat) mod 16 = of_char d mod 16"
    using that by (metis div_mult_mod_eq of_char_eq_iff)
  have lt16: "(of_char c :: nat) < 32 \<Longrightarrow> of_char c div 16 < (16::nat)" for c :: char by simp
  show ?thesis
    using assms split16 unfolding json_escape_def
    by (auto split: if_splits dest!: hex_char_inj [rotated 2])
qed

lemma json_escape_hd: "json_escape c \<noteq> [] \<and> hd (json_escape c) \<noteq> CHR 0x22"
  by (auto simp: json_escape_def)

lemma json_quote_prefix:
  assumes "json_quote k @ r = json_quote l @ s"
  shows "k = l \<and> r = s"
proof -
  have "concat (map json_escape k) @ CHR 0x22 # r = concat (map json_escape l) @ CHR 0x22 # s
    \<Longrightarrow> k = l \<and> r = s"
  proof (induction k arbitrary: l)
    case Nil
    then show ?case
      using json_escape_hd by (cases l) (auto simp: Cons_eq_append_conv, metis list.sel(1))
  next
    case (Cons c k)
    then obtain d l' where l: "l = d # l'"
      using json_escape_hd [of c] by (cases l) (auto simp: append_eq_Cons_conv)
    with Cons.prems have "c = d \<and> concat (map json_escape k) @ CHR 0x22 # r = concat (map json_escape l') @ CHR 0x22 # s"
      using json_escape_prefix by auto
    with Cons.IH l show ?case by auto
  qed
  with assms show ?thesis by (simp add: json_quote_def)
qed

subsection \<open>Sequences\<close>

lemma join_with_Cons: "join_with sep (x # xs) = x @ concat (map (\<lambda>y. sep @ y) xs)"
  by (induction xs arbitrary: x) auto

lemma tails_prefix:
  assumes "\<And>v w r s. v \<in> set vs \<Longrightarrow> w \<in> set ws \<Longrightarrow> f v @ r = f w @ s \<Longrightarrow> delimited r \<Longrightarrow> delimited s \<Longrightarrow> v = w \<and> r = s"
    and "concat (map (\<lambda>y. '','' @ f y) vs) @ c # r = concat (map (\<lambda>y. '','' @ f y) ws) @ c # s"
    and "c \<noteq> CHR '',''" and "delimited [c]"
  shows "vs = ws \<and> r = s"
  using assms(1,2)
proof (induction vs arbitrary: ws)
  case Nil
  then show ?case using assms(3) by (cases ws) auto
next
  case (Cons v vs)
  then obtain w ws' where ws: "ws = w # ws'"
    using assms(3) by (cases ws) auto
  let ?tail = "\<lambda>xs r. concat (map (\<lambda>y. '','' @ f y) xs) @ c # r"
  have delim: "delimited (?tail xs r)" for xs r
    using assms(4) by (cases xs) auto
  have "f v @ ?tail vs r = f w @ ?tail ws' s" using Cons.prems(2) ws by simp
  with Cons.prems(1) [of v w] ws delim have "v = w" "?tail vs r = ?tail ws' s" by auto
  with Cons.IH [of ws'] Cons.prems(1) ws show ?case by auto
qed

lemma join_prefix:
  assumes elems: "\<And>v w r s. v \<in> set vs \<Longrightarrow> w \<in> set ws \<Longrightarrow> f v @ r = f w @ s \<Longrightarrow> delimited r \<Longrightarrow> delimited s \<Longrightarrow> v = w \<and> r = s"
    and eq: "join_with '','' (map f vs) @ c # r = join_with '','' (map f ws) @ c # s"
    and c: "c \<noteq> CHR '',''" "delimited [c]"
    and hd: "\<And>v. v \<in> set vs \<union> set ws \<Longrightarrow> f v \<noteq> [] \<and> hd (f v) \<noteq> c"
  shows "vs = ws \<and> r = s"
proof (cases vs)
  case Nil
  then show ?thesis
    using eq hd by (cases ws) (auto simp: join_with_Cons Cons_eq_append_conv, metis list.sel(1))
next
  case (Cons v vs')
  then obtain w ws' where ws: "ws = w # ws'"
    using eq hd [of v] by (cases ws) (auto simp: join_with_Cons append_eq_Cons_conv)
  let ?tail = "\<lambda>xs r. concat (map (\<lambda>y. '','' @ f y) xs) @ c # r"
  have delim: "delimited (?tail xs r)" for xs r
    using c(2) by (cases xs) auto
  have "f v @ ?tail vs' r = f w @ ?tail ws' s" using eq Cons ws by (simp add: join_with_Cons o_def)
  then have "v = w" "?tail vs' r = ?tail ws' s" using elems [of v w] Cons ws delim by auto
  moreover have "vs' = ws' \<and> r = s"
    by (rule tails_prefix [OF _ \<open>?tail vs' r = ?tail ws' s\<close> c]) (use elems Cons ws in auto)
  ultimately show ?thesis using Cons ws by simp
qed

subsection \<open>Values\<close>

lemma render_hd:
  "cj_wf v \<Longrightarrow> render v \<noteq> [] \<and> hd (render v) \<notin> set '',]}''"
proof (cases v)
  case (CNum n)
  assume "cj_wf v"
  with CNum number_text_chars [of n] show ?thesis by (auto simp: char_class_defs)
qed (auto simp: json_quote_def)

fun head_class :: "cjson \<Rightarrow> nat" where
  "head_class CNull = 0"
| "head_class (CBool b) = (if b then 1 else 2)"
| "head_class (CNum n) = 3"
| "head_class (CStr s) = 4"
| "head_class (CArr vs) = 5"
| "head_class (CObj es) = 6"

definition char_class :: "char \<Rightarrow> nat" where
  "char_class c = (if c = CHR ''n'' then 0 else if c = CHR ''t'' then 1 else if c = CHR ''f'' then 2
     else if c = CHR 0x22 then 4 else if c = CHR ''['' then 5 else if c = CHR ''{'' then 6 else 3)"

lemma head_class_char:
  assumes "cj_wf v"
  shows "head_class v = char_class (hd (render v @ r))"
proof (cases v)
  case (CNum n)
  with assms number_text_chars [of n]
  have "number_text n \<noteq> []" "is_digit (hd (number_text n)) \<or> hd (number_text n) = CHR ''-''" by auto
  then have "char_class (hd (number_text n)) = 3" by (auto simp: char_class_def char_class_defs)
  with CNum \<open>number_text n \<noteq> []\<close> show ?thesis by simp
qed (auto simp: char_class_def json_quote_def)

lemma render_head_class:
  assumes "cj_wf v" "cj_wf w" "render v @ r = render w @ s"
  shows "head_class v = head_class w"
  using head_class_char [OF assms(1), of r] head_class_char [OF assms(2), of s] assms(3) by simp

lemma render_prefix:
  "cj_wf v \<Longrightarrow> cj_wf w \<Longrightarrow> render v @ r = render w @ s \<Longrightarrow> delimited r \<Longrightarrow> delimited s \<Longrightarrow> v = w \<and> r = s"
proof (induction v arbitrary: w r s rule: render.induct)
  case 1
  then show ?case using render_head_class [OF "1.prems"(1,2,3)] by (cases w) (auto split: if_splits)
next
  case (2 b)
  then show ?case using render_head_class [OF "2.prems"(1,2,3)] by (cases w) (auto split: if_splits)
next
  case (3 n)
  then obtain m where w: "w = CNum m"
    using render_head_class [OF "3.prems"(1,2,3)] by (cases w) (simp_all split: if_splits)
  with "3.prems" have "n = m \<and> r = s" by (intro number_prefix) simp_all
  with w show ?case by simp
next
  case (4 k)
  then obtain l where w: "w = CStr l"
    using render_head_class [OF "4.prems"(1,2,3)] by (cases w) (simp_all split: if_splits)
  with "4.prems" have "k = l \<and> r = s" by (intro json_quote_prefix) simp_all
  with w show ?case by simp
next
  case (5 vs)
  then obtain ws where w: "w = CArr ws"
    using render_head_class [OF "5.prems"(1,2,3)] by (cases w) (auto split: if_splits)
  have "vs = ws \<and> r = s"
  proof (rule join_prefix [where f = render and c = "CHR '']''"])
    show "v = w \<and> r = s" if "v \<in> set vs" "w \<in> set ws" "render v @ r = render w @ s" "delimited r" "delimited s" for v w r s
      using that "5.prems" w by (intro "5.IH") auto
  qed (use "5.prems" w render_hd in auto)
  with w show ?case by simp
next
  case (6 es)
  then obtain fs where w: "w = CObj fs"
    using render_head_class [OF "6.prems"(1,2,3)] by (cases w) (auto split: if_splits)
  let ?f = "\<lambda>(k, v). json_quote k @ '':'' @ render v"
  have "es = fs \<and> r = s"
  proof (rule join_prefix [where f = ?f and c = "CHR ''}''"])
    show "e = e' \<and> r = s" if e: "e \<in> set es" "e' \<in> set fs" "?f e @ r = ?f e' @ s" "delimited r" "delimited s" for e e' r s
    proof -
      obtain k v where kv: "e = (k, v)" by (cases e)
      obtain k' v' where kv': "e' = (k', v')" by (cases e')
      have "json_quote k @ '':'' @ render v @ r = json_quote k' @ '':'' @ render v' @ s"
        using e(3) kv kv' by simp
      from json_quote_prefix [OF this] have k: "k = k'" and eq: "render v @ r = render v' @ s" by simp_all
      have "cj_wf v" "cj_wf v'" using "6.prems"(1,2) w e(1,2) kv kv' by (auto dest: bspec)
      with "6.IH" [OF e(1) kv [symmetric] _ _ eq e(4,5)] k kv kv' show ?thesis by simp
    qed
  qed (use "6.prems" w in \<open>auto simp: json_quote_def\<close>)
  with w show ?case by simp
qed

lemma cj_wf_norm: "cj_wf v \<Longrightarrow> cj_wf (norm_json le v)"
proof (induction le v rule: norm_json.induct)
  case (2 le es)
  let ?es = "js_sort (\<lambda>x y. le (fst x) (fst y)) (object_entries es)"
  have "map fst (map (\<lambda>(k, v). (k, norm_json le v)) ?es) = map fst ?es" by (rule map_fst_map_snd)
  moreover have "distinct (map fst ?es)"
    using 2 by (intro distinct_map_js_sort distinct_object_entries) simp
  ultimately have "distinct (map fst (map (\<lambda>(k, v). (k, norm_json le v)) ?es))" by (simp only:)
  with 2 show ?case by (auto simp del: map_map dest: bspec)
qed auto

lemma render_inj: "cj_wf v \<Longrightarrow> cj_wf w \<Longrightarrow> render v = render w \<Longrightarrow> v = w"
  using render_prefix [of v w "[]" "[]"] by simp

lemma canonicalJson_eq_norm:
  "cj_wf v \<Longrightarrow> cj_wf w \<Longrightarrow> canonicalJson le v = canonicalJson le w \<Longrightarrow> norm_json le v = norm_json le w"
  by (simp add: canonicalJson_render render_inj cj_wf_norm)

section \<open>The conversion yields well-formed values\<close>

fun value_wf :: "js_value \<Rightarrow> bool" where
  "value_wf (JNumber (JDec s)) = is_dec_text s"
| "value_wf _ = True"

fun object_wf :: "js_object \<Rightarrow> bool" where
  "object_wf (OArray vs) = (\<forall>v \<in> set vs. value_wf v)"
| "object_wf (OPlain es) = (\<forall>e \<in> set es. value_wf (snd e))"
| "object_wf (OInstance _) = True"

lemma cj_wf_assign:
  assumes "cj_wf (CObj acc)" "cj_wf c"
  shows "cj_wf (CObj (assign_property k c acc))"
proof -
  have "\<forall>e \<in> set (jm_set k c acc). cj_wf (snd e)"
    using set_jm_set_subset [of k c acc] assms by auto
  with assms jm_wf_set [of acc k c] show ?thesis
    by (auto simp: assign_property_def jm_wf_def)
qed

lemma object_wf_nth: "\<forall>obj \<in> set h. object_wf obj \<Longrightarrow> a < length h \<Longrightarrow> object_wf (h ! a)"
  by simp

lemma visit_wf:
  "\<forall>obj \<in> set h. object_wf obj \<Longrightarrow> value_wf v \<Longrightarrow> visit le h anc v path = Inr c \<Longrightarrow> cj_wf c"
  "\<forall>obj \<in> set h. object_wf obj \<Longrightarrow> \<forall>v \<in> set vs. value_wf v \<Longrightarrow> visit_items le h anc vs index path = Inr cs
    \<Longrightarrow> \<forall>c \<in> set cs. cj_wf c"
  "\<forall>obj \<in> set h. object_wf obj \<Longrightarrow> \<forall>e \<in> set es. value_wf (snd e) \<Longrightarrow> cj_wf (CObj acc)
    \<Longrightarrow> visit_props le h anc es path acc = Inr fs \<Longrightarrow> cj_wf (CObj fs)"
proof (induction le h anc v path and le h anc vs index path and le h anc es path acc
    arbitrary: c and cs and fs rule: visit_visit_items_visit_props.induct)
  case (5 le h anc n path)
  then show ?case by (cases n) auto
next
  case (9 le h anc d path)
  then show ?case by (cases d) auto
next
  case (11 le h anc a path)
  then have a: "a \<notin> anc" "a < length h" by (auto split: if_splits)
  then have wf: "object_wf (h ! a)" using "11.prems"(1) by simp
  show ?case
  proof (cases "h ! a")
    case (OArray vs)
    then show ?thesis using 11 a wf by (auto split: sum.splits)
  next
    case (OPlain es)
    with 11 a obtain fs where "c = CObj fs"
      "visit_props le h (insert a anc) (js_sort (\<lambda>x y. le (fst x) (fst y)) (object_entries es)) path [] = Inr fs"
      by (auto split: sum.splits)
    with "11.IH"(2) [OF a OPlain "11.prems"(1)] wf OPlain show ?thesis by simp
  qed (use 11 a in simp)
next
  case (15 le h anc k v es path acc)
  from "15.prems"(4) obtain c where c: "visit le h anc v (path @ ''.'' @ k) = Inr c"
      "visit_props le h anc es path (assign_property k c acc) = Inr fs"
    by (auto split: sum.splits)
  have "cj_wf c" using "15.IH"(1) [OF "15.prems"(1) _ c(1)] "15.prems"(2) by simp
  then show ?case
    using "15.IH"(2) [OF c(1) "15.prems"(1) _ cj_wf_assign [OF "15.prems"(3)] c(2)] "15.prems"(2) by simp
qed (auto split: sum.splits)

section \<open>Cycles are rejected\<close>

fun object_values :: "js_object \<Rightarrow> js_value set" where
  "object_values (OArray vs) = set vs"
| "object_values (OPlain es) = snd ` set es"
| "object_values (OInstance _) = {}"

definition edges :: "js_store \<Rightarrow> (nat \<times> nat) set" where
  "edges h = {(a, b). a < length h \<and> JRef b \<in> object_values (h ! a)}"

lemma visit_items_all:
  "visit_items le h anc vs index path = Inr cs \<Longrightarrow> v \<in> set vs \<Longrightarrow> \<exists>p c. visit le h anc v p = Inr c"
proof (induction vs arbitrary: index cs)
  case (Cons w ws)
  then show ?case by (auto split: sum.splits)
qed simp

lemma visit_props_all:
  "visit_props le h anc es path acc = Inr fs \<Longrightarrow> (k, v) \<in> set es \<Longrightarrow> \<exists>p c. visit le h anc v p = Inr c"
proof (induction es arbitrary: acc)
  case (Cons e es)
  then show ?case by (cases e) (auto split: sum.splits)
qed simp

lemma visit_ref_children:
  assumes "visit le h anc (JRef a) path = Inr c"
  shows "a \<notin> anc" and "(a, b) \<in> edges h \<Longrightarrow> \<exists>p c. visit le h (insert a anc) (JRef b) p = Inr c"
proof -
  show "a \<notin> anc" using assms by (auto split: if_splits)
  assume ab: "(a, b) \<in> edges h"
  show "\<exists>p c. visit le h (insert a anc) (JRef b) p = Inr c"
  proof (cases "h ! a")
    case (OArray vs)
    with assms ab obtain cs where "visit_items le h (insert a anc) vs 0 path = Inr cs" "JRef b \<in> set vs"
      by (auto simp: edges_def simp del: visit_items.simps split: if_splits sum.splits)
    then show ?thesis by (rule visit_items_all)
  next
    case (OPlain es)
    with assms ab obtain k fs where
      "visit_props le h (insert a anc) (js_sort (\<lambda>x y. le (fst x) (fst y)) (object_entries es)) path [] = Inr fs"
      "(k, JRef b) \<in> set (js_sort (\<lambda>x y. le (fst x) (fst y)) (object_entries es))"
      by (auto simp: edges_def simp del: visit_props.simps split: if_splits sum.splits)
    then show ?thesis by (rule visit_props_all)
  qed (use ab in \<open>simp add: edges_def\<close>)
qed

lemma visit_path:
  assumes "(a, b) \<in> (edges h)\<^sup>*" and "visit le h anc (JRef a) path = Inr c"
  shows "\<exists>anc' p c'. anc \<subseteq> anc' \<and> visit le h anc' (JRef b) p = Inr c'"
  using assms
proof (induction arbitrary: anc path c rule: converse_rtrancl_induct)
  case base
  then show ?case by blast
next
  case (step a a')
  from visit_ref_children(2) [OF step.prems step.hyps(1)] obtain p c where
    "visit le h (insert a anc) (JRef a') p = Inr c" by blast
  from step.IH [OF this] show ?case by blast
qed

lemma visit_acyclic:
  assumes "visit le h anc (JRef a) path = Inr c" and "(a, b) \<in> (edges h)\<^sup>*"
  shows "(b, b) \<notin> (edges h)\<^sup>+"
proof
  assume "(b, b) \<in> (edges h)\<^sup>+"
  then obtain d where d: "(b, d) \<in> edges h" "(d, b) \<in> (edges h)\<^sup>*" by (meson tranclD)
  from visit_path [OF assms(2,1)] obtain anc' p c' where b: "visit le h anc' (JRef b) p = Inr c'" by blast
  from visit_ref_children(2) [OF b d(1)] obtain p c where "visit le h (insert b anc') (JRef d) p = Inr c" by blast
  from visit_path [OF d(2) this] obtain anc'' p c where
    "insert b anc' \<subseteq> anc''" "visit le h anc'' (JRef b) p = Inr c" by blast
  with visit_ref_children(1) show False by blast
qed

section \<open>Equality up to the order of properties\<close>

function (sequential) same_json :: "cjson \<Rightarrow> cjson \<Rightarrow> bool" where
  "same_json (CArr vs) (CArr ws) = list_all2 same_json vs ws"
| "same_json (CObj es) (CObj fs) = (fst ` set es = fst ` set fs
     \<and> (\<forall>e \<in> set es. \<forall>f \<in> set fs. fst e = fst f \<longrightarrow> same_json (snd e) (snd f)))"
| "same_json v w = (v = w)"
  by pat_completeness auto
termination
  by (relation "measure (\<lambda>(v, _). size v)")
    (auto simp: less_Suc_eq_le dest!: size_entry_less intro: size_list_estimation' order_less_imp_le)

function (sequential) json_keys :: "cjson \<Rightarrow> string set" where
  "json_keys (CArr vs) = \<Union> (json_keys ` set vs)"
| "json_keys (CObj es) = fst ` set es \<union> \<Union> ((\<lambda>e. json_keys (snd e)) ` set es)"
| "json_keys v = {}"
  by pat_completeness auto
termination
  by (relation "measure size")
    (auto simp: less_Suc_eq_le dest!: size_entry_less intro: size_list_estimation' order_less_imp_le)

definition separates :: "collation \<Rightarrow> string set \<Rightarrow> bool" where
  "separates le K = (\<forall>k \<in> K. \<forall>l \<in> K. le k l \<longrightarrow> le l k \<longrightarrow> k = l)"

lemma separates_mono: "separates le K \<Longrightarrow> L \<subseteq> K \<Longrightarrow> separates le L"
  by (auto simp: separates_def)

definition norm_entries :: "collation \<Rightarrow> (string \<times> cjson) list \<Rightarrow> (string \<times> cjson) list" where
  "norm_entries le es = map (\<lambda>(k, v). (k, norm_json le v)) (js_sort (\<lambda>x y. le (fst x) (fst y)) (object_entries es))"

lemma norm_json_CObj: "norm_json le (CObj es) = CObj (norm_entries le es)"
  by (simp add: norm_entries_def)

lemma set_norm_entries: "set (norm_entries le es) = (\<lambda>e. (fst e, norm_json le (snd e))) ` set es"
  by (simp add: norm_entries_def case_prod_unfold)

lemma fst_norm_entries: "fst ` set (norm_entries le es) = fst ` set es"
  by (simp add: set_norm_entries image_image)

lemma sorted_norm_entries:
  assumes "total_preorder le"
  shows "sorted_wrt (\<lambda>x y. le (fst x) (fst y)) (norm_entries le es)"
proof -
  have "total_preorder (\<lambda>x y :: string \<times> cjson. le (fst x) (fst y))"
    using assms unfolding total_preorder_def by blast
  then have "sorted_wrt (\<lambda>x y. le (fst x) (fst y)) (js_sort (\<lambda>x y. le (fst x) (fst y)) (object_entries es))"
    by (rule sorted_js_sort)
  then show ?thesis by (simp add: norm_entries_def sorted_wrt_map case_prod_unfold)
qed

lemma distinct_norm_entries:
  assumes "distinct (map fst es)"
  shows "distinct (map fst (norm_entries le es))"
  unfolding norm_entries_def map_fst_map_snd
  by (intro distinct_map_js_sort distinct_object_entries assms)

lemma norm_entries_cong:
  assumes "total_preorder le" "separates le (fst ` set es)"
    and "distinct (map fst es)" "distinct (map fst fs)"
    and "set (norm_entries le es) = set (norm_entries le fs)"
  shows "norm_entries le es = norm_entries le fs"
proof (rule sorted_wrt_set_unique [OF sorted_norm_entries [OF assms(1)] sorted_norm_entries [OF assms(1)] assms(5)])
  show "distinct (norm_entries le es)" "distinct (norm_entries le fs)"
    using distinct_norm_entries [OF assms(3)] distinct_norm_entries [OF assms(4)] distinct_map by blast+
  fix x y
  assume "x \<in> set (norm_entries le es)" "y \<in> set (norm_entries le es)"
    and "le (fst x) (fst y)" "le (fst y) (fst x)"
  moreover from this have "fst x = fst y"
    using assms(2) imageI [of x _ fst] imageI [of y _ fst] fst_norm_entries [of le es] unfolding separates_def by metis
  ultimately show "x = y"
    using distinct_norm_entries [OF assms(3), of le] eq_key_imp_eq_value
    by (metis prod.collapse)
qed

lemma list_all2_map_eq:
  assumes "list_all2 R xs ys" and "\<And>x y. x \<in> set xs \<Longrightarrow> y \<in> set ys \<Longrightarrow> R x y \<Longrightarrow> f x = f y"
  shows "map f xs = map f ys"
  using assms by (induction xs ys rule: list_all2_induct) auto

lemma same_json_norm:
  assumes "total_preorder le"
  shows "cj_wf v \<Longrightarrow> cj_wf w \<Longrightarrow> separates le (json_keys v) \<Longrightarrow> same_json v w
    \<Longrightarrow> norm_json le v = norm_json le w"
proof (induction v w rule: same_json.induct)
  case (1 vs ws)
  have "map (norm_json le) vs = map (norm_json le) ws"
    using 1 by (intro list_all2_map_eq [of same_json]) (auto intro: separates_mono)
  then show ?case by simp
next
  case (2 es fs)
  have sep: "separates le (fst ` set es)" "e \<in> set es \<Longrightarrow> separates le (json_keys (snd e))" for e
    by (rule separates_mono [OF "2.prems"(3)], auto)+
  have eq: "norm_json le (snd e) = norm_json le (snd f)" if "e \<in> set es" "f \<in> set fs" "fst e = fst f" for e f
    using "2.IH" [OF that(1,2)] sep(2) [OF that(1)] "2.prems" that by simp
  have "set (norm_entries le es) = set (norm_entries le fs)"
  proof (intro equalityI subsetI)
    fix x assume "x \<in> set (norm_entries le es)"
    then obtain e where e: "e \<in> set es" "x = (fst e, norm_json le (snd e))" by (auto simp: set_norm_entries)
    moreover obtain f where "f \<in> set fs" "fst e = fst f" using e "2.prems"(4) by (force simp: image_iff)
    ultimately show "x \<in> set (norm_entries le fs)" using eq by (auto simp: set_norm_entries image_iff)
  next
    fix x assume "x \<in> set (norm_entries le fs)"
    then obtain f where f: "f \<in> set fs" "x = (fst f, norm_json le (snd f))" by (auto simp: set_norm_entries)
    obtain e where e: "e \<in> set es" "fst e = fst f"
    proof -
      have "fst f \<in> fst ` set es" using f "2.prems"(4) by simp
      then show ?thesis using that by auto
    qed
    have "x = (fst e, norm_json le (snd e))" using eq [OF e(1) f(1) e(2)] e f by simp
    then show "x \<in> set (norm_entries le es)" using e(1) by (simp add: set_norm_entries)
  qed
  then show ?case
    unfolding norm_json_CObj using norm_entries_cong [OF assms sep(1)] "2.prems"(1,2) by simp
qed auto

lemma norm_json_leaf:
  "norm_json le v = CNull \<longleftrightarrow> v = CNull" "norm_json le v = CBool b \<longleftrightarrow> v = CBool b"
  "norm_json le v = CNum n \<longleftrightarrow> v = CNum n" "norm_json le v = CStr s \<longleftrightarrow> v = CStr s"
  by (cases v; simp)+

lemma norm_json_eq_same: "cj_wf v \<Longrightarrow> cj_wf w \<Longrightarrow> norm_json le v = norm_json le w \<Longrightarrow> same_json v w"
proof (induction v w rule: same_json.induct)
  case (1 vs ws)
  then show ?case by (auto simp: list_all2_conv_all_nth list_eq_iff_nth_eq)
next
  case (2 es fs)
  then have eq: "norm_entries le es = norm_entries le fs" unfolding norm_json_CObj by simp
  have "same_json (snd e) (snd f)" if "e \<in> set es" "f \<in> set fs" "fst e = fst f" for e f
  proof -
    have "(fst e, norm_json le (snd e)) \<in> set (norm_entries le es)" using that(1) by (simp add: set_norm_entries)
    moreover have "(fst e, norm_json le (snd f)) \<in> set (norm_entries le fs)" using that(2,3) by (simp add: set_norm_entries)
    moreover note eq
    ultimately have "norm_json le (snd e) = norm_json le (snd f)"
      using distinct_norm_entries [of fs le] "2.prems"(2) by (auto dest: eq_key_imp_eq_value)
    with that 2 show ?thesis by auto
  qed
  then show ?case using eq fst_norm_entries [of le] by (metis same_json.simps(2))
qed (auto simp: norm_json_leaf norm_json_leaf [THEN eq_iff_swap])

section \<open>Properties\<close>

text \<open>The order of the code units, a collation that separates all keys.\<close>

fun code_unit_le :: "collation" where
  "code_unit_le [] t = True"
| "code_unit_le (c # s) [] = False"
| "code_unit_le (c # s) (d # t) = (if c = d then code_unit_le s t else (of_char c :: nat) < of_char d)"

lemma code_unit_le_total: "code_unit_le s t \<or> code_unit_le t s"
proof (induction s t rule: code_unit_le.induct)
  case (3 c s d t)
  have "c \<noteq> d \<Longrightarrow> (of_char c :: nat) < of_char d \<or> (of_char d :: nat) < of_char c"
    by (metis linorder_neqE_nat of_char_eq_iff)
  with 3 show ?case by auto
qed auto

lemma code_unit_le_trans: "code_unit_le s t \<Longrightarrow> code_unit_le t u \<Longrightarrow> code_unit_le s u"
proof (induction s t arbitrary: u rule: code_unit_le.induct)
  case (3 c s d t)
  then show ?case by (cases u) (auto split: if_splits)
qed auto

lemma code_unit_le_antisym: "code_unit_le s t \<Longrightarrow> code_unit_le t s \<Longrightarrow> s = t"
  by (induction s t rule: code_unit_le.induct) (auto split: if_splits elim: code_unit_le.elims)

lemma code_unit_le_collation: "total_preorder code_unit_le" "separates code_unit_le K"
  unfolding total_preorder_def separates_def
  using code_unit_le_total code_unit_le_trans code_unit_le_antisym by blast+

lemma canonicalJson_collation_ties:
  assumes "k \<noteq> l" "le k l" "le l k" "\<not> is_array_index k" "\<not> is_array_index l"
  shows "canonicalJson le (CObj [(k, CNull), (l, CNull)]) \<noteq> canonicalJson le (CObj [(l, CNull), (k, CNull)])"
proof
  assume "canonicalJson le (CObj [(k, CNull), (l, CNull)]) = canonicalJson le (CObj [(l, CNull), (k, CNull)])"
  from canonicalJson_eq_norm [OF _ _ this] assms(1)
  have "norm_json le (CObj [(k, CNull), (l, CNull)]) = norm_json le (CObj [(l, CNull), (k, CNull)])" by simp
  with assms show False by (simp add: object_entries_def js_sort_def)
qed

text \<open>
  C13. Two canonical JSON values have the same serialisation, hence the same digest input, exactly
  when they are equal up to the order in which their properties were inserted, at every level:
  the serialisation neither depends on that order nor conflates distinct values. The collation is
  a total preorder that separates the keys of the value.
\<close>

theorem canonicalJson_eq_iff:
  assumes "total_preorder le" and "separates le (json_keys v)" and "cj_wf v" and "cj_wf w"
  shows "canonicalJson le v = canonicalJson le w \<longleftrightarrow> same_json v w"
  using same_json_norm [OF assms(1,3,4,2)] norm_json_eq_same [OF assms(3,4)]
    canonicalJson_eq_norm [OF assms(3,4)] by (auto simp: canonicalJson_render)

theorem canonicalJson_eq_iff_witness:
  "canonicalJson code_unit_le (CObj [(''b'', CArr [CNum (JInt 1)]), (''a'', CNull)])
     = canonicalJson code_unit_le (CObj [(''a'', CNull), (''b'', CArr [CNum (JInt 1)])])
   \<longleftrightarrow> same_json (CObj [(''b'', CArr [CNum (JInt 1)]), (''a'', CNull)])
         (CObj [(''a'', CNull), (''b'', CArr [CNum (JInt 1)])])"
  by (rule canonicalJson_eq_iff) (simp_all add: code_unit_le_collation)

text \<open>C40. 
  Whatever runtime value is converted, a successful conversion yields a well-formed JSON value:
  finite numbers only and no repeated property name in any object.
\<close>

theorem toCanonicalJsonValue_wf:
  assumes "\<forall>obj \<in> set h. object_wf obj" and "value_wf v" and "toCanonicalJsonValue le h v = Inr c"
  shows "cj_wf c"
  using visit_wf(1) [OF assms(1,2)] assms(3) by (simp add: toCanonicalJsonValue_def)

theorem toCanonicalJsonValue_wf_witness:
  "toCanonicalJsonValue code_unit_le [OPlain [(''n'', JNumber JNegZero), (''b'', JBytes [1, 2])]] (JRef 0)
     = Inr (CObj [(''b'', CStr ''base64:AQI=''), (''n'', CNum (JInt 0))])
   \<and> cj_wf (CObj [(''b'', CStr ''base64:AQI=''), (''n'', CNum (JInt 0))])"
proof -
  have run: "toCanonicalJsonValue code_unit_le [OPlain [(''n'', JNumber JNegZero), (''b'', JBytes [1, 2])]] (JRef 0)
     = Inr (CObj [(''b'', CStr ''base64:AQI=''), (''n'', CNum (JInt 0))])"
    by code_simp
  show ?thesis using run toCanonicalJsonValue_wf [OF _ _ run] by simp
qed

text \<open>
  Conversion succeeds only on an acyclic structure: no object reachable from a converted one
  lies on a cycle of references. Shared, acyclic references are allowed.
\<close>

theorem toCanonicalJsonValue_acyclic:
  assumes "toCanonicalJsonValue le h (JRef a) = Inr c" and "(a, b) \<in> (edges h)\<^sup>*"
  shows "(b, b) \<notin> (edges h)\<^sup>+"
  by (rule visit_acyclic [OF assms(1) [unfolded toCanonicalJsonValue_def] assms(2)])

theorem toCanonicalJsonValue_acyclic_witness:
  "(1, 1) \<notin> (edges [OArray [JRef 1, JRef 1], OPlain [(''k'', JNull)]])\<^sup>+"
proof (rule toCanonicalJsonValue_acyclic)
  show "toCanonicalJsonValue code_unit_le [OArray [JRef 1, JRef 1], OPlain [(''k'', JNull)]] (JRef 0)
      = Inr (CArr [CObj [(''k'', CNull)], CObj [(''k'', CNull)]])"
    by code_simp
  have "(0, 1) \<in> edges [OArray [JRef 1, JRef 1], OPlain [(''k'', JNull)]]" by (simp add: edges_def)
  then show "(0, 1) \<in> (edges [OArray [JRef 1, JRef 1], OPlain [(''k'', JNull)]])\<^sup>*" by blast
qed

text \<open>
  An own property named \<^verbatim>\<open>__proto__\<close> (as \<^verbatim>\<open>JSON.parse\<close> creates it) is dropped: the object that
  carries it and the object without it convert to the same value, so they have the same digest.
\<close>

theorem proto_property_dropped:
  "toCanonicalJsonValue le [OPlain [(''__proto__'', JStr s)]] (JRef 0) = toCanonicalJsonValue le [OPlain []] (JRef 0)"
  by (simp add: toCanonicalJsonValue_def object_entries_def js_sort_def assign_property_def is_array_index_def)

end
