(* ===== verification/ErrorRegistry.thy ===== *)
theory ErrorRegistry
  imports CanonicalJson
begin

text \<open>
  The error and retry registry (\<^verbatim>\<open>packages/schemas/src/error-retry-registry.ts\<close>) and the projection
  of every thrown value onto it (\<^verbatim>\<open>packages/domain/src/errors.ts\<close>). The directives are the strings
  of the registry file, checked at run time, so that validation has something to establish. The
  parsed registry file and SHA-256 are parameters.
\<close>

section \<open>Records\<close>

definition stableRetryDirectives :: "string list" where
  "stableRetryDirectives = [''DO_NOT_RETRY'', ''RETRY_SAME_OPERATION'', ''REFRESH_AND_RETRY_NEW_COMMAND'',
     ''RECONCILE_THEN_RETRY'', ''MANUAL_REVIEW'']"

record decision_rule =
  rule_id :: string
  rule_predicate :: string
  rule_outcome :: string
  rule_directive :: string

record decision_table =
  table_id :: string
  table_ordering :: string
  table_rules :: "decision_rule list"
  table_default :: decision_rule \<comment> \<open>\<open>defaultRule\<close>, which has no \<open>ruleId\<close>\<close>
  table_total :: bool
  table_exclusive :: bool

record stable_error_record =
  er_index :: "(string \<times> cjson) list" \<comment> \<open>the remaining properties, which the index signature admits\<close>
  er_recordId :: string
  er_recordKind :: string
  er_schemaVersion :: string
  er_authoritySourceRefs :: "string list"
  er_sourceRelations :: "cjson list"
  er_requirementIds :: "string list"
  er_canonicalName :: string
  er_canonicalDigest :: string
  er_lifecycle :: string
  er_supersedes :: "string list"
  er_supersededBy :: "string list"
  er_table :: "decision_table option" \<comment> \<open>\<open>extensions.recoveryDecisionTable\<close>\<close>
  er_extensions :: "(string \<times> cjson) list" \<comment> \<open>the other extensions\<close>
  er_errorCodeId :: string
  er_code :: string
  er_namespace :: string
  er_classification :: string
  er_canonicalMeaning :: string
  er_sideEffectPoint :: string
  er_terminalityRule :: string
  er_recoveryRuleKind :: string
  er_fixedRetryDirective :: "string option"
  er_recoveryDecisionTableId :: "string option"
  er_sameLogicalOperationRequired :: bool
  er_refreshRequired :: bool
  er_reconciliationRequired :: bool
  er_manualReviewRequired :: bool
  er_requiredSnapshotFields :: "string list"
  er_affectedObjectKinds :: "string list"
  er_httpMappings :: "int list"
  er_kcipMappings :: "cjson list"
  er_mcpMappings :: "cjson list"
  er_uiMessageKey :: string
  er_canonicalOwnerActions :: "string list"
  er_auditEvidenceKinds :: "string list"
  er_testCaseIds :: "string list"

section \<open>Digest of a record\<close>

text \<open>
  \<^verbatim>\<open>canonical\<close> sorts the keys with the default order of \<^verbatim>\<open>sort\<close>, by code units; it is the
  serialisation of canonical JSON at that collation. \<open>record_identity\<close> is the record as the JSON
  object it was parsed from, without \<^verbatim>\<open>canonicalDigest\<close>.
\<close>

definition canonical :: "cjson \<Rightarrow> string" where
  "canonical v = canonicalJson code_unit_le v"

definition strs_json :: "string list \<Rightarrow> cjson" where
  "strs_json ss = CArr (map CStr ss)"

definition opt_json :: "string option \<Rightarrow> cjson" where
  "opt_json x = (case x of None \<Rightarrow> CNull | Some s \<Rightarrow> CStr s)"

definition rule_json :: "decision_rule \<Rightarrow> cjson" where
  "rule_json r = CObj [(''ruleId'', CStr (rule_id r)), (''predicate'', CStr (rule_predicate r)),
     (''outcome'', CStr (rule_outcome r)), (''directive'', CStr (rule_directive r))]"

definition table_json :: "decision_table \<Rightarrow> cjson" where
  "table_json t = CObj [(''tableId'', CStr (table_id t)), (''ordering'', CStr (table_ordering t)),
     (''rules'', CArr (map rule_json (table_rules t))),
     (''defaultRule'', CObj [(''predicate'', CStr (rule_predicate (table_default t))),
        (''outcome'', CStr (rule_outcome (table_default t))), (''directive'', CStr (rule_directive (table_default t)))]),
     (''total'', CBool (table_total t)), (''mutuallyExclusive'', CBool (table_exclusive t))]"

definition record_identity :: "stable_error_record \<Rightarrow> cjson" where
  "record_identity r = CObj (er_index r @
    [(''recordId'', CStr (er_recordId r)), (''recordKind'', CStr (er_recordKind r)),
     (''schemaVersion'', CStr (er_schemaVersion r)), (''authoritySourceRefs'', strs_json (er_authoritySourceRefs r)),
     (''sourceRelations'', CArr (er_sourceRelations r)), (''requirementIds'', strs_json (er_requirementIds r)),
     (''canonicalName'', CStr (er_canonicalName r)), (''lifecycle'', CStr (er_lifecycle r)),
     (''supersedes'', strs_json (er_supersedes r)), (''supersededBy'', strs_json (er_supersededBy r)),
     (''extensions'', CObj ((''recoveryDecisionTable'', case er_table r of None \<Rightarrow> CNull | Some t \<Rightarrow> table_json t)
        # er_extensions r)),
     (''errorCodeId'', CStr (er_errorCodeId r)), (''code'', CStr (er_code r)), (''namespace'', CStr (er_namespace r)),
     (''classification'', CStr (er_classification r)), (''canonicalMeaning'', CStr (er_canonicalMeaning r)),
     (''sideEffectPoint'', CStr (er_sideEffectPoint r)), (''terminalityRule'', CStr (er_terminalityRule r)),
     (''recoveryRuleKind'', CStr (er_recoveryRuleKind r)), (''fixedRetryDirective'', opt_json (er_fixedRetryDirective r)),
     (''recoveryDecisionTableId'', opt_json (er_recoveryDecisionTableId r)),
     (''sameLogicalOperationRequired'', CBool (er_sameLogicalOperationRequired r)),
     (''refreshRequired'', CBool (er_refreshRequired r)), (''reconciliationRequired'', CBool (er_reconciliationRequired r)),
     (''manualReviewRequired'', CBool (er_manualReviewRequired r)),
     (''requiredSnapshotFields'', strs_json (er_requiredSnapshotFields r)),
     (''affectedObjectKinds'', strs_json (er_affectedObjectKinds r)),
     (''httpMappings'', CArr (map (\<lambda>i. CNum (JInt i)) (er_httpMappings r))),
     (''kcipMappings'', CArr (er_kcipMappings r)), (''mcpMappings'', CArr (er_mcpMappings r)),
     (''uiMessageKey'', CStr (er_uiMessageKey r)), (''canonicalOwnerActions'', strs_json (er_canonicalOwnerActions r)),
     (''auditEvidenceKinds'', strs_json (er_auditEvidenceKinds r)), (''testCaseIds'', strs_json (er_testCaseIds r))])"

definition digestRecord :: "(string \<Rightarrow> string) \<Rightarrow> stable_error_record \<Rightarrow> string" where
  "digestRecord sha256 r = sha256 (canonical (record_identity r))"

section \<open>Validation\<close>

definition is_code_char :: "char \<Rightarrow> bool" where
  "is_code_char c = (is_upper c \<or> is_digit c)"

text \<open>\<^verbatim>\<open>/^([A-Z][A-Z0-9]*)(_[A-Z0-9]+)+$/u\<close>\<close>

definition is_error_code :: "string \<Rightarrow> bool" where
  "is_error_code code = (case split_on CHR ''_'' code of
       first # rest \<Rightarrow> first \<noteq> [] \<and> is_upper (hd first) \<and> list_all is_code_char first \<and> rest \<noteq> []
         \<and> list_all (\<lambda>w. w \<noteq> [] \<and> list_all is_code_char w) rest
     | [] \<Rightarrow> False)"

definition requiredPredicates :: "string list" where
  "requiredPredicates = [''effectOutcome=CONFIRMED_NOT_APPLIED'', ''effectOutcome=CONFIRMED_APPLIED'',
     ''effectOutcome=POSSIBLE_EFFECT'', ''effectOutcome=UNKNOWN'']"

definition contract_error :: "string \<Rightarrow> js_error" where
  "contract_error reason = Contract_Error (''ERROR_RECOVERY_CONTRACT_INCOMPLETE:'' @ reason)"

definition decision_table_ok :: "stable_error_record \<Rightarrow> decision_table \<Rightarrow> bool" where
  "decision_table_ok r t = (case er_recoveryDecisionTableId r of None \<Rightarrow> False
     | Some tid \<Rightarrow> tid \<noteq> [] \<and> er_fixedRetryDirective r = None \<and> table_id t = tid \<and> table_total t \<and> table_exclusive t
         \<and> rule_predicate (table_default t) = ''otherwise''
         \<and> length (table_rules t) = length requiredPredicates
         \<and> distinct (map rule_predicate (table_rules t))
         \<and> (\<forall>p \<in> set requiredPredicates. p \<in> set (map rule_predicate (table_rules t))))"

definition validate_recovery_rule :: "stable_error_record \<Rightarrow> unit outcome" where
  "validate_recovery_rule r =
     (if er_recoveryRuleKind r = ''FIXED'' then
        (if (case er_fixedRetryDirective r of None \<Rightarrow> True | Some d \<Rightarrow> d = [] \<or> d \<notin> set stableRetryDirectives)
           then Inl (contract_error (''fixed_directive:'' @ er_code r))
         else if er_recoveryDecisionTableId r \<noteq> None \<or> er_table r \<noteq> None
           then Inl (contract_error (''fixed_table:'' @ er_code r))
         else Inr ())
      else (case er_table r of
          None \<Rightarrow> Inl (contract_error (''decision_table:'' @ er_code r))
        | Some t \<Rightarrow>
            if \<not> decision_table_ok r t then Inl (contract_error (''decision_table:'' @ er_code r))
            else if \<exists>rule \<in> set (table_rules t @ [table_default t]). rule_directive rule \<notin> set stableRetryDirectives
              then Inl (contract_error (''decision_directive:'' @ er_code r))
            else Inr ()))"

definition mapping_violated :: "stable_error_record \<Rightarrow> string \<Rightarrow> int \<Rightarrow> bool" where
  "mapping_violated r code n = (er_code r = code
     \<and> canonical (CArr (er_mcpMappings r)) \<noteq> canonical (CArr [CNum (JInt n)]))"

definition validate_record ::
  "(string \<Rightarrow> string) \<Rightarrow> (string \<times> stable_error_record) list \<Rightarrow> stable_error_record
   \<Rightarrow> (string \<times> stable_error_record) list outcome" where
  "validate_record sha256 active r =
     (if er_lifecycle r \<noteq> ''ACTIVE'' then Inr active
      else if jm_has (er_index r) ''retryable'' then Inl (contract_error (''non_authoritative_retryable:'' @ er_code r))
      else if er_code r = [] \<or> jm_has active (er_code r) then Inl (contract_error (''duplicate:'' @ er_code r))
      else if \<not> is_error_code (er_code r) \<or> er_errorCodeId r \<noteq> ''ERR-'' @ er_code r
          \<or> (\<forall>ref \<in> set (er_authoritySourceRefs r). \<not> starts_with ''ssot://32.'' ref)
        then Inl (contract_error (''identity:'' @ er_code r))
      else if er_requirementIds r = [] \<or> er_testCaseIds r = [] \<or> er_canonicalOwnerActions r = []
        then Inl (contract_error (''evidence:'' @ er_code r))
      else if er_canonicalDigest r \<noteq> digestRecord sha256 r then Inl (contract_error (''digest:'' @ er_code r))
      else bindE (validate_recovery_rule r) (\<lambda>_.
        if mapping_violated r ''MCP_HEADER_MISMATCH'' (-32020) then Inl (contract_error ''mcp_header_mapping'')
        else if mapping_violated r ''MCP_CLIENT_CAPABILITY_MISSING'' (-32021) then Inl (contract_error ''mcp_capability_mapping'')
        else if mapping_violated r ''MCP_PROTOCOL_VERSION_UNSUPPORTED'' (-32022) then Inl (contract_error ''mcp_version_mapping'')
        else Inr (jm_set (er_code r) r active)))"

definition validateErrorRetryRegistry :: "(string \<Rightarrow> string) \<Rightarrow> stable_error_record list \<Rightarrow> unit outcome" where
  "validateErrorRetryRegistry sha256 records =
     bindE (forE (validate_record sha256) [] records) (\<lambda>active.
       if active = [] then Inl (contract_error ''no_active_records'') else Inr ())"

section \<open>The registry\<close>

text \<open>
  What reading and parsing \<^verbatim>\<open>contracts/registries/errors/errors.json\<close> gives: an exception, a value
  that is not an object with a \<^verbatim>\<open>kind\<close> and an array of records, or the two.
\<close>

datatype registry_file =
    Unreadable string
  | Malformed
  | Registry_File string "stable_error_record list"

type_synonym error_registry = "(string \<times> stable_error_record) list"

definition loadRegistry :: "(string \<Rightarrow> string) \<Rightarrow> registry_file \<Rightarrow> error_registry outcome" where
  "loadRegistry sha256 file = (case file of
       Unreadable msg \<Rightarrow> Inl (contract_error (''registry_unreadable:'' @ msg))
     | Malformed \<Rightarrow> Inl (contract_error ''registry_shape'')
     | Registry_File kind records \<Rightarrow>
         if kind \<noteq> ''ERROR_RETRY_REGISTRY'' then Inl (contract_error ''registry_shape'')
         else bindE (validateErrorRetryRegistry sha256 records) (\<lambda>_.
           Inr (jm_of er_code (filter (\<lambda>r. er_lifecycle r = ''ACTIVE'') records))))"

text \<open>The module variable \<^verbatim>\<open>registry\<close> caches the first successful load.\<close>

definition getErrorRetryRegistry ::
  "(string \<Rightarrow> string) \<Rightarrow> registry_file \<Rightarrow> error_registry option \<Rightarrow> error_registry option \<times> error_registry outcome" where
  "getErrorRetryRegistry sha256 file cache = (case cache of
       Some reg \<Rightarrow> (cache, Inr reg)
     | None \<Rightarrow> (case loadRegistry sha256 file of Inl e \<Rightarrow> (None, Inl e) | Inr reg \<Rightarrow> (Some reg, Inr reg)))"

definition getStableErrorRecord :: "error_registry \<Rightarrow> string \<Rightarrow> stable_error_record outcome" where
  "getStableErrorRecord reg code = (case jm_get reg code of
     None \<Rightarrow> Inl (contract_error (''unknown_code:'' @ code)) | Some r \<Rightarrow> Inr r)"

datatype observed_effect = Confirmed_Not_Applied | Confirmed_Applied | Possible_Effect | Unknown_Effect

fun effect_text :: "observed_effect \<Rightarrow> string" where
  "effect_text Confirmed_Not_Applied = ''CONFIRMED_NOT_APPLIED''"
| "effect_text Confirmed_Applied = ''CONFIRMED_APPLIED''"
| "effect_text Possible_Effect = ''POSSIBLE_EFFECT''"
| "effect_text Unknown_Effect = ''UNKNOWN''"

definition resolveRetryDirective :: "stable_error_record \<Rightarrow> observed_effect \<Rightarrow> string option" where
  "resolveRetryDirective r eff =
     (if er_recoveryRuleKind r = ''FIXED'' then er_fixedRetryDirective r
      else (case er_table r of None \<Rightarrow> Some ''MANUAL_REVIEW''
        | Some t \<Rightarrow> (case find (\<lambda>rule. rule_predicate rule = ''effectOutcome='' @ effect_text eff) (table_rules t) of
            Some rule \<Rightarrow> Some (rule_directive rule)
          | None \<Rightarrow> Some (rule_directive (table_default t)))))"

record error_view =
  ev_code :: string
  ev_classification :: string
  ev_canonicalMeaning :: string
  ev_sideEffectPoint :: string
  ev_retryDirective :: "string option" \<comment> \<open>\<open>null\<close> only for an invalid fixed record\<close>
  ev_recoveryRuleKind :: string
  ev_sameLogicalOperationRequired :: bool
  ev_refreshRequired :: bool
  ev_reconciliationRequired :: bool
  ev_manualReviewRequired :: bool
  ev_recordDigest :: string
  ev_record :: stable_error_record

definition canonicalErrorView :: "error_registry \<Rightarrow> string \<Rightarrow> observed_effect \<Rightarrow> error_view outcome" where
  "canonicalErrorView reg code eff = bindE (getStableErrorRecord reg code) (\<lambda>r.
     Inr \<lparr>ev_code = er_code r, ev_classification = er_classification r, ev_canonicalMeaning = er_canonicalMeaning r,
       ev_sideEffectPoint = er_sideEffectPoint r, ev_retryDirective = resolveRetryDirective r eff,
       ev_recoveryRuleKind = er_recoveryRuleKind r,
       ev_sameLogicalOperationRequired = er_sameLogicalOperationRequired r, ev_refreshRequired = er_refreshRequired r,
       ev_reconciliationRequired = er_reconciliationRequired r, ev_manualReviewRequired = er_manualReviewRequired r,
       ev_recordDigest = er_canonicalDigest r, ev_record = r\<rparr>)"

definition assertCanonicalRetryDirective ::
  "error_registry \<Rightarrow> string \<Rightarrow> string \<Rightarrow> observed_effect \<Rightarrow> unit outcome" where
  "assertCanonicalRetryDirective reg code directive eff = bindE (canonicalErrorView reg code eff) (\<lambda>view.
     if Some directive \<noteq> ev_retryDirective view
     then Inl (contract_error (''directive_mismatch:'' @ code @ '':'' @ directive @ '':''
       @ (case ev_retryDirective view of None \<Rightarrow> ''null'' | Some d \<Rightarrow> d)))
     else Inr ())"

section \<open>Domain errors\<close>

text \<open>
  A thrown value as the projection sees it: a \<^verbatim>\<open>DomainError\<close> with its code and details, another
  object with a \<^verbatim>\<open>code\<close> property (a PostgreSQL or KCIP error), or anything else.
\<close>

datatype thrown = Thrown_Domain string cjson | Thrown_Coded string | Thrown_Other

definition DomainError :: "error_registry \<Rightarrow> string \<Rightarrow> cjson \<Rightarrow> (thrown \<times> string option \<times> int) outcome" where
  "DomainError reg code details = bindE (canonicalErrorView reg code Unknown_Effect) (\<lambda>view.
     Inr (Thrown_Domain code details, ev_retryDirective view,
       case er_httpMappings (ev_record view) of [] \<Rightarrow> 500 | s # _ \<Rightarrow> s))"

fun thrown_code :: "thrown \<Rightarrow> string option" where
  "thrown_code (Thrown_Domain c _) = Some c"
| "thrown_code (Thrown_Coded c) = Some c"
| "thrown_code Thrown_Other = None"

definition projectedPostgresCode :: "string option \<Rightarrow> string option" where
  "projectedPostgresCode pc =
     (if pc = Some ''23505'' then Some ''IDEMPOTENCY_CONFLICT''
      else if pc = Some ''23514'' then Some ''STATE_MACHINE_CONTRACT_INCOMPLETE''
      else if pc = Some ''40001'' then Some ''STATE_VERSION_CONFLICT''
      else if pc = Some ''40P01'' then Some ''PLATFORM_RECOVERY_IN_PROGRESS''
      else if pc = Some ''55000'' then Some ''TERMINAL_STATE_IMMUTABLE''
      else None)"

definition projected_code :: "thrown \<Rightarrow> string" where
  "projected_code e = (case e of Thrown_Domain c _ \<Rightarrow> c
     | _ \<Rightarrow> (case projectedPostgresCode (thrown_code e) of Some c \<Rightarrow> c | None \<Rightarrow> ''ERROR_RECOVERY_CONTRACT_INCOMPLETE''))"

definition canonicalizeDomainError :: "error_registry \<Rightarrow> thrown \<Rightarrow> error_view outcome" where
  "canonicalizeDomainError reg e = (case canonicalErrorView reg (projected_code e) Unknown_Effect of
     Inr view \<Rightarrow> Inr view
   | Inl _ \<Rightarrow> canonicalErrorView reg ''ERROR_RECOVERY_CONTRACT_INCOMPLETE'' Unknown_Effect)"

record failure_cause =
  fc_kind :: string
  fc_originalCode :: "string option"
  fc_digest :: string

record canonical_failure =
  cf_code :: string
  cf_effectiveCode :: string
  cf_message :: string
  cf_classification :: string
  cf_sideEffectPoint :: string
  cf_retryDirective :: "string option"
  cf_recordDigest :: string
  cf_registryVersion :: string
  cf_httpStatus :: int
  cf_details :: cjson
  cf_cause :: "failure_cause option"

text \<open>\<^verbatim>\<open>/^[A-Za-z0-9_.:-]{1,80}$/u\<close>\<close>

definition is_safe_code :: "string \<Rightarrow> bool" where
  "is_safe_code s = (1 \<le> length s \<and> length s \<le> 80
     \<and> list_all (\<lambda>c. is_upper c \<or> is_lower c \<or> is_digit c \<or> c \<in> set ''_.:-'') s)"

definition redactedCause ::
  "(string \<Rightarrow> string) \<Rightarrow> collation \<Rightarrow> thrown \<Rightarrow> string \<Rightarrow> failure_cause option" where
  "redactedCause sha256 le e effectiveCode =
     (if (case e of Thrown_Domain c _ \<Rightarrow> c = effectiveCode | _ \<Rightarrow> False) then None
      else let originalCode = (case thrown_code e of Some c \<Rightarrow> if is_safe_code c then Some c else None | None \<Rightarrow> None);
               kind = (case e of Thrown_Domain _ _ \<Rightarrow> ''UNREGISTERED_DOMAIN_ERROR'' | _ \<Rightarrow> ''NON_DOMAIN_ERROR'')
        in Some \<lparr>fc_kind = kind, fc_originalCode = originalCode,
             fc_digest = canonicalDigest sha256 le (CObj [(''kind'', CStr kind), (''originalCode'', opt_json originalCode),
               (''effectiveCode'', CStr effectiveCode)])\<rparr>)"

definition canonicalFailure ::
  "(string \<Rightarrow> string) \<Rightarrow> collation \<Rightarrow> error_registry \<Rightarrow> thrown \<Rightarrow> canonical_failure outcome" where
  "canonicalFailure sha256 le reg e = bindE (canonicalizeDomainError reg e) (\<lambda>view. let r = ev_record view in
     Inr \<lparr>cf_code = ev_code view, cf_effectiveCode = ev_code view, cf_message = ev_canonicalMeaning view,
       cf_classification = ev_classification view, cf_sideEffectPoint = ev_sideEffectPoint view,
       cf_retryDirective = ev_retryDirective view, cf_recordDigest = ev_recordDigest view,
       cf_registryVersion = er_schemaVersion r,
       cf_httpStatus = (case er_httpMappings r of [] \<Rightarrow> 500 | s # _ \<Rightarrow> s),
       cf_details = (case e of Thrown_Domain c details \<Rightarrow> if c = ev_code view then details else CNull | _ \<Rightarrow> CNull),
       cf_cause = redactedCause sha256 le e (ev_code view)\<rparr>)"

definition canonicalRetryDirective :: "error_registry \<Rightarrow> thrown \<Rightarrow> string option outcome" where
  "canonicalRetryDirective reg e = bindE (canonicalizeDomainError reg e) (\<lambda>view. Inr (ev_retryDirective view))"

definition isPostgresConflict :: "thrown \<Rightarrow> bool" where
  "isPostgresConflict e = (case thrown_code e of None \<Rightarrow> False | Some c \<Rightarrow> c \<in> set [''23505'', ''40001'', ''40P01''])"

text \<open>The errors of the other components, as the projection sees them.\<close>

fun thrown_of :: "js_error \<Rightarrow> thrown" where
  "thrown_of (Domain_Error c) = Thrown_Domain c CNull"
| "thrown_of (Pg_Error c) = Thrown_Coded c"
| "thrown_of (Kcip_Error c) = Thrown_Coded c"
| "thrown_of _ = Thrown_Other"

section \<open>Validated registries\<close>

definition is_active :: "stable_error_record \<Rightarrow> bool" where
  "is_active r = (er_lifecycle r = ''ACTIVE'')"

lemma validate_record_active:
  assumes "validate_record sha256 active r = Inr active'" and "is_active r"
  shows "validate_recovery_rule r = Inr ()" "er_code r \<notin> fst ` set active"
    "er_canonicalDigest r = digestRecord sha256 r" "active' = jm_set (er_code r) r active"
  using assms
  by (auto simp: validate_record_def is_active_def bindE_Inr_iff jm_has_def map_of_eq_None_iff split: if_splits)

lemma validate_record_inactive: "\<not> is_active r \<Longrightarrow> validate_record sha256 active r = Inr active"
  by (simp add: validate_record_def is_active_def)

lemma validate_records:
  "forE (validate_record sha256) active records = Inr active' \<Longrightarrow>
     (\<forall>r \<in> set records. is_active r \<longrightarrow> validate_recovery_rule r = Inr ()
        \<and> er_canonicalDigest r = digestRecord sha256 r \<and> er_code r \<notin> fst ` set active)
     \<and> distinct (map er_code (filter is_active records))"
proof (induction records arbitrary: active)
  case (Cons r rs)
  then obtain active1 where step: "validate_record sha256 active r = Inr active1"
      and rest: "forE (validate_record sha256) active1 rs = Inr active'"
    by (auto split: sum.splits)
  show ?case
  proof (cases "is_active r")
    case True
    from validate_record_active [OF step True] Cons.IH [OF rest] True show ?thesis
      by (auto simp: jm_set_keys)
  next
    case False
    with step have "active1 = active" by (simp add: validate_record_inactive)
    with Cons.IH [OF rest] False show ?thesis by auto
  qed
qed simp

lemma loadRegistry_records:
  assumes "loadRegistry sha256 file = Inr reg"
  shows "\<exists>records. file = Registry_File ''ERROR_RETRY_REGISTRY'' records
    \<and> reg = jm_of er_code (filter is_active records) \<and> distinct (map er_code (filter is_active records))
    \<and> (\<forall>r \<in> set records. is_active r \<longrightarrow>
          validate_recovery_rule r = Inr () \<and> er_canonicalDigest r = digestRecord sha256 r)"
proof -
  from assms obtain records active' where f: "file = Registry_File ''ERROR_RETRY_REGISTRY'' records"
      and v: "forE (validate_record sha256) [] records = Inr active'"
      and reg: "reg = jm_of er_code (filter is_active records)"
    by (auto simp: loadRegistry_def validateErrorRetryRegistry_def bindE_Inr_iff is_active_def [abs_def]
        split: registry_file.splits if_splits)
  from validate_records [OF v] f reg show ?thesis by blast
qed

lemma decision_table_rule:
  assumes "decision_table_ok r t"
  shows "\<exists>!rule. rule \<in> set (table_rules t) \<and> rule_predicate rule = ''effectOutcome='' @ effect_text eff"
proof -
  have d: "distinct (map rule_predicate (table_rules t))"
    and req: "\<forall>p \<in> set requiredPredicates. p \<in> rule_predicate ` set (table_rules t)"
    using assms by (auto simp: decision_table_ok_def split: option.splits)
  have "''effectOutcome='' @ effect_text eff \<in> set requiredPredicates"
    by (cases eff) (simp_all add: requiredPredicates_def)
  with req have "''effectOutcome='' @ effect_text eff \<in> rule_predicate ` set (table_rules t)" by blast
  then obtain rule where rule: "rule \<in> set (table_rules t)" "rule_predicate rule = ''effectOutcome='' @ effect_text eff"
    by (rule imageE) simp
  have "inj_on rule_predicate (set (table_rules t))" using d by (simp add: distinct_map)
  with rule show ?thesis unfolding inj_on_def by metis
qed

lemma find_unique:
  assumes "\<exists>!x. x \<in> set xs \<and> P x"
  shows "\<exists>x. find P xs = Some x \<and> x \<in> set xs \<and> P x"
proof (cases "find P xs")
  case None
  then show ?thesis using assms by (auto simp: find_None_iff)
next
  case (Some x)
  then show ?thesis by (auto simp: find_Some_iff)
qed

lemma resolveRetryDirective_stable:
  assumes "validate_recovery_rule r = Inr ()"
  shows "\<exists>d \<in> set stableRetryDirectives. resolveRetryDirective r eff = Some d"
proof (cases "er_recoveryRuleKind r = ''FIXED''")
  case True
  then show ?thesis using assms
    by (auto simp: validate_recovery_rule_def resolveRetryDirective_def split: if_splits option.splits)
next
  case False
  with assms obtain t where t: "er_table r = Some t" "decision_table_ok r t"
      "\<forall>rule \<in> set (table_rules t). rule_directive rule \<in> set stableRetryDirectives"
    by (auto simp: validate_recovery_rule_def split: if_splits option.splits)
  from find_unique [OF decision_table_rule [OF t(2), of eff]] t False show ?thesis
    by (auto simp: resolveRetryDirective_def)
qed

lemma canonicalErrorView_lookup:
  "canonicalErrorView reg code eff = Inr view \<Longrightarrow>
     \<exists>r. jm_get reg code = Some r \<and> ev_record view = r \<and> ev_code view = er_code r
       \<and> ev_retryDirective view = resolveRetryDirective r eff"
  by (auto simp: canonicalErrorView_def getStableErrorRecord_def bindE_Inr_iff split: option.splits)

lemma canonicalErrorView_ok: "jm_has reg code \<Longrightarrow> is_ok (canonicalErrorView reg code eff)"
  by (auto simp: jm_has_def jm_get_def canonicalErrorView_def getStableErrorRecord_def)

text \<open>
  In a registry that loads, every lookup yields the record that carries the requested code and a
  directive among the five stable ones, whatever effect was observed; the digest the view reports is
  the digest of the record's content.
\<close>

theorem error_view_directive_stable:
  assumes "loadRegistry sha256 file = Inr reg" and "canonicalErrorView reg code eff = Inr view"
  shows "ev_code view = code \<and> (\<exists>d \<in> set stableRetryDirectives. ev_retryDirective view = Some d)
    \<and> ev_recordDigest view = digestRecord sha256 (ev_record view)"
proof -
  obtain records where reg: "reg = jm_of er_code (filter is_active records)"
    and ok: "\<And>r. r \<in> set records \<Longrightarrow> is_active r \<Longrightarrow>
      validate_recovery_rule r = Inr () \<and> er_canonicalDigest r = digestRecord sha256 r"
    using loadRegistry_records [OF assms(1)] by blast
  from canonicalErrorView_lookup [OF assms(2)] obtain r where r: "jm_get reg code = Some r"
      "ev_code view = er_code r" "ev_retryDirective view = resolveRetryDirective r eff" "ev_record view = r" by auto
  have "ev_recordDigest view = er_canonicalDigest (ev_record view)"
    using assms(2) by (auto simp: canonicalErrorView_def bindE_Inr_iff)
  with r jm_of_Some [OF r(1) [unfolded reg]] ok resolveRetryDirective_stable show ?thesis by auto
qed

text \<open>
  A registry that loads holds exactly the active records of the file: looking up a code finds
  the one active record that carries it, and a code without one is refused as unknown.
\<close>

theorem registry_lookup_iff:
  assumes "loadRegistry sha256 (Registry_File kind records) = Inr reg"
  shows "getStableErrorRecord reg code = Inr r \<longleftrightarrow> r \<in> set records \<and> er_lifecycle r = ''ACTIVE'' \<and> er_code r = code"
proof -
  have reg: "reg = jm_of er_code (filter is_active records)" and d: "distinct (map er_code (filter is_active records))"
    using loadRegistry_records [OF assms] by auto
  have "jm_get reg code = Some r \<longleftrightarrow> r \<in> set (filter is_active records) \<and> er_code r = code"
    using jm_of_Some [of er_code "filter is_active records" code r] jm_of_in [OF d, of r] reg by auto
  then show ?thesis by (auto simp: getStableErrorRecord_def is_active_def split: option.splits)
qed


section \<open>A registry of one record\<close>

definition base_error :: stable_error_record where
  "base_error = \<lparr>er_index = [], er_recordId = ''1'', er_recordKind = ''ERROR_RETRY_REGISTRY'', er_schemaVersion = ''1.0'',
     er_authoritySourceRefs = [''ssot://32.1''], er_sourceRelations = [], er_requirementIds = [''R1''],
     er_canonicalName = ''contract incomplete'', er_canonicalDigest = [], er_lifecycle = ''ACTIVE'', er_supersedes = [],
     er_supersededBy = [], er_table = None, er_extensions = [],
     er_errorCodeId = ''ERR-ERROR_RECOVERY_CONTRACT_INCOMPLETE'', er_code = ''ERROR_RECOVERY_CONTRACT_INCOMPLETE'',
     er_namespace = ''ERROR'', er_classification = ''INTERNAL'', er_canonicalMeaning = ''incomplete'',
     er_sideEffectPoint = ''PRE_ADMISSION'', er_terminalityRule = ''TERMINAL'', er_recoveryRuleKind = ''FIXED'',
     er_fixedRetryDirective = Some ''MANUAL_REVIEW'', er_recoveryDecisionTableId = None,
     er_sameLogicalOperationRequired = False, er_refreshRequired = False, er_reconciliationRequired = False,
     er_manualReviewRequired = True, er_requiredSnapshotFields = [], er_affectedObjectKinds = [],
     er_httpMappings = [500], er_kcipMappings = [], er_mcpMappings = [], er_uiMessageKey = ''k'',
     er_canonicalOwnerActions = [''REVIEW''], er_auditEvidenceKinds = [], er_testCaseIds = [''T1'']\<rparr>"

definition sample_error :: stable_error_record where
  "sample_error = base_error\<lparr>er_canonicalDigest := digestRecord id base_error\<rparr>"

definition sample_file :: registry_file where
  "sample_file = Registry_File ''ERROR_RETRY_REGISTRY'' [sample_error]"

definition sample_registry :: error_registry where
  "sample_registry = [(''ERROR_RECOVERY_CONTRACT_INCOMPLETE'', sample_error)]"

lemma digestRecord_ignores_digest: "digestRecord sha256 (r\<lparr>er_canonicalDigest := d\<rparr>) = digestRecord sha256 r"
  by (simp add: digestRecord_def record_identity_def)

lemma sample_error_fields:
  "er_code sample_error = ''ERROR_RECOVERY_CONTRACT_INCOMPLETE''" "er_lifecycle sample_error = ''ACTIVE''"
  by (simp_all add: sample_error_def base_error_def)

lemma sample_code_ok: "is_error_code ''ERROR_RECOVERY_CONTRACT_INCOMPLETE''"
  by code_simp

lemma sample_error_valid: "validate_record id [] sample_error = Inr sample_registry"
proof -
  have "validate_recovery_rule sample_error = Inr ()" by code_simp
  moreover have "er_canonicalDigest sample_error = digestRecord id sample_error"
    by (simp add: sample_error_def digestRecord_ignores_digest)
  ultimately show ?thesis
    by (simp add: validate_record_def sample_error_fields sample_registry_def sample_code_ok mapping_violated_def jm_has_def)
      (simp add: sample_error_def base_error_def starts_with_def)
qed

lemma sample_registry_loads: "loadRegistry id sample_file = Inr sample_registry"
  using sample_error_valid
  by (simp add: loadRegistry_def sample_file_def validateErrorRetryRegistry_def sample_registry_def jm_of_def sample_error_fields)

theorem error_view_directive_stable_witness:
  "\<exists>view. canonicalErrorView sample_registry ''ERROR_RECOVERY_CONTRACT_INCOMPLETE'' Possible_Effect = Inr view
    \<and> ev_code view = ''ERROR_RECOVERY_CONTRACT_INCOMPLETE''"
proof -
  have "jm_has sample_registry ''ERROR_RECOVERY_CONTRACT_INCOMPLETE''" by (simp add: sample_registry_def jm_has_def)
  from canonicalErrorView_ok [OF this] obtain view where
    view: "canonicalErrorView sample_registry ''ERROR_RECOVERY_CONTRACT_INCOMPLETE'' Possible_Effect = Inr view"
    by (auto simp: is_ok_iff)
  with error_view_directive_stable [OF sample_registry_loads view] show ?thesis by blast
qed

theorem registry_lookup_iff_witness:
  "getStableErrorRecord sample_registry ''ERROR_RECOVERY_CONTRACT_INCOMPLETE'' = Inr sample_error"
  using registry_lookup_iff [OF sample_registry_loads [unfolded sample_file_def]]
  by (simp add: sample_error_fields)


end
