(* ===== verification/RetryPlanner.thy ===== *)
theory RetryPlanner
  imports ErrorRegistry
begin

text \<open>
  The retry planner (\<^verbatim>\<open>packages/domain/src/retry-planner.ts\<close>): from the canonical projection of a
  failure, the attempt counter and the attempt budget to the action the retry scheduler takes.
  A counter is an integer below \<open>10 ^ 21\<close> or is refused.
\<close>

datatype retry_plan_action =
    Close_Failed_Command
  | Retry_Same_Command
  | Refresh_And_Create_Successor
  | Enqueue_Reconciliation
  | Create_Manual_Review

record retry_policy_snapshot =
  rp_directiveSourceRegistryVersion :: string
  rp_errorRecordDigest :: string
  rp_attempt :: int
  rp_maximumAttempts :: int
  rp_backoffSeconds :: "int option"

record retry_plan_decision =
  rd_directive :: "string option"
  rd_action :: retry_plan_action
  rd_automaticDispatchAllowed :: bool
  rd_preservesLogicalOperation :: bool
  rd_requiresAuthoritativeRefresh :: bool
  rd_requiresCompletedReconciliation :: bool
  rd_requiresOwnerDecision :: bool
  rd_policy :: retry_policy_snapshot

definition boundedBackoffSeconds :: "int \<Rightarrow> int" where
  "boundedBackoffSeconds attempt = min 300 (2 ^ nat (min 30 (max 0 attempt)))"

fun positive_integer :: "js_number \<Rightarrow> int option" where
  "positive_integer (JInt i) = (if i < 1 then None else Some i)"
| "positive_integer _ = None"

definition retry_action :: "string option \<Rightarrow> bool \<Rightarrow> retry_plan_action" where
  "retry_action directive exhausted =
     (if directive = Some ''RETRY_SAME_OPERATION'' then
        (if exhausted then Close_Failed_Command else Retry_Same_Command)
      else if directive = Some ''REFRESH_AND_RETRY_NEW_COMMAND'' then Refresh_And_Create_Successor
      else if directive = Some ''RECONCILE_THEN_RETRY'' then Enqueue_Reconciliation
      else if directive = Some ''MANUAL_REVIEW'' then Create_Manual_Review
      else Close_Failed_Command)"

definition planCanonicalRetry ::
  "canonical_failure \<Rightarrow> js_number \<Rightarrow> js_number \<Rightarrow> retry_plan_decision outcome" where
  "planCanonicalRetry failure attempt maximumAttempts =
     (case positive_integer attempt of
        None \<Rightarrow> Inl (Range_Error ''attempt must be a positive integer'')
      | Some a \<Rightarrow> (case positive_integer maximumAttempts of
          None \<Rightarrow> Inl (Range_Error ''maximumAttempts must be a positive integer'')
        | Some m \<Rightarrow>
            let directive = cf_retryDirective failure; action = retry_action directive (a \<ge> m) in
            Inr \<lparr>rd_directive = directive, rd_action = action,
              rd_automaticDispatchAllowed = (action = Retry_Same_Command),
              rd_preservesLogicalOperation = (action = Retry_Same_Command),
              rd_requiresAuthoritativeRefresh = (action = Refresh_And_Create_Successor),
              rd_requiresCompletedReconciliation = (action = Enqueue_Reconciliation),
              rd_requiresOwnerDecision = (action = Create_Manual_Review),
              rd_policy = \<lparr>rp_directiveSourceRegistryVersion = cf_registryVersion failure,
                rp_errorRecordDigest = cf_recordDigest failure, rp_attempt = a, rp_maximumAttempts = m,
                rp_backoffSeconds = (if action = Retry_Same_Command then Some (boundedBackoffSeconds a) else None)\<rparr>\<rparr>))"

section \<open>Properties\<close>

lemma boundedBackoffSeconds_bounds: "1 \<le> boundedBackoffSeconds a \<and> boundedBackoffSeconds a \<le> 300"
  by (simp add: boundedBackoffSeconds_def)

lemma boundedBackoffSeconds_mono: "a \<le> b \<Longrightarrow> boundedBackoffSeconds a \<le> boundedBackoffSeconds b"
proof -
  assume "a \<le> b"
  then have "nat (min 30 (max 0 a)) \<le> nat (min 30 (max 0 b))" by (simp add: nat_mono min.mono max.mono le_max_iff_disj)
  then have "(2::int) ^ nat (min 30 (max 0 a)) \<le> 2 ^ nat (min 30 (max 0 b))" by (rule power_increasing) simp
  then show ?thesis unfolding boundedBackoffSeconds_def by (rule min.mono [OF order_refl])
qed

lemma plan_result:
  "planCanonicalRetry failure (JInt a) (JInt m) = Inr d \<Longrightarrow> 1 \<le> a \<and> 1 \<le> m
    \<and> rd_action d = retry_action (cf_retryDirective failure) (m \<le> a)
    \<and> rd_automaticDispatchAllowed d = (rd_action d = Retry_Same_Command)
    \<and> rp_backoffSeconds (rd_policy d) = (if rd_action d = Retry_Same_Command then Some (boundedBackoffSeconds a) else None)"
  by (auto simp: planCanonicalRetry_def Let_def split: if_splits)

text \<open>
  A retry is dispatched without a decision of anyone else exactly when the registry's directive
  is \<^verbatim>\<open>RETRY_SAME_OPERATION\<close> and the attempt budget is not used up; it then waits between 2 and 300
  seconds, never less than the previous attempt waited.
\<close>

theorem automatic_retry_bounded:
  assumes "planCanonicalRetry failure (JInt a) (JInt m) = Inr d"
  shows "(rd_automaticDispatchAllowed d \<longleftrightarrow> cf_retryDirective failure = Some ''RETRY_SAME_OPERATION'' \<and> a < m)
    \<and> (rd_automaticDispatchAllowed d \<longleftrightarrow> rp_backoffSeconds (rd_policy d) \<noteq> None)
    \<and> (\<forall>b. rp_backoffSeconds (rd_policy d) = Some b \<longrightarrow> 2 \<le> b \<and> b \<le> 300 \<and> boundedBackoffSeconds (a - 1) \<le> b)"
proof -
  note r = plan_result [OF assms]
  have "2 \<le> boundedBackoffSeconds a"
    using r boundedBackoffSeconds_mono [of 1 a] by (simp add: boundedBackoffSeconds_def)
  with r boundedBackoffSeconds_bounds [of a] boundedBackoffSeconds_mono [of "a - 1" a] show ?thesis
    by (auto simp: retry_action_def split: if_splits)
qed

text \<open>
  An operation that keeps failing with one failure: each automatic retry plans the next attempt.
\<close>

fun automatic_attempts :: "nat \<Rightarrow> canonical_failure \<Rightarrow> int \<Rightarrow> int \<Rightarrow> nat option" where
  "automatic_attempts 0 failure a m = None"
| "automatic_attempts (Suc fuel) failure a m = (case planCanonicalRetry failure (JInt a) (JInt m) of
     Inl _ \<Rightarrow> Some 0
   | Inr d \<Rightarrow> if rd_automaticDispatchAllowed d
       then map_option Suc (automatic_attempts fuel failure (a + 1) m) else Some 0)"

lemma automatic_attempts_count:
  assumes "cf_retryDirective failure = Some ''RETRY_SAME_OPERATION''" and "1 \<le> a" and "a \<le> m" and "nat (m - a) < fuel"
  shows "automatic_attempts fuel failure a m = Some (nat (m - a))"
  using assms
proof (induction fuel arbitrary: a)
  case (Suc fuel)
  have p: "planCanonicalRetry failure (JInt a) (JInt m) = Inr d \<Longrightarrow> rd_automaticDispatchAllowed d = (a < m)" for d
    using plan_result [of failure a m d] Suc.prems(1) by (auto simp: retry_action_def)
  obtain d where d: "planCanonicalRetry failure (JInt a) (JInt m) = Inr d"
    using Suc.prems by (auto simp: planCanonicalRetry_def Let_def)
  show ?case
  proof (cases "a < m")
    case True
    then have "automatic_attempts fuel failure (a + 1) m = Some (nat (m - (a + 1)))"
      using Suc by (intro Suc.IH) auto
    moreover have "Suc (nat (m - (a + 1))) = nat (m - a)" using True by simp
    ultimately show ?thesis using True d p by simp
  next
    case False
    with Suc.prems d p show ?thesis by simp
  qed
qed simp


definition sample_failure :: canonical_failure where
  "sample_failure = \<lparr>cf_code = ''DEPENDENCY_TIMEOUT'', cf_effectiveCode = ''DEPENDENCY_TIMEOUT'', cf_message = ''timeout'',
     cf_classification = ''TIMEOUT'', cf_sideEffectPoint = ''PRE_DISPATCH'', cf_retryDirective = Some ''RETRY_SAME_OPERATION'',
     cf_recordDigest = ''d'', cf_registryVersion = ''1.0'', cf_httpStatus = 504, cf_details = CNull, cf_cause = None\<rparr>"

theorem automatic_retry_bounded_witness:
  "\<exists>d. planCanonicalRetry sample_failure (JInt 2) (JInt 3) = Inr d \<and> rd_automaticDispatchAllowed d"
proof -
  obtain d where d: "planCanonicalRetry sample_failure (JInt 2) (JInt 3) = Inr d"
    by (auto simp: planCanonicalRetry_def Let_def)
  with automatic_retry_bounded [OF d] show ?thesis by (auto simp: sample_failure_def)
qed


end
