(* ===== verification/StreamDecoder.thy ===== *)
theory StreamDecoder
  imports CanonicalJson
begin

text \<open>
  Decoders of framed byte streams. A socket delivers a stream in chunks of arbitrary size; a
  decoder appends each chunk to its pending bytes and takes complete frames off the front. One
  iteration of such a loop is a \<open>decode_step\<close>; \<open>drain\<close> is the loop, \<open>feed\<close> the handler of a
  \<^verbatim>\<open>data\<close> event. The interface \<open>incremental_decoder\<close> states what an iteration promises, and shows
  that what is decoded depends on the bytes of the stream only, not on how they were cut.
\<close>

section \<open>Big-endian integers\<close>

definition be_bytes :: "nat \<Rightarrow> nat \<Rightarrow> byte list" where
  "be_bytes k n = map (\<lambda>i. of_nat (n div 256 ^ (k - 1 - i))) [0..<k]"

definition be_value :: "byte list \<Rightarrow> nat" where
  "be_value bs = foldl (\<lambda>n b. n * 256 + unat b) 0 bs"

lemma length_be_bytes [simp]: "length (be_bytes k n) = k"
  by (simp add: be_bytes_def)

lemma be_bytes_Suc: "be_bytes (Suc k) n = be_bytes k (n div 256) @ [of_nat n]"
proof -
  have "of_nat (n div 256 ^ (k - i)) = of_nat (n div 256 div 256 ^ (k - 1 - i))" if "i < k" for i
  proof -
    have "256 ^ (k - i) = (256::nat) * 256 ^ (k - 1 - i)" using that by (simp flip: power_Suc)
    then show ?thesis by (simp add: div_mult2_eq)
  qed
  then have "map (\<lambda>i. of_nat (n div 256 ^ (k - i)) :: byte) [0..<k]
    = map (\<lambda>i. of_nat (n div 256 div 256 ^ (k - 1 - i))) [0..<k]" by auto
  then show ?thesis by (simp add: be_bytes_def)
qed

lemma be_value_snoc: "be_value (bs @ [b]) = be_value bs * 256 + unat b"
  by (simp add: be_value_def)

lemma be_value_bytes: "n < 256 ^ k \<Longrightarrow> be_value (be_bytes k n) = n"
proof (induction k arbitrary: n)
  case 0
  then show ?case by (simp add: be_bytes_def be_value_def)
next
  case (Suc k)
  have "unat (of_nat n :: byte) = n mod 256" by (simp add: unat_of_nat)
  moreover have "be_value (be_bytes k (n div 256)) = n div 256"
    using Suc.prems by (intro Suc.IH) (simp add: less_mult_imp_div_less mult.commute)
  ultimately show ?case by (simp add: be_bytes_Suc be_value_snoc)
qed

section \<open>The decoding loop\<close>

text \<open>
  An iteration needs more bytes, takes a frame and leaves a remainder, destroys the socket with an
  error, or lets an exception escape from the event handler.
\<close>

datatype ('f, 's) decode_result =
    Need_More
  | Take_Frame 'f "byte list" 's
  | Destroy js_error
  | Escape js_error

datatype 's connection = Open 's "byte list" | Destroyed js_error | Escaped js_error

function drain :: "('s \<Rightarrow> byte list \<Rightarrow> ('f, 's) decode_result) \<Rightarrow> 's \<Rightarrow> byte list \<Rightarrow> 'f list \<times> 's connection" where
  "drain step s pending = (case step s pending of
       Need_More \<Rightarrow> ([], Open s pending)
     | Destroy e \<Rightarrow> ([], Destroyed e)
     | Escape e \<Rightarrow> ([], Escaped e)
     | Take_Frame f rest s' \<Rightarrow>
         if length rest < length pending
         then (case drain step s' rest of (fs, c) \<Rightarrow> (f # fs, c))
         else ([f], Open s' rest))"
  by pat_completeness auto
termination
  by (relation "measure (\<lambda>(_, _, pending). length pending)") auto

declare drain.simps [simp del]

fun feed :: "('s \<Rightarrow> byte list \<Rightarrow> ('f, 's) decode_result) \<Rightarrow> 's connection \<Rightarrow> byte list \<Rightarrow> 'f list \<times> 's connection" where
  "feed step (Open s pending) chunk = drain step s (pending @ chunk)"
| "feed step c chunk = ([], c)"

fun feed_all :: "('s \<Rightarrow> byte list \<Rightarrow> ('f, 's) decode_result) \<Rightarrow> 's connection \<Rightarrow> byte list list \<Rightarrow> 'f list \<times> 's connection" where
  "feed_all step c [] = ([], c)"
| "feed_all step c (chunk # chunks) =
     (case feed step c chunk of (fs, c') \<Rightarrow> (case feed_all step c' chunks of (gs, c'') \<Rightarrow> (fs @ gs, c'')))"

section \<open>Independence of the chunking\<close>

locale incremental_decoder =
  fixes step :: "'s \<Rightarrow> byte list \<Rightarrow> ('f, 's) decode_result"
  assumes take_append: "step s buf = Take_Frame f rest s' \<Longrightarrow> step s (buf @ more) = Take_Frame f (rest @ more) s'"
    and destroy_append: "step s buf = Destroy e \<Longrightarrow> step s (buf @ more) = Destroy e"
    and escape_append: "step s buf = Escape e \<Longrightarrow> step s (buf @ more) = Escape e"
    and take_shorter: "step s buf = Take_Frame f rest s' \<Longrightarrow> length rest < length buf"
    and empty_needs: "step s [] = Need_More"
begin

lemma drain_append:
  "drain step s (buf @ more) =
     (case drain step s buf of
        (fs, Open s' pending) \<Rightarrow> (case drain step s' (pending @ more) of (gs, c) \<Rightarrow> (fs @ gs, c))
      | (fs, c) \<Rightarrow> (fs, c))"
proof (induction "length buf" arbitrary: s buf rule: less_induct)
  case less
  show ?case
  proof (cases "step s buf")
    case Need_More
    then have "drain step s buf = ([], Open s buf)" by (simp add: drain.simps)
    then show ?thesis by (auto split: prod.splits)
  next
    case (Take_Frame f rest s')
    have "drain step s buf = (case drain step s' rest of (fs, c) \<Rightarrow> (f # fs, c))"
      using Take_Frame take_shorter [OF Take_Frame] by (subst drain.simps) simp
    moreover have "drain step s (buf @ more) = (case drain step s' (rest @ more) of (fs, c) \<Rightarrow> (f # fs, c))"
      using take_append [OF Take_Frame, of more] take_shorter [OF Take_Frame] by (subst drain.simps) simp
    ultimately show ?thesis
      using less [OF take_shorter [OF Take_Frame], of s'] by (auto split: prod.splits connection.splits)
  next
    case (Destroy e)
    then show ?thesis using destroy_append [OF Destroy] by (simp add: drain.simps)
  next
    case (Escape e)
    then show ?thesis using escape_append [OF Escape] by (simp add: drain.simps)
  qed
qed

lemma drain_idle: "drain step s buf = (fs, Open s' pending) \<Longrightarrow> drain step s' pending = ([], Open s' pending)"
proof (induction "length buf" arbitrary: s buf fs rule: less_induct)
  case less
  show ?case
  proof (cases "step s buf")
    case (Take_Frame f rest t)
    have "drain step s buf = (case drain step t rest of (fs, c) \<Rightarrow> (f # fs, c))"
      using Take_Frame take_shorter [OF Take_Frame] by (subst drain.simps) simp
    with less.prems obtain gs where "drain step t rest = (gs, Open s' pending)" by (auto split: prod.splits)
    then show ?thesis by (rule less.hyps [OF take_shorter [OF Take_Frame]])
  qed (use less.prems in \<open>auto simp: drain.simps\<close>)
qed

lemma feed_append: "feed step c (a @ b) =
    (case feed step c a of (fs, c') \<Rightarrow> (case feed step c' b of (gs, c'') \<Rightarrow> (fs @ gs, c'')))"
proof (cases c)
  case (Open s pending)
  then show ?thesis
    using drain_append [of s "pending @ a" b] by (auto split: prod.splits connection.splits)
qed auto

definition idle :: "'s connection \<Rightarrow> bool" where
  "idle c = (case c of Open s pending \<Rightarrow> drain step s pending = ([], c) | _ \<Rightarrow> True)"

lemma idle_start: "idle (Open s [])"
  by (simp add: idle_def drain.simps empty_needs)

lemma idle_feed: "feed step c chunk = (fs, c') \<Longrightarrow> idle c'"
proof (cases c)
  case (Open s pending)
  assume "feed step c chunk = (fs, c')"
  then show ?thesis using drain_idle [of s "pending @ chunk" fs] Open by (auto simp: idle_def split: connection.splits)
qed (auto simp: idle_def)

lemma feed_empty: "idle c \<Longrightarrow> feed step c [] = ([], c)"
  by (cases c) (auto simp: idle_def)

lemma feed_all_concat: "idle c \<Longrightarrow> feed_all step c chunks = feed step c (concat chunks)"
proof (induction chunks arbitrary: c)
  case Nil
  then show ?case by (simp add: feed_empty)
next
  case (Cons chunk chunks)
  have "idle (snd (feed step c chunk))" by (rule idle_feed [of c chunk "fst (feed step c chunk)"]) simp
  with Cons.IH show ?case by (auto simp: feed_append split: prod.splits)
qed

lemma chunking_irrelevant:
  "concat chunks = concat chunks' \<Longrightarrow> feed_all step (Open s []) chunks = feed_all step (Open s []) chunks'"
  by (simp add: feed_all_concat idle_start)

end

end
