(* ===== verification/RuntimeIpc.thy ===== *)
theory RuntimeIpc
  imports StreamDecoder
begin

text \<open>
  The runtime IPC protocol (\<^verbatim>\<open>packages/runtime-capability-ipc/src/index.ts\<close>): the framed handler
  channel \<^verbatim>\<open>KCML-RUNTIME-IPC/1\<close> with its encoder, its incremental decoder, the server and the
  multiplexing client. \<^verbatim>\<open>JSON.parse\<close> on bytes, the format checks of the schema library (UUID and
  date-time strings) and the parsing of dates are parameters; times are milliseconds. A socket is
  the bytes written to it; the events of the loop (a chunk, a timer, a close) are separate steps,
  so that they may come in any order.
\<close>

section \<open>Frames\<close>

datatype runtime_frame_type =
    HELLO | READY | REQUEST | RESPONSE | ERROR | STREAM_OPEN | STREAM_CHUNK | STREAM_CREDIT
  | STREAM_END | CANCEL | SHUTDOWN | HEARTBEAT

definition runtimeFrameType :: "(runtime_frame_type \<times> nat) list" where
  "runtimeFrameType = [(HELLO, 1), (READY, 2), (REQUEST, 3), (RESPONSE, 4), (ERROR, 5), (STREAM_OPEN, 6),
     (STREAM_CHUNK, 7), (STREAM_CREDIT, 8), (STREAM_END, 9), (CANCEL, 10), (SHUTDOWN, 11), (HEARTBEAT, 12)]"

record 'p runtime_frame =
  rf_type :: runtime_frame_type
  rf_flags :: int
  rf_sequence :: int
  rf_payload :: 'p

definition RUNTIME_IPC_MAGIC :: "byte list" where
  "RUNTIME_IPC_MAGIC = [75, 67, 82, 49]" \<comment> \<open>KCR1\<close>

definition RUNTIME_IPC_MAX_PAYLOAD :: nat where
  "RUNTIME_IPC_MAX_PAYLOAD = 1048576"

definition RUNTIME_IPC_MAX_STREAM_CHUNK :: nat where
  "RUNTIME_IPC_MAX_STREAM_CHUNK = 65536"

definition RUNTIME_IPC_HEADER_BYTES :: nat where
  "RUNTIME_IPC_HEADER_BYTES = 16"

definition RUNTIME_IPC_MAX_PENDING :: nat where
  "RUNTIME_IPC_MAX_PENDING = 32"

definition runtimePayloadBytes :: "collation \<Rightarrow> js_store \<Rightarrow> js_value runtime_frame \<Rightarrow> byte list outcome" where
  "runtimePayloadBytes le h frame =
     (if rf_type frame = STREAM_CHUNK then
        (case rf_payload frame of
           JBytes bs \<Rightarrow> if length bs > RUNTIME_IPC_MAX_STREAM_CHUNK then Inl (Plain_Error ''RUNTIME_PAYLOAD_TOO_LARGE'') else Inr bs
         | _ \<Rightarrow> Inl (Plain_Error ''RUNTIME_PROTOCOL_STREAM_CHUNK_INVALID''))
      else bindE (toCanonicalJsonValue le h (rf_payload frame)) (\<lambda>v. Inr (utf8 (canonicalJson le v))))"

text \<open>
  The header is the magic, the version 1, the frame type, the flags, the payload's length and the
  sequence number. \<^verbatim>\<open>writeUInt16BE\<close> throws a range error on flags that do not fit.
\<close>

definition frame_type_code :: "runtime_frame_type \<Rightarrow> nat" where
  "frame_type_code t = (case map_of runtimeFrameType t of Some n \<Rightarrow> n | None \<Rightarrow> 0)"

definition frame_header :: "runtime_frame_type \<Rightarrow> nat \<Rightarrow> nat \<Rightarrow> nat \<Rightarrow> byte list" where
  "frame_header t flags len seq =
     RUNTIME_IPC_MAGIC @ [1, of_nat (frame_type_code t)] @ be_bytes 2 flags @ be_bytes 4 len @ be_bytes 4 seq"

definition encodeRuntimeFrame :: "collation \<Rightarrow> js_store \<Rightarrow> js_value runtime_frame \<Rightarrow> byte list outcome" where
  "encodeRuntimeFrame le h frame =
     bindE (runtimePayloadBytes le h frame) (\<lambda>payload.
       if length payload > RUNTIME_IPC_MAX_PAYLOAD then Inl (Plain_Error ''RUNTIME_PAYLOAD_TOO_LARGE'')
       else if rf_sequence frame < 1 \<or> rf_sequence frame > 0xffffffff then Inl (Plain_Error ''RUNTIME_PROTOCOL_SEQUENCE_INVALID'')
       else if rf_flags frame < 0 \<or> rf_flags frame > 0xffff then Inl (Range_Error ''ERR_OUT_OF_RANGE'')
       else Inr (frame_header (rf_type frame) (nat (rf_flags frame)) (length payload) (nat (rf_sequence frame)) @ payload))"

record decoded_header =
  dh_frameType :: runtime_frame_type
  dh_flags :: nat
  dh_payloadLength :: nat
  dh_sequence :: nat

definition decodeRuntimeFrameHeader :: "byte list \<Rightarrow> decoded_header outcome" where
  "decodeRuntimeFrameHeader header =
     (if length header \<noteq> RUNTIME_IPC_HEADER_BYTES \<or> take 4 header \<noteq> RUNTIME_IPC_MAGIC \<or> header ! 4 \<noteq> 1
        then Inl (Plain_Error ''RUNTIME_PROTOCOL_INVALID_HEADER'')
      else (case find (\<lambda>(_, value). value = unat (header ! 5)) runtimeFrameType of
          None \<Rightarrow> Inl (Plain_Error ''RUNTIME_PROTOCOL_UNKNOWN_FRAME'')
        | Some (frameType, _) \<Rightarrow>
            let payloadLength = be_value (take 4 (drop 8 header)); sequence = be_value (take 4 (drop 12 header)) in
            if payloadLength > RUNTIME_IPC_MAX_PAYLOAD then Inl (Plain_Error ''RUNTIME_PAYLOAD_TOO_LARGE'')
            else if sequence < 1 then Inl (Plain_Error ''RUNTIME_PROTOCOL_SEQUENCE_INVALID'')
            else Inr \<lparr>dh_frameType = frameType, dh_flags = be_value (take 2 (drop 6 header)),
                   dh_payloadLength = payloadLength, dh_sequence = sequence\<rparr>))"

section \<open>The incremental decoder\<close>

datatype received_payload = Chunk "byte list" | Json cjson

type_synonym json_parser = "byte list \<Rightarrow> cjson option"

definition next_expected :: "nat \<Rightarrow> nat" where
  "next_expected n = (if n = 0xffffffff then 0 else n + 1)"

text \<open>
  One iteration of the loop in \<^verbatim>\<open>consumeRuntimeFrames\<close>; the state is \<^verbatim>\<open>expectedSequence\<close>, which is 0
  once the sequence numbers are used up.
\<close>

definition runtime_step ::
  "json_parser \<Rightarrow> nat \<Rightarrow> byte list \<Rightarrow> (received_payload runtime_frame, nat) decode_result" where
  "runtime_step json_parse expected pending =
     (if length pending < RUNTIME_IPC_HEADER_BYTES then Need_More
      else (case decodeRuntimeFrameHeader (take RUNTIME_IPC_HEADER_BYTES pending) of
          Inl e \<Rightarrow> Destroy e
        | Inr header \<Rightarrow>
            if expected = 0 then Destroy (Plain_Error ''RUNTIME_PROTOCOL_SEQUENCE_WRAP'')
            else if dh_sequence header \<noteq> expected then Destroy (Plain_Error ''RUNTIME_PROTOCOL_SEQUENCE_INVALID'')
            else if length pending < RUNTIME_IPC_HEADER_BYTES + dh_payloadLength header then Need_More
            else
              let body = take (dh_payloadLength header) (drop RUNTIME_IPC_HEADER_BYTES pending);
                  rest = drop (RUNTIME_IPC_HEADER_BYTES + dh_payloadLength header) pending;
                  received = (\<lambda>p. \<lparr>rf_type = dh_frameType header, rf_flags = int (dh_flags header),
                    rf_sequence = int (dh_sequence header), rf_payload = p\<rparr>) in
              if dh_frameType header = STREAM_CHUNK then Take_Frame (received (Chunk body)) rest (next_expected expected)
              else (case json_parse body of
                  None \<Rightarrow> Destroy (Plain_Error ''RUNTIME_PROTOCOL_INVALID_JSON'')
                | Some v \<Rightarrow> Take_Frame (received (Json v)) rest (next_expected expected))))"

definition consumeRuntimeFrames ::
  "json_parser \<Rightarrow> byte list list \<Rightarrow> received_payload runtime_frame list \<times> nat connection" where
  "consumeRuntimeFrames json_parse chunks = feed_all (runtime_step json_parse) (Open 1 []) chunks"

lemma runtime_step_take:
  assumes "runtime_step json_parse expected buf = Take_Frame f rest s'"
  obtains header where "RUNTIME_IPC_HEADER_BYTES + dh_payloadLength header \<le> length buf"
    and "rest = drop (RUNTIME_IPC_HEADER_BYTES + dh_payloadLength header) buf"
    and "decodeRuntimeFrameHeader (take RUNTIME_IPC_HEADER_BYTES buf) = Inr header"
    and "expected \<noteq> 0" "dh_sequence header = expected" "s' = next_expected expected"
    and "rf_sequence f = int expected"
  using assms
  by (auto simp: runtime_step_def Let_def not_less split: if_splits sum.splits option.splits)

interpretation runtime_decoder: incremental_decoder "runtime_step json_parse" for json_parse
proof
  fix s buf f rest s' more
  assume t: "runtime_step json_parse s buf = Take_Frame f rest s'"
  then show "runtime_step json_parse s (buf @ more) = Take_Frame f (rest @ more) s'"
    by (auto simp: runtime_step_def Let_def split: if_splits sum.splits option.splits)
  from t show "length rest < length buf"
    by (rule runtime_step_take) (auto simp: RUNTIME_IPC_HEADER_BYTES_def)
next
  fix s buf e more
  assume "runtime_step json_parse s buf = Destroy e"
  then show "runtime_step json_parse s (buf @ more) = Destroy e"
    by (auto simp: runtime_step_def Let_def split: if_splits sum.splits option.splits)
next
  fix s buf e more
  assume "runtime_step json_parse s buf = Escape e"
  then show "runtime_step json_parse s (buf @ more) = Escape e"
    by (auto simp: runtime_step_def Let_def split: if_splits sum.splits option.splits)
qed (simp add: runtime_step_def RUNTIME_IPC_HEADER_BYTES_def)

section \<open>Round trip\<close>

lemma frame_type_code_bounds: "0 < frame_type_code t \<and> frame_type_code t < 256"
  by (cases t) (simp_all add: frame_type_code_def runtimeFrameType_def)

lemma find_frame_type: "find (\<lambda>(_, value). value = frame_type_code t) runtimeFrameType = Some (t, frame_type_code t)"
  by (cases t) (simp_all add: frame_type_code_def runtimeFrameType_def)

lemma length_frame_header: "length (frame_header t flags len seq) = RUNTIME_IPC_HEADER_BYTES"
  by (simp add: frame_header_def RUNTIME_IPC_MAGIC_def RUNTIME_IPC_HEADER_BYTES_def)

lemma decode_frame_header:
  assumes "flags < 65536" and "len \<le> RUNTIME_IPC_MAX_PAYLOAD" and "0 < seq" and "seq \<le> 0xffffffff"
  shows "decodeRuntimeFrameHeader (frame_header t flags len seq) =
    Inr \<lparr>dh_frameType = t, dh_flags = flags, dh_payloadLength = len, dh_sequence = seq\<rparr>"
proof -
  have v: "be_value (be_bytes 2 flags) = flags" "be_value (be_bytes 4 len) = len" "be_value (be_bytes 4 seq) = seq"
    using assms by (simp_all add: be_value_bytes RUNTIME_IPC_MAX_PAYLOAD_def)
  have parts: "take 4 (frame_header t flags len seq) = RUNTIME_IPC_MAGIC" "frame_header t flags len seq ! 4 = 1"
    "frame_header t flags len seq ! 5 = of_nat (frame_type_code t)"
    "take 2 (drop 6 (frame_header t flags len seq)) = be_bytes 2 flags"
    "take 4 (drop 8 (frame_header t flags len seq)) = be_bytes 4 len"
    "take 4 (drop 12 (frame_header t flags len seq)) = be_bytes 4 seq"
    by (simp_all add: frame_header_def RUNTIME_IPC_MAGIC_def nth_append)
  have "unat (of_nat (frame_type_code t) :: byte) = frame_type_code t"
    using frame_type_code_bounds [of t] by (simp add: unat_of_nat)
  then show ?thesis
    unfolding decodeRuntimeFrameHeader_def parts using assms v find_frame_type [of t] length_frame_header
    by (simp add: Let_def)
qed

definition received :: "json_parser \<Rightarrow> collation \<Rightarrow> js_store \<Rightarrow> js_value runtime_frame \<Rightarrow> received_payload runtime_frame" where
  "received json_parse le h f = \<lparr>rf_type = rf_type f, rf_flags = rf_flags f, rf_sequence = rf_sequence f,
     rf_payload = (case runtimePayloadBytes le h f of Inl _ \<Rightarrow> Chunk []
       | Inr bs \<Rightarrow> if rf_type f = STREAM_CHUNK then Chunk bs
           else (case json_parse bs of None \<Rightarrow> Chunk [] | Some v \<Rightarrow> Json v))\<rparr>"

definition parses :: "json_parser \<Rightarrow> collation \<Rightarrow> js_store \<Rightarrow> js_value runtime_frame \<Rightarrow> bool" where
  "parses json_parse le h f = (rf_type f = STREAM_CHUNK
     \<or> (case runtimePayloadBytes le h f of Inl _ \<Rightarrow> False | Inr bs \<Rightarrow> json_parse bs \<noteq> None))"

lemma runtime_step_encoded:
  assumes "encodeRuntimeFrame le h f = Inr bs" and "parses json_parse le h f"
    and "rf_sequence f = int expected"
  shows "runtime_step json_parse expected (bs @ xs) = Take_Frame (received json_parse le h f) xs (next_expected expected)"
proof -
  from assms(1,3) obtain payload where p: "runtimePayloadBytes le h f = Inr payload"
      "length payload \<le> RUNTIME_IPC_MAX_PAYLOAD" "1 \<le> expected" "expected \<le> 0xffffffff"
      "0 \<le> rf_flags f" "rf_flags f \<le> 0xffff"
      "bs = frame_header (rf_type f) (nat (rf_flags f)) (length payload) expected @ payload"
    by (auto simp: encodeRuntimeFrame_def bindE_Inr_iff split: if_splits)
  let ?hd = "frame_header (rf_type f) (nat (rf_flags f)) (length payload) expected"
  have hd: "decodeRuntimeFrameHeader ?hd = Inr \<lparr>dh_frameType = rf_type f, dh_flags = nat (rf_flags f),
      dh_payloadLength = length payload, dh_sequence = expected\<rparr>"
    using p by (intro decode_frame_header) auto
  have "take RUNTIME_IPC_HEADER_BYTES (bs @ xs) = ?hd" "drop RUNTIME_IPC_HEADER_BYTES (bs @ xs) = payload @ xs"
    "length (bs @ xs) = RUNTIME_IPC_HEADER_BYTES + length payload + length xs"
    "drop (RUNTIME_IPC_HEADER_BYTES + length payload) (bs @ xs) = xs"
    using p(7) length_frame_header [of "rf_type f" "nat (rf_flags f)" "length payload" expected] by simp_all
  then show ?thesis
    unfolding runtime_step_def using hd p assms(2,3)
    by (auto simp: Let_def received_def parses_def split: option.splits)
qed

lemma drain_encoded:
  "list_all2 (\<lambda>f bs. encodeRuntimeFrame le h f = Inr bs) fs bss \<Longrightarrow> \<forall>f \<in> set fs. parses json_parse le h f
   \<Longrightarrow> map rf_sequence fs = map int [n..<n + length fs] \<Longrightarrow> 1 \<le> n \<Longrightarrow> n + length fs \<le> 0xffffffff
   \<Longrightarrow> drain (runtime_step json_parse) n (concat bss) = (map (received json_parse le h) fs, Open (n + length fs) [])"
proof (induction fs bss arbitrary: n rule: list_all2_induct)
  case Nil
  then show ?case by (simp add: drain.simps runtime_step_def RUNTIME_IPC_HEADER_BYTES_def)
next
  case (Cons f fs bs bss)
  have "[n..<n + length (f # fs)] = n # [Suc n..<Suc n + length fs]" by (simp add: upt_conv_Cons del: upt_Suc)
  with Cons.prems(2) have seq: "rf_sequence f = int n" "map rf_sequence fs = map int [Suc n..<Suc n + length fs]"
    by (simp_all del: upt_Suc)
  from runtime_step_encoded [OF Cons.hyps(1) _ seq(1), of json_parse "concat bss"] Cons.prems(1)
  have step: "runtime_step json_parse n (bs @ concat bss)
      = Take_Frame (received json_parse le h f) (concat bss) (next_expected n)" by simp
  have "next_expected n = Suc n" using Cons.prems(4) by (simp add: next_expected_def)
  moreover have "length (concat bss) < length (bs @ concat bss)"
    using step runtime_decoder.take_shorter by blast
  ultimately show ?case
    using Cons.IH [OF _ seq(2)] Cons.prems step by (simp add: drain.simps [of _ n])
qed



end
