(* ===== verification/CapabilityChannel.thy ===== *)
theory CapabilityChannel
  imports RuntimeIpc "HOL-Library.Multiset"
begin

text \<open>
  The two ends of the handler channel (\<^verbatim>\<open>packages/runtime-capability-ipc/src/index.ts\<close>,
  \<^verbatim>\<open>createCapabilityFdServer\<close> and \<^verbatim>\<open>RuntimeCapabilityClient\<close>). The server handles the frames of its
  queue one at a time; the client multiplexes calls over one socket. Each event of the client (a
  call, a response, a timer, a failed write, a close) is one function on its state and one rule of
  the step relation. A call is numbered when its promise is created, so that reuse of a request
  identifier is visible.
\<close>

section \<open>Message schemas\<close>

record runtime_request =
  rq_requestId :: string
  rq_operation :: string
  rq_capabilityAlias :: "string option"
  rq_deadlineAt :: string
  rq_cancellationVersion :: int
  rq_correlationId :: string
  rq_payload :: "cjson option"

record formats =
  is_uuid :: "string \<Rightarrow> bool"
  is_datetime :: "string \<Rightarrow> bool"
  date_ms :: "string \<Rightarrow> int option" \<comment> \<open>\<open>new Date(text).getTime()\<close>, None for NaN\<close>

fun as_str :: "cjson option \<Rightarrow> string option" where
  "as_str (Some (CStr s)) = Some s"
| "as_str _ = None"

definition runtimeCapabilityRequestSchema :: "formats \<Rightarrow> cjson \<Rightarrow> runtime_request outcome" where
  "runtimeCapabilityRequestSchema fm v = (case v of
     CObj es \<Rightarrow>
       (case (as_str (map_of es ''requestId''), as_str (map_of es ''operation''), map_of es ''capabilityAlias'',
              as_str (map_of es ''deadlineAt''), map_of es ''cancellationVersion'', as_str (map_of es ''correlationId'')) of
          (Some requestId, Some operation, Some alias, Some deadlineAt, Some (CNum (JInt version)), Some correlationId) \<Rightarrow>
            if is_uuid fm requestId
              \<and> operation \<in> set [''secret'', ''callComponent'', ''callExternal'', ''state'', ''logger'', ''runtime'']
              \<and> (case alias of CNull \<Rightarrow> True | CStr a \<Rightarrow> 1 \<le> length a \<and> length a \<le> 256 | _ \<Rightarrow> False)
              \<and> is_datetime fm deadlineAt \<and> 0 \<le> version \<and> is_uuid fm correlationId
              \<and> fst ` set es \<subseteq> set [''requestId'', ''operation'', ''capabilityAlias'', ''deadlineAt'',
                    ''cancellationVersion'', ''correlationId'', ''payload'']
            then Inr \<lparr>rq_requestId = requestId, rq_operation = operation, rq_capabilityAlias = as_str (Some alias),
                   rq_deadlineAt = deadlineAt, rq_cancellationVersion = version, rq_correlationId = correlationId,
                   rq_payload = map_of es ''payload''\<rparr>
            else Inl Zod_Error
        | _ \<Rightarrow> Inl Zod_Error)
   | _ \<Rightarrow> Inl Zod_Error)"

definition cancelSchema :: "formats \<Rightarrow> cjson \<Rightarrow> string outcome" where
  "cancelSchema fm v = (case v of
     CObj [(k, CStr s)] \<Rightarrow> if k = ''requestId'' \<and> is_uuid fm s then Inr s else Inl Zod_Error
   | _ \<Rightarrow> Inl Zod_Error)"

definition responseSchema :: "formats \<Rightarrow> cjson \<Rightarrow> (string \<times> cjson option \<times> string option) outcome" where
  "responseSchema fm v = (case v of
     CObj es \<Rightarrow> (case as_str (map_of es ''requestId'') of
         Some rid \<Rightarrow>
           if is_uuid fm rid \<and> fst ` set es \<subseteq> set [''requestId'', ''payload'', ''error'']
             \<and> (map_of es ''error'' = None \<or> as_str (map_of es ''error'') \<noteq> None)
           then Inr (rid, map_of es ''payload'', as_str (map_of es ''error'')) else Inl Zod_Error
       | None \<Rightarrow> Inl Zod_Error)
   | _ \<Rightarrow> Inl Zod_Error)"

definition frame_json :: "received_payload runtime_frame \<Rightarrow> cjson outcome" where
  "frame_json f = (case rf_payload f of Json v \<Rightarrow> Inr v | Chunk _ \<Rightarrow> Inl Zod_Error)"

section \<open>The server\<close>

record fd_server =
  sv_responseSequence :: int
  sv_cancelled :: "string list"
  sv_written :: "byte list list"
  sv_errors :: "js_error list" \<comment> \<open>what \<open>socket.destroy\<close> was called with, in order\<close>

definition fd_server_init :: fd_server where
  "fd_server_init = \<lparr>sv_responseSequence = 1, sv_cancelled = [], sv_written = [], sv_errors = []\<rparr>"

type_synonym request_handler = "runtime_request \<Rightarrow> (js_store \<times> js_value) outcome"

definition response_frame :: "int \<Rightarrow> nat \<Rightarrow> js_value runtime_frame" where
  "response_frame seq a = \<lparr>rf_type = RESPONSE, rf_flags = 0, rf_sequence = seq, rf_payload = JRef a\<rparr>"

definition response_store :: "string \<Rightarrow> js_store \<Rightarrow> js_value \<Rightarrow> js_store" where
  "response_store rid h v = h @ [OPlain [(''requestId'', JStr rid), (''payload'', v)]]"

text \<open>
  The callback that \<^verbatim>\<open>createCapabilityFdServer\<close> hands to \<^verbatim>\<open>consumeRuntimeFrames\<close>, with the state it
  leaves also when it throws; \<^verbatim>\<open>responseSequence++\<close> happens before the frame is encoded.
\<close>

definition fd_server_frame ::
  "formats \<Rightarrow> collation \<Rightarrow> request_handler \<Rightarrow> fd_server \<Rightarrow> received_payload runtime_frame \<Rightarrow> fd_server \<times> unit outcome" where
  "fd_server_frame fm le handler sv f =
     (if rf_type f = CANCEL then
        (case bindE (frame_json f) (cancelSchema fm) of
           Inl e \<Rightarrow> (sv, Inl e)
         | Inr rid \<Rightarrow> (sv\<lparr>sv_cancelled := rid # removeAll rid (sv_cancelled sv)\<rparr>, Inr ()))
      else if rf_type f \<noteq> REQUEST then (sv, Inl (Plain_Error ''RUNTIME_PROTOCOL_UNEXPECTED_FRAME''))
      else (case bindE (frame_json f) (runtimeCapabilityRequestSchema fm) of
          Inl e \<Rightarrow> (sv, Inl e)
        | Inr request \<Rightarrow> (case handler request of
            Inl e \<Rightarrow> (sv, Inl e)
          | Inr (h, v) \<Rightarrow>
              if rq_requestId request \<in> set (sv_cancelled sv)
              then (sv\<lparr>sv_cancelled := removeAll (rq_requestId request) (sv_cancelled sv)\<rparr>, Inr ())
              else
                let sv' = sv\<lparr>sv_responseSequence := sv_responseSequence sv + 1\<rparr> in
                (case encodeRuntimeFrame le (response_store (rq_requestId request) h v)
                     (response_frame (sv_responseSequence sv) (length h)) of
                   Inl e \<Rightarrow> (sv', Inl e)
                 | Inr bytes \<Rightarrow> (sv'\<lparr>sv_written := sv_written sv @ [bytes]\<rparr>, Inr ())))))"

text \<open>
  The queue \<^verbatim>\<open>handling.then(() => onFrame(frame)).catch(...)\<close>: a frame is handled after the previous
  ones, and a failure destroys the socket and lets the queue go on.
\<close>

definition fd_server_handle ::
  "formats \<Rightarrow> collation \<Rightarrow> request_handler \<Rightarrow> fd_server \<Rightarrow> received_payload runtime_frame \<Rightarrow> fd_server" where
  "fd_server_handle fm le handler sv f = (case fd_server_frame fm le handler sv f of
     (sv', Inl e) \<Rightarrow> sv'\<lparr>sv_errors := sv_errors sv' @ [e]\<rparr> | (sv', Inr _) \<Rightarrow> sv')"

definition createCapabilityFdServer ::
  "formats \<Rightarrow> collation \<Rightarrow> request_handler \<Rightarrow> received_payload runtime_frame list \<Rightarrow> fd_server" where
  "createCapabilityFdServer fm le handler frames = foldl (fd_server_handle fm le handler) fd_server_init frames"

section \<open>The client\<close>

type_synonym settlement = "js_error + cjson option"

record rt_client =
  cl_pending :: "(string \<times> nat) list" \<comment> \<open>request identifier to call number\<close>
  cl_cancelled :: "string list"
  cl_sequence :: int
  cl_closed :: bool
  cl_maxPending :: nat
  cl_written :: "byte list list"
  cl_calls :: nat \<comment> \<open>promises created so far\<close>
  cl_settled :: "(nat \<times> settlement) list" \<comment> \<open>promises settled so far\<close>

definition rt_client_init :: "nat \<Rightarrow> rt_client" where
  "rt_client_init maxPending = \<lparr>cl_pending = [], cl_cancelled = [], cl_sequence = 1, cl_closed = False,
     cl_maxPending = maxPending, cl_written = [], cl_calls = 0, cl_settled = []\<rparr>"

definition client_frame :: "runtime_frame_type \<Rightarrow> int \<Rightarrow> nat \<Rightarrow> js_value runtime_frame" where
  "client_frame t seq a = \<lparr>rf_type = t, rf_flags = 0, rf_sequence = seq, rf_payload = JRef a\<rparr>"

text \<open>
  \<^verbatim>\<open>write\<close> up to the point where the bytes are handed to the socket. The payload is the object at
  the last address of the store.
\<close>

definition client_write ::
  "collation \<Rightarrow> runtime_frame_type \<Rightarrow> js_store \<Rightarrow> nat \<Rightarrow> rt_client \<Rightarrow> rt_client \<times> unit outcome" where
  "client_write le t h a cl =
     (if cl_sequence cl > 0xffffffff then (cl, Inl (Plain_Error ''RUNTIME_PROTOCOL_SEQUENCE_WRAP''))
      else let cl' = cl\<lparr>cl_sequence := cl_sequence cl + 1\<rparr> in
        (case encodeRuntimeFrame le h (client_frame t (cl_sequence cl) a) of
           Inl e \<Rightarrow> (cl', Inl e)
         | Inr bytes \<Rightarrow> (cl'\<lparr>cl_written := cl_written cl @ [bytes]\<rparr>, Inr ())))"

definition settle :: "string \<Rightarrow> settlement \<Rightarrow> rt_client \<Rightarrow> rt_client" where
  "settle rid s cl = (case jm_get (cl_pending cl) rid of
     None \<Rightarrow> cl
   | Some call \<Rightarrow> cl\<lparr>cl_pending := jm_delete rid (cl_pending cl), cl_settled := cl_settled cl @ [(call, s)]\<rparr>)"

text \<open>
  \<^verbatim>\<open>invoke\<close> on a request object at address \<open>a\<close> of the store \<open>h\<close>, whose fields are \<open>req\<close> when the
  schema accepts it. A refused call throws; an accepted one has created a promise, and a failing
  write rejects that promise.
\<close>

definition client_invoke ::
  "formats \<Rightarrow> collation \<Rightarrow> js_store \<Rightarrow> nat \<Rightarrow> runtime_request outcome \<Rightarrow> int \<Rightarrow> rt_client \<Rightarrow> rt_client \<times> unit outcome" where
  "client_invoke fm le h a parsed now cl =
     (if cl_closed cl then (cl, Inl (Plain_Error ''RUNTIME_CHANNEL_CLOSED''))
      else (case parsed of
          Inl e \<Rightarrow> (cl, Inl e)
        | Inr req \<Rightarrow>
            if jm_has (cl_pending cl) (rq_requestId req) then (cl, Inl (Plain_Error ''RUNTIME_DUPLICATE_REQUEST_ID''))
            else if length (cl_pending cl) \<ge> cl_maxPending cl then (cl, Inl (Plain_Error ''RUNTIME_STREAM_BACKPRESSURE''))
            else if (case date_ms fm (rq_deadlineAt req) of None \<Rightarrow> True | Some d \<Rightarrow> d \<le> now)
              then (cl, Inl (Plain_Error ''RUNTIME_DEADLINE_EXCEEDED''))
            else
              let cl1 = cl\<lparr>cl_pending := jm_set (rq_requestId req) (cl_calls cl) (cl_pending cl), cl_calls := cl_calls cl + 1\<rparr> in
              (case client_write le REQUEST h a cl1 of
                 (cl2, Inl e) \<Rightarrow> (settle (rq_requestId req) (Inl e) cl2, Inr ())
               | (cl2, Inr _) \<Rightarrow> (cl2, Inr ()))))"

text \<open>The \<^verbatim>\<open>catch\<close> of \<^verbatim>\<open>invoke\<close> when the socket fails while the write waits for \<^verbatim>\<open>drain\<close>.\<close>

definition client_drain_failed :: "string \<Rightarrow> js_error \<Rightarrow> rt_client \<Rightarrow> rt_client" where
  "client_drain_failed rid e cl = settle rid (Inl e) cl"

text \<open>The callback of the call's timer, which exists only while the call is pending.\<close>

definition client_timeout :: "collation \<Rightarrow> string \<Rightarrow> rt_client \<Rightarrow> rt_client" where
  "client_timeout le rid cl =
     (if jm_has (cl_pending cl) rid then
        (let cl1 = settle rid (Inl (Plain_Error ''RUNTIME_DEADLINE_EXCEEDED'')) cl;
             cl2 = cl1\<lparr>cl_cancelled := rid # removeAll rid (cl_cancelled cl1)\<rparr> in
         fst (client_write le CANCEL [OPlain [(''requestId'', JStr rid)]] 0 cl2))
      else cl)"

definition client_response ::
  "formats \<Rightarrow> received_payload runtime_frame \<Rightarrow> rt_client \<Rightarrow> rt_client \<times> unit outcome" where
  "client_response fm f cl =
     (if rf_type f \<noteq> RESPONSE \<and> rf_type f \<noteq> ERROR then (cl, Inl (Plain_Error ''RUNTIME_PROTOCOL_UNEXPECTED_FRAME''))
      else (case bindE (frame_json f) (responseSchema fm) of
          Inl e \<Rightarrow> (cl, Inl e)
        | Inr (rid, payload, error) \<Rightarrow>
            if \<not> jm_has (cl_pending cl) rid then
              (if rid \<in> set (cl_cancelled cl) then (cl\<lparr>cl_cancelled := removeAll rid (cl_cancelled cl)\<rparr>, Inr ())
               else (cl, Inl (Plain_Error ''RUNTIME_PROTOCOL_REQUEST_MISMATCH'')))
            else (settle rid (if rf_type f = ERROR
                then Inl (Plain_Error (case error of None \<Rightarrow> ''RUNTIME_REMOTE_ERROR'' | Some msg \<Rightarrow> msg))
                else Inr payload) cl, Inr ())))"

definition client_close :: "js_error \<Rightarrow> rt_client \<Rightarrow> rt_client" where
  "client_close e cl =
     (if cl_closed cl then cl
      else cl\<lparr>cl_closed := True, cl_settled := cl_settled cl @ map (\<lambda>(_, call). (call, Inl e)) (cl_pending cl),
             cl_pending := [], cl_cancelled := []\<rparr>)"

inductive client_step :: "formats \<Rightarrow> collation \<Rightarrow> rt_client \<Rightarrow> rt_client \<Rightarrow> bool" for fm le where
  step_invoke: "client_invoke fm le h a parsed now cl = (cl', r) \<Longrightarrow> client_step fm le cl cl'"
| step_drain_failed: "client_step fm le cl (client_drain_failed rid e cl)"
| step_timeout: "client_step fm le cl (client_timeout le rid cl)"
| step_response: "client_response fm f cl = (cl', r) \<Longrightarrow> client_step fm le cl cl'"
| step_close: "client_step fm le cl (client_close e cl)"

section \<open>Every call settles exactly once\<close>

lemma mset_jm_delete:
  assumes "jm_wf m" and "jm_get m k = Some c"
  shows "mset (map snd m) = add_mset c (mset (map snd (jm_delete k m)))"
  using assms
proof (induction m)
  case (Cons p m)
  obtain k' c' where p: "p = (k', c')" by (cases p)
  show ?case
  proof (cases "k' = k")
    case True
    with Cons.prems p have "k \<notin> fst ` set m" by (auto simp: jm_wf_def)
    then have "jm_delete k m = m" by (induction m) (auto simp: jm_delete_def)
    with True Cons.prems p show ?thesis by (simp add: jm_get_def jm_delete_def)
  next
    case False
    with Cons p show ?thesis by (auto simp: jm_get_def jm_wf_def jm_delete_def)
  qed
qed (simp add: jm_get_def)

lemma length_jm_delete: "length (jm_delete k m) \<le> length m"
  by (simp add: jm_delete_def)

definition client_inv :: "rt_client \<Rightarrow> bool" where
  "client_inv cl = (jm_wf (cl_pending cl) \<and> length (cl_pending cl) \<le> cl_maxPending cl
     \<and> mset (map snd (cl_pending cl) @ map fst (cl_settled cl)) = mset [0..<cl_calls cl]
     \<and> int (length (cl_written cl)) < cl_sequence cl \<and> cl_sequence cl \<le> 2 ^ 32
     \<and> (cl_closed cl \<longrightarrow> cl_pending cl = []))"

lemma client_inv_init: "client_inv (rt_client_init n)"
  by (simp add: client_inv_def rt_client_init_def jm_wf_def)

lemma client_write_inv: "client_inv cl \<Longrightarrow> client_write le t h a cl = (cl', r) \<Longrightarrow> client_inv cl'"
  by (auto simp: client_write_def client_inv_def Let_def split: if_splits sum.splits)

lemma settle_inv: "client_inv cl \<Longrightarrow> client_inv (settle rid s cl)"
proof (cases "jm_get (cl_pending cl) rid")
  case (Some call)
  assume inv: "client_inv cl"
  have "mset (map snd (cl_pending cl)) = add_mset call (mset (map snd (jm_delete rid (cl_pending cl))))"
    using inv Some by (intro mset_jm_delete) (auto simp: client_inv_def)
  with inv Some length_jm_delete [of rid "cl_pending cl"] show ?thesis
    by (auto simp: settle_def client_inv_def jm_wf_delete)
qed (simp add: settle_def)

lemma client_invoke_inv:
  assumes "client_inv cl" and "client_invoke fm le h a parsed now cl = (cl', r)"
  shows "client_inv cl'"
proof (cases "cl' = cl")
  case False
  with assms(2) obtain req cl2 r2 where acc: "\<not> cl_closed cl" "parsed = Inr req" "\<not> jm_has (cl_pending cl) (rq_requestId req)"
      "length (cl_pending cl) < cl_maxPending cl"
    and w: "client_write le REQUEST h a
        (cl\<lparr>cl_pending := jm_set (rq_requestId req) (cl_calls cl) (cl_pending cl), cl_calls := cl_calls cl + 1\<rparr>) = (cl2, r2)"
    and res: "cl' = cl2 \<or> (\<exists>e. cl' = settle (rq_requestId req) (Inl e) cl2)"
    by (auto simp: client_invoke_def Let_def not_le split: if_splits sum.splits prod.splits option.splits)
  have "client_inv (cl\<lparr>cl_pending := jm_set (rq_requestId req) (cl_calls cl) (cl_pending cl), cl_calls := cl_calls cl + 1\<rparr>)"
    using assms(1) acc jm_wf_set [of "cl_pending cl" "rq_requestId req" "cl_calls cl"]
    by (auto simp: client_inv_def jm_set_fresh)
  from client_write_inv [OF this w] res settle_inv show ?thesis by blast
qed (use assms(1) in simp)

lemma client_timeout_inv: "client_inv cl \<Longrightarrow> client_inv (client_timeout le rid cl)"
proof -
  assume inv: "client_inv cl"
  let ?cl1 = "settle rid (Inl (Plain_Error ''RUNTIME_DEADLINE_EXCEEDED'')) cl"
  have "client_inv (?cl1\<lparr>cl_cancelled := x\<rparr>)" for x
    using settle_inv [OF inv] by (simp add: client_inv_def)
  then show ?thesis
    unfolding client_timeout_def Let_def using inv client_write_inv [OF _ surjective_pairing] by auto
qed

lemma client_response_inv: "client_inv cl \<Longrightarrow> client_response fm f cl = (cl', r) \<Longrightarrow> client_inv cl'"
  using settle_inv [of cl]
  by (auto simp: client_response_def client_inv_def simp del: mset_map split: if_splits sum.splits prod.splits)

lemma client_close_inv: "client_inv cl \<Longrightarrow> client_inv (client_close e cl)"
  by (auto simp: client_close_def client_inv_def jm_wf_def image_mset.compositionality o_def case_prod_unfold ac_simps)

lemma client_step_inv: "client_step fm le cl cl' \<Longrightarrow> client_inv cl \<Longrightarrow> client_inv cl'"
  by (induction rule: client_step.induct)
    (auto intro: client_invoke_inv client_timeout_inv client_response_inv client_close_inv settle_inv
      simp: client_drain_failed_def)

interpretation client_system: transition_system "\<lambda>cl. \<exists>n. cl = rt_client_init n" "client_step fm le" for fm le .

lemma client_reach_inv: "client_system.reach fm le cl \<Longrightarrow> client_inv cl"
  by (rule client_system.invariant_rule [of client_inv fm le]) (auto intro: client_inv_init client_step_inv)

lemma mset_upt_partition:
  assumes "mset (xs @ ys) = mset [0..<n]"
  shows "distinct xs" "distinct ys" "set xs \<inter> set ys = {}" "set xs \<union> set ys = {..<n}"
proof -
  from mset_eq_imp_distinct_iff [OF assms] have "distinct (xs @ ys)" by simp
  then show "distinct xs" "distinct ys" "set xs \<inter> set ys = {}" by auto
  from mset_eq_setD [OF assms] show "set xs \<union> set ys = {..<n}" by auto
qed

text \<open>
  C15. In every reachable state of the multiplexing client, whatever the order of calls, responses,
  timers, failed writes and closes: each call that created a promise is either still pending or has
  been settled, never both, and is settled at most once; the calls in flight never exceed the
  limit; and once the client is closed every call has been settled.
\<close>

theorem client_settles_once:
  assumes "client_system.reach fm le cl"
  shows "distinct (map fst (cl_settled cl)) \<and> length (cl_pending cl) \<le> cl_maxPending cl
    \<and> snd ` set (cl_pending cl) \<inter> fst ` set (cl_settled cl) = {}
    \<and> snd ` set (cl_pending cl) \<union> fst ` set (cl_settled cl) = {..<cl_calls cl}
    \<and> (cl_closed cl \<longrightarrow> fst ` set (cl_settled cl) = {..<cl_calls cl})"
  using client_reach_inv [OF assms] mset_upt_partition [of "map snd (cl_pending cl)" "map fst (cl_settled cl)" "cl_calls cl"]
  by (auto simp: client_inv_def simp del: mset_map)

text \<open>
  A call whose request object does not convert or does not fit the payload limit uses up a
  sequence number without sending a frame, so the next frame leaves a gap: the receiver destroys
  the channel on it, and every later call of the client is lost with it.
\<close>

theorem failed_encoding_breaks_channel:
  assumes "client_write le t h a (rt_client_init n) = (cl1, Inl e)"
    and "client_write le t' h' a' cl1 = (cl2, Inr ())"
  shows "consumeRuntimeFrames json_parse (cl_written cl2) = ([], Destroyed (Plain_Error ''RUNTIME_PROTOCOL_SEQUENCE_INVALID''))"
proof -
  from assms(1) have cl1: "cl_sequence cl1 = 2" "cl_written cl1 = []"
    by (auto simp: client_write_def rt_client_init_def Let_def split: if_splits sum.splits)
  with assms(2) obtain bytes where b: "encodeRuntimeFrame le h' (client_frame t' 2 a') = Inr bytes" "cl_written cl2 = [bytes]"
    by (auto simp: client_write_def Let_def split: if_splits sum.splits)
  from b(1) obtain payload where p: "length payload \<le> RUNTIME_IPC_MAX_PAYLOAD" "bytes = frame_header t' 0 (length payload) 2 @ payload"
    by (auto simp: encodeRuntimeFrame_def client_frame_def bindE_Inr_iff not_less split: if_splits)
  have "decodeRuntimeFrameHeader (frame_header t' 0 (length payload) 2) =
      Inr \<lparr>dh_frameType = t', dh_flags = 0, dh_payloadLength = length payload, dh_sequence = 2\<rparr>"
    using p(1) by (intro decode_frame_header) simp_all
  then have "runtime_step json_parse 1 bytes = Destroy (Plain_Error ''RUNTIME_PROTOCOL_SEQUENCE_INVALID'')"
    using p(2) length_frame_header [of t' 0 "length payload" 2] by (simp add: runtime_step_def)
  with b(2) show ?thesis
    by (simp add: consumeRuntimeFrames_def drain.simps)
qed

theorem failed_encoding_breaks_channel_witness:
  "\<exists>cl1 cl2 e. client_write code_unit_le REQUEST [OPlain [(''payload'', JUndefined)]] 0 (rt_client_init 32) = (cl1, Inl e)
    \<and> client_write code_unit_le REQUEST [OPlain []] 0 cl1 = (cl2, Inr ())
    \<and> snd (consumeRuntimeFrames (\<lambda>_. None) (cl_written cl2)) = Destroyed (Plain_Error ''RUNTIME_PROTOCOL_SEQUENCE_INVALID'')"
proof -
  have conv: "toCanonicalJsonValue code_unit_le [OPlain [(''payload'', JUndefined)]] (JRef 0)
      = Inl (Json_Conversion_Error ''$.payload'' ''undefined'')" "toCanonicalJsonValue code_unit_le [OPlain []] (JRef 0) = Inr (CObj [])"
    by code_simp+
  obtain cl1 e where w1: "client_write code_unit_le REQUEST [OPlain [(''payload'', JUndefined)]] 0 (rt_client_init 32) = (cl1, Inl e)"
      "cl_sequence cl1 = 2"
    by (simp add: client_write_def rt_client_init_def encodeRuntimeFrame_def runtimePayloadBytes_def client_frame_def conv)
  obtain cl2 where w2: "client_write code_unit_le REQUEST [OPlain []] 0 cl1 = (cl2, Inr ())"
    using w1(2) by (simp add: client_write_def encodeRuntimeFrame_def runtimePayloadBytes_def client_frame_def conv
      object_entries_def utf8_def utf8_char_def RUNTIME_IPC_MAX_PAYLOAD_def)
  from failed_encoding_breaks_channel [OF w1(1) w2, of "\<lambda>_. None"] w1 w2 show ?thesis by auto
qed

section \<open>Cancellation at the server\<close>

definition request_id :: "formats \<Rightarrow> received_payload runtime_frame \<Rightarrow> string option" where
  "request_id fm f = (if rf_type f = REQUEST then
     (case bindE (frame_json f) (runtimeCapabilityRequestSchema fm) of Inl _ \<Rightarrow> None | Inr req \<Rightarrow> Some (rq_requestId req)) else None)"

definition cancel_id :: "formats \<Rightarrow> received_payload runtime_frame \<Rightarrow> string option" where
  "cancel_id fm f = (if rf_type f = CANCEL then
     (case bindE (frame_json f) (cancelSchema fm) of Inl _ \<Rightarrow> None | Inr rid \<Rightarrow> Some rid) else None)"

fun cancels_follow_requests :: "formats \<Rightarrow> received_payload runtime_frame list \<Rightarrow> bool" where
  "cancels_follow_requests fm [] = True"
| "cancels_follow_requests fm (f # fs) =
     ((\<forall>g \<in> set fs. cancel_id fm f = None \<or> request_id fm g \<noteq> cancel_id fm f) \<and> cancels_follow_requests fm fs)"

lemma fd_server_cancel:
  assumes "rf_type f = CANCEL"
  shows "sv_written (fd_server_handle fm le handler sv f) = sv_written sv"
    "sv_responseSequence (fd_server_handle fm le handler sv f) = sv_responseSequence sv"
    "set (sv_cancelled (fd_server_handle fm le handler sv f)) = set (sv_cancelled sv) \<union> set_option (cancel_id fm f)"
  using assms by (auto simp: fd_server_handle_def fd_server_frame_def cancel_id_def split: sum.splits)

lemma fd_server_other:
  assumes "rf_type f \<noteq> CANCEL" and "\<forall>rid \<in> set_option (request_id fm f). rid \<notin> set (sv_cancelled sv)"
    and "sv_written sv = sv_written sv'" and "sv_responseSequence sv = sv_responseSequence sv'" and "sv_cancelled sv' = []"
  shows "sv_written (fd_server_handle fm le handler sv f) = sv_written (fd_server_handle fm le handler sv' f)"
    "sv_responseSequence (fd_server_handle fm le handler sv f) = sv_responseSequence (fd_server_handle fm le handler sv' f)"
    "sv_cancelled (fd_server_handle fm le handler sv f) = sv_cancelled sv"
    "sv_cancelled (fd_server_handle fm le handler sv' f) = []"
  using assms by (auto simp: fd_server_handle_def fd_server_frame_def request_id_def Let_def split: sum.splits prod.splits if_splits)

lemma cancel_ineffective:
  assumes "cancels_follow_requests fm fs" and "\<forall>f \<in> set fs. \<forall>rid \<in> set_option (request_id fm f). rid \<notin> set (sv_cancelled sv)"
    and "sv_written sv = sv_written sv'" and "sv_responseSequence sv = sv_responseSequence sv'" and "sv_cancelled sv' = []"
  shows "sv_written (foldl (fd_server_handle fm le handler) sv fs)
    = sv_written (foldl (fd_server_handle fm le handler) sv' (filter (\<lambda>f. rf_type f \<noteq> CANCEL) fs))"
  using assms
proof (induction fs arbitrary: sv sv')
  case (Cons f fs)
  show ?case
  proof (cases "rf_type f = CANCEL")
    case True
    have "\<forall>g \<in> set fs. \<forall>rid \<in> set_option (request_id fm g). rid \<notin> set (sv_cancelled (fd_server_handle fm le handler sv f))"
      using Cons.prems(1,2) unfolding fd_server_cancel(3) [OF True] by (cases "cancel_id fm f") (auto simp: elem_set)
    with Cons True fd_server_cancel [OF True] show ?thesis by auto
  next
    case False
    note o = fd_server_other [OF False _ Cons.prems(3,4,5)]
    have "\<forall>rid \<in> set_option (request_id fm f). rid \<notin> set (sv_cancelled sv)" using Cons.prems(2) by simp
    note o = o [OF this]
    with Cons False show ?thesis by (simp add: Cons.IH)
  qed
qed simp

text \<open>
  A cancellation never suppresses a response. The server handles the frames of its queue one
  after the other and a client sends \<^verbatim>\<open>CANCEL\<close> after the request it names, so the responses written
  are those of the same stream without its \<^verbatim>\<open>CANCEL\<close> frames.
\<close>

theorem cancel_suppresses_nothing:
  assumes "cancels_follow_requests fm frames"
  shows "sv_written (createCapabilityFdServer fm le handler frames)
    = sv_written (createCapabilityFdServer fm le handler (filter (\<lambda>f. rf_type f \<noteq> CANCEL) frames))"
  unfolding createCapabilityFdServer_def using assms by (rule cancel_ineffective) (simp_all add: fd_server_init_def)

definition open_formats :: formats where
  "open_formats = \<lparr>is_uuid = (\<lambda>_. True), is_datetime = (\<lambda>_. True), date_ms = (\<lambda>_. Some 10)\<rparr>"

definition sample_request_json :: cjson where
  "sample_request_json = CObj [(''requestId'', CStr ''r''), (''operation'', CStr ''logger''), (''capabilityAlias'', CNull),
     (''deadlineAt'', CStr ''t''), (''cancellationVersion'', CNum (JInt 0)), (''correlationId'', CStr ''c'')]"

theorem cancel_suppresses_nothing_witness:
  "sv_written (createCapabilityFdServer open_formats code_unit_le (\<lambda>_. Inr ([], JNull))
      [\<lparr>rf_type = REQUEST, rf_flags = 0, rf_sequence = 1, rf_payload = Json sample_request_json\<rparr>,
       \<lparr>rf_type = CANCEL, rf_flags = 0, rf_sequence = 2, rf_payload = Json (CObj [(''requestId'', CStr ''r'')])\<rparr>])
   = sv_written (createCapabilityFdServer open_formats code_unit_le (\<lambda>_. Inr ([], JNull))
      [\<lparr>rf_type = REQUEST, rf_flags = 0, rf_sequence = 1, rf_payload = Json sample_request_json\<rparr>])"
proof -
  have "cancels_follow_requests open_formats
      [\<lparr>rf_type = REQUEST, rf_flags = 0, rf_sequence = 1, rf_payload = Json sample_request_json\<rparr>,
       \<lparr>rf_type = CANCEL, rf_flags = 0, rf_sequence = 2, rf_payload = Json (CObj [(''requestId'', CStr ''r'')])\<rparr>]"
    by (simp add: cancel_id_def)
  from cancel_suppresses_nothing [OF this] show ?thesis by simp
qed

theorem client_settles_once_witness:
  "cl_settled (client_close Zod_Error (fst (client_invoke open_formats code_unit_le [OPlain []] 0
       (runtimeCapabilityRequestSchema open_formats sample_request_json) 1 (rt_client_init 32)))) = [(0, Inl Zod_Error)]
   \<and> distinct (map fst (cl_settled (client_close Zod_Error (fst (client_invoke open_formats code_unit_le [OPlain []] 0
       (runtimeCapabilityRequestSchema open_formats sample_request_json) 1 (rt_client_init 32))))))"
  (is "_ = _ \<and> distinct (map fst (cl_settled ?cl))")
proof
  have "client_system.reach open_formats code_unit_le ?cl"
    by (rule client_system.reach_step [OF client_system.reach_step [OF client_system.reach_init] step_close])
      (blast, rule step_invoke [OF surjective_pairing])
  from client_settles_once [OF this] show "distinct (map fst (cl_settled ?cl))" by blast
  have conv: "toCanonicalJsonValue code_unit_le [OPlain []] (JRef 0) = Inr (CObj [])" by code_simp
  have req: "runtimeCapabilityRequestSchema open_formats sample_request_json
      = Inr \<lparr>rq_requestId = ''r'', rq_operation = ''logger'', rq_capabilityAlias = None, rq_deadlineAt = ''t'',
          rq_cancellationVersion = 0, rq_correlationId = ''c'', rq_payload = None\<rparr>"
    by (simp add: runtimeCapabilityRequestSchema_def sample_request_json_def open_formats_def)
  have "date_ms open_formats t = Some 10" for t by (simp add: open_formats_def)
  then show "cl_settled ?cl = [(0, Inl Zod_Error)]"
    by (simp add: client_invoke_def req client_write_def rt_client_init_def encodeRuntimeFrame_def runtimePayloadBytes_def
      client_frame_def conv jm_has_def object_entries_def utf8_def utf8_char_def RUNTIME_IPC_MAX_PAYLOAD_def
      client_close_def)
qed

end
