(* ===== verification/CapabilityRequests.thy ===== *)
theory CapabilityRequests
  imports CapabilityChannel
begin

text \<open>
  Authenticated capability requests over the broker socket
  (\<^verbatim>\<open>packages/runtime-capability-ipc/src/index.ts\<close>, from \<^verbatim>\<open>capabilityRequestSchema\<close> on): signing,
  verification, the replay ledger, the length-prefixed frames and the check of the peer. HMAC-SHA256
  is a parameter that yields the hexadecimal digest; comparing the decoded digests is comparing
  these texts, both being 64 lower-case hexadecimal digits.
\<close>

section \<open>Requests\<close>

record capability_request =
  cr_protocol :: string
  cr_requestId :: string
  cr_executionId :: string
  cr_capability :: string
  cr_operation :: string
  cr_channelGeneration :: string
  cr_capabilityBinding :: string
  cr_issuedAt :: string
  cr_payload :: "cjson option"
  cr_deadlineAt :: string
  cr_nonce :: string
  cr_mac :: string

definition is_hex_text :: "nat \<Rightarrow> string \<Rightarrow> bool" where
  "is_hex_text n s = (length s = n \<and> list_all is_hex_lower s)"

definition capabilityRequestSchema :: "formats \<Rightarrow> capability_request \<Rightarrow> capability_request outcome" where
  "capabilityRequestSchema fm r =
     (if cr_protocol r = ''KCML-CAPABILITY-IPC/1'' \<and> is_uuid fm (cr_requestId r) \<and> is_uuid fm (cr_executionId r)
        \<and> cr_capability r \<in> set [''STATE_READ'', ''STATE_WRITE'', ''SECRET_USE'', ''EGRESS_REQUEST'', ''ARTIFACT_READ'',
              ''ARTIFACT_WRITE'', ''CHILD_EXEC'']
        \<and> cr_operation r \<noteq> [] \<and> is_uuid fm (cr_channelGeneration r)
        \<and> starts_with ''sha256:'' (cr_capabilityBinding r) \<and> is_hex_text 64 (drop 7 (cr_capabilityBinding r))
        \<and> is_datetime fm (cr_issuedAt r) \<and> is_datetime fm (cr_deadlineAt r)
        \<and> is_hex_text 32 (cr_nonce r) \<and> is_hex_text 64 (cr_mac r)
      then Inr r else Inl Zod_Error)"

type_synonym hmac_fun = "byte list \<Rightarrow> byte list \<Rightarrow> string"

definition unsigned_json :: "capability_request \<Rightarrow> cjson" where
  "unsigned_json r = CObj ([(''protocol'', CStr (cr_protocol r)), (''requestId'', CStr (cr_requestId r)),
     (''executionId'', CStr (cr_executionId r)), (''capability'', CStr (cr_capability r)),
     (''operation'', CStr (cr_operation r)), (''channelGeneration'', CStr (cr_channelGeneration r)),
     (''capabilityBinding'', CStr (cr_capabilityBinding r)), (''issuedAt'', CStr (cr_issuedAt r)),
     (''deadlineAt'', CStr (cr_deadlineAt r)), (''nonce'', CStr (cr_nonce r))]
     @ (case cr_payload r of None \<Rightarrow> [] | Some v \<Rightarrow> [(''payload'', v)]))"

definition authenticatedBytes :: "collation \<Rightarrow> capability_request \<Rightarrow> byte list" where
  "authenticatedBytes le r = utf8 (canonicalJson le (unsigned_json r))"

definition capabilityBinding :: "hmac_fun \<Rightarrow> string \<Rightarrow> string \<Rightarrow> string \<Rightarrow> string \<Rightarrow> string" where
  "capabilityBinding hmac executionId capability operation channelGeneration =
     ''sha256:'' @ hmac (utf8 ''KCML-CAPABILITY-BINDING/1'')
       (utf8 (executionId @ [CHR 0x00] @ capability @ [CHR 0x00] @ operation @ [CHR 0x00] @ channelGeneration))"

section \<open>The replay ledger\<close>

text \<open>An expiry is the time of the deadline, or None where the deadline does not parse (\<^verbatim>\<open>NaN\<close>).\<close>

record replay_ledger =
  rl_entries :: "(string \<times> int option) list"
  rl_capacity :: nat

definition expired :: "int \<Rightarrow> int option \<Rightarrow> bool" where
  "expired now expiry = (case expiry of None \<Rightarrow> False | Some t \<Rightarrow> t \<le> now)"

definition replay_key :: "capability_request \<Rightarrow> string" where
  "replay_key r = cr_executionId r @ '':'' @ cr_channelGeneration r @ '':'' @ cr_nonce r"

definition ledger_consume :: "capability_request \<Rightarrow> int option \<Rightarrow> int \<Rightarrow> replay_ledger \<Rightarrow> replay_ledger \<times> unit outcome" where
  "ledger_consume r expiresAt now l =
     (let l' = l\<lparr>rl_entries := filter (\<lambda>(_, expiry). \<not> expired now expiry) (rl_entries l)\<rparr> in
      if jm_has (rl_entries l') (replay_key r) then (l', Inl (Plain_Error ''IPC_REPLAY_REJECTED''))
      else if length (rl_entries l') \<ge> rl_capacity l' then (l', Inl (Plain_Error ''IPC_REPLAY_LEDGER_CAPACITY''))
      else (l'\<lparr>rl_entries := jm_set (replay_key r) expiresAt (rl_entries l')\<rparr>, Inr ()))"

section \<open>Signing and verification\<close>

record unsigned_request =
  un_requestId :: string
  un_executionId :: string
  un_capability :: string
  un_operation :: string
  un_payload :: "cjson option"
  un_deadlineAt :: string

text \<open>\<open>to_iso\<close> is \<^verbatim>\<open>toISOString\<close> and \<open>nonce\<close> the text of the sixteen random bytes.\<close>

definition signRequest ::
  "formats \<Rightarrow> collation \<Rightarrow> hmac_fun \<Rightarrow> (int \<Rightarrow> string) \<Rightarrow> string \<Rightarrow> unsigned_request \<Rightarrow> byte list \<Rightarrow> string \<Rightarrow> int
   \<Rightarrow> capability_request outcome" where
  "signRequest fm le hmac to_iso nonce u channelKey channelGeneration now =
     (let unsigned = \<lparr>cr_protocol = ''KCML-CAPABILITY-IPC/1'', cr_requestId = un_requestId u,
            cr_executionId = un_executionId u, cr_capability = un_capability u, cr_operation = un_operation u,
            cr_channelGeneration = channelGeneration,
            cr_capabilityBinding = capabilityBinding hmac (un_executionId u) (un_capability u) (un_operation u) channelGeneration,
            cr_issuedAt = to_iso now, cr_payload = un_payload u, cr_deadlineAt = un_deadlineAt u, cr_nonce = nonce, cr_mac = []\<rparr> in
      capabilityRequestSchema fm (unsigned\<lparr>cr_mac := hmac channelKey (authenticatedBytes le unsigned)\<rparr>))"

definition verifyRequest ::
  "formats \<Rightarrow> collation \<Rightarrow> hmac_fun \<Rightarrow> capability_request \<Rightarrow> byte list \<Rightarrow> int \<Rightarrow> replay_ledger option \<Rightarrow> string option
   \<Rightarrow> replay_ledger option \<times> capability_request outcome" where
  "verifyRequest fm le hmac r channelKey now ledger expectedGeneration =
     (case capabilityRequestSchema fm r of
        Inl e \<Rightarrow> (ledger, Inl e)
      | Inr r \<Rightarrow>
          if cr_mac r \<noteq> hmac channelKey (authenticatedBytes le r) then (ledger, Inl (Plain_Error ''IPC_AUTHENTICATION_FAILED''))
          else if (case expectedGeneration of None \<Rightarrow> False | Some g \<Rightarrow> g \<noteq> [] \<and> cr_channelGeneration r \<noteq> g)
            then (ledger, Inl (Plain_Error ''IPC_CHANNEL_GENERATION_STALE''))
          else if cr_capabilityBinding r \<noteq> capabilityBinding hmac (cr_executionId r) (cr_capability r) (cr_operation r) (cr_channelGeneration r)
            then (ledger, Inl (Plain_Error ''IPC_CAPABILITY_BINDING_INVALID''))
          else if (case date_ms fm (cr_issuedAt r) of None \<Rightarrow> True | Some t \<Rightarrow> t > now + 5000 \<or> t < now - 120000)
            then (ledger, Inl (Plain_Error ''IPC_REQUEST_STALE''))
          else if expired now (date_ms fm (cr_deadlineAt r)) then (ledger, Inl (Plain_Error ''IPC_DEADLINE_EXCEEDED''))
          else (case ledger of
              None \<Rightarrow> (None, Inr r)
            | Some l \<Rightarrow> (case ledger_consume r (date_ms fm (cr_deadlineAt r)) now l of
                (l', Inl e) \<Rightarrow> (Some l', Inl e) | (l', Inr _) \<Rightarrow> (Some l', Inr r))))"

section \<open>Length-prefixed frames\<close>

definition MAX_FRAME :: nat where
  "MAX_FRAME = 8388608"

definition encodeFrame :: "byte list \<Rightarrow> byte list outcome" where
  "encodeFrame body = (if length body > MAX_FRAME then Inl (Plain_Error ''IPC_FRAME_TOO_LARGE'')
     else Inr (be_bytes 4 (length body) @ body))"

text \<open>
  One iteration of \<^verbatim>\<open>consumeFrames\<close>: here \<^verbatim>\<open>JSON.parse\<close> runs in the event handler itself, outside the
  promise whose rejection destroys the socket.
\<close>

definition legacy_step :: "json_parser \<Rightarrow> unit \<Rightarrow> byte list \<Rightarrow> (cjson, unit) decode_result" where
  "legacy_step json_parse u pending =
     (if length pending < 4 then Need_More
      else let len = be_value (take 4 pending) in
        if len > MAX_FRAME then Destroy (Plain_Error ''IPC_FRAME_TOO_LARGE'')
        else if length pending < len + 4 then Need_More
        else (case json_parse (take len (drop 4 pending)) of
            None \<Rightarrow> Escape (Plain_Error ''SyntaxError'')
          | Some v \<Rightarrow> Take_Frame v (drop (len + 4) pending) ()))"

definition consumeFrames :: "json_parser \<Rightarrow> byte list list \<Rightarrow> cjson list \<times> unit connection" where
  "consumeFrames json_parse chunks = feed_all (legacy_step json_parse) (Open () []) chunks"

interpretation legacy_decoder: incremental_decoder "legacy_step json_parse" for json_parse
proof
  fix s buf f rest s' more
  assume t: "legacy_step json_parse s buf = Take_Frame f rest s'"
  then show "legacy_step json_parse s (buf @ more) = Take_Frame f (rest @ more) s'" "length rest < length buf"
    by (auto simp: legacy_step_def Let_def split: if_splits option.splits)
qed (auto simp: legacy_step_def Let_def split: if_splits option.splits)

section \<open>The peer\<close>

text \<open>
  \<^verbatim>\<open>verifyPeer\<close> after the helper has reported the identity; \<open>configured\<close> is the parsed
  \<^verbatim>\<open>KCML_ALLOWED_PEER_UIDS\<close>.
\<close>

definition verifyPeer :: "bool \<Rightarrow> int list \<Rightarrow> int option \<Rightarrow> (int \<times> int \<times> int) outcome \<Rightarrow> unit outcome" where
  "verifyPeer production configured socketFd helper =
     (case socketFd of
        None \<Rightarrow> Inl (Plain_Error ''IPC_PEER_SOCKET_FD_UNAVAILABLE'')
      | Some fd \<Rightarrow> if fd < 0 then Inl (Plain_Error ''IPC_PEER_SOCKET_FD_UNAVAILABLE'')
          else bindE helper (\<lambda>(pid, uid, gid).
            if pid \<le> 0 \<or> uid < 0 \<or> gid < 0 then Inl Zod_Error
            else if production \<and> configured = [] then Inl (Plain_Error ''IPC_PEER_ALLOWLIST_REQUIRED'')
            else if configured \<noteq> [] \<and> uid \<notin> set configured then Inl (Plain_Error ''IPC_PEER_IDENTITY_DENIED'')
            else Inr ()))"

section \<open>Properties\<close>

text \<open>
  A sequence of verifications against one ledger, each with its request, key and time; the result
  is what each returned.
\<close>

fun verify_run ::
  "formats \<Rightarrow> collation \<Rightarrow> hmac_fun \<Rightarrow> string option \<Rightarrow> replay_ledger
   \<Rightarrow> (capability_request \<times> byte list \<times> int) list \<Rightarrow> capability_request outcome list" where
  "verify_run fm le hmac gen l [] = []"
| "verify_run fm le hmac gen l ((r, key, now) # es) =
     (case verifyRequest fm le hmac r key now (Some l) gen of
        (Some l', out) \<Rightarrow> out # verify_run fm le hmac gen l' es
      | (None, out) \<Rightarrow> out # verify_run fm le hmac gen l es)"

definition accepted :: "'e + 'a \<Rightarrow> 'a list" where
  "accepted out = (case out of Inl _ \<Rightarrow> [] | Inr r \<Rightarrow> [r])"

lemma accepted_simps [simp]: "accepted (Inl e) = []" "accepted (Inr r) = [r]"
  by (simp_all add: accepted_def)

lemma capabilityRequestSchema_Inr: "capabilityRequestSchema fm r = Inr r' \<Longrightarrow> r' = r"
  by (auto simp: capabilityRequestSchema_def split: if_splits)

lemma verifyRequest_ledger:
  assumes "verifyRequest fm le hmac r key now (Some l) gen = (Some l', out)"
  shows "(out = Inr r \<and> \<not> expired now (date_ms fm (cr_deadlineAt r))
        \<and> ledger_consume r (date_ms fm (cr_deadlineAt r)) now l = (l', Inr ()))
     \<or> ((\<exists>e. out = Inl e) \<and> (l' = l \<or> (\<exists>e. ledger_consume r (date_ms fm (cr_deadlineAt r)) now l = (l', Inl e))))"
proof (cases "capabilityRequestSchema fm r")
  case (Inl e)
  then have "out = Inl e" "l' = l" using assms by (simp_all add: verifyRequest_def)
  then show ?thesis by simp
next
  case (Inr r')
  with capabilityRequestSchema_Inr have "capabilityRequestSchema fm r = Inr r" by blast
  with assms show ?thesis
    by (auto simp: verifyRequest_def split: if_split_asm prod.split_asm sum.split_asm)
qed

text \<open>An entry stays in the ledger until its expiry has passed.\<close>

lemma ledger_consume_keeps:
  assumes "ledger_consume r ex now l = (l', out)" and "(k, e) \<in> set (rl_entries l)" and "\<not> expired now e" and "jm_wf (rl_entries l)"
  shows "(k, e) \<in> set (rl_entries l')"
proof -
  have kept: "(k, e) \<in> set (filter (\<lambda>(_, expiry). \<not> expired now expiry) (rl_entries l))" using assms by auto
  moreover have "(k, e) \<in> set (jm_set k' v m)" if "(k, e) \<in> set m" "\<not> jm_has m k'" for k' v m
    using that by (simp add: jm_set_fresh)
  ultimately show ?thesis using assms(1) by (auto simp: ledger_consume_def Let_def split: if_splits)
qed

lemma ledger_consume_wf: "ledger_consume r ex now l = (l', out) \<Longrightarrow> jm_wf (rl_entries l) \<Longrightarrow> jm_wf (rl_entries l')"
  by (auto simp: ledger_consume_def Let_def jm_wf_set jm_wf_filter split: if_splits)

lemma ledger_consume_adds: "ledger_consume r ex now l = (l', Inr ()) \<Longrightarrow> (replay_key r, ex) \<in> set (rl_entries l')"
  by (auto simp: ledger_consume_def Let_def jm_set_fresh split: if_splits)

lemma ledger_consume_refuses:
  assumes "(replay_key r, ex) \<in> set (rl_entries l)" and "\<not> expired now ex" and "jm_wf (rl_entries l)"
  shows "snd (ledger_consume r ex now l) = Inl (Plain_Error ''IPC_REPLAY_REJECTED'')"
proof -
  let ?es = "filter (\<lambda>(_, expiry). \<not> expired now expiry) (rl_entries l)"
  have "(replay_key r, ex) \<in> set ?es" using assms by auto
  then have "jm_has ?es (replay_key r)" by (auto simp: jm_has_def map_of_eq_None_iff dest: in_set_zipE intro: rev_image_eqI)
  then show ?thesis by (simp add: ledger_consume_def Let_def)
qed

definition remembered :: "formats \<Rightarrow> int \<Rightarrow> replay_ledger \<Rightarrow> capability_request \<Rightarrow> bool" where
  "remembered fm now l r = (expired now (date_ms fm (cr_deadlineAt r)) \<or> (replay_key r, date_ms fm (cr_deadlineAt r)) \<in> set (rl_entries l))"

lemma expired_mono: "expired now e \<Longrightarrow> now \<le> t \<Longrightarrow> expired t e"
  by (auto simp: expired_def split: option.splits)

lemma consume_remembers:
  assumes "ledger_consume q ex t l = (l', out)" and "jm_wf (rl_entries l)" and "now \<le> t" and "remembered fm now l r"
  shows "remembered fm t l' r"
proof (cases "expired t (date_ms fm (cr_deadlineAt r))")
  case False
  with assms(3,4) expired_mono have "(replay_key r, date_ms fm (cr_deadlineAt r)) \<in> set (rl_entries l)"
    unfolding remembered_def by blast
  from ledger_consume_keeps [OF assms(1) this False assms(2)] show ?thesis by (simp add: remembered_def)
qed (simp add: remembered_def)

lemma remembered_mono: "remembered fm now l r \<Longrightarrow> now \<le> t \<Longrightarrow> remembered fm t l r"
  unfolding remembered_def using expired_mono by blast

lemma verify_remembers:
  assumes "verifyRequest fm le hmac q key t (Some l) gen = (Some l', out)" and "jm_wf (rl_entries l)" and "now \<le> t"
  shows "jm_wf (rl_entries l')" "remembered fm now l r \<Longrightarrow> remembered fm t l' r" "out = Inr q \<Longrightarrow> remembered fm t l' q"
proof -
  from verifyRequest_ledger [OF assms(1)] consider
      "l' = l" "out \<noteq> Inr q" | out' where "ledger_consume q (date_ms fm (cr_deadlineAt q)) t l = (l', out')" "out = Inr q \<longrightarrow> out' = Inr ()"
    by auto
  note cases = this
  show "jm_wf (rl_entries l')" by (cases rule: cases) (use assms(2) ledger_consume_wf in auto)
  show "remembered fm t l' r" if "remembered fm now l r"
    by (cases rule: cases) (use that assms(2,3) remembered_mono consume_remembers in blast)+
  show "remembered fm t l' q" if "out = Inr q"
    by (cases rule: cases) (use that ledger_consume_adds in \<open>auto simp: remembered_def\<close>)
qed

lemma verify_refuses_remembered:
  assumes "verifyRequest fm le hmac r key t (Some l) gen = (Some l', out)" and "jm_wf (rl_entries l)"
    and "remembered fm now l r" and "now \<le> t"
  shows "\<exists>e. out = Inl e"
proof (rule ccontr)
  assume "\<nexists>e. out = Inl e"
  with verifyRequest_ledger [OF assms(1)] have live: "\<not> expired t (date_ms fm (cr_deadlineAt r))"
    and c: "ledger_consume r (date_ms fm (cr_deadlineAt r)) t l = (l', Inr ())" by auto
  with remembered_mono [OF assms(3,4)] have "(replay_key r, date_ms fm (cr_deadlineAt r)) \<in> set (rl_entries l)"
    by (simp add: remembered_def)
  from ledger_consume_refuses [OF this live assms(2)] c show False by simp
qed

lemma verify_keeps_ledger: "fst (verifyRequest fm le hmac r key now (Some l) gen) \<noteq> None"
  by (auto simp: verifyRequest_def split: if_splits option.splits prod.splits sum.splits)

lemma verify_run_refuses_remembered:
  assumes "jm_wf (rl_entries l)" and "remembered fm now l r" and "sorted (now # map (\<lambda>(_, _, t). t) es)"
  shows "r \<notin> set (concat (map accepted (verify_run fm le hmac gen l es)))"
  using assms
proof (induction es arbitrary: l now)
  case (Cons e es)
  obtain q key t where e: "e = (q, key, t)" by (cases e) auto
  obtain l' out where v: "verifyRequest fm le hmac q key t (Some l) gen = (Some l', out)"
    using verify_keeps_ledger [of fm le hmac q key t l gen]
    by (cases "verifyRequest fm le hmac q key t (Some l) gen") auto
  have t: "now \<le> t" "sorted (t # map (\<lambda>(_, _, t). t) es)" using Cons.prems(3) e by auto
  have "r \<notin> set (accepted out)"
    using verifyRequest_ledger [OF v] verify_refuses_remembered [OF v Cons.prems(1) _ t(1)] Cons.prems(2) by auto
  moreover have "r \<notin> set (concat (map accepted (verify_run fm le hmac gen l' es)))"
    using verify_remembers [OF v Cons.prems(1) t(1)] Cons.prems(2) by (intro Cons.IH [OF _ _ t(2)]) auto
  ultimately show ?case using v e by simp
qed simp

lemma verify_run_distinct:
  assumes "jm_wf (rl_entries l)" and "sorted (map (\<lambda>(_, _, t). t) es)"
  shows "distinct (concat (map accepted (verify_run fm le hmac gen l es)))"
  using assms
proof (induction es arbitrary: l)
  case (Cons e es)
  obtain q key t where e: "e = (q, key, t)" by (cases e) auto
  obtain l' out where v: "verifyRequest fm le hmac q key t (Some l) gen = (Some l', out)"
    using verify_keeps_ledger [of fm le hmac q key t l gen]
    by (cases "verifyRequest fm le hmac q key t (Some l) gen") auto
  note rem = verify_remembers [OF v Cons.prems(1) order_refl]
  have rest: "distinct (concat (map accepted (verify_run fm le hmac gen l' es)))"
    using rem(1) Cons.prems(2) e by (intro Cons.IH) auto
  show ?case
  proof (cases out)
    case (Inr q')
    then have "q' = q" using verifyRequest_ledger [OF v] by auto
    with rem Inr verify_run_refuses_remembered [of l' fm t q es le hmac gen] Cons.prems(2) e v rest
    show ?thesis by auto
  qed (use rest v e in simp)
qed simp

text \<open>
  C31. No request is accepted twice. Verified against one replay ledger in any sequence, with a
  clock that does not go back, the accepted requests are pairwise distinct: an entry is forgotten
  only when the deadline it carries has passed, and then the deadline check refuses the request.
\<close>

theorem replay_never_accepted:
  assumes "jm_wf (rl_entries l)" and "sorted (map (\<lambda>(_, _, t). t) es)"
  shows "distinct (concat (map accepted (verify_run fm le hmac gen l es)))"
  using assms by (rule verify_run_distinct)

text \<open>
  A request signed with the channel's key is accepted by the holder of the same key within the
  window of freshness, before its deadline and while the ledger has room and has not seen its
  nonce; printing a time and parsing it gives that time back.
\<close>

theorem sign_verify_roundtrip:
  assumes "signRequest fm le hmac to_iso nonce u key gen now = Inr r"
    and "date_ms fm (to_iso now) = Some now" and "now \<le> t" and "t \<le> now + 120000"
    and "\<not> expired t (date_ms fm (un_deadlineAt u))"
    and "\<not> jm_has (filter (\<lambda>(_, expiry). \<not> expired t expiry) (rl_entries l)) (replay_key r)"
    and "length (rl_entries l) < rl_capacity l"
  shows "snd (verifyRequest fm le hmac r key t (Some l) (Some gen)) = Inr r"
proof -
  have bytes: "authenticatedBytes le (x\<lparr>cr_mac := m\<rparr>) = authenticatedBytes le x" for x m
    by (simp add: authenticatedBytes_def unsigned_json_def)
  from assms(1) have r: "capabilityRequestSchema fm r = Inr r" "cr_mac r = hmac key (authenticatedBytes le r)"
    "cr_channelGeneration r = gen" "cr_issuedAt r = to_iso now" "cr_deadlineAt r = un_deadlineAt u"
    "cr_capabilityBinding r = capabilityBinding hmac (cr_executionId r) (cr_capability r) (cr_operation r) (cr_channelGeneration r)"
    by (auto simp: signRequest_def Let_def capabilityRequestSchema_def authenticatedBytes_def unsigned_json_def split: if_splits)
  have "length (filter P (rl_entries l)) < rl_capacity l" for P
    using assms(7) length_filter_le le_less_trans by blast
  with r assms show ?thesis
    by (auto simp: verifyRequest_def ledger_consume_def Let_def not_le)
qed

text \<open>
  The length-prefixed decoder of the broker socket does not survive malformed JSON: any frame
  whose body does not parse makes the exception escape from the event handler, where nothing
  catches it, instead of destroying the connection that sent it.
\<close>

theorem malformed_json_escapes:
  assumes "encodeFrame body = Inr bytes" and "json_parse body = None" and "concat chunks = bytes @ rest"
  shows "consumeFrames json_parse chunks = ([], Escaped (Plain_Error ''SyntaxError''))"
proof -
  from assms(1) have b: "bytes = be_bytes 4 (length body) @ body" "length body \<le> MAX_FRAME"
    by (auto simp: encodeFrame_def not_less split: if_splits)
  then have "be_value (be_bytes 4 (length body)) = length body" by (simp add: be_value_bytes MAX_FRAME_def)
  with b assms(2) have "legacy_step json_parse () (bytes @ rest) = Escape (Plain_Error ''SyntaxError'')"
    by (simp add: legacy_step_def)
  then show ?thesis
    by (simp add: consumeFrames_def legacy_decoder.feed_all_concat legacy_decoder.idle_start assms(3) drain.simps)
qed

theorem malformed_json_escapes_witness:
  "consumeFrames (\<lambda>_. None) [[0, 0, 0], [1, 120]] = ([], Escaped (Plain_Error ''SyntaxError''))"
proof -
  have "encodeFrame [120] = Inr [0, 0, 0, 1, 120]"
    by (simp add: encodeFrame_def MAX_FRAME_def be_bytes_def upt_rec)
  from malformed_json_escapes [OF this, of "\<lambda>_. None" _ "[]"] show ?thesis by simp
qed

definition sample_hmac :: hmac_fun where
  "sample_hmac key bs = replicate 64 CHR ''a''"

definition sample_unsigned :: unsigned_request where
  "sample_unsigned = \<lparr>un_requestId = ''r'', un_executionId = ''x'', un_capability = ''STATE_READ'', un_operation = ''get'',
     un_payload = None, un_deadlineAt = ''d''\<rparr>"

definition sample_signed :: capability_request where
  "sample_signed = \<lparr>cr_protocol = ''KCML-CAPABILITY-IPC/1'', cr_requestId = ''r'', cr_executionId = ''x'',
     cr_capability = ''STATE_READ'', cr_operation = ''get'', cr_channelGeneration = ''g'',
     cr_capabilityBinding = ''sha256:'' @ replicate 64 CHR ''a'', cr_issuedAt = ''i'', cr_payload = None,
     cr_deadlineAt = ''d'', cr_nonce = replicate 32 CHR ''0'', cr_mac = replicate 64 CHR ''a''\<rparr>"

lemma sample_sign:
  "signRequest open_formats code_unit_le sample_hmac (\<lambda>_. ''i'') (replicate 32 CHR ''0'') sample_unsigned [] ''g'' 10 = Inr sample_signed"
  by (simp add: signRequest_def capabilityRequestSchema_def sample_unsigned_def sample_signed_def open_formats_def
      sample_hmac_def capabilityBinding_def starts_with_def is_hex_text_def char_class_defs list_all_iff)

definition late_formats :: formats where
  "late_formats = open_formats\<lparr>date_ms := (\<lambda>s. Some (if s = ''i'' then 10 else 100))\<rparr>"

lemma sample_sign_late:
  "signRequest late_formats code_unit_le sample_hmac (\<lambda>_. ''i'') (replicate 32 CHR ''0'') sample_unsigned [] ''g'' 10 = Inr sample_signed"
  using sample_sign by (simp add: signRequest_def capabilityRequestSchema_def late_formats_def Let_def)

theorem sign_verify_roundtrip_witness:
  "snd (verifyRequest late_formats code_unit_le sample_hmac sample_signed [] 20 (Some \<lparr>rl_entries = [], rl_capacity = 10000\<rparr>) (Some ''g''))
    = Inr sample_signed"
  by (rule sign_verify_roundtrip [OF sample_sign_late])
    (simp_all add: late_formats_def open_formats_def expired_def sample_unsigned_def jm_has_def)

theorem replay_never_accepted_witness:
  "distinct (concat (map accepted (verify_run late_formats code_unit_le sample_hmac (Some ''g'') \<lparr>rl_entries = [], rl_capacity = 10000\<rparr>
     [(sample_signed, [], 20), (sample_signed, [], 21)])))"
  by (rule replay_never_accepted) (simp_all add: jm_wf_def)

end
