(* ===== verification/ContractPack.thy ===== *)
theory ContractPack
  imports CanonicalJson
begin

text \<open>
  The contract pack (\<^verbatim>\<open>packages/contract-pack/src/index.ts\<close>): the registries of operations, exposure
  parity, authority ownership and state machines, and the checks that keep them consistent. Reading
  the JSON files is a parameter (the parsed document).
\<close>

section \<open>Registry records\<close>

datatype registry_kind =
    REQUIREMENT_REGISTRY | OPERATION_CATALOG | STATE_MACHINE_REGISTRY | POSTGRES_CONTRACT_MATRIX
  | RUNTIME_BOUNDARY_MATRIX | BINDING_REGISTRY | AUTHORITY_OWNERSHIP_REGISTRY | ERROR_RETRY_REGISTRY
  | FAULT_CATALOG | RECOVERY_ORACLE_REGISTRY | CLOSURE_PREDICATE_REGISTRY | ACCEPTANCE_GATE_REGISTRY
  | EXPOSURE_PARITY_REGISTRY | ARTIFACT_TRACE_REGISTRY

record operation_contract =
  oc_operationId :: string
  oc_operationName :: string
  oc_exposureClass :: string
  oc_canonicalWriterId :: string
  oc_stateMachineId :: string

record surface_binding =
  sb_bindingId :: string
  sb_status :: string
  sb_sourcePath :: "string option"
  sb_sourceSymbol :: "string option"
  sb_sourceMarker :: "string option"
  sb_target :: "string option"
  sb_reasonCode :: "string option"
  sb_supportingRequirementSourceRef :: "string option"

record exposure_parity =
  ep_operationId :: string
  ep_exposureClass :: string
  ep_apiOperationIds :: "string list"
  ep_uiSurfaceIds :: "string list"
  ep_uiActionIds :: "string list"
  ep_chatCapabilityIds :: "string list"
  ep_auditEventTypes :: "string list"
  ep_selfTestCaseIds :: "string list"
  ep_acceptanceGateIds :: "string list"
  ep_parentOperationId :: "string option"
  ep_surfaceBindings :: "surface_binding list"

record authority_ownership =
  ao_lifecycle :: string
  ao_requirementIds :: "string list"
  ao_authorityObjectKind :: string
  ao_canonicalWriterId :: string
  ao_stateMachineId :: string
  ao_allowedOperationIds :: "string list"
  ao_acceptedEvidenceProducers :: "string list"
  ao_prohibitedDirectWriters :: "string list"
  ao_closurePredicateId :: string

record state_transition =
  tr_transitionId :: string
  tr_fromState :: string
  tr_toState :: string
  tr_operationIds :: "string list"

record state_machine =
  sm_stateMachineId :: string
  sm_states :: "string list"
  sm_terminalStates :: "string list"
  sm_transitions :: "state_transition list"

text \<open>A string that is null or empty is falsy.\<close>

definition falsy :: "string option \<Rightarrow> bool" where
  "falsy s = (s = None \<or> s = Some [])"

section \<open>Exposure parity\<close>

definition exposureClasses :: "string list" where
  "exposureClasses = [''OWNER_COMMAND'', ''OWNER_QUERY'', ''PUBLIC_PROTOCOL'', ''INTERNAL_PROTOCOL'',
     ''AUTOMATED_MAINTENANCE'', ''EVIDENCE_ONLY'']"

text \<open>\<^verbatim>\<open>/^(?:API|UI-ACTION|CHAT|SELFTEST)-/u\<close>\<close>

definition syntheticExposureIds :: "string \<Rightarrow> bool" where
  "syntheticExposureIds s = (starts_with ''API-'' s \<or> starts_with ''UI-ACTION-'' s \<or> starts_with ''CHAT-'' s
     \<or> starts_with ''SELFTEST-'' s)"

definition parity_error :: "string \<Rightarrow> string \<Rightarrow> js_error" where
  "parity_error what details = Plain_Error (''EXPOSURE_PARITY_'' @ what @ '':'' @ details)"

definition check_binding :: "string \<Rightarrow> string list \<Rightarrow> surface_binding \<Rightarrow> string list outcome" where
  "check_binding op ids b =
     (if sb_bindingId b = [] \<or> sb_bindingId b \<in> set ids then Inl (parity_error ''BINDING_CARDINALITY'' op)
      else if syntheticExposureIds (sb_bindingId b) then Inl (parity_error ''SYNTHETIC_BINDING'' (op @ '':'' @ sb_bindingId b))
      else if sb_status b = ''APPLICABLE'' \<and> (falsy (sb_sourcePath b) \<or> falsy (sb_sourceSymbol b)
          \<or> falsy (sb_sourceMarker b) \<or> falsy (sb_target b))
        then Inl (parity_error ''BINDING_UNRESOLVED'' (op @ '':'' @ sb_bindingId b))
      else if sb_status b = ''NOT_APPLICABLE'' \<and> (falsy (sb_reasonCode b) \<or> sb_supportingRequirementSourceRef b
          \<noteq> Some ''ssot://55.18/55-18-ui-api-chat-audit-a-self-test-parity/atom-1'')
        then Inl (parity_error ''NOT_APPLICABLE_UNSUPPORTED'' (op @ '':'' @ sb_bindingId b))
      else Inr (ids @ [sb_bindingId b]))"

definition exactIds :: "string list \<Rightarrow> string list \<Rightarrow> string \<Rightarrow> bool" where
  "exactIds bindingIds declared prefix =
     (let expected = filter (starts_with (prefix @ '':'')) bindingIds in
      length declared = length expected \<and> list_all (\<lambda>d. d \<in> set expected) declared)"

definition check_surfaces :: "exposure_parity \<Rightarrow> string list \<Rightarrow> unit outcome" where
  "check_surfaces p bindingIds =
     (if \<not> exactIds bindingIds (ep_apiOperationIds p) ''REST_ROUTE'' \<or> \<not> exactIds bindingIds (ep_uiSurfaceIds p) ''UI_VIEW''
         \<or> \<not> exactIds bindingIds (ep_uiActionIds p) ''UI_ACTION'' \<or> \<not> exactIds bindingIds (ep_chatCapabilityIds p) ''CHAT_CAPABILITY''
         \<or> \<not> exactIds bindingIds (ep_selfTestCaseIds p) ''TEST_CASE''
        then Inl (parity_error ''ID_BINDING_MISMATCH'' (ep_operationId p))
      else if ep_uiSurfaceIds p = [] \<or> ep_chatCapabilityIds p = [] \<or> ep_auditEventTypes p = []
          \<or> ep_selfTestCaseIds p = [] \<or> ep_acceptanceGateIds p = []
        then Inl (parity_error ''INCOMPLETE'' (ep_operationId p @ '':required-common-surface''))
      else if ep_exposureClass p = ''OWNER_COMMAND'' \<and> (ep_apiOperationIds p = [] \<or> ep_uiActionIds p = [])
        then Inl (parity_error ''INCOMPLETE'' (ep_operationId p @ '':owner-command''))
      else if ep_exposureClass p \<noteq> ''OWNER_COMMAND'' \<and> ep_uiActionIds p \<noteq> []
        then Inl (parity_error ''UNAUTHORIZED_UI_ACTION'' (ep_operationId p))
      else if ep_exposureClass p = ''INTERNAL_PROTOCOL'' \<and> (ep_apiOperationIds p \<noteq> [] \<or> falsy (ep_parentOperationId p))
        then Inl (parity_error ''INCOMPLETE'' (ep_operationId p @ '':internal-protocol''))
      else Inr ())"

definition check_parity ::
  "operation_contract list \<Rightarrow> (string \<times> exposure_parity) list \<Rightarrow> exposure_parity \<Rightarrow> (string \<times> exposure_parity) list outcome" where
  "check_parity operations parityByOperation p =
     (if ep_exposureClass p \<notin> set exposureClasses then Inl (parity_error ''CLASS_INVALID'' (ep_operationId p))
      else if ep_operationId p \<notin> set (map oc_operationId operations) \<or> jm_has parityByOperation (ep_operationId p)
        then Inl (parity_error ''OPERATION_CARDINALITY'' (ep_operationId p))
      else if map_option oc_exposureClass (jm_get (jm_of oc_operationId operations) (ep_operationId p)) \<noteq> Some (ep_exposureClass p)
        then Inl (parity_error ''CLASS_MISMATCH'' (ep_operationId p))
      else if ep_surfaceBindings p = [] then Inl (parity_error ''INCOMPLETE'' (ep_operationId p @ '':surfaceBindings''))
      else bindE (forE (check_binding (ep_operationId p)) [] (ep_surfaceBindings p)) (\<lambda>bindingIds.
        bindE (check_surfaces p bindingIds) (\<lambda>_. Inr (jm_set (ep_operationId p) p parityByOperation))))"

definition validateExposureParity :: "operation_contract list \<Rightarrow> exposure_parity list \<Rightarrow> unit outcome" where
  "validateExposureParity operations parity =
     bindE (forE (check_parity operations) [] parity) (\<lambda>parityByOperation.
     bindE (forE (\<lambda>_ op. if \<not> jm_has parityByOperation (oc_operationId op)
         then Inl (parity_error ''INCOMPLETE'' (oc_operationName op @ '':record'')) else Inr ()) () operations) (\<lambda>_.
     forE (\<lambda>_ p. case ep_parentOperationId p of None \<Rightarrow> Inr ()
         | Some parent \<Rightarrow> if parent \<noteq> [] \<and> parent \<notin> set (map oc_operationId operations)
             then Inl (parity_error ''PARENT_MISSING'' (ep_operationId p @ '':'' @ parent)) else Inr ()) () parity))"

section \<open>Authority ownership\<close>

definition authority_error :: "string \<Rightarrow> string \<Rightarrow> js_error" where
  "authority_error what details = Plain_Error (''AUTHORITY_'' @ what @ '':'' @ details)"

definition owners_of :: "(string \<times> authority_ownership list) list \<Rightarrow> string \<Rightarrow> authority_ownership list" where
  "owners_of byOperation op = (case jm_get byOperation op of None \<Rightarrow> [] | Some owners \<Rightarrow> owners)"

definition check_authority ::
  "state_machine list \<Rightarrow> (string \<times> authority_ownership list) list \<times> string list \<Rightarrow> authority_ownership
   \<Rightarrow> ((string \<times> authority_ownership list) list \<times> string list) outcome" where
  "check_authority machines st a = (case st of (byOperation, kinds) \<Rightarrow>
     if ao_lifecycle a \<noteq> ''ACTIVE'' then Inr st
     else if ao_authorityObjectKind a \<in> set kinds then Inl (authority_error ''OBJECT_KIND_DUPLICATE'' (ao_authorityObjectKind a))
     else if ao_requirementIds a = [] then Inl (authority_error ''REQUIREMENTS_EMPTY'' (ao_authorityObjectKind a))
     else if \<not> list_all (\<lambda>i. i \<noteq> []) (ao_allowedOperationIds a)
       then Inl (authority_error ''OPERATION_ID_INVALID'' (ao_authorityObjectKind a))
     else if ao_acceptedEvidenceProducers a = [] \<or> ao_prohibitedDirectWriters a = []
       then Inl (authority_error ''EVIDENCE_OR_DENYLIST_EMPTY'' (ao_authorityObjectKind a))
     else if ao_closurePredicateId a = [] \<or> ao_stateMachineId a = []
       then Inl (authority_error ''STATE_CONTRACT_INCOMPLETE'' (ao_authorityObjectKind a))
     else if machines \<noteq> [] \<and> list_all (\<lambda>m. sm_stateMachineId m \<noteq> ao_stateMachineId a) machines
       then Inl (authority_error ''STATE_MACHINE_MISSING'' (ao_authorityObjectKind a @ '':'' @ ao_stateMachineId a))
     else Inr (foldl (\<lambda>m op. jm_set op (owners_of m op @ [a]) m) byOperation (ao_allowedOperationIds a),
               kinds @ [ao_authorityObjectKind a]))"

definition check_operation_owner ::
  "(string \<times> authority_ownership list) list \<Rightarrow> operation_contract \<Rightarrow> unit outcome" where
  "check_operation_owner byOperation op = (case owners_of byOperation (oc_operationId op) of
     [owner] \<Rightarrow>
       if ao_canonicalWriterId owner \<noteq> oc_canonicalWriterId op \<or> ao_stateMachineId owner \<noteq> oc_stateMachineId op
       then Inl (authority_error ''OPERATION_CONTRACT_MISMATCH'' (oc_operationName op)) else Inr ()
   | owners \<Rightarrow> Inl (authority_error ''OPERATION_CARDINALITY'' (oc_operationName op @ '':'' @ nat_text (length owners))))"

definition validateAuthorityOwnership ::
  "operation_contract list \<Rightarrow> authority_ownership list \<Rightarrow> state_machine list \<Rightarrow> unit outcome" where
  "validateAuthorityOwnership operations authorities machines =
     bindE (forE (check_authority machines) ([], []) authorities) (\<lambda>(byOperation, _).
       forE (\<lambda>_ op. check_operation_owner byOperation op) () operations)"

definition authorityForOperation :: "string \<Rightarrow> authority_ownership list \<Rightarrow> authority_ownership outcome" where
  "authorityForOperation op authorities =
     (case filter (\<lambda>a. ao_lifecycle a = ''ACTIVE'' \<and> op \<in> set (ao_allowedOperationIds a)) authorities of
        [owner] \<Rightarrow> Inr owner
      | owners \<Rightarrow> Inl (authority_error ''OPERATION_CARDINALITY'' (op @ '':'' @ nat_text (length owners))))"

section \<open>State machines\<close>

definition assertStateTransition :: "state_machine \<Rightarrow> string \<Rightarrow> string \<Rightarrow> string \<Rightarrow> unit outcome" where
  "assertStateTransition m current next operationId =
     (if current \<notin> set (sm_states m) \<or> next \<notin> set (sm_states m)
        then Inl (Plain_Error (''STATE_NOT_DECLARED:'' @ sm_stateMachineId m))
      else if current \<in> set (sm_terminalStates m)
        then Inl (Plain_Error (''TERMINAL_STATE_IMMUTABLE:'' @ sm_stateMachineId m @ '':'' @ current))
      else (case find (\<lambda>t. tr_fromState t = current \<and> tr_toState t = next) (sm_transitions m) of
          Some t \<Rightarrow> if operationId \<in> set (tr_operationIds t) then Inr ()
            else Inl (Plain_Error (''STATE_TRANSITION_FORBIDDEN:'' @ sm_stateMachineId m @ '':'' @ current @ ''->'' @ next @ '':'' @ operationId))
        | None \<Rightarrow> Inl (Plain_Error (''STATE_TRANSITION_FORBIDDEN:'' @ sm_stateMachineId m @ '':'' @ current @ ''->'' @ next @ '':'' @ operationId))))"

section \<open>Loading\<close>

definition isSourceEvidence :: "cjson \<Rightarrow> bool" where
  "isSourceEvidence v = (case v of
     CObj es \<Rightarrow> (\<exists>s. map_of es ''sourceRef'' = Some (CStr s))
       \<and> map_of es ''relationKind'' \<in> {Some (CStr ''AUTHORITY''), Some (CStr ''SPECIALIZATION''), Some (CStr ''REFERENCE'')}
       \<and> (\<exists>s. map_of es ''canonicalRecordId'' = Some (CStr s))
       \<and> (case map_of es ''canonicalRequirementIds'' of Some (CArr ids) \<Rightarrow> list_all (\<lambda>i. case i of CStr _ \<Rightarrow> True | _ \<Rightarrow> False) ids | _ \<Rightarrow> False)
       \<and> (\<exists>s. map_of es ''relationDigest'' = Some (CStr s))
   | _ \<Rightarrow> False)"

text \<open>
  A parsed registry file: its kind, and its records if they are an array. \<open>read_file\<close> gives the
  parsed file at a path below the repository root, or the error of reading or parsing it.
\<close>

type_synonym 'r registry_document = "registry_kind option \<times> 'r list option"

definition registry_path :: "registry_kind \<Rightarrow> string" where
  "registry_path kind = ''contracts/registries/'' @ (case kind of
     REQUIREMENT_REGISTRY \<Rightarrow> ''requirements/requirements.json''
   | OPERATION_CATALOG \<Rightarrow> ''operations/operations.json''
   | STATE_MACHINE_REGISTRY \<Rightarrow> ''state-machines/state-machines.json''
   | POSTGRES_CONTRACT_MATRIX \<Rightarrow> ''postgres/postgres-contracts.json''
   | RUNTIME_BOUNDARY_MATRIX \<Rightarrow> ''runtime-boundaries/runtime-boundaries.json''
   | BINDING_REGISTRY \<Rightarrow> ''bindings/bindings.json''
   | AUTHORITY_OWNERSHIP_REGISTRY \<Rightarrow> ''authority/authority-ownership.json''
   | ERROR_RETRY_REGISTRY \<Rightarrow> ''errors/errors.json''
   | FAULT_CATALOG \<Rightarrow> ''faults/faults.json''
   | RECOVERY_ORACLE_REGISTRY \<Rightarrow> ''recovery-oracles/recovery-oracles.json''
   | CLOSURE_PREDICATE_REGISTRY \<Rightarrow> ''closure-predicates/closure-predicates.json''
   | ACCEPTANCE_GATE_REGISTRY \<Rightarrow> ''acceptance-gates/acceptance-gates.json''
   | EXPOSURE_PARITY_REGISTRY \<Rightarrow> ''exposure-parity/exposure-parity.json''
   | ARTIFACT_TRACE_REGISTRY \<Rightarrow> ''artifact-trace/artifact-trace.json'')"

definition load_registry_document ::
  "(string \<Rightarrow> 'r registry_document outcome) \<Rightarrow> registry_kind \<Rightarrow> 'r list outcome" where
  "load_registry_document read_file kind = bindE (read_file (registry_path kind)) (\<lambda>(k, records).
     case records of
       Some rs \<Rightarrow> if k = Some kind then Inr rs else Inl (Plain_Error ''Invalid'')
     | None \<Rightarrow> Inl (Plain_Error ''Invalid''))"

definition operationByName ::
  "(string \<Rightarrow> operation_contract registry_document outcome) \<Rightarrow> string \<Rightarrow> operation_contract outcome" where
  "operationByName read_file name = bindE (load_registry_document read_file OPERATION_CATALOG) (\<lambda>records.
     case find (\<lambda>op. oc_operationName op = name) records of
       Some op \<Rightarrow> Inr op | None \<Rightarrow> Inl (Plain_Error (''Unknown operation: '' @ name)))"

section \<open>Parity between operations and surfaces\<close>

lemma check_parity_ok:
  assumes "check_parity ops m p = Inr m'"
  shows "m' = jm_set (ep_operationId p) p m" "ep_operationId p \<notin> fst ` set m" "ep_operationId p \<in> oc_operationId ` set ops"
    "map_option oc_exposureClass (jm_get (jm_of oc_operationId ops) (ep_operationId p)) = Some (ep_exposureClass p)"
    "\<exists>ids. check_surfaces p ids = Inr ()"
  using assms
  by (auto simp: check_parity_def bindE_Inr_iff jm_has_def map_of_eq_None_iff split: if_splits)

lemma check_parities:
  "forE (check_parity ops) m ps = Inr m' \<Longrightarrow>
     fst ` set m' = fst ` set m \<union> ep_operationId ` set ps \<and> distinct (map ep_operationId ps)
     \<and> ep_operationId ` set ps \<inter> fst ` set m = {} \<and> ep_operationId ` set ps \<subseteq> oc_operationId ` set ops
     \<and> (\<forall>p \<in> set ps. map_option oc_exposureClass (jm_get (jm_of oc_operationId ops) (ep_operationId p)) = Some (ep_exposureClass p)
          \<and> (\<exists>ids. check_surfaces p ids = Inr ()))"
proof (induction ps arbitrary: m)
  case (Cons p ps)
  then obtain m1 where m1: "check_parity ops m p = Inr m1" "forE (check_parity ops) m1 ps = Inr m'"
    by (auto split: sum.splits)
  note ok = check_parity_ok [OF m1(1)]
  have "fst ` set m1 = insert (ep_operationId p) (fst ` set m)" using ok(1) by (simp add: jm_set_keys)
  with Cons.IH [OF m1(2)] ok show ?case by auto
qed simp

lemma check_surfaces_ui: "check_surfaces p ids = Inr () \<Longrightarrow> (ep_uiActionIds p \<noteq> []) = (ep_exposureClass p = ''OWNER_COMMAND'')"
  by (auto simp: check_surfaces_def split: if_splits)

text \<open>
  When the exposure registry is accepted, the operations of the catalogue and the parity
  records correspond one to one: every operation has exactly one record, every record's operation
  and parent operation exist, the exposure classes agree, and user-interface actions exist exactly
  for owner commands.
\<close>

theorem exposure_parity_bijective:
  assumes "validateExposureParity ops parity = Inr ()"
  shows "oc_operationId ` set ops = ep_operationId ` set parity \<and> distinct (map ep_operationId parity)
    \<and> (\<forall>p \<in> set parity. (\<exists>op \<in> set ops. oc_operationId op = ep_operationId p \<and> oc_exposureClass op = ep_exposureClass p)
         \<and> ((ep_uiActionIds p \<noteq> []) = (ep_exposureClass p = ''OWNER_COMMAND''))
         \<and> (\<forall>parent. ep_parentOperationId p = Some parent \<longrightarrow> parent = [] \<or> parent \<in> oc_operationId ` set ops))"
proof -
  from assms obtain m where m: "forE (check_parity ops) [] parity = Inr m"
    and all: "forE (\<lambda>_ op. if \<not> jm_has m (oc_operationId op)
         then Inl (parity_error ''INCOMPLETE'' (oc_operationName op @ '':record'')) else Inr ()) () ops = Inr ()"
    and par: "forE (\<lambda>_ p. case ep_parentOperationId p of None \<Rightarrow> Inr ()
         | Some parent \<Rightarrow> if parent \<noteq> [] \<and> parent \<notin> set (map oc_operationId ops)
             then Inl (parity_error ''PARENT_MISSING'' (ep_operationId p @ '':'' @ parent)) else Inr ()) () parity = Inr ()"
    by (auto simp: validateExposureParity_def bindE_Inr_iff)
  note ps = check_parities [OF m]
  have "oc_operationId op \<in> ep_operationId ` set parity" if "op \<in> set ops" for op
    using forE_unit [OF all that] ps by (auto simp: jm_has_def map_of_eq_None_iff split: if_splits)
  moreover have "parent = [] \<or> parent \<in> oc_operationId ` set ops" if "p \<in> set parity" "ep_parentOperationId p = Some parent" for p parent
    using forE_unit [OF par that(1)] that(2) by (auto split: if_splits)
  moreover have "\<exists>op \<in> set ops. oc_operationId op = ep_operationId p \<and> oc_exposureClass op = ep_exposureClass p"
    if "p \<in> set parity" for p
  proof -
    from ps that obtain op where "jm_get (jm_of oc_operationId ops) (ep_operationId p) = Some op" "oc_exposureClass op = ep_exposureClass p"
      by auto
    with jm_of_Some show ?thesis by metis
  qed
  moreover have "(ep_uiActionIds p \<noteq> []) = (ep_exposureClass p = ''OWNER_COMMAND'')" if "p \<in> set parity" for p
    using ps that check_surfaces_ui by blast
  moreover have "oc_operationId ` set ops = ep_operationId ` set parity" "distinct (map ep_operationId parity)"
    using ps calculation(1) by auto
  ultimately show ?thesis by blast
qed

definition tampered_parity :: exposure_parity where
  "tampered_parity = \<lparr>ep_operationId = ''OP'', ep_exposureClass = ''OWNER_COMMAND'', ep_apiOperationIds = [''REST_ROUTE:r''],
     ep_uiSurfaceIds = [''UI_VIEW:v''], ep_uiActionIds = [''UI_ACTION:a''], ep_chatCapabilityIds = [''CHAT_CAPABILITY:c''],
     ep_auditEventTypes = [''E''], ep_selfTestCaseIds = [''TEST_CASE:t''], ep_acceptanceGateIds = [''G''],
     ep_parentOperationId = None,
     ep_surfaceBindings = map (\<lambda>i. \<lparr>sb_bindingId = i, sb_status = ''NOT_APPLICABLE'', sb_sourcePath = None,
       sb_sourceSymbol = None, sb_sourceMarker = None, sb_target = None, sb_reasonCode = Some ''NONE'',
       sb_supportingRequirementSourceRef = Some ''ssot://55.18/55-18-ui-api-chat-audit-a-self-test-parity/atom-1''\<rparr>)
       [''REST_ROUTE:r'', ''UI_VIEW:v'', ''UI_ACTION:a'', ''CHAT_CAPABILITY:c'', ''TEST_CASE:t'']\<rparr>"

definition sample_operation :: operation_contract where
  "sample_operation = \<lparr>oc_operationId = ''OP'', oc_operationName = ''op'', oc_exposureClass = ''OWNER_COMMAND'',
     oc_canonicalWriterId = ''W'', oc_stateMachineId = ''SM''\<rparr>"

text \<open>
  The parity check counts the surfaces that are declared not applicable: an owner command all
  of whose surfaces are marked \<^verbatim>\<open>NOT_APPLICABLE\<close>, with no route, view, action, chat capability or test
  behind it, is accepted.
\<close>

theorem not_applicable_surfaces_accepted:
  "validateExposureParity [sample_operation] [tampered_parity] = Inr ()"
  by code_simp

theorem exposure_parity_bijective_witness:
  "oc_operationId ` set [sample_operation] = ep_operationId ` set [tampered_parity]"
proof -
  have "validateExposureParity [sample_operation] [tampered_parity] = Inr ()" by code_simp
  from exposure_parity_bijective [OF this] show ?thesis by blast
qed

section \<open>One owner for each operation\<close>

lemma owners_of_set: "owners_of (jm_set k v m) op = (if op = k then v else owners_of m op)"
  by (simp add: owners_of_def jm_get_def map_of_jm_set)

lemma owners_of_foldl:
  "owners_of (foldl (\<lambda>m op. jm_set op (owners_of m op @ [a]) m) m ops) op
     = owners_of m op @ replicate (count_list ops op) a"
  by (induction ops arbitrary: m) (auto simp: owners_of_set replicate_append_same [symmetric])

definition active_authority :: "authority_ownership \<Rightarrow> bool" where
  "active_authority a = (ao_lifecycle a = ''ACTIVE'')"

definition owned_by :: "string \<Rightarrow> authority_ownership \<Rightarrow> authority_ownership list" where
  "owned_by op a = replicate (count_list (ao_allowedOperationIds a) op) a"

lemma check_authorities:
  "forE (check_authority machines) (m, ks) as = Inr (m', ks') \<Longrightarrow>
     owners_of m' op = owners_of m op @ concat (map (owned_by op) (filter active_authority as))"
proof (induction as arbitrary: m ks)
  case (Cons a as)
  then obtain m1 ks1 where c: "check_authority machines (m, ks) a = Inr (m1, ks1)" "forE (check_authority machines) (m1, ks1) as = Inr (m', ks')"
    by (auto split: sum.splits)
  have "owners_of m1 op = owners_of m op @ (if active_authority a then owned_by op a else [])"
    using c(1) by (auto simp: check_authority_def active_authority_def owned_by_def owners_of_foldl split: if_splits)
  with Cons.IH [OF c(2)] show ?case by auto
qed simp

lemma concat_owned:
  "concat (map (owned_by op) (filter active_authority as)) = [owner] \<Longrightarrow>
     filter (\<lambda>a. active_authority a \<and> op \<in> set (ao_allowedOperationIds a)) as = [owner]"
proof (induction as)
  case (Cons a as)
  let ?n = "count_list (ao_allowedOperationIds a) op"
  have z: "?n = 0 \<longleftrightarrow> op \<notin> set (ao_allowedOperationIds a)" by (simp add: count_list_0_iff)
  have nil: "concat (map (owned_by op) (filter active_authority as)) = [] \<Longrightarrow>
      filter (\<lambda>a. active_authority a \<and> op \<in> set (ao_allowedOperationIds a)) as = []"
    by (auto simp: owned_by_def filter_empty_conv count_list_0_iff)
  show ?case
  proof (cases "active_authority a \<and> op \<in> set (ao_allowedOperationIds a)")
    case True
    with z obtain k where "?n = Suc k" by (cases ?n) auto
    with True Cons.prems have "a = owner" "concat (map (owned_by op) (filter active_authority as)) = []"
      by (auto simp: owned_by_def)
    with nil True show ?thesis by simp
  next
    case False
    then have "active_authority a \<Longrightarrow> owned_by op a = []" using z by (simp add: owned_by_def)
    with Cons.prems have "concat (map (owned_by op) (filter active_authority as)) = [owner]"
      by (auto split: if_splits)
    with Cons.IH False show ?thesis by auto
  qed
qed simp

text \<open>
  When the authority registry is accepted, every operation of the catalogue has exactly one
  active owner: looking up its authority succeeds, and the owner writes through the writer and the
  state machine that the operation declares.
\<close>

theorem authority_lookup_after_validation:
  assumes "validateAuthorityOwnership ops authorities machines = Inr ()" and "op \<in> set ops"
  shows "\<exists>owner. authorityForOperation (oc_operationId op) authorities = Inr owner
    \<and> ao_canonicalWriterId owner = oc_canonicalWriterId op \<and> ao_stateMachineId owner = oc_stateMachineId op"
proof -
  from assms(1) obtain m ks where c: "forE (check_authority machines) ([], []) authorities = Inr (m, ks)"
      "forE (\<lambda>_ op. check_operation_owner m op) () ops = Inr ()"
    by (auto simp: validateAuthorityOwnership_def bindE_Inr_iff)
  from forE_unit [OF c(2) assms(2)] obtain owner where o: "owners_of m (oc_operationId op) = [owner]"
      "ao_canonicalWriterId owner = oc_canonicalWriterId op" "ao_stateMachineId owner = oc_stateMachineId op"
    by (auto simp: check_operation_owner_def split: list.splits if_splits)
  have "concat (map (owned_by (oc_operationId op)) (filter active_authority authorities)) = [owner]"
    using check_authorities [OF c(1), of "oc_operationId op"] o(1) by (simp add: owners_of_def jm_get_def)
  from concat_owned [OF this] o show ?thesis
    by (simp add: authorityForOperation_def active_authority_def)
qed

definition sample_authority :: authority_ownership where
  "sample_authority = \<lparr>ao_lifecycle = ''ACTIVE'', ao_requirementIds = [''R''], ao_authorityObjectKind = ''K'',
     ao_canonicalWriterId = ''W'', ao_stateMachineId = ''SM'', ao_allowedOperationIds = [''OP''],
     ao_acceptedEvidenceProducers = [''P''], ao_prohibitedDirectWriters = [''D''], ao_closurePredicateId = ''C''\<rparr>"

theorem authority_lookup_after_validation_witness:
  "\<exists>owner. authorityForOperation ''OP'' [sample_authority] = Inr owner \<and> ao_canonicalWriterId owner = ''W''"
proof -
  have "validateAuthorityOwnership [sample_operation] [sample_authority] [] = Inr ()" by code_simp
  from authority_lookup_after_validation [OF this, of sample_operation] show ?thesis
    by (auto simp: sample_operation_def)
qed

section \<open>State machines\<close>

definition machine_step :: "state_machine \<Rightarrow> string \<Rightarrow> string \<Rightarrow> bool" where
  "machine_step m current next = (\<exists>op. assertStateTransition m current next op = Inr ())"

interpretation machine: transition_system "\<lambda>s. s \<in> set initial" "machine_step m" for initial m .

lemma machine_step_declared: "machine_step m s t \<Longrightarrow> s \<notin> set (sm_terminalStates m) \<and> t \<in> set (sm_states m)"
  by (auto simp: machine_step_def assertStateTransition_def split: if_splits)

lemma machine_reach_declared:
  assumes "set initial \<subseteq> set (sm_states m)" and "machine.reach initial m s"
  shows "s \<in> set (sm_states m)"
  by (rule machine.invariant_rule [of initial "\<lambda>s. s \<in> set (sm_states m)" m, OF _ _ assms(2)])
    (use assms(1) machine_step_declared in auto)

text \<open>
  An aggregate that only moves through asserted transitions never leaves the declared states,
  and once it is in a terminal state no operation moves it any more.
\<close>

theorem asserted_transitions_safe:
  assumes "set initial \<subseteq> set (sm_states m)" and "machine.reach initial m s"
  shows "s \<in> set (sm_states m)
    \<and> (s \<in> set (sm_terminalStates m) \<longrightarrow> (\<forall>next op. \<exists>e. assertStateTransition m s next op = Inl e))"
  using machine_reach_declared [OF assms] by (auto simp: assertStateTransition_def)

definition sample_machine :: state_machine where
  "sample_machine = \<lparr>sm_stateMachineId = ''SM'', sm_states = [''DRAFT'', ''DONE''], sm_terminalStates = [''DONE''],
     sm_transitions = [\<lparr>tr_transitionId = ''T'', tr_fromState = ''DRAFT'', tr_toState = ''DONE'', tr_operationIds = [''OP'']\<rparr>]\<rparr>"

theorem asserted_transitions_safe_witness:
  "\<exists>e. assertStateTransition sample_machine ''DONE'' ''DRAFT'' ''OP'' = Inl e"
proof -
  have "machine.reach [''DRAFT''] sample_machine ''DRAFT''" by (rule machine.reach_init) simp
  moreover have "machine_step sample_machine ''DRAFT'' ''DONE''"
    unfolding machine_step_def by (rule exI [of _ "''OP''"]) code_simp
  ultimately have "machine.reach [''DRAFT''] sample_machine ''DONE''" by (rule machine.reach_step)
  from asserted_transitions_safe [OF _ this] show ?thesis by (simp add: sample_machine_def)
qed

end
