(* ===== verification/BindingRegistry.thy ===== *)
theory BindingRegistry
  imports CanonicalJson
begin

text \<open>
  Exact bindings (\<^verbatim>\<open>packages/domain/src/binding-registry.ts\<close>): the records that pin a source, a target,
  an operation and a contract to each other, their validation, and the comparison of a record with
  a dispatch request. A refusal is the \<^verbatim>\<open>DomainError\<close> \<^verbatim>\<open>BINDING_REVISION_STALE\<close> with a reason, which the
  model keeps. Date parsing and the date-time format check are parameters.
\<close>

section \<open>Records\<close>

definition bindingKinds :: "string list" where
  "bindingKinds = [''CONTRACT_BINDING'', ''SECRET_BINDING'', ''EXTERNAL_TARGET_BINDING'', ''EXTERNAL_AUTH_BINDING'',
     ''AGENT_TOOL_BINDING'', ''BROWSER_ACCOUNT_BINDING'', ''BROWSER_PROFILE_ASSIGNMENT'', ''ACTIVATION_SET_MEMBERSHIP'',
     ''ROUTE_BINDING'']"

type_synonym json_object = "(string \<times> cjson) list"

record exact_binding =
  eb_recordId :: string
  eb_recordKind :: string
  eb_schemaVersion :: string
  eb_sourceRelations :: "cjson list"
  eb_canonicalName :: string
  eb_supersedes :: "string list"
  eb_supersededBy :: "string list"
  eb_extensions :: json_object
  eb_bindingId :: string
  eb_bindingKind :: string
  eb_bindingRevision :: int
  eb_bindingDigest :: string
  eb_sourceObjectId :: string
  eb_sourceRevisionId :: string
  eb_targetObjectId :: string
  eb_targetRevisionId :: "string option"
  eb_targetOperationOrRoute :: string
  eb_contractSchemaDigest :: string
  eb_secretVersionSelector :: "json_object option"
  eb_externalTargetOrOrigin :: "string option"
  eb_accountOrTenantConstraint :: "json_object option"
  eb_purpose :: string
  eb_lifecycle :: string
  eb_bindingSetRevision :: string
  eb_activationSetId :: string
  eb_activationEpoch :: int
  eb_validFrom :: "string option"
  eb_validUntil :: "string option"
  eb_canonicalWriterId :: string
  eb_targetOperationId :: "string option"
  eb_routeOperationId :: "string option"
  eb_contractDigest :: string
  eb_exact :: bool
  eb_requirementIds :: "string list"
  eb_authoritySourceRefs :: "string list"
  eb_canonicalDigest :: string

datatype binding_error =
    Binding_Schema
  | Binding_Rejected string \<comment> \<open>\<open>BINDING_REVISION_STALE\<close>, with its \<open>bindingReason\<close>\<close>
  | Binding_Not_Active \<comment> \<open>\<open>KCIP_BINDING_NOT_ACTIVE\<close>\<close>
  | Binding_Registry_Error string

type_synonym 'a binding_outcome = "binding_error + 'a"

definition non_empty_or_null :: "string option \<Rightarrow> bool" where
  "non_empty_or_null s = (s \<noteq> Some [])"

definition exactBindingRecordSchema :: "(string \<Rightarrow> bool) \<Rightarrow> exact_binding \<Rightarrow> bool" where
  "exactBindingRecordSchema is_datetime r =
     (eb_recordId r \<noteq> [] \<and> eb_recordKind r = ''BINDING_REGISTRY'' \<and> eb_schemaVersion r = ''1.0''
      \<and> eb_sourceRelations r \<noteq> [] \<and> eb_canonicalName r \<noteq> [] \<and> eb_bindingId r \<noteq> []
      \<and> eb_bindingKind r \<in> set bindingKinds \<and> 0 < eb_bindingRevision r \<and> is_digest (eb_bindingDigest r)
      \<and> eb_sourceObjectId r \<noteq> [] \<and> eb_sourceRevisionId r \<noteq> [] \<and> eb_targetObjectId r \<noteq> []
      \<and> non_empty_or_null (eb_targetRevisionId r) \<and> eb_targetOperationOrRoute r \<noteq> []
      \<and> is_digest (eb_contractSchemaDigest r) \<and> non_empty_or_null (eb_externalTargetOrOrigin r) \<and> eb_purpose r \<noteq> []
      \<and> eb_lifecycle r \<in> set [''ACTIVE'', ''SUPERSEDED'', ''RETIRED''] \<and> eb_bindingSetRevision r \<noteq> []
      \<and> eb_activationSetId r \<noteq> [] \<and> 0 \<le> eb_activationEpoch r
      \<and> (case eb_validFrom r of None \<Rightarrow> True | Some t \<Rightarrow> is_datetime t)
      \<and> (case eb_validUntil r of None \<Rightarrow> True | Some t \<Rightarrow> is_datetime t)
      \<and> eb_canonicalWriterId r \<noteq> [] \<and> non_empty_or_null (eb_targetOperationId r) \<and> non_empty_or_null (eb_routeOperationId r)
      \<and> is_digest (eb_contractDigest r) \<and> eb_exact r \<and> eb_requirementIds r \<noteq> [] \<and> [] \<notin> set (eb_requirementIds r)
      \<and> eb_authoritySourceRefs r \<noteq> [] \<and> [] \<notin> set (eb_authoritySourceRefs r) \<and> is_digest (eb_canonicalDigest r))"

definition validateExactBindingRecord :: "(string \<Rightarrow> bool) \<Rightarrow> exact_binding \<Rightarrow> exact_binding binding_outcome" where
  "validateExactBindingRecord is_datetime r =
     (if \<not> exactBindingRecordSchema is_datetime r then Inl Binding_Schema
      else if CHR ''*'' \<in> set (eb_bindingId r) \<or> CHR ''*'' \<in> set (eb_sourceObjectId r) \<or> CHR ''*'' \<in> set (eb_targetObjectId r)
        then Inl (Binding_Rejected ''BINDING_WILDCARD_FORBIDDEN'')
      else if CHR ''*'' \<in> set (eb_targetOperationOrRoute r) then Inl (Binding_Rejected ''BINDING_TARGET_WILDCARD_FORBIDDEN'')
      else if eb_bindingKind r = ''SECRET_BINDING'' \<and> eb_secretVersionSelector r = None
        then Inl (Binding_Rejected ''BINDING_SECRET_VERSION_REQUIRED'')
      else if eb_bindingKind r = ''BROWSER_ACCOUNT_BINDING'' \<and> eb_accountOrTenantConstraint r = None
        then Inl (Binding_Rejected ''BINDING_ACCOUNT_CONSTRAINT_REQUIRED'')
      else if eb_activationSetId r = [] \<or> eb_bindingSetRevision r = []
        then Inl (Binding_Rejected ''BINDING_ACTIVATION_RELATION_REQUIRED'')
      else Inr r)"

section \<open>Pinning\<close>

text \<open>
  The request's counters are \<^verbatim>\<open>bigint | number | string\<close> and are compared by their text; the model
  keeps that text. An absent optional property is null.
\<close>

record runtime_binding_request =
  rb_bindingId :: string
  rb_bindingRevision :: string
  rb_bindingDigest :: string
  rb_sourceObjectId :: string
  rb_sourceRevisionId :: string
  rb_targetObjectId :: string
  rb_targetRevisionId :: "string option"
  rb_targetOperationOrRoute :: string
  rb_contractSchemaDigest :: string
  rb_secretVersionSelector :: "json_object option"
  rb_externalTargetOrOrigin :: "string option"
  rb_accountOrTenantConstraint :: "json_object option"
  rb_purpose :: string
  rb_bindingSetRevision :: string
  rb_activationSetId :: string
  rb_activationEpoch :: string

record runtime_binding_pin =
  pin_bindingId :: string
  pin_bindingKind :: string
  pin_bindingRevision :: int
  pin_bindingDigest :: string
  pin_sourceObjectId :: string
  pin_sourceRevisionId :: string
  pin_targetObjectId :: string
  pin_targetRevisionId :: "string option"
  pin_targetOperationOrRoute :: string
  pin_contractSchemaDigest :: string
  pin_secretVersionSelector :: "json_object option"
  pin_externalTargetOrOrigin :: "string option"
  pin_accountOrTenantConstraint :: "json_object option"
  pin_purpose :: string
  pin_bindingSetRevision :: string
  pin_activationSetId :: string
  pin_activationEpoch :: int

definition js_String :: "string option \<Rightarrow> string" where
  "js_String s = (case s of None \<Rightarrow> ''null'' | Some t \<Rightarrow> t)"

definition requireEqual :: "string \<Rightarrow> string \<Rightarrow> string \<Rightarrow> unit binding_outcome" where
  "requireEqual field actual expected =
     (if actual \<noteq> expected then Inl (Binding_Rejected (''BINDING_'' @ field @ ''_MISMATCH'')) else Inr ())"

definition jsonValue :: "json_object option \<Rightarrow> cjson" where
  "jsonValue v = (case v of None \<Rightarrow> CNull | Some es \<Rightarrow> CObj es)"

definition requireJsonEqual :: "collation \<Rightarrow> string \<Rightarrow> json_object option \<Rightarrow> json_object option \<Rightarrow> unit binding_outcome" where
  "requireJsonEqual le field actual expected =
     (if canonicalJson le (jsonValue actual) \<noteq> canonicalJson le (jsonValue expected)
      then Inl (Binding_Rejected (''BINDING_'' @ field @ ''_MISMATCH'')) else Inr ())"

definition all_ok :: "unit binding_outcome list \<Rightarrow> unit binding_outcome" where
  "all_ok checks = forE (\<lambda>_ c. c) () checks"

definition identity_checks :: "collation \<Rightarrow> exact_binding \<Rightarrow> runtime_binding_request \<Rightarrow> unit binding_outcome list" where
  "identity_checks le r q =
     [requireEqual ''ID'' (eb_bindingId r) (rb_bindingId q),
      requireEqual ''REVISION'' (int_text (eb_bindingRevision r)) (rb_bindingRevision q),
      requireEqual ''DIGEST'' (eb_bindingDigest r) (rb_bindingDigest q),
      requireEqual ''SOURCE_OBJECT_ID'' (eb_sourceObjectId r) (rb_sourceObjectId q),
      requireEqual ''SOURCE_REVISION'' (eb_sourceRevisionId r) (rb_sourceRevisionId q),
      requireEqual ''TARGET_OBJECT_ID'' (eb_targetObjectId r) (rb_targetObjectId q),
      requireEqual ''TARGET_REVISION'' (js_String (eb_targetRevisionId r)) (js_String (rb_targetRevisionId q)),
      requireEqual ''OPERATION_OR_ROUTE'' (eb_targetOperationOrRoute r) (rb_targetOperationOrRoute q),
      requireEqual ''CONTRACT_SCHEMA_DIGEST'' (eb_contractSchemaDigest r) (rb_contractSchemaDigest q),
      requireEqual ''PURPOSE'' (eb_purpose r) (rb_purpose q),
      requireEqual ''BINDING_SET_REVISION'' (eb_bindingSetRevision r) (rb_bindingSetRevision q),
      requireEqual ''ACTIVATION_SET_ID'' (eb_activationSetId r) (rb_activationSetId q),
      requireEqual ''ACTIVATION_EPOCH'' (int_text (eb_activationEpoch r)) (rb_activationEpoch q),
      requireJsonEqual le ''SECRET_VERSION'' (eb_secretVersionSelector r) (rb_secretVersionSelector q),
      requireEqual ''EXTERNAL_TARGET'' (js_String (eb_externalTargetOrOrigin r)) (js_String (rb_externalTargetOrOrigin q)),
      requireJsonEqual le ''ACCOUNT_CONSTRAINT'' (eb_accountOrTenantConstraint r) (rb_accountOrTenantConstraint q)]"

definition pin_of :: "exact_binding \<Rightarrow> runtime_binding_pin" where
  "pin_of r = \<lparr>pin_bindingId = eb_bindingId r, pin_bindingKind = eb_bindingKind r,
     pin_bindingRevision = eb_bindingRevision r, pin_bindingDigest = eb_bindingDigest r,
     pin_sourceObjectId = eb_sourceObjectId r, pin_sourceRevisionId = eb_sourceRevisionId r,
     pin_targetObjectId = eb_targetObjectId r, pin_targetRevisionId = eb_targetRevisionId r,
     pin_targetOperationOrRoute = eb_targetOperationOrRoute r, pin_contractSchemaDigest = eb_contractSchemaDigest r,
     pin_secretVersionSelector = eb_secretVersionSelector r, pin_externalTargetOrOrigin = eb_externalTargetOrOrigin r,
     pin_accountOrTenantConstraint = eb_accountOrTenantConstraint r, pin_purpose = eb_purpose r,
     pin_bindingSetRevision = eb_bindingSetRevision r, pin_activationSetId = eb_activationSetId r,
     pin_activationEpoch = eb_activationEpoch r\<rparr>"

text \<open>\<open>date_ms\<close> is the time a date denotes, None for an invalid date, which compares false.\<close>

definition pinRuntimeBinding ::
  "(string \<Rightarrow> bool) \<Rightarrow> (string \<Rightarrow> int option) \<Rightarrow> collation \<Rightarrow> exact_binding \<Rightarrow> runtime_binding_request \<Rightarrow> int
   \<Rightarrow> runtime_binding_pin binding_outcome" where
  "pinRuntimeBinding is_datetime date_ms le value q now =
     bindE (validateExactBindingRecord is_datetime value) (\<lambda>r.
       if eb_lifecycle r \<noteq> ''ACTIVE'' then Inl (Binding_Rejected ''BINDING_NOT_ACTIVE'')
       else bindE (all_ok (identity_checks le r q)) (\<lambda>_.
         if (case Option.bind (eb_validFrom r) date_ms of None \<Rightarrow> False | Some t \<Rightarrow> now < t)
           then Inl (Binding_Rejected ''BINDING_NOT_YET_VALID'')
         else if (case Option.bind (eb_validUntil r) date_ms of None \<Rightarrow> False | Some t \<Rightarrow> now \<ge> t)
           then Inl (Binding_Rejected ''BINDING_EXPIRED'')
         else Inr (pin_of r)))"

section \<open>The registry\<close>

type_synonym binding_registry = "(string \<times> exact_binding) list"

definition registry_add :: "binding_registry \<Rightarrow> exact_binding \<Rightarrow> binding_registry binding_outcome" where
  "registry_add byId r = (if jm_has byId (eb_bindingId r)
     then Inl (Binding_Registry_Error (''BINDING_ID_DUPLICATE:'' @ eb_bindingId r))
     else Inr (jm_set (eb_bindingId r) r byId))"

definition validate_all :: "(string \<Rightarrow> bool) \<Rightarrow> exact_binding list \<Rightarrow> exact_binding list binding_outcome" where
  "validate_all is_datetime rs = forE (\<lambda>acc r. bindE (validateExactBindingRecord is_datetime r) (\<lambda>r. Inr (acc @ [r]))) [] rs"

definition BindingRegistry :: "(string \<Rightarrow> bool) \<Rightarrow> exact_binding list \<Rightarrow> binding_registry binding_outcome" where
  "BindingRegistry is_datetime rs =
     bindE (validate_all is_datetime rs) (\<lambda>parsed.
     bindE (forE registry_add [] parsed) (\<lambda>byId.
     bindE (forE (\<lambda>_ kind. if kind \<notin> set (map eb_bindingKind parsed)
         then Inl (Binding_Registry_Error (''BINDING_KIND_MISSING:'' @ kind)) else Inr ()) () bindingKinds) (\<lambda>_.
     Inr byId)))"

definition registry_get :: "binding_registry \<Rightarrow> string \<Rightarrow> exact_binding binding_outcome" where
  "registry_get reg bindingId = (case jm_get reg bindingId of None \<Rightarrow> Inl Binding_Not_Active | Some r \<Rightarrow> Inr r)"

definition registry_pin ::
  "(string \<Rightarrow> bool) \<Rightarrow> (string \<Rightarrow> int option) \<Rightarrow> collation \<Rightarrow> binding_registry \<Rightarrow> runtime_binding_request \<Rightarrow> int
   \<Rightarrow> runtime_binding_pin binding_outcome" where
  "registry_pin is_datetime date_ms le reg q now =
     bindE (registry_get reg (rb_bindingId q)) (\<lambda>r. pinRuntimeBinding is_datetime date_ms le r q now)"

definition registry_records :: "binding_registry \<Rightarrow> exact_binding list" where
  "registry_records reg = map snd reg"

section \<open>Properties\<close>

lemma validate_id: "validateExactBindingRecord is_datetime r = Inr r' \<Longrightarrow> r' = r"
  by (auto simp: validateExactBindingRecord_def split: if_splits)

lemma validate_all_eq:
  "forE (\<lambda>acc r. bindE (validateExactBindingRecord is_datetime r) (\<lambda>r. Inr (acc @ [r]))) acc rs = Inr parsed
   \<Longrightarrow> parsed = acc @ rs \<and> (\<forall>r \<in> set rs. validateExactBindingRecord is_datetime r = Inr r)"
proof (induction rs arbitrary: acc)
  case (Cons r rs)
  from Cons.prems obtain r' where r': "validateExactBindingRecord is_datetime r = Inr r'"
      and rest: "forE (\<lambda>acc r. bindE (validateExactBindingRecord is_datetime r) (\<lambda>r. Inr (acc @ [r]))) (acc @ [r']) rs = Inr parsed"
    by (auto simp only: forE_Cons_Inr bindE_Inr_iff sum.inject)
  from Cons.IH [OF rest] r' validate_id [OF r'] show ?case by auto
qed simp

lemma registry_adds:
  "forE registry_add byId rs = Inr byId' \<Longrightarrow>
     distinct (map eb_bindingId rs) \<and> eb_bindingId ` set rs \<inter> fst ` set byId = {}
     \<and> byId' = byId @ map (\<lambda>r. (eb_bindingId r, r)) rs"
proof (induction rs arbitrary: byId)
  case (Cons r rs)
  from Cons.prems obtain byId1 where "registry_add byId r = Inr byId1" and rest: "forE registry_add byId1 rs = Inr byId'"
    by (auto simp only: forE_Cons_Inr)
  then have fresh: "\<not> jm_has byId (eb_bindingId r)" and "byId1 = byId @ [(eb_bindingId r, r)]"
    by (auto simp: registry_add_def jm_set_fresh split: if_splits)
  with Cons.IH [OF rest] show ?case by (auto simp: jm_has_def map_of_eq_None_iff)
qed simp

lemma all_ok_simps [simp]: "all_ok [] = Inr ()" "all_ok (c # cs) = Inr () \<longleftrightarrow> c = Inr () \<and> all_ok cs = Inr ()"
  by (auto simp: all_ok_def split: sum.splits)

lemma requireEqual_ok [simp]: "requireEqual field a b = Inr () \<longleftrightarrow> a = b"
  by (simp add: requireEqual_def)

lemma requireJsonEqual_ok [simp]:
  "requireJsonEqual le field a b = Inr () \<longleftrightarrow> canonicalJson le (jsonValue a) = canonicalJson le (jsonValue b)"
  by (simp add: requireJsonEqual_def)

text \<open>
  A pin is issued only for an active record, at a time inside its validity, and only when every
  identity the request names is the record's: binding, revision, digest, source, target, operation,
  contract, purpose, binding set, activation set and epoch. The pin repeats the record.
\<close>

theorem pin_exact:
  assumes "pinRuntimeBinding is_datetime date_ms le r q now = Inr pin"
  shows "eb_lifecycle r = ''ACTIVE'' \<and> exactBindingRecordSchema is_datetime r
    \<and> pin_bindingId pin = rb_bindingId q \<and> int_text (pin_bindingRevision pin) = rb_bindingRevision q
    \<and> pin_bindingDigest pin = rb_bindingDigest q \<and> pin_sourceObjectId pin = rb_sourceObjectId q
    \<and> pin_sourceRevisionId pin = rb_sourceRevisionId q \<and> pin_targetObjectId pin = rb_targetObjectId q
    \<and> pin_targetOperationOrRoute pin = rb_targetOperationOrRoute q
    \<and> pin_contractSchemaDigest pin = rb_contractSchemaDigest q \<and> pin_purpose pin = rb_purpose q
    \<and> pin_bindingSetRevision pin = rb_bindingSetRevision q \<and> pin_activationSetId pin = rb_activationSetId q
    \<and> int_text (pin_activationEpoch pin) = rb_activationEpoch q
    \<and> canonicalJson le (jsonValue (pin_secretVersionSelector pin)) = canonicalJson le (jsonValue (rb_secretVersionSelector q))
    \<and> CHR ''*'' \<notin> set (pin_sourceObjectId pin @ pin_targetObjectId pin @ pin_targetOperationOrRoute pin)
    \<and> (\<forall>t. Option.bind (eb_validFrom r) date_ms = Some t \<longrightarrow> t \<le> now)
    \<and> (\<forall>t. Option.bind (eb_validUntil r) date_ms = Some t \<longrightarrow> now < t)"
proof -
  from assms obtain r' where "validateExactBindingRecord is_datetime r = Inr r'"
    by (auto simp: pinRuntimeBinding_def bindE_Inr_iff)
  with validate_id have v: "validateExactBindingRecord is_datetime r = Inr r" by blast
  have "exactBindingRecordSchema is_datetime r" "CHR ''*'' \<notin> set (eb_sourceObjectId r @ eb_targetObjectId r @ eb_targetOperationOrRoute r)"
    using v by (auto simp: validateExactBindingRecord_def split: if_splits)
  moreover from assms v have checks: "all_ok (identity_checks le r q) = Inr ()" and "eb_lifecycle r = ''ACTIVE''"
    "\<not> (case Option.bind (eb_validFrom r) date_ms of None \<Rightarrow> False | Some t \<Rightarrow> now < t)"
    "\<not> (case Option.bind (eb_validUntil r) date_ms of None \<Rightarrow> False | Some t \<Rightarrow> now \<ge> t)"
    by (simp_all add: pinRuntimeBinding_def bindE_Inr_iff split: if_split_asm)
  moreover from this assms v have "pin = pin_of r" by (simp add: pinRuntimeBinding_def)
  ultimately show ?thesis by (simp add: identity_checks_def pin_of_def split: option.splits)
qed

text \<open>
  A registry that is constructed holds every given record under its own identifier, all of
  them valid and of all nine kinds; a lookup answers with the record that was given, and a pin
  against an identifier that is not there is refused as not active.
\<close>

theorem binding_registry_lookup:
  assumes "BindingRegistry is_datetime rs = Inr reg"
  shows "(registry_get reg bid = Inr r \<longleftrightarrow> r \<in> set rs \<and> eb_bindingId r = bid)
    \<and> registry_records reg = rs \<and> set bindingKinds \<subseteq> eb_bindingKind ` set rs
    \<and> (bid \<notin> eb_bindingId ` set rs \<longrightarrow> rb_bindingId q = bid \<longrightarrow>
         registry_pin is_datetime date_ms le reg q now = Inl Binding_Not_Active)"
proof -
  from assms obtain parsed where p: "validate_all is_datetime rs = Inr parsed" "forE registry_add [] parsed = Inr reg"
      "forE (\<lambda>_ kind. if kind \<notin> set (map eb_bindingKind parsed)
         then Inl (Binding_Registry_Error (''BINDING_KIND_MISSING:'' @ kind)) else Inr ()) () bindingKinds = Inr ()"
    by (auto simp: BindingRegistry_def bindE_Inr_iff)
  have "parsed = rs" using validate_all_eq [OF p(1) [unfolded validate_all_def]] by simp
  with registry_adds [OF p(2)] have d: "distinct (map eb_bindingId rs)" and reg: "reg = map (\<lambda>r. (eb_bindingId r, r)) rs" by auto
  have kinds: "set bindingKinds \<subseteq> eb_bindingKind ` set rs"
  proof
    fix kind assume "kind \<in> set bindingKinds"
    from forE_unit [OF p(3) this] \<open>parsed = rs\<close> show "kind \<in> eb_bindingKind ` set rs" by (simp split: if_splits)
  qed
  have "distinct (map fst reg)" using d reg by (simp add: o_def)
  then have "jm_get reg bid = Some r \<longleftrightarrow> (bid, r) \<in> set reg" for bid r by (simp add: jm_get_def map_of_eq_Some_iff)
  then have get: "jm_get reg bid = Some r \<longleftrightarrow> r \<in> set rs \<and> eb_bindingId r = bid" for bid r using reg by auto
  moreover have "bid \<notin> eb_bindingId ` set rs \<Longrightarrow> jm_get reg bid = None" for bid
    using get by (cases "jm_get reg bid") auto
  moreover have "registry_get reg bid = Inr r \<longleftrightarrow> jm_get reg bid = Some r"
    by (simp add: registry_get_def split: option.splits)
  moreover have "registry_records reg = rs" using reg by (simp add: registry_records_def o_def)
  ultimately show ?thesis using kinds by (simp add: registry_pin_def registry_get_def)
qed

section \<open>Concrete bindings\<close>

definition zero_digest :: string where
  "zero_digest = ''sha256:'' @ replicate 64 CHR ''0''"

definition sample_binding :: "string \<Rightarrow> exact_binding" where
  "sample_binding kind = \<lparr>eb_recordId = ''r'', eb_recordKind = ''BINDING_REGISTRY'', eb_schemaVersion = ''1.0'',
     eb_sourceRelations = [CNull], eb_canonicalName = ''n'', eb_supersedes = [], eb_supersededBy = [], eb_extensions = [],
     eb_bindingId = kind, eb_bindingKind = kind, eb_bindingRevision = 3, eb_bindingDigest = zero_digest,
     eb_sourceObjectId = ''s'', eb_sourceRevisionId = ''s1'', eb_targetObjectId = ''t'', eb_targetRevisionId = None,
     eb_targetOperationOrRoute = ''op'', eb_contractSchemaDigest = zero_digest, eb_secretVersionSelector = Some [],
     eb_externalTargetOrOrigin = None, eb_accountOrTenantConstraint = Some [], eb_purpose = ''p'', eb_lifecycle = ''ACTIVE'',
     eb_bindingSetRevision = ''b'', eb_activationSetId = ''a'', eb_activationEpoch = 0, eb_validFrom = None,
     eb_validUntil = Some ''z'', eb_canonicalWriterId = ''w'', eb_targetOperationId = None, eb_routeOperationId = None,
     eb_contractDigest = zero_digest, eb_exact = True, eb_requirementIds = [''R''], eb_authoritySourceRefs = [''A''],
     eb_canonicalDigest = zero_digest\<rparr>"

definition sample_binding_request :: "string option \<Rightarrow> runtime_binding_request" where
  "sample_binding_request targetRevisionId = \<lparr>rb_bindingId = ''ROUTE_BINDING'', rb_bindingRevision = ''3'',
     rb_bindingDigest = zero_digest, rb_sourceObjectId = ''s'', rb_sourceRevisionId = ''s1'', rb_targetObjectId = ''t'',
     rb_targetRevisionId = targetRevisionId, rb_targetOperationOrRoute = ''op'', rb_contractSchemaDigest = zero_digest,
     rb_secretVersionSelector = Some [], rb_externalTargetOrOrigin = None, rb_accountOrTenantConstraint = Some [],
     rb_purpose = ''p'', rb_bindingSetRevision = ''b'', rb_activationSetId = ''a'', rb_activationEpoch = ''0''\<rparr>"

lemma zero_digest_ok: "is_digest zero_digest"
  by (simp add: zero_digest_def is_digest_def starts_with_def list_all_iff char_class_defs)

lemma sample_valid:
  assumes "kind \<in> set bindingKinds"
  shows "validateExactBindingRecord (\<lambda>_. True) (sample_binding kind) = Inr (sample_binding kind)"
proof -
  have "CHR ''*'' \<notin> set kind" "kind \<noteq> []" using assms by (auto simp: bindingKinds_def)
  with assms show ?thesis
    by (simp add: validateExactBindingRecord_def exactBindingRecordSchema_def non_empty_or_null_def sample_binding_def zero_digest_ok)
qed

lemma sample_binding_ids: "eb_bindingId (sample_binding kind) = kind" "eb_bindingKind (sample_binding kind) = kind"
  by (simp_all add: sample_binding_def)

lemma validate_all_ok:
  "\<forall>r \<in> set rs. validateExactBindingRecord is_datetime r = Inr r \<Longrightarrow>
   forE (\<lambda>acc r. bindE (validateExactBindingRecord is_datetime r) (\<lambda>r. Inr (acc @ [r]))) acc rs = Inr (acc @ rs)"
  by (induction rs arbitrary: acc) auto

lemma sample_registry_ok: "is_ok (BindingRegistry (\<lambda>_. True) (map sample_binding bindingKinds))"
proof -
  have "validate_all (\<lambda>_. True) (map sample_binding bindingKinds) = Inr (map sample_binding bindingKinds)"
    using validate_all_ok [of "map sample_binding bindingKinds" "\<lambda>_. True" "[]"] sample_valid by (simp add: validate_all_def)
  then show ?thesis
    by (simp add: BindingRegistry_def) (simp add: bindingKinds_def registry_add_def jm_has_def sample_binding_ids)
qed

lemma sample_pins:
  assumes "t = None \<or> t = Some ''null''"
  shows "pinRuntimeBinding (\<lambda>_. True) (\<lambda>_. Some 10) code_unit_le (sample_binding ''ROUTE_BINDING'') (sample_binding_request t) 5
     = Inr (pin_of (sample_binding ''ROUTE_BINDING''))"
proof -
  have schema: "validateExactBindingRecord (\<lambda>_. True) (sample_binding ''ROUTE_BINDING'') = Inr (sample_binding ''ROUTE_BINDING'')"
    by (rule sample_valid) (simp add: bindingKinds_def)
  have rev: "int_text 3 = ''3''" "int_text 0 = ''0''"
    by (simp_all add: int_text_def nat_text.simps [of 3] nat_text.simps [of 0] digit_char_def char_of_def bit_0)
  have "js_String t = ''null''" using assms by (auto simp: js_String_def)
  then have checks: "all_ok (identity_checks code_unit_le (sample_binding ''ROUTE_BINDING'') (sample_binding_request t)) = Inr ()"
    unfolding identity_checks_def all_ok_simps requireEqual_ok requireJsonEqual_ok
    by (simp add: sample_binding_def sample_binding_request_def rev) (simp add: js_String_def)
  have "eb_lifecycle (sample_binding ''ROUTE_BINDING'') = ''ACTIVE''" "eb_validFrom (sample_binding ''ROUTE_BINDING'') = None"
    "eb_validUntil (sample_binding ''ROUTE_BINDING'') = Some ''z''"
    by (simp_all add: sample_binding_def)
  with schema checks show ?thesis by (simp add: pinRuntimeBinding_def)
qed

text \<open>
  The target revision is compared as text, in which null and the string \<open>null\<close> are the same:
  a request that names the revision \<open>null\<close> is pinned to a record that has none.
\<close>

theorem null_revision_text_accepted:
  "is_ok (pinRuntimeBinding (\<lambda>_. True) (\<lambda>_. Some 10) code_unit_le (sample_binding ''ROUTE_BINDING'')
     (sample_binding_request (Some ''null'')) 5) \<and> eb_targetRevisionId (sample_binding ''ROUTE_BINDING'') = None"
  by (simp add: sample_pins) (simp add: sample_binding_def)

theorem pin_exact_witness:
  "\<exists>pin. pinRuntimeBinding (\<lambda>_. True) (\<lambda>_. Some 10) code_unit_le (sample_binding ''ROUTE_BINDING'')
     (sample_binding_request None) 5 = Inr pin \<and> pin_sourceObjectId pin = ''s''"
proof -
  have run: "pinRuntimeBinding (\<lambda>_. True) (\<lambda>_. Some 10) code_unit_le (sample_binding ''ROUTE_BINDING'')
     (sample_binding_request None) 5 = Inr (pin_of (sample_binding ''ROUTE_BINDING''))" by (simp add: sample_pins)
  from pin_exact [OF run] run show ?thesis by (auto simp: sample_binding_request_def)
qed

theorem binding_registry_lookup_witness:
  "\<exists>reg. BindingRegistry (\<lambda>_. True) (map sample_binding bindingKinds) = Inr reg
     \<and> registry_get reg ''ROUTE_BINDING'' = Inr (sample_binding ''ROUTE_BINDING'')"
proof -
  from sample_registry_ok obtain reg where reg: "BindingRegistry (\<lambda>_. True) (map sample_binding bindingKinds) = Inr reg" by (auto simp: is_ok_iff)
  have "sample_binding ''ROUTE_BINDING'' \<in> set (map sample_binding bindingKinds)" by (simp add: bindingKinds_def)
  moreover have "eb_bindingId (sample_binding ''ROUTE_BINDING'') = ''ROUTE_BINDING''" by (simp add: sample_binding_def)
  ultimately show ?thesis using reg binding_registry_lookup [OF reg] by blast
qed

end
