(* ===== verification/RecoveryOracle.thy ===== *)
theory RecoveryOracle
  imports ErrorRegistry "HOL-Library.Multiset"
begin

text \<open>
  The recovery oracle (\<^verbatim>\<open>packages/domain/src/recovery-oracle.ts\<close>): from the persisted evidence of an
  interrupted operation to the one recovery action that may be taken. An optional property is
  an option of a JSON value: None where it is undefined. A \<^verbatim>\<open>TypeError\<close> of the runtime is modelled by
  a plain error.
\<close>

section \<open>Rules and records\<close>

definition RECOVERY_ACTIONS :: "string list" where
  "RECOVERY_ACTIONS = [''REPLAY_TERMINAL'', ''RESUME_FROM_CHECKPOINT'', ''RETRY_SAME_OPERATION'', ''RECONCILE'',
     ''CANCEL_BEFORE_DISPATCH'', ''RUN_COMPENSATION'', ''RUN_CLEANUP'', ''MANUAL_REVIEW'']"

definition RECOVERY_ORACLE_PREDICATES :: "string list" where
  "RECOVERY_ORACLE_PREDICATES = [''TERMINAL_OUTCOME_KNOWN'', ''CHECKPOINT_RESUMABLE_BEFORE_DISPATCH'',
     ''CANCELABLE_BEFORE_DISPATCH'', ''CONFIRMED_NOT_APPLIED'', ''CONFIRMED_APPLIED'', ''CLEANUP_PENDING'',
     ''COMPENSATION_REQUIRED'', ''RECONCILIATION_REQUIRED'']"

record recovery_rule =
  rr_priority :: int
  rr_ruleId :: string
  rr_predicate :: string
  rr_allowedAction :: string
  rr_canonicalOutcome :: string
  rr_retryDirective :: string
  rr_stateTransitionId :: string
  rr_evidenceToPersist :: "string list"
  rr_canonicalOperationName :: "string option"

record oracle_record =
  ro_recoveryOracleId :: string
  ro_rules :: "recovery_rule list"
  ro_defaultOutcome :: string
  ro_conflictingOperationBlockKeys :: "string list"

section \<open>Evidence\<close>

record root_evidence =
  re_state :: string
  re_version :: "cjson option"
  re_terminalOutcome :: "cjson option"

record idempotency_evidence =
  re_keyDigest :: string
  re_requestDigest :: string
  re_terminalOutcomeDigest :: "cjson option"

record lineage_evidence =
  re_platformIncarnationId :: string
  re_applicationDeploymentEpoch :: cjson
  re_recoveryEpoch :: cjson
  re_fencingToken :: cjson
  re_fenceCurrent :: bool

record checkpoint_evidence =
  re_present :: bool
  re_lineageCurrent :: bool
  re_checkpointState :: "cjson option"

record dispatch_evidence =
  re_intentRecorded :: bool
  re_outboxCommitted :: bool
  re_claimCurrent :: bool
  re_sendPhase :: "string option"
  re_targetIdempotencyKey :: "cjson option"

record external_evidence =
  re_readBack :: string
  re_providerResponseId :: "cjson option"
  re_browserPostcondition :: "cjson option"

record cleanup_evidence =
  re_required :: bool
  re_complete :: bool
  re_inventoryDigest :: "cjson option"

record pointer_runtime_evidence =
  re_pointerInventoryDigest :: string
  re_runtimeInventoryDigest :: string

text \<open>The sections as received; \<open>re_untrusted\<close> lists the untrusted inputs that are defined.\<close>

record recovery_evidence =
  re_root :: "root_evidence option"
  re_idempotency :: "idempotency_evidence option"
  re_lineage :: "lineage_evidence option"
  re_checkpoint :: "checkpoint_evidence option"
  re_dispatch :: "dispatch_evidence option"
  re_external :: "external_evidence option"
  re_cleanup :: "cleanup_evidence option"
  re_pointerRuntime :: "pointer_runtime_evidence option"
  re_untrusted :: "(string \<times> cjson) list option"

definition opt_entry :: "string \<Rightarrow> cjson option \<Rightarrow> (string \<times> cjson) list" where
  "opt_entry k v = (case v of None \<Rightarrow> [] | Some c \<Rightarrow> [(k, c)])"

definition evidence_json :: "recovery_evidence \<Rightarrow> cjson" where
  "evidence_json e = CObj (
     opt_entry ''root'' (map_option (\<lambda>r. CObj ((''state'', CStr (re_state r)) # opt_entry ''version'' (re_version r)
       @ opt_entry ''terminalOutcome'' (re_terminalOutcome r))) (re_root e))
   @ opt_entry ''idempotency'' (map_option (\<lambda>i. CObj ([(''keyDigest'', CStr (re_keyDigest i)), (''requestDigest'', CStr (re_requestDigest i))]
       @ opt_entry ''terminalOutcomeDigest'' (re_terminalOutcomeDigest i))) (re_idempotency e))
   @ opt_entry ''lineage'' (map_option (\<lambda>l. CObj [(''platformIncarnationId'', CStr (re_platformIncarnationId l)),
       (''applicationDeploymentEpoch'', re_applicationDeploymentEpoch l), (''recoveryEpoch'', re_recoveryEpoch l),
       (''fencingToken'', re_fencingToken l), (''fenceCurrent'', CBool (re_fenceCurrent l))]) (re_lineage e))
   @ opt_entry ''checkpoint'' (map_option (\<lambda>c. CObj ([(''present'', CBool (re_present c)), (''lineageCurrent'', CBool (re_lineageCurrent c))]
       @ opt_entry ''state'' (re_checkpointState c))) (re_checkpoint e))
   @ opt_entry ''dispatch'' (map_option (\<lambda>d. CObj ([(''intentRecorded'', CBool (re_intentRecorded d)),
       (''outboxCommitted'', CBool (re_outboxCommitted d)), (''claimCurrent'', CBool (re_claimCurrent d)),
       (''sendPhase'', opt_json (re_sendPhase d))] @ opt_entry ''targetIdempotencyKey'' (re_targetIdempotencyKey d))) (re_dispatch e))
   @ opt_entry ''external'' (map_option (\<lambda>x. CObj ((''readBack'', CStr (re_readBack x)) # opt_entry ''providerResponseId'' (re_providerResponseId x)
       @ opt_entry ''browserPostcondition'' (re_browserPostcondition x))) (re_external e))
   @ opt_entry ''cleanup'' (map_option (\<lambda>c. CObj ([(''required'', CBool (re_required c)), (''complete'', CBool (re_complete c))]
       @ opt_entry ''inventoryDigest'' (re_inventoryDigest c))) (re_cleanup e))
   @ opt_entry ''pointerRuntime'' (map_option (\<lambda>p. CObj [(''pointerInventoryDigest'', CStr (re_pointerInventoryDigest p)),
       (''runtimeInventoryDigest'', CStr (re_runtimeInventoryDigest p))]) (re_pointerRuntime e))
   @ opt_entry ''untrusted'' (map_option CObj (re_untrusted e)))"

text \<open>The evidence once its shape has been checked; the checkpoint is not among the checked sections.\<close>

record checked_evidence =
  ce_root :: root_evidence
  ce_idempotency :: idempotency_evidence
  ce_lineage :: lineage_evidence
  ce_checkpoint :: "checkpoint_evidence option"
  ce_dispatch :: dispatch_evidence
  ce_external :: external_evidence
  ce_cleanup :: cleanup_evidence

definition assertEvidenceShape :: "recovery_evidence \<Rightarrow> checked_evidence outcome" where
  "assertEvidenceShape e =
     (case (re_root e, re_idempotency e, re_lineage e, re_dispatch e, re_external e, re_cleanup e, re_pointerRuntime e) of
        (Some root, Some idem, Some lineage, Some dispatch, Some external, Some cleanup, Some _) \<Rightarrow>
          if re_version root = None then Inl (Domain_Error ''SIDE_EFFECT_RECONCILIATION_UNKNOWN'')
          else if (case re_untrusted e of None \<Rightarrow> False | Some es \<Rightarrow> es \<noteq> []) then Inl (Domain_Error ''RECOVERY_ORACLE_CONFLICT'')
          else if \<not> re_fenceCurrent lineage then Inl (Domain_Error ''FENCING_TOKEN_STALE'')
          else Inr \<lparr>ce_root = root, ce_idempotency = idem, ce_lineage = lineage, ce_checkpoint = re_checkpoint e,
                 ce_dispatch = dispatch, ce_external = external, ce_cleanup = cleanup\<rparr>
      | _ \<Rightarrow> Inl (Domain_Error ''SIDE_EFFECT_RECONCILIATION_UNKNOWN''))"

section \<open>Predicates\<close>

definition terminalOutcomes :: "string list" where
  "terminalOutcomes = [''TERMINAL_REPLAY'', ''CONFIRMED_APPLIED'', ''CONFIRMED_NOT_APPLIED'', ''CANCELLED_BEFORE_DISPATCH'']"

definition noEffectSendPhases :: "string list" where
  "noEffectSendPhases = [''NOT_STARTED'', ''PREPARED'', ''DNS_RESOLVED'', ''CONNECTED'', ''TLS_ESTABLISHED'']"

definition possibleEffectSendPhases :: "string list" where
  "possibleEffectSendPhases = [''REQUEST_HEADERS_STARTED'', ''REQUEST_BODY_STARTED'', ''REQUEST_BODY_COMPLETED'',
     ''REQUEST_BYTES_SENT'', ''RESPONSE_HEADERS_RECEIVED'', ''RESPONSE_BODY_COMPLETED'', ''RESPONSE_RECEIVED'', ''READBACK_COMPLETED'']"

definition phase_in :: "string option \<Rightarrow> string list \<Rightarrow> bool" where
  "phase_in p ps = (case p of None \<Rightarrow> False | Some s \<Rightarrow> s \<in> set ps)"

text \<open>A string property is truthy when it is a string and not empty.\<close>

fun truthy_text :: "cjson option \<Rightarrow> bool" where
  "truthy_text (Some (CStr s)) = (s \<noteq> [])"
| "truthy_text _ = False"

definition noTerminalOutcome :: "checked_evidence \<Rightarrow> bool" where
  "noTerminalOutcome e = (\<not> truthy_text (re_terminalOutcome (ce_root e)))"

text \<open>
  \<^verbatim>\<open>ruleMatches\<close>: reading a property of the missing checkpoint throws, unless an earlier conjunct is
  already false.
\<close>

definition ruleMatches :: "recovery_rule \<Rightarrow> checked_evidence \<Rightarrow> bool outcome" where
  "ruleMatches rule e =
     (let p = rr_predicate rule; d = ce_dispatch e; x = ce_external e; c = ce_cleanup e; s = re_state (ce_root e);
          open_root = noTerminalOutcome e in
      if p = ''TERMINAL_OUTCOME_KNOWN'' then
        Inr (\<not> open_root \<and> (\<exists>t \<in> set terminalOutcomes. re_terminalOutcome (ce_root e) = Some (CStr t))
          \<and> truthy_text (re_terminalOutcomeDigest (ce_idempotency e)) \<and> re_complete c)
      else if p = ''CHECKPOINT_RESUMABLE_BEFORE_DISPATCH'' then
        (if \<not> open_root then Inr False
         else (case ce_checkpoint e of
             None \<Rightarrow> Inl (Plain_Error ''TypeError'')
           | Some cp \<Rightarrow> Inr (re_present cp \<and> re_lineageCurrent cp \<and> s \<noteq> ''CANCEL_REQUESTED'' \<and> \<not> re_intentRecorded d
               \<and> re_sendPhase d = Some ''NOT_STARTED'' \<and> re_claimCurrent d \<and> re_fenceCurrent (ce_lineage e))))
      else if p = ''CANCELABLE_BEFORE_DISPATCH'' then
        Inr (open_root \<and> \<not> re_intentRecorded d \<and> re_sendPhase d = Some ''NOT_STARTED'' \<and> re_claimCurrent d \<and> s = ''CANCEL_REQUESTED'')
      else if p = ''CONFIRMED_NOT_APPLIED'' then
        Inr (open_root \<and> re_intentRecorded d \<and> re_outboxCommitted d \<and> re_claimCurrent d \<and> phase_in (re_sendPhase d) noEffectSendPhases
          \<and> re_readBack x = ''NOT_APPLIED'' \<and> truthy_text (re_targetIdempotencyKey d))
      else if p = ''CONFIRMED_APPLIED'' then
        Inr (open_root \<and> re_intentRecorded d \<and> re_outboxCommitted d \<and> re_claimCurrent d \<and> s \<noteq> ''ROLLING_BACK''
          \<and> (re_readBack x = ''APPLIED'' \<or> re_browserPostcondition x = Some (CStr ''APPLIED'')))
      else if p = ''CLEANUP_PENDING'' then
        Inr (open_root \<and> re_required c \<and> \<not> re_complete c \<and> re_claimCurrent d \<and> re_readBack x \<noteq> ''UNKNOWN''
          \<and> re_readBack x \<notin> set [''APPLIED'', ''NOT_APPLIED''])
      else if p = ''COMPENSATION_REQUIRED'' then
        Inr (open_root \<and> re_readBack x = ''APPLIED'' \<and> re_claimCurrent d \<and> s = ''ROLLING_BACK'')
      else if p = ''RECONCILIATION_REQUIRED'' then
        Inr (open_root \<and> re_intentRecorded d \<and> re_claimCurrent d \<and> (\<not> re_required c \<or> re_complete c)
          \<and> re_readBack x \<noteq> ''APPLIED'' \<and> re_readBack x \<noteq> ''NOT_APPLIED''
          \<and> (phase_in (re_sendPhase d) possibleEffectSendPhases \<or> re_readBack x = ''UNKNOWN''
              \<or> re_browserPostcondition x = Some (CStr ''UNKNOWN'')))
      else Inr False)"

section \<open>Evaluation\<close>

definition check_rule :: "int list \<Rightarrow> recovery_rule \<Rightarrow> int list outcome" where
  "check_rule priorities r =
     (if rr_priority r \<in> set priorities then Inl (Domain_Error ''RECOVERY_ORACLE_CONFLICT'')
      else if rr_predicate r \<notin> set RECOVERY_ORACLE_PREDICATES then Inl (Domain_Error ''CLOSURE_PREDICATE_INCOMPLETE'')
      else if rr_allowedAction r \<notin> set (filter (\<lambda>a. a \<noteq> ''MANUAL_REVIEW'') RECOVERY_ACTIONS) \<and> rr_canonicalOutcome r \<noteq> ''UNKNOWN''
        then Inl (Domain_Error ''CLOSURE_PREDICATE_INCOMPLETE'')
      else Inr (rr_priority r # priorities))"

definition validateRules :: "oracle_record \<Rightarrow> unit outcome" where
  "validateRules r =
     (if ro_defaultOutcome r \<noteq> ''MANUAL_REVIEW'' then Inl (Domain_Error ''CLOSURE_PREDICATE_INCOMPLETE'')
      else bindE (forE check_rule [] (ro_rules r)) (\<lambda>_. Inr ()))"

record recovery_decision =
  dc_recoveryOracleId :: string
  dc_ruleId :: string
  dc_action :: string
  dc_canonicalOutcome :: string
  dc_retryDirective :: string
  dc_stateTransitionId :: string
  dc_evidenceDigest :: string
  dc_evidenceToPersist :: "string list"
  dc_blockingKeys :: "string list"
  dc_canonicalOperationName :: "string option"

definition matching_rules :: "checked_evidence \<Rightarrow> recovery_rule list \<Rightarrow> recovery_rule list outcome" where
  "matching_rules e rules = forE (\<lambda>acc r. bindE (ruleMatches r e) (\<lambda>m. Inr (if m then acc @ [r] else acc))) [] rules"

definition decision_text :: "recovery_rule \<Rightarrow> string" where
  "decision_text r = rr_allowedAction r @ '':'' @ rr_canonicalOutcome r"

definition default_decision :: "oracle_record \<Rightarrow> string \<Rightarrow> recovery_decision" where
  "default_decision r dg = \<lparr>dc_recoveryOracleId = ro_recoveryOracleId r, dc_ruleId = ''DEFAULT_MANUAL_REVIEW'',
     dc_action = ''MANUAL_REVIEW'', dc_canonicalOutcome = ''UNKNOWN'', dc_retryDirective = ''MANUAL_REVIEW'',
     dc_stateTransitionId = ''TO_MANUAL_REVIEW'', dc_evidenceDigest = dg,
     dc_evidenceToPersist = [''ROOT_SNAPSHOT'', ''LINEAGE_SNAPSHOT'', ''DISPATCH_SNAPSHOT'', ''EXTERNAL_READ_BACK'', ''CLEANUP_INVENTORY''],
     dc_blockingKeys = ro_conflictingOperationBlockKeys r, dc_canonicalOperationName = None\<rparr>"

definition rule_decision :: "oracle_record \<Rightarrow> string \<Rightarrow> recovery_rule \<Rightarrow> recovery_decision" where
  "rule_decision r dg s = \<lparr>dc_recoveryOracleId = ro_recoveryOracleId r, dc_ruleId = rr_ruleId s,
     dc_action = rr_allowedAction s, dc_canonicalOutcome = rr_canonicalOutcome s, dc_retryDirective = rr_retryDirective s,
     dc_stateTransitionId = rr_stateTransitionId s, dc_evidenceDigest = dg, dc_evidenceToPersist = rr_evidenceToPersist s,
     dc_blockingKeys = (if rr_allowedAction s = ''MANUAL_REVIEW'' then ro_conflictingOperationBlockKeys r else []),
     dc_canonicalOperationName = (case rr_canonicalOperationName s of Some n \<Rightarrow> if n = [] then None else Some n | None \<Rightarrow> None)\<rparr>"

definition evaluateRecoveryOracle ::
  "(string \<Rightarrow> string) \<Rightarrow> collation \<Rightarrow> oracle_record \<Rightarrow> recovery_evidence \<Rightarrow> recovery_decision outcome" where
  "evaluateRecoveryOracle sha256 le r e =
     bindE (validateRules r) (\<lambda>_.
     bindE (assertEvidenceShape e) (\<lambda>ce.
     bindE (matching_rules ce (ro_rules r)) (\<lambda>unsorted.
       let matches = js_sort (\<lambda>a b. rr_priority a \<le> rr_priority b) unsorted;
           dg = canonicalDigest sha256 le (evidence_json e) in
       if length matches > 1 \<and> card (set (map decision_text matches)) > 1 then Inl (Domain_Error ''RECOVERY_ORACLE_CONFLICT'')
       else (case matches of
           [] \<Rightarrow> Inr (default_decision r dg)
         | selected # _ \<Rightarrow> Inr (rule_decision r dg selected)))))"

definition validateRecoveryOracleCoverage :: "oracle_record \<Rightarrow> unit outcome" where
  "validateRecoveryOracleCoverage r = bindE (validateRules r) (\<lambda>_.
     if filter (\<lambda>p. p \<notin> set (map rr_predicate (ro_rules r))) RECOVERY_ORACLE_PREDICATES \<noteq> []
       then Inl (Domain_Error ''CLOSURE_PREDICATE_INCOMPLETE'')
     else if ro_defaultOutcome r \<noteq> ''MANUAL_REVIEW'' then Inl (Domain_Error ''CLOSURE_PREDICATE_INCOMPLETE'')
     else Inr ())"

section \<open>The registry and the executor\<close>

type_synonym oracle_registry = "(string \<times> oracle_record) list"

definition RecoveryOracleRegistry :: "oracle_record list \<Rightarrow> oracle_registry outcome" where
  "RecoveryOracleRegistry records = bindE (forE (\<lambda>_ r. validateRecoveryOracleCoverage r) () records) (\<lambda>_.
     Inr (jm_of ro_recoveryOracleId records))"

definition oracle_get :: "oracle_registry \<Rightarrow> string \<Rightarrow> oracle_record outcome" where
  "oracle_get reg i = (case jm_get reg i of None \<Rightarrow> Inl (Domain_Error ''CLOSURE_PREDICATE_INCOMPLETE'') | Some r \<Rightarrow> Inr r)"

definition oracle_evaluate ::
  "(string \<Rightarrow> string) \<Rightarrow> collation \<Rightarrow> oracle_registry \<Rightarrow> string \<Rightarrow> recovery_evidence \<Rightarrow> recovery_decision outcome" where
  "oracle_evaluate sha256 le reg i e = bindE (oracle_get reg i) (\<lambda>r. evaluateRecoveryOracle sha256 le r e)"

record recovery_fence =
  fn_recoveryEpoch :: int
  fn_fencingToken :: int

record recovery_command =
  rc_targetId :: "string option"
  rc_arguments :: "(string \<times> cjson) list"
  rc_fence :: recovery_fence

text \<open>
  \<^verbatim>\<open>RecoveryActionExecutor.execute\<close>; the operation service is the argument \<open>run\<close>, which receives the
  operation's name and the command, and \<open>freshFence\<close> the fence it reads.
\<close>

definition recovery_execute ::
  "(string \<Rightarrow> recovery_command \<Rightarrow> 'r outcome) \<Rightarrow> recovery_fence outcome \<Rightarrow> recovery_decision \<Rightarrow> string \<Rightarrow> string option
   \<Rightarrow> (string \<times> cjson) list \<Rightarrow> ('r + recovery_decision) outcome" where
  "recovery_execute run freshFence decision operationName targetId arguments =
     (if dc_action decision = ''MANUAL_REVIEW'' then Inr (Inr decision)
      else if (case dc_canonicalOperationName decision of None \<Rightarrow> False | Some n \<Rightarrow> n \<noteq> [] \<and> operationName \<noteq> n)
        then Inl (Domain_Error ''RECOVERY_ORACLE_CONFLICT'')
      else bindE freshFence (\<lambda>fence.
        bindE (run operationName \<lparr>rc_targetId = targetId,
          rc_arguments = foldl (\<lambda>es (k, v). jm_set k v es) arguments
            [(''recoveryOracleId'', CStr (dc_recoveryOracleId decision)), (''recoveryRuleId'', CStr (dc_ruleId decision)),
             (''observedEvidenceDigest'', CStr (dc_evidenceDigest decision)), (''recoveryAction'', CStr (dc_action decision)),
             (''freshRecoveryEpoch'', CStr (int_text (fn_recoveryEpoch fence))),
             (''freshFencingToken'', CStr (int_text (fn_fencingToken fence)))],
          rc_fence = fence\<rparr>) (\<lambda>result. Inr (Inl result))))"

section \<open>Properties\<close>

lemma check_rules:
  "forE check_rule ps rs = Inr ps' \<Longrightarrow>
     distinct (map rr_priority rs) \<and> rr_priority ` set rs \<inter> set ps = {}
     \<and> (\<forall>r \<in> set rs. rr_predicate r \<in> set RECOVERY_ORACLE_PREDICATES)"
proof (induction rs arbitrary: ps)
  case (Cons r rs)
  from Cons.prems obtain ps1 where "check_rule ps r = Inr ps1" and rest: "forE check_rule ps1 rs = Inr ps'"
    by (auto simp only: forE_Cons_Inr)
  then have "ps1 = rr_priority r # ps" "rr_priority r \<notin> set ps" "rr_predicate r \<in> set RECOVERY_ORACLE_PREDICATES"
    by (auto simp: check_rule_def split: if_splits)
  with Cons.IH [OF rest] show ?case by auto
qed simp

lemma check_rules_ok:
  assumes "distinct (map rr_priority rs)" and "rr_priority ` set rs \<inter> set ps = {}"
    and "\<forall>r \<in> set rs. \<exists>qs. check_rule [] r = Inr qs"
  shows "\<exists>ps'. forE check_rule ps rs = Inr ps'"
  using assms
proof (induction rs arbitrary: ps)
  case (Cons r rs)
  then obtain qs where "check_rule [] r = Inr qs" by auto
  with Cons.prems(2) have "check_rule ps r = Inr (rr_priority r # ps)" by (auto simp: check_rule_def split: if_splits)
  moreover have "\<exists>ps'. forE check_rule (rr_priority r # ps) rs = Inr ps'"
    using Cons.prems by (intro Cons.IH) auto
  ultimately show ?case by auto
qed simp

lemma check_rules_each:
  "forE check_rule ps rs = Inr ps' \<Longrightarrow> r \<in> set rs \<Longrightarrow> \<exists>qs. check_rule [] r = Inr qs"
proof (induction rs arbitrary: ps)
  case (Cons q rs)
  from Cons.prems(1) obtain ps1 where "check_rule ps q = Inr ps1" "forE check_rule ps1 rs = Inr ps'"
    by (auto simp only: forE_Cons_Inr)
  moreover from this have "\<exists>qs. check_rule [] q = Inr qs" by (auto simp: check_rule_def split: if_splits)
  ultimately show ?case using Cons.IH Cons.prems(2) by auto
qed simp

lemma validateRules_perm:
  assumes "validateRules r = Inr ()" and "mset (ro_rules r') = mset (ro_rules r)" and "ro_defaultOutcome r' = ro_defaultOutcome r"
  shows "validateRules r' = Inr ()"
proof -
  from assms(1) obtain ps where ps: "forE check_rule [] (ro_rules r) = Inr ps" and d: "ro_defaultOutcome r = ''MANUAL_REVIEW''"
    by (auto simp: validateRules_def bindE_Inr_iff split: if_splits)
  have s: "set (ro_rules r') = set (ro_rules r)" using assms(2) by (rule mset_eq_setD)
  have "distinct (map rr_priority (ro_rules r'))"
    using check_rules [OF ps] assms(2) by (metis mset_eq_imp_distinct_iff mset_map)
  from check_rules_ok [OF this, of "[]"] check_rules_each [OF ps] s d assms(3) show ?thesis
    by (auto simp: validateRules_def)
qed

definition rule_fails :: "checked_evidence \<Rightarrow> recovery_rule \<Rightarrow> bool" where
  "rule_fails e r = (\<exists>err. ruleMatches r e = Inl err)"

lemma ruleMatches_error: "ruleMatches r e = Inl err \<Longrightarrow> err = Plain_Error ''TypeError''"
  by (auto simp: ruleMatches_def Let_def split: if_splits option.splits)

lemma matching_rules_eq:
  "forE (\<lambda>acc r. bindE (ruleMatches r e) (\<lambda>m. Inr (if m then acc @ [r] else acc))) acc rs
    = (if \<exists>r \<in> set rs. rule_fails e r then Inl (Plain_Error ''TypeError'')
       else Inr (acc @ filter (\<lambda>r. ruleMatches r e = Inr True) rs))"
proof (induction rs arbitrary: acc)
  case (Cons r rs)
  show ?case
  proof (cases "ruleMatches r e")
    case (Inl err)
    with ruleMatches_error [OF Inl] show ?thesis by (auto simp: rule_fails_def)
  next
    case (Inr m)
    with Cons show ?thesis by (cases m) (auto simp: rule_fails_def)
  qed
qed simp

lemma sort_priority_unique:
  assumes "set xs = set ys" and "distinct (map rr_priority xs)" and "distinct (map rr_priority ys)"
  shows "js_sort (\<lambda>a b. rr_priority a \<le> rr_priority b) xs = js_sort (\<lambda>a b. rr_priority a \<le> rr_priority b) ys"
proof (rule sorted_wrt_set_unique)
  have "total_preorder (\<lambda>a b. rr_priority a \<le> rr_priority b)" by (auto simp: total_preorder_def)
  then show "sorted_wrt (\<lambda>a b. rr_priority a \<le> rr_priority b) (js_sort (\<lambda>a b. rr_priority a \<le> rr_priority b) xs)"
    "sorted_wrt (\<lambda>a b. rr_priority a \<le> rr_priority b) (js_sort (\<lambda>a b. rr_priority a \<le> rr_priority b) ys)"
    by (rule sorted_js_sort)+
  show "distinct (js_sort (\<lambda>a b. rr_priority a \<le> rr_priority b) xs)" "distinct (js_sort (\<lambda>a b. rr_priority a \<le> rr_priority b) ys)"
    using assms(2,3) distinct_map_js_sort distinct_map by blast+
  fix x y
  assume "x \<in> set (js_sort (\<lambda>a b. rr_priority a \<le> rr_priority b) xs)" "y \<in> set (js_sort (\<lambda>a b. rr_priority a \<le> rr_priority b) xs)"
    and "rr_priority x \<le> rr_priority y" "rr_priority y \<le> rr_priority x"
  with assms(2) show "x = y" by (auto simp: distinct_map dest: inj_onD)
qed (simp add: assms(1))

lemma validateRules_priorities: "validateRules r = Inr () \<Longrightarrow> distinct (map rr_priority (ro_rules r))"
  by (auto simp: validateRules_def bindE_Inr_iff dest: check_rules split: if_splits)

text \<open>
  The oracle's verdict does not depend on the order in which a record lists its rules: for any
  rearrangement of the rules of a valid record, the evaluation of the same evidence gives the same
  decision or the same error.
\<close>

theorem oracle_order_independent:
  assumes "validateRules r = Inr ()" and "mset rules' = mset (ro_rules r)"
  shows "evaluateRecoveryOracle sha256 le (r\<lparr>ro_rules := rules'\<rparr>) e = evaluateRecoveryOracle sha256 le r e"
proof -
  let ?r' = "r\<lparr>ro_rules := rules'\<rparr>"
  have v: "validateRules ?r' = Inr ()" by (rule validateRules_perm [OF assms(1)]) (simp_all add: assms(2))
  have s: "set rules' = set (ro_rules r)" using assms(2) by (rule mset_eq_setD)
  have d: "distinct (map rr_priority rules')" "distinct (map rr_priority (ro_rules r))"
    using validateRules_priorities [OF v] validateRules_priorities [OF assms(1)] by simp_all
  have sorted: "js_sort (\<lambda>a b. rr_priority a \<le> rr_priority b) (filter P rules') = js_sort (\<lambda>a b. rr_priority a \<le> rr_priority b) (filter P (ro_rules r))" for P
    by (rule sort_priority_unique) (use s d in \<open>auto simp: distinct_map_filter\<close>)
  have len: "length (filter P rules') = length (filter P (ro_rules r))" for P
    using sorted [of P] by (metis length_js_sort)
  have dec: "default_decision ?r' dg = default_decision r dg" "rule_decision ?r' dg q = rule_decision r dg q" for dg q
    by (simp_all add: default_decision_def rule_decision_def)
  show ?thesis
    by (cases "assertEvidenceShape e")
      (simp_all add: evaluateRecoveryOracle_def matching_rules_def matching_rules_eq v assms(1) s sorted len dec Let_def
        split: list.splits)
qed

lemma evaluate_selected:
  assumes "evaluateRecoveryOracle sha256 le r e = Inr d"
  obtains ce where "assertEvidenceShape e = Inr ce"
    and "(dc_action d = ''MANUAL_REVIEW'' \<and> (\<forall>q \<in> set (ro_rules r). ruleMatches q ce = Inr False))
      \<or> (\<exists>q \<in> set (ro_rules r). ruleMatches q ce = Inr True \<and> dc_ruleId d = rr_ruleId q \<and> dc_action d = rr_allowedAction q
          \<and> (\<forall>q' \<in> set (ro_rules r). ruleMatches q' ce = Inr True \<longrightarrow> decision_text q' = decision_text q))"
proof -
  from assms obtain ce where ce: "assertEvidenceShape e = Inr ce"
    by (auto simp: evaluateRecoveryOracle_def bindE_Inr_iff)
  let ?m = "js_sort (\<lambda>a b. rr_priority a \<le> rr_priority b) (filter (\<lambda>q. ruleMatches q ce = Inr True) (ro_rules r))"
  from assms ce have nofail: "\<not> (\<exists>q \<in> set (ro_rules r). rule_fails ce q)"
    by (auto simp: evaluateRecoveryOracle_def matching_rules_def matching_rules_eq bindE_Inr_iff split: if_splits)
  with assms ce have out: "(if length ?m > 1 \<and> card (set (map decision_text ?m)) > 1 then Inl (Domain_Error ''RECOVERY_ORACLE_CONFLICT'')
       else (case ?m of [] \<Rightarrow> Inr (default_decision r (canonicalDigest sha256 le (evidence_json e)))
         | selected # _ \<Rightarrow> Inr (rule_decision r (canonicalDigest sha256 le (evidence_json e)) selected))) = Inr d"
    by (simp add: evaluateRecoveryOracle_def matching_rules_def matching_rules_eq bindE_Inr_iff Let_def)
  show ?thesis
  proof (cases ?m)
    case Nil
    have "set ?m = {q \<in> set (ro_rules r). ruleMatches q ce = Inr True}" by simp
    with Nil have "\<forall>q \<in> set (ro_rules r). ruleMatches q ce \<noteq> Inr True" by auto
    with nofail have "\<forall>q \<in> set (ro_rules r). ruleMatches q ce = Inr False"
      by (metis (full_types) rule_fails_def sum.exhaust)
    with out Nil show ?thesis by (intro that [OF ce]) (auto simp: default_decision_def)
  next
    case (Cons q qs)
    have m: "set ?m = {q \<in> set (ro_rules r). ruleMatches q ce = Inr True}" by simp
    have one: "card (set (map decision_text ?m)) \<le> 1"
    proof (cases "length ?m > 1")
      case True
      with out show ?thesis by (auto split: if_splits)
    next
      case False
      then show ?thesis using card_length [of "map decision_text ?m"] by simp
    qed
    have same: "decision_text q' = decision_text q" if "q' \<in> set ?m" for q'
    proof -
      have "decision_text q' \<in> set (map decision_text ?m)" "decision_text q \<in> set (map decision_text ?m)"
        using that Cons by auto
      with one show ?thesis using card_le_Suc0_iff_eq [of "set (map decision_text ?m)"] by (simp only: One_nat_def finite_set)
    qed
    have d: "d = rule_decision r (canonicalDigest sha256 le (evidence_json e)) q" using out Cons by (auto split: if_splits)
    have "q \<in> set ?m" unfolding Cons by simp
    then have q: "q \<in> set (ro_rules r)" "ruleMatches q ce = Inr True" by simp_all
    have agree: "\<forall>q' \<in> set (ro_rules r). ruleMatches q' ce = Inr True \<longrightarrow> decision_text q' = decision_text q"
      using same by simp
    show ?thesis
      by (rule that [OF ce], rule disjI2, rule bexI [OF _ q(1)]) (use agree in \<open>simp add: d rule_decision_def q(2)\<close>)
  qed
qed

lemma ruleMatches_claim:
  "ruleMatches q ce = Inr True \<Longrightarrow>
     (rr_predicate q = ''TERMINAL_OUTCOME_KNOWN'' \<and> \<not> noTerminalOutcome ce \<and> re_complete (ce_cleanup ce))
     \<or> (noTerminalOutcome ce \<and> re_claimCurrent (ce_dispatch ce))"
  by (auto simp: ruleMatches_def Let_def split: if_splits option.splits)

lemma ruleMatches_before_send:
  assumes "ruleMatches q ce = Inr True"
    and "rr_predicate q \<in> {''CHECKPOINT_RESUMABLE_BEFORE_DISPATCH'', ''CANCELABLE_BEFORE_DISPATCH'', ''CONFIRMED_NOT_APPLIED''}"
  shows "\<not> phase_in (re_sendPhase (ce_dispatch ce)) possibleEffectSendPhases"
  using assms
  by (auto simp: ruleMatches_def Let_def phase_in_def noEffectSendPhases_def possibleEffectSendPhases_def
      split: if_splits option.splits)

lemma assertEvidenceShape_fence: "assertEvidenceShape e = Inr ce \<Longrightarrow> re_fenceCurrent (ce_lineage ce) \<and> (re_untrusted e = None \<or> re_untrusted e = Some [])"
  by (auto simp: assertEvidenceShape_def split: option.splits if_splits)

text \<open>
  C32. The oracle authorises an automatic action only on current authority: the fence is current,
  no process memory, log, timeout or exception text is part of the evidence, a rule of the record
  matches, every other matching rule asks for the same action and outcome, and either the terminal
  outcome is known with the cleanup complete or the claim is current. A rule that resumes, cancels
  or confirms that nothing was applied never matches once bytes of the request may have been sent.
\<close>

theorem oracle_automatic_action_safe:
  assumes "evaluateRecoveryOracle sha256 le r e = Inr d" and "dc_action d \<noteq> ''MANUAL_REVIEW''"
  shows "\<exists>ce. \<exists>q \<in> set (ro_rules r). assertEvidenceShape e = Inr ce \<and> re_fenceCurrent (ce_lineage ce)
    \<and> (re_untrusted e = None \<or> re_untrusted e = Some []) \<and> ruleMatches q ce = Inr True \<and> dc_action d = rr_allowedAction q
    \<and> (\<forall>q' \<in> set (ro_rules r). ruleMatches q' ce = Inr True \<longrightarrow> decision_text q' = decision_text q)
    \<and> (re_complete (ce_cleanup ce) \<and> \<not> noTerminalOutcome ce \<or> re_claimCurrent (ce_dispatch ce))
    \<and> (rr_predicate q \<in> {''CHECKPOINT_RESUMABLE_BEFORE_DISPATCH'', ''CANCELABLE_BEFORE_DISPATCH'', ''CONFIRMED_NOT_APPLIED''}
         \<longrightarrow> \<not> phase_in (re_sendPhase (ce_dispatch ce)) possibleEffectSendPhases)"
proof -
  from evaluate_selected [OF assms(1)] assms(2) obtain ce q where ce: "assertEvidenceShape e = Inr ce"
      and q: "q \<in> set (ro_rules r)" "ruleMatches q ce = Inr True" "dc_action d = rr_allowedAction q"
        "\<forall>q' \<in> set (ro_rules r). ruleMatches q' ce = Inr True \<longrightarrow> decision_text q' = decision_text q"
    by metis
  from ruleMatches_claim [OF q(2)] ruleMatches_before_send [OF q(2)] assertEvidenceShape_fence [OF ce] ce q show ?thesis
    by blast
qed

text \<open>
  Evidence without its checkpoint section passes the shape check, and a record that covers all
  predicates then fails with a type error instead of the domain error that asks for the complete
  evidence.
\<close>

theorem missing_checkpoint_type_error:
  assumes "validateRecoveryOracleCoverage r = Inr ()" and "assertEvidenceShape e = Inr ce"
    and "re_checkpoint e = None" and "noTerminalOutcome ce"
  shows "evaluateRecoveryOracle sha256 le r e = Inl (Plain_Error ''TypeError'')"
proof -
  from assms(1) have v: "validateRules r = Inr ()" and cov: "\<forall>p \<in> set RECOVERY_ORACLE_PREDICATES. p \<in> rr_predicate ` set (ro_rules r)"
    by (auto simp: validateRecoveryOracleCoverage_def bindE_Inr_iff filter_empty_conv split: if_splits)
  have "''CHECKPOINT_RESUMABLE_BEFORE_DISPATCH'' \<in> set RECOVERY_ORACLE_PREDICATES" by (simp add: RECOVERY_ORACLE_PREDICATES_def)
  with cov have "''CHECKPOINT_RESUMABLE_BEFORE_DISPATCH'' \<in> rr_predicate ` set (ro_rules r)" by blast
  then obtain q where q: "q \<in> set (ro_rules r)" "rr_predicate q = ''CHECKPOINT_RESUMABLE_BEFORE_DISPATCH''" by (rule imageE) simp
  have "ce_checkpoint ce = None" using assms(2,3) by (auto simp: assertEvidenceShape_def split: option.splits if_splits)
  with q assms(4) have "rule_fails ce q" by (simp add: rule_fails_def ruleMatches_def)
  with q have "\<exists>q \<in> set (ro_rules r). rule_fails ce q" by blast
  with v assms(2) show ?thesis
    by (simp add: evaluateRecoveryOracle_def matching_rules_def matching_rules_eq)
qed

section \<open>Concrete records and evidence\<close>

definition sample_rule :: "int \<Rightarrow> string \<Rightarrow> string \<Rightarrow> string \<Rightarrow> recovery_rule" where
  "sample_rule n p action outc = \<lparr>rr_priority = n, rr_ruleId = p, rr_predicate = p, rr_allowedAction = action,
     rr_canonicalOutcome = outc, rr_retryDirective = ''MANUAL_REVIEW'', rr_stateTransitionId = ''T'', rr_evidenceToPersist = [],
     rr_canonicalOperationName = None\<rparr>"

definition sample_oracle :: oracle_record where
  "sample_oracle = \<lparr>ro_recoveryOracleId = ''O'', ro_rules =
     [sample_rule 1 ''TERMINAL_OUTCOME_KNOWN'' ''REPLAY_TERMINAL'' ''TERMINAL_REPLAY'',
      sample_rule 2 ''CHECKPOINT_RESUMABLE_BEFORE_DISPATCH'' ''RESUME_FROM_CHECKPOINT'' ''RESUMED'',
      sample_rule 3 ''CANCELABLE_BEFORE_DISPATCH'' ''CANCEL_BEFORE_DISPATCH'' ''CANCELLED_BEFORE_DISPATCH'',
      sample_rule 4 ''CONFIRMED_NOT_APPLIED'' ''RETRY_SAME_OPERATION'' ''CONFIRMED_NOT_APPLIED'',
      sample_rule 5 ''CONFIRMED_APPLIED'' ''REPLAY_TERMINAL'' ''CONFIRMED_APPLIED'',
      sample_rule 6 ''CLEANUP_PENDING'' ''RUN_CLEANUP'' ''CLEANUP_REQUIRED'',
      sample_rule 7 ''COMPENSATION_REQUIRED'' ''RUN_COMPENSATION'' ''COMPENSATION_REQUIRED'',
      sample_rule 8 ''RECONCILIATION_REQUIRED'' ''RECONCILE'' ''UNKNOWN''],
     ro_defaultOutcome = ''MANUAL_REVIEW'', ro_conflictingOperationBlockKeys = [''K'']\<rparr>"

definition sample_evidence :: "checkpoint_evidence option \<Rightarrow> recovery_evidence" where
  "sample_evidence cp = \<lparr>re_root = Some \<lparr>re_state = ''RUNNING'', re_version = Some (CNum (JInt 4)), re_terminalOutcome = None\<rparr>,
     re_idempotency = Some \<lparr>re_keyDigest = ''k'', re_requestDigest = ''q'', re_terminalOutcomeDigest = None\<rparr>,
     re_lineage = Some \<lparr>re_platformIncarnationId = ''p'', re_applicationDeploymentEpoch = CNum (JInt 1),
       re_recoveryEpoch = CNum (JInt 1), re_fencingToken = CNum (JInt 7), re_fenceCurrent = True\<rparr>,
     re_checkpoint = cp,
     re_dispatch = Some \<lparr>re_intentRecorded = False, re_outboxCommitted = False, re_claimCurrent = True,
       re_sendPhase = Some ''NOT_STARTED'', re_targetIdempotencyKey = None\<rparr>,
     re_external = Some \<lparr>re_readBack = ''NOT_AVAILABLE'', re_providerResponseId = None, re_browserPostcondition = None\<rparr>,
     re_cleanup = Some \<lparr>re_required = False, re_complete = False, re_inventoryDigest = None\<rparr>,
     re_pointerRuntime = Some \<lparr>re_pointerInventoryDigest = ''a'', re_runtimeInventoryDigest = ''b''\<rparr>, re_untrusted = None\<rparr>"

definition sample_checkpoint :: checkpoint_evidence where
  "sample_checkpoint = \<lparr>re_present = True, re_lineageCurrent = True, re_checkpointState = None\<rparr>"

lemma sample_oracle_valid: "validateRules sample_oracle = Inr ()" "validateRecoveryOracleCoverage sample_oracle = Inr ()"
  by code_simp+

theorem oracle_order_independent_witness:
  "evaluateRecoveryOracle id code_unit_le (sample_oracle\<lparr>ro_rules := rev (ro_rules sample_oracle)\<rparr>) (sample_evidence None)
    = evaluateRecoveryOracle id code_unit_le sample_oracle (sample_evidence None)"
  by (rule oracle_order_independent [OF sample_oracle_valid(1)]) simp

theorem missing_checkpoint_type_error_witness:
  "evaluateRecoveryOracle id code_unit_le sample_oracle (sample_evidence None) = Inl (Plain_Error ''TypeError'')"
proof -
  obtain ce where ce: "assertEvidenceShape (sample_evidence None) = Inr ce" "noTerminalOutcome ce"
    by (simp add: assertEvidenceShape_def sample_evidence_def noTerminalOutcome_def)
  from missing_checkpoint_type_error [OF sample_oracle_valid(2) ce(1) _ ce(2)] show ?thesis
    by (simp add: sample_evidence_def)
qed

lemma sample_oracle_resumes:
  "\<exists>d. evaluateRecoveryOracle (\<lambda>_. ''d'') code_unit_le sample_oracle (sample_evidence (Some sample_checkpoint)) = Inr d
    \<and> dc_action d = ''RESUME_FROM_CHECKPOINT''"
proof -
  have shape: "assertEvidenceShape (sample_evidence (Some sample_checkpoint)) = Inr \<lparr>
      ce_root = the (re_root (sample_evidence (Some sample_checkpoint))),
      ce_idempotency = the (re_idempotency (sample_evidence (Some sample_checkpoint))),
      ce_lineage = the (re_lineage (sample_evidence (Some sample_checkpoint))), ce_checkpoint = Some sample_checkpoint,
      ce_dispatch = the (re_dispatch (sample_evidence (Some sample_checkpoint))),
      ce_external = the (re_external (sample_evidence (Some sample_checkpoint))),
      ce_cleanup = the (re_cleanup (sample_evidence (Some sample_checkpoint)))\<rparr>"
    by (simp add: assertEvidenceShape_def sample_evidence_def)
  show ?thesis
    unfolding evaluateRecoveryOracle_def sample_oracle_valid shape canonicalDigest_def
    by (simp add: matching_rules_def sample_oracle_def sample_rule_def ruleMatches_def sample_evidence_def sample_checkpoint_def
        noTerminalOutcome_def phase_in_def js_sort_def rule_decision_def)
qed

theorem oracle_automatic_action_safe_witness:
  "\<exists>ce. assertEvidenceShape (sample_evidence (Some sample_checkpoint)) = Inr ce \<and> re_fenceCurrent (ce_lineage ce)"
proof -
  from sample_oracle_resumes obtain d where
    d: "evaluateRecoveryOracle (\<lambda>_. ''d'') code_unit_le sample_oracle (sample_evidence (Some sample_checkpoint)) = Inr d"
      "dc_action d = ''RESUME_FROM_CHECKPOINT''" by blast
  from oracle_automatic_action_safe [OF d(1)] d(2) show ?thesis by auto
qed

end
