(* ===== verification/ClosurePredicates.thy ===== *)
theory ClosurePredicates
  imports ErrorRegistry
begin

text \<open>
  Terminal closure (\<^verbatim>\<open>packages/domain/src/closure-predicates.ts\<close>): the expression language of the
  registry, the evidence read from the database, the operating system and the file system, and the
  report that says whether an aggregate is closed. The rows the queries return, the probes of the
  operating system and \<^verbatim>\<open>JSON.parse\<close> are parameters.
\<close>

section \<open>Expressions\<close>

definition KNOWN_PREDICATES :: "string list" where
  "KNOWN_PREDICATES = [''terminal_state'', ''children_closed'', ''lease_and_fence'', ''side_effects_known'', ''pointer_and_epoch'',
     ''bindings_exact'', ''queue_outbox_inbox_closed'', ''runtime_process_closed'', ''artifacts_filesystem_closed'',
     ''cleanup_complete'', ''audit_evidence_valid'', ''manual_review_empty'']"

datatype closure_ast =
    Ast_And "closure_ast list"
  | Ast_Or "closure_ast list"
  | Ast_Not closure_ast
  | Ast_Predicate string
  | Ast_Literal bool

text \<open>
  The tests on one node of the parsed expression, in their order; a node is a leaf, a conjunction or
  disjunction (\<open>True\<close> for \<^verbatim>\<open>AND\<close>), a negation, or refused.
\<close>

datatype node_shape =
    Shape_Leaf closure_ast
  | Shape_List bool "cjson list"
  | Shape_Not cjson
  | Shape_Refused string

fun str_prop :: "cjson option \<Rightarrow> string option" where
  "str_prop (Some (CStr s)) = Some s"
| "str_prop _ = None"

fun bool_prop :: "cjson option \<Rightarrow> bool option" where
  "bool_prop (Some (CBool b)) = Some b"
| "bool_prop _ = None"

fun array_prop :: "cjson option \<Rightarrow> cjson list" where
  "array_prop (Some (CArr vs)) = vs"
| "array_prop _ = []"

definition object_shape :: "(string \<times> cjson) list \<Rightarrow> node_shape" where
  "object_shape es =
     (let predicate = str_prop (map_of es ''predicate''); literal = bool_prop (map_of es ''literal'');
          op = str_prop (map_of es ''op''); args = array_prop (map_of es ''args'') in
      if predicate \<noteq> None \<and> the predicate \<in> set KNOWN_PREDICATES \<and> length es = 1 then Shape_Leaf (Ast_Predicate (the predicate))
      else if literal \<noteq> None \<and> length es = 1 then Shape_Leaf (Ast_Literal (the literal))
      else if (op = Some ''AND'' \<or> op = Some ''OR'') \<and> args \<noteq> [] then Shape_List (op = Some ''AND'') args
      else if op = Some ''NOT'' \<and> map_of es ''arg'' \<noteq> None \<and> length es = 2 then Shape_Not (the (map_of es ''arg''))
      else Shape_Refused ''CLOSURE_PASS_EXPRESSION_UNKNOWN_NODE'')"

definition node_shape :: "cjson \<Rightarrow> node_shape" where
  "node_shape v = (case v of CObj es \<Rightarrow> object_shape es | _ \<Rightarrow> Shape_Refused ''CLOSURE_PASS_EXPRESSION_INVALID_NODE'')"

lemma map_of_size: "map_of es k = Some v \<Longrightarrow> size v < size (CObj es)"
  by (drule map_of_SomeD, drule size_entry_less) simp

lemma node_shape_Not_size: "node_shape v = Shape_Not a \<Longrightarrow> size a < size v"
  by (auto simp: node_shape_def object_shape_def Let_def dest!: map_of_size split: cjson.splits if_splits)

lemma array_prop_size: "array_prop (map_of es k) \<noteq> [] \<Longrightarrow> size_list size (array_prop (map_of es k)) < size (CObj es)"
  using map_of_size [of es k] by (cases "map_of es k" rule: array_prop.cases) fastforce+

lemma node_shape_List_size: "node_shape v = Shape_List b vs \<Longrightarrow> size_list size vs < size v"
  using array_prop_size by (auto simp: node_shape_def object_shape_def Let_def split: cjson.splits if_splits)

function validate_node :: "cjson \<Rightarrow> closure_ast outcome" and validate_nodes :: "cjson list \<Rightarrow> closure_ast list outcome" where
  "validate_node v = (case node_shape v of
     Shape_Leaf ast \<Rightarrow> Inr ast
   | Shape_List is_and vs \<Rightarrow> (case validate_nodes vs of Inl e \<Rightarrow> Inl e | Inr as \<Rightarrow> Inr (if is_and then Ast_And as else Ast_Or as))
   | Shape_Not a \<Rightarrow> (case validate_node a of Inl e \<Rightarrow> Inl e | Inr x \<Rightarrow> Inr (Ast_Not x))
   | Shape_Refused msg \<Rightarrow> Inl (Plain_Error msg))"
| "validate_nodes [] = Inr []"
| "validate_nodes (v # vs) = (case validate_node v of Inl e \<Rightarrow> Inl e
     | Inr a \<Rightarrow> (case validate_nodes vs of Inl e \<Rightarrow> Inl e | Inr as \<Rightarrow> Inr (a # as)))"
  by pat_completeness auto
termination
  by (relation "measure (\<lambda>x. case x of Inl v \<Rightarrow> 2 * size v | Inr vs \<Rightarrow> 2 * size_list size vs + 1)")
    (auto dest!: node_shape_Not_size node_shape_List_size)

definition parseClosureAst :: "(string \<Rightarrow> cjson option) \<Rightarrow> string \<Rightarrow> closure_ast outcome" where
  "parseClosureAst json_parse serialized = (case json_parse serialized of
     None \<Rightarrow> Inl (Plain_Error ''CLOSURE_PASS_EXPRESSION_INVALID_JSON'') | Some v \<Rightarrow> validate_node v)"

fun evaluateClosureAst :: "closure_ast \<Rightarrow> (string \<Rightarrow> bool) \<Rightarrow> bool" where
  "evaluateClosureAst (Ast_Literal b) values = b"
| "evaluateClosureAst (Ast_Predicate p) values = values p"
| "evaluateClosureAst (Ast_Not a) values = (\<not> evaluateClosureAst a values)"
| "evaluateClosureAst (Ast_And as) values = list_all (\<lambda>a. evaluateClosureAst a values) as"
| "evaluateClosureAst (Ast_Or as) values = list_ex (\<lambda>a. evaluateClosureAst a values) as"

text \<open>\<^verbatim>\<open>JSON.stringify\<close> prints the properties in insertion order, which is \<^const>\<open>render\<close>.\<close>

definition closure_conjunction :: "string list \<Rightarrow> cjson" where
  "closure_conjunction names = CObj [(''op'', CStr ''AND''), (''args'', CArr (map (\<lambda>p. CObj [(''predicate'', CStr p)]) names))]"

definition closureAstForPredicates :: "string list \<Rightarrow> string" where
  "closureAstForPredicates names = render (closure_conjunction names)"

section \<open>Evidence\<close>

record effect_evidence =
  ef_id :: string
  ef_status :: string
  ef_possibleEffect :: bool
  ef_manualReview :: bool

record process_item =
  pr_id :: string
  pr_pid :: int
  pr_active :: bool
  pr_cgroupPath :: string

record socket_item =
  so_id :: string
  so_path :: "string option"
  so_active :: bool

record artifact_item =
  ar_id :: string
  ar_state :: string
  ar_tempPath :: string
  ar_finalPath :: "string option"
  ar_expectedDigest :: string

record closure_evidence =
  root_id :: "string option"
  root_state :: "string option"
  root_exists :: bool
  root_stateVersion :: "string option"
  pendingCommands :: int
  provisionalChildren :: int
  pendingApprovals :: int
  pendingTasks :: int
  leases_active :: int
  leases_stale :: int
  leases_unfenced :: int
  db_effects :: "effect_evidence list"
  mixedEpoch :: int
  activePointer :: int
  pendingSwitches :: int
  bindings_active :: int
  bindings_stale :: int
  bindings_unresolved :: int
  pendingQueue :: int
  pendingOutbox :: int
  inboxGaps :: int
  db_processes :: "process_item list"
  db_sockets :: "socket_item list"
  db_contexts :: int
  db_artifacts :: "artifact_item list"
  cleanup_incomplete :: int
  cleanup_liveResources :: int
  invalidStreams :: int
  missingTerminalEvent :: int
  manual_objects :: int
  manual_conflicts :: int

definition emptyDatabaseEvidence :: closure_evidence where
  "emptyDatabaseEvidence = \<lparr>root_id = None, root_state = None, root_exists = False, root_stateVersion = None,
     pendingCommands = 0, provisionalChildren = 0, pendingApprovals = 0, pendingTasks = 0,
     leases_active = 0, leases_stale = 0, leases_unfenced = 0, db_effects = [], mixedEpoch = 0, activePointer = 0,
     pendingSwitches = 0, bindings_active = 0, bindings_stale = 0, bindings_unresolved = 0, pendingQueue = 0,
     pendingOutbox = 0, inboxGaps = 0, db_processes = [], db_sockets = [], db_contexts = 0, db_artifacts = [],
     cleanup_incomplete = 0, cleanup_liveResources = 0, invalidStreams = 0, missingTerminalEvent = 0,
     manual_objects = 0, manual_conflicts = 0\<rparr>"

text \<open>\<^verbatim>\<open>rootState\<close>: the aggregate kinds with their terminal states.\<close>

definition rootState :: "(string \<times> string list) list" where
  "rootState =
     [(''ACTIVATION_SET'', [''ROLLED_BACK'', ''FAILED'']), (''AGENT_RUN'', [''SUCCEEDED'', ''FAILED'', ''CANCELLED'']),
      (''AI_MODEL_CALL'', [''COMPLETED'', ''FAILED_FINAL'', ''CANCELLED'']), (''AUDIT_HEAD'', [''1'']),
      (''BROWSER_ACTION'', [''CONFIRMED_APPLIED'', ''CONFIRMED_NOT_APPLIED'', ''FAILED_FINAL'']),
      (''BROWSER_SESSION'', [''CLOSED'', ''FAILED_FINAL'', ''EXPIRED'']), (''CLEANUP_OPERATION'', [''CLOSED'', ''FAILED'']),
      (''COMPONENT'', [''DEREGISTERED'']), (''DEPLOYMENT_RUN'', [''ACTIVE'', ''ROLLED_BACK'', ''FAILED'']),
      (''GENERATION_JOB'', [''COMPLETED'', ''SUCCEEDED'', ''FAILED'', ''FAILED_FINAL'', ''CANCELLED'', ''CANCELLED_FINAL'']),
      (''MCP_CALL_RUN'', [''SUCCEEDED'', ''FAILED'', ''CANCELLED'']), (''MCP_TASK'', [''COMPLETED'', ''FAILED'', ''CANCELLED'']),
      (''OPERATIONAL_ALERT'', [''CLOSED'']), (''OWNER_IDENTITY'', [''1'']), (''PLATFORM_RECOVERY'', []),
      (''RUNTIME_INSTANCE'', [''STOPPED'', ''FAILED'', ''ABSENT'']), (''SECRET_RECORD'', [''CLOSED'']),
      (''SELF_TEST_RUN'', [''PASS'', ''FAIL'', ''CANCELLED'', ''NOT_EXECUTED_ENVIRONMENTAL'']),
      (''SIDE_EFFECT'', [''CONFIRMED_APPLIED'', ''CONFIRMED_NOT_APPLIED'', ''FAILED_FINAL'']),
      (''SYSTEM_CHAT_CONVERSATION'', [''CLOSED'', ''FAILED''])]"

text \<open>
  The rows each query returns: a row of counters by column name (an absent row has none), the root
  row, and the rows of the effects, the runtime items and the artifacts.
\<close>

type_synonym counters = "(string \<times> int) list"

record closure_rows =
  q_root :: "(string \<times> string option \<times> bool \<times> string option) option"
  q_children :: counters
  q_lease :: counters
  q_effects :: "(string \<times> string \<times> bool) list" \<comment> \<open>id, status, whether a compensation contract exists\<close>
  q_pointers :: counters
  q_bindings :: counters
  q_pending :: counters
  q_delivery :: counters
  q_processes :: "process_item list"
  q_sockets :: "socket_item list"
  q_contexts :: counters
  q_artifacts :: "artifact_item list"
  q_cleanup :: counters
  q_auditChainOk :: bool
  q_componentAudit :: counters
  q_terminalAudit :: counters
  q_manual :: counters

definition numberValue :: "counters \<Rightarrow> string \<Rightarrow> int" where
  "numberValue row k = (case map_of row k of None \<Rightarrow> 0 | Some n \<Rightarrow> n)"

definition effect_of_row :: "string \<times> string \<times> bool \<Rightarrow> effect_evidence" where
  "effect_of_row row = (case row of (i, status, compensation) \<Rightarrow>
     \<lparr>ef_id = i, ef_status = status, ef_possibleEffect = (status \<notin> set [''CONFIRMED_NOT_APPLIED'', ''FAILED_FINAL'']),
      ef_manualReview = (status \<in> set [''UNKNOWN'', ''RECONCILING'', ''MANUAL_REVIEW''] \<or> compensation \<and> status = ''CONFIRMED_APPLIED'')\<rparr>)"

definition missing_terminal_event :: "string list \<Rightarrow> string option \<Rightarrow> closure_rows \<Rightarrow> int" where
  "missing_terminal_event terminal rootId rows =
     (case q_root rows of
        Some (_, state, True, _) \<Rightarrow>
          if rootId \<noteq> None \<and> rootId \<noteq> Some [] \<and> (case state of None \<Rightarrow> ''null'' | Some s \<Rightarrow> s) \<in> set terminal
            \<and> \<not> numberValue (q_terminalAudit rows) ''count'' > 0 then 1 else 0
      | _ \<Rightarrow> 0)"

definition readDatabaseEvidence :: "string \<Rightarrow> string option \<Rightarrow> closure_rows \<Rightarrow> closure_evidence" where
  "readDatabaseEvidence rootKind rootId rows = (case map_of rootState rootKind of
     None \<Rightarrow> emptyDatabaseEvidence
   | Some terminal \<Rightarrow>
       let effects = map effect_of_row (q_effects rows);
           bound = rootKind \<in> set [''COMPONENT'', ''BROWSER_SESSION'', ''SECRET_RECORD''];
           count = numberValue in
       \<lparr>root_id = map_option fst (q_root rows), root_state = Option.bind (q_root rows) (\<lambda>(_, s, _, _). s),
        root_exists = (case q_root rows of None \<Rightarrow> False | Some (_, _, e, _) \<Rightarrow> e),
        root_stateVersion = Option.bind (q_root rows) (\<lambda>(_, _, _, v). v),
        pendingCommands = count (q_children rows) ''pending_commands'',
        provisionalChildren = count (q_children rows) ''provisional_children'',
        pendingApprovals = (if rootKind = ''AGENT_RUN'' then count (q_pending rows) ''approvals'' else 0),
        pendingTasks = (if rootKind = ''MCP_CALL_RUN'' then count (q_pending rows) ''exchanges''
          else if rootKind = ''MCP_TASK'' then count (q_pending rows) ''tasks'' else 0),
        leases_active = count (q_lease rows) ''active'', leases_stale = count (q_lease rows) ''stale'',
        leases_unfenced = count (q_lease rows) ''unfenced'', db_effects = effects,
        mixedEpoch = count (q_pointers rows) ''mixed_epoch'', activePointer = count (q_pointers rows) ''active_pointer'',
        pendingSwitches = count (q_pointers rows) ''pending_switches'',
        bindings_active = (if bound then count (q_bindings rows) ''active'' else 0),
        bindings_stale = (if bound \<and> rootKind \<noteq> ''COMPONENT'' then count (q_bindings rows) ''stale'' else 0),
        bindings_unresolved = (if rootKind = ''COMPONENT'' then count (q_bindings rows) ''unresolved'' else 0),
        pendingQueue = count (q_delivery rows) ''pending_queue'', pendingOutbox = count (q_delivery rows) ''pending_outbox'',
        inboxGaps = count (q_delivery rows) ''inbox_gaps'', db_processes = q_processes rows, db_sockets = q_sockets rows,
        db_contexts = count (q_contexts rows) ''count'', db_artifacts = q_artifacts rows,
        cleanup_incomplete = count (q_cleanup rows) ''incomplete'', cleanup_liveResources = count (q_cleanup rows) ''live_resources'',
        invalidStreams = (if q_auditChainOk rows then 0 else 1) + count (q_componentAudit rows) ''count'',
        missingTerminalEvent = missing_terminal_event terminal rootId rows,
        manual_objects = count (q_children rows) ''manual_commands'' + int (length (filter ef_manualReview effects))
          + count (q_manual rows) ''objects'',
        manual_conflicts = count (q_manual rows) ''conflicts''\<rparr>)"

section \<open>Inventories\<close>

record runtime_inventory =
  ri_processes :: "process_item list"
  ri_sockets :: "socket_item list"
  ri_cgroups :: "(string \<times> bool) list"

record file_observation =
  fo_id :: string
  fo_path :: string
  fo_present :: bool
  fo_size :: "int option"
  fo_digest :: "string option"

text \<open>
  The probes of the host: the error code of signal 0 to a process, whether a path exists (with its
  size), the content of a file, and the digest of a file.
\<close>

record host_probes =
  hp_kill :: "int \<Rightarrow> string option" \<comment> \<open>the code of the error, None when the signal is delivered\<close>
  hp_lstat :: "string \<Rightarrow> int option"
  hp_read :: "string \<Rightarrow> string option"
  hp_digest :: "string \<Rightarrow> string option"

definition processIsAlive :: "host_probes \<Rightarrow> int \<Rightarrow> bool" where
  "processIsAlive hp pid = (pid \<le> 0 \<or> hp_kill hp pid \<noteq> Some ''ESRCH'')"

definition is_space :: "char \<Rightarrow> bool" where
  "is_space c = (c = CHR '' '' \<or> (9 \<le> (of_char c :: nat) \<and> (of_char c :: nat) \<le> 13) \<or> (of_char c :: nat) = 160)"

definition is_newline :: "char \<Rightarrow> bool" where
  "is_newline c = (c = CHR 0x0A \<or> c = CHR 0x0D)"

text \<open>\<^verbatim>\<open>/^populated\\s+1$/mu\<close> at the start of a line, and anywhere in the text.\<close>

definition populated_here :: "string \<Rightarrow> bool" where
  "populated_here s = (starts_with ''populated'' s \<and>
     (let r = drop 9 s; t = dropWhile is_space r in
      r \<noteq> t \<and> starts_with ''1'' t \<and> (drop 1 t = [] \<or> is_newline (hd (drop 1 t)))))"

fun populated_text :: "bool \<Rightarrow> string \<Rightarrow> bool" where
  "populated_text line_start [] = False"
| "populated_text line_start (c # cs) = (line_start \<and> populated_here (c # cs) \<or> populated_text (is_newline c) cs)"

definition cgroup_dir :: "string \<Rightarrow> string" where
  "cgroup_dir cgroupPath = (if starts_with ''/sys/fs/cgroup/'' cgroupPath then cgroupPath
     else ''/sys/fs/cgroup'' @ (if starts_with ''/'' cgroupPath then [] else ''/'') @ cgroupPath)"

definition cgroupPopulated :: "host_probes \<Rightarrow> string \<Rightarrow> bool" where
  "cgroupPopulated hp cgroupPath =
     (if cgroupPath = [] then True
      else (case (hp_read hp (cgroup_dir cgroupPath @ ''/cgroup.events''), hp_read hp (cgroup_dir cgroupPath @ ''/cgroup.procs'')) of
           (Some events, Some procs) \<Rightarrow> populated_text True events \<or> dropWhile is_space procs \<noteq> []
         | _ \<Rightarrow> True))"

fun remdups_first :: "'a list \<Rightarrow> 'a list" where
  "remdups_first [] = []"
| "remdups_first (x # xs) = x # filter (\<lambda>y. y \<noteq> x) (remdups_first xs)"

definition defaultRuntimeInventory :: "host_probes \<Rightarrow> closure_evidence \<Rightarrow> runtime_inventory" where
  "defaultRuntimeInventory hp ev =
     \<lparr>ri_processes = map (\<lambda>p. p\<lparr>pr_active := pr_active p \<and> processIsAlive hp (pr_pid p)\<rparr>) (db_processes ev),
      ri_sockets = map (\<lambda>s. case so_path s of
          Some path \<Rightarrow> if path = [] then s else s\<lparr>so_active := hp_lstat hp path \<noteq> None\<rparr> | None \<Rightarrow> s) (db_sockets ev),
      ri_cgroups = map (\<lambda>path. (path, cgroupPopulated hp path))
        (remdups_first (filter (\<lambda>p. p \<noteq> []) (map pr_cgroupPath (db_processes ev))))\<rparr>"

definition observe_artifact :: "host_probes \<Rightarrow> artifact_item \<Rightarrow> file_observation list" where
  "observe_artifact hp a =
     (let published = (ar_state a = ''PUBLISHED'');
          paths = (if published then (case ar_finalPath a of Some p \<Rightarrow> if p = [] then [] else [p] | None \<Rightarrow> []) else [ar_tempPath a]) in
      map (\<lambda>path. case (hp_lstat hp path, hp_digest hp path) of
          (Some sz, dg) \<Rightarrow>
            if published then (case dg of
                Some d \<Rightarrow> \<lparr>fo_id = ar_id a, fo_path = path, fo_present = True, fo_size = Some sz, fo_digest = Some d\<rparr>
              | None \<Rightarrow> \<lparr>fo_id = ar_id a, fo_path = path, fo_present = False, fo_size = None, fo_digest = None\<rparr>)
            else \<lparr>fo_id = ar_id a, fo_path = path, fo_present = True, fo_size = Some sz, fo_digest = None\<rparr>
        | (None, _) \<Rightarrow> \<lparr>fo_id = ar_id a, fo_path = path, fo_present = False, fo_size = None, fo_digest = None\<rparr>) paths)"

definition defaultFilesystemInventory :: "host_probes \<Rightarrow> closure_evidence \<Rightarrow> file_observation list" where
  "defaultFilesystemInventory hp ev = concat (map (observe_artifact hp) (db_artifacts ev))"

section \<open>The report\<close>

record closure_record =
  cr_rootKind :: string
  cr_lifecycle :: string
  cr_closurePredicateId :: string
  cr_terminalStates :: "string list"
  cr_passExpression :: string
  cr_failureCode :: string

record external_read_back =
  xb_effectId :: string
  xb_available :: bool
  xb_consistent :: bool

record probe_options =
  po_runtimeInventory :: "(closure_evidence \<Rightarrow> string \<Rightarrow> string option \<Rightarrow> runtime_inventory) option"
  po_filesystemInventory :: "(closure_evidence \<Rightarrow> string \<Rightarrow> string option \<Rightarrow> file_observation list) option"
  po_externalReadBack :: "(effect_evidence \<Rightarrow> string \<Rightarrow> string option \<Rightarrow> external_read_back) option"

definition read_runtime :: "host_probes \<Rightarrow> probe_options \<Rightarrow> closure_evidence \<Rightarrow> string \<Rightarrow> string option \<Rightarrow> runtime_inventory" where
  "read_runtime hp opts ev kind rootId = (case po_runtimeInventory opts of None \<Rightarrow> defaultRuntimeInventory hp ev | Some f \<Rightarrow> f ev kind rootId)"

definition read_filesystem :: "host_probes \<Rightarrow> probe_options \<Rightarrow> closure_evidence \<Rightarrow> string \<Rightarrow> string option \<Rightarrow> file_observation list" where
  "read_filesystem hp opts ev kind rootId = (case po_filesystemInventory opts of None \<Rightarrow> defaultFilesystemInventory hp ev | Some f \<Rightarrow> f ev kind rootId)"

definition read_external :: "probe_options \<Rightarrow> closure_evidence \<Rightarrow> string \<Rightarrow> string option \<Rightarrow> external_read_back list" where
  "read_external opts ev kind rootId = map (\<lambda>ef. case po_externalReadBack opts of
       None \<Rightarrow> \<lparr>xb_effectId = ef_id ef, xb_available = False, xb_consistent = False\<rparr> | Some f \<Rightarrow> f ef kind rootId)
     (filter ef_possibleEffect (db_effects ev))"

definition resolvedStatuses :: "string list" where
  "resolvedStatuses = [''CONFIRMED_APPLIED'', ''CONFIRMED_NOT_APPLIED'', ''FAILED_FINAL'']"

definition runtimeClosed :: "closure_evidence \<Rightarrow> runtime_inventory \<Rightarrow> bool" where
  "runtimeClosed ev rt = (list_all (\<lambda>p. \<not> pr_active p) (ri_processes rt) \<and> list_all (\<lambda>s. \<not> so_active s) (ri_sockets rt)
     \<and> list_all (\<lambda>(_, populated). \<not> populated) (ri_cgroups rt) \<and> db_contexts ev = 0)"

definition artifact_closed :: "file_observation list \<Rightarrow> artifact_item \<Rightarrow> bool" where
  "artifact_closed fs a =
     (let observed = find (\<lambda>f. fo_id f = ar_id a) fs; present = (case observed of None \<Rightarrow> False | Some f \<Rightarrow> fo_present f) in
      if ar_state a = ''PUBLISHED'' then present \<and> ar_expectedDigest a \<noteq> []
        \<and> Option.bind observed fo_digest = Some (ar_expectedDigest a)
      else if ar_state a = ''CLEANED'' \<or> ar_state a = ''FAILED'' then \<not> present
      else False)"

definition activePointerForbidden :: "closure_record \<Rightarrow> closure_evidence \<Rightarrow> bool" where
  "activePointerForbidden r ev = (cr_rootKind r \<in> set [''COMPONENT'', ''BROWSER_SESSION'', ''RUNTIME_INSTANCE'', ''SECRET_RECORD'']
     \<and> activePointer ev > 0)"

definition closure_values ::
  "closure_record \<Rightarrow> closure_evidence \<Rightarrow> runtime_inventory \<Rightarrow> file_observation list \<Rightarrow> external_read_back list \<Rightarrow> string \<Rightarrow> bool" where
  "closure_values r ev rt fs ext name =
     (if name = ''terminal_state'' then root_exists ev \<and> (case root_state ev of None \<Rightarrow> ''null'' | Some s \<Rightarrow> s) \<in> set (cr_terminalStates r)
      else if name = ''children_closed'' then pendingCommands ev = 0 \<and> provisionalChildren ev = 0 \<and> pendingApprovals ev = 0 \<and> pendingTasks ev = 0
      else if name = ''lease_and_fence'' then leases_active ev = 0 \<and> leases_stale ev = 0 \<and> leases_unfenced ev = 0
      else if name = ''side_effects_known'' then list_all (\<lambda>ef. ef_status ef \<in> set resolvedStatuses) (db_effects ev)
        \<and> list_all (\<lambda>x. xb_available x \<and> xb_consistent x) ext
      else if name = ''pointer_and_epoch'' then mixedEpoch ev = 0 \<and> pendingSwitches ev = 0 \<and> \<not> activePointerForbidden r ev
      else if name = ''bindings_exact'' then bindings_active ev = 0 \<and> bindings_stale ev = 0 \<and> bindings_unresolved ev = 0
      else if name = ''queue_outbox_inbox_closed'' then pendingQueue ev = 0 \<and> pendingOutbox ev = 0 \<and> inboxGaps ev = 0
      else if name = ''runtime_process_closed'' then runtimeClosed ev rt
      else if name = ''artifacts_filesystem_closed'' then list_all (artifact_closed fs) (db_artifacts ev)
      else if name = ''cleanup_complete'' then cleanup_incomplete ev = 0 \<and> cleanup_liveResources ev = 0
      else if name = ''audit_evidence_valid'' then invalidStreams ev = 0 \<and> missingTerminalEvent ev = 0
      else if name = ''manual_review_empty'' then manual_objects ev = 0 \<and> manual_conflicts ev = 0
      else False)"

definition orphan_count :: "string \<Rightarrow> int \<Rightarrow> cjson list" where
  "orphan_count kind n = (if n > 0 then [CObj [(''kind'', CStr kind), (''count'', CNum (JInt n))]] else [])"

definition orphan_item :: "string \<Rightarrow> (string \<times> cjson) list \<Rightarrow> cjson" where
  "orphan_item kind es = CObj ((''kind'', CStr kind) # es)"

definition orphanInventory :: "closure_record \<Rightarrow> closure_evidence \<Rightarrow> runtime_inventory \<Rightarrow> file_observation list \<Rightarrow> cjson list" where
  "orphanInventory r ev rt fs =
     orphan_count ''PENDING_COMMAND'' (pendingCommands ev) @ orphan_count ''PROVISIONAL_CHILD'' (provisionalChildren ev)
   @ orphan_count ''PENDING_APPROVAL'' (pendingApprovals ev) @ orphan_count ''PENDING_TASK'' (pendingTasks ev)
   @ orphan_count ''ACTIVE_LEASE'' (leases_active ev) @ orphan_count ''STALE_LEASE'' (leases_stale ev)
   @ orphan_count ''UNFENCED_LEASE'' (leases_unfenced ev)
   @ (let unresolved = filter (\<lambda>ef. ef_status ef \<notin> set resolvedStatuses) (db_effects ev) in
      if unresolved \<noteq> [] then [orphan_item ''UNRESOLVED_SIDE_EFFECT'' [(''ids'', CArr (map (\<lambda>ef. CStr (ef_id ef)) unresolved))]] else [])
   @ orphan_count ''MIXED_POINTER_EPOCH'' (mixedEpoch ev) @ orphan_count ''PENDING_POINTER_SWITCH'' (pendingSwitches ev)
   @ orphan_count ''ACTIVE_BINDING'' (bindings_active ev) @ orphan_count ''STALE_BINDING'' (bindings_stale ev)
   @ orphan_count ''UNRESOLVED_BINDING'' (bindings_unresolved ev) @ orphan_count ''PENDING_QUEUE'' (pendingQueue ev)
   @ orphan_count ''PENDING_OUTBOX'' (pendingOutbox ev) @ orphan_count ''INBOX_SEQUENCE_GAP'' (inboxGaps ev)
   @ orphan_count ''INCOMPLETE_CLEANUP'' (cleanup_incomplete ev) @ orphan_count ''LIVE_CLEANUP_RESOURCE'' (cleanup_liveResources ev)
   @ (if activePointerForbidden r ev then orphan_count ''ACTIVE_POINTER'' (activePointer ev) else [])
   @ map (\<lambda>p. orphan_item ''PROCESS'' [(''id'', CStr (pr_id p)), (''pid'', CNum (JInt (pr_pid p)))]) (filter pr_active (ri_processes rt))
   @ map (\<lambda>s. orphan_item ''SOCKET'' [(''id'', CStr (so_id s)), (''path'', opt_json (so_path s))]) (filter so_active (ri_sockets rt))
   @ map (\<lambda>(path, _). orphan_item ''CGROUP'' [(''path'', CStr path)]) (filter snd (ri_cgroups rt))
   @ orphan_count ''EXECUTION_CONTEXT'' (db_contexts ev)
   @ map (\<lambda>f. orphan_item ''ARTIFACT'' [(''id'', CStr (fo_id f)), (''path'', CStr (fo_path f))])
       (filter (\<lambda>f. fo_present f \<and> \<not> (\<exists>a \<in> set (db_artifacts ev). ar_id a = fo_id f \<and> ar_state a = ''PUBLISHED'')) fs)
   @ orphan_count ''INVALID_AUDIT_STREAM'' (invalidStreams ev) @ orphan_count ''MISSING_TERMINAL_AUDIT_EVENT'' (missingTerminalEvent ev)
   @ orphan_count ''MANUAL_REVIEW_CONFLICT'' (manual_conflicts ev) @ orphan_count ''MANUAL_REVIEW_OBJECT'' (manual_objects ev)
   @ map (\<lambda>ef. orphan_item ''MANUAL_REVIEW_EFFECT'' [(''id'', CStr (ef_id ef))]) (filter ef_manualReview (db_effects ev))"

text \<open>The report, without the digests over its own content.\<close>

record closure_report =
  cp_rootKind :: string
  cp_rootId :: "string option"
  cp_closurePredicateId :: string
  cp_passed :: bool
  cp_failureCode :: "string option"
  cp_predicates :: "(string \<times> bool) list"
  cp_failingPredicates :: "string list"
  cp_orphanInventory :: "cjson list"
  cp_database :: closure_evidence

definition evaluateClosureRecord ::
  "(string \<Rightarrow> cjson option) \<Rightarrow> host_probes \<Rightarrow> closure_record \<Rightarrow> closure_evidence \<Rightarrow> string option \<Rightarrow> probe_options
   \<Rightarrow> closure_report outcome" where
  "evaluateClosureRecord json_parse hp r ev rootId opts =
     (let rt = read_runtime hp opts ev (cr_rootKind r) rootId; fs = read_filesystem hp opts ev (cr_rootKind r) rootId;
          ext = read_external opts ev (cr_rootKind r) rootId; vals = closure_values r ev rt fs ext in
      bindE (parseClosureAst json_parse (cr_passExpression r)) (\<lambda>ast.
        let orphans = orphanInventory r ev rt fs;
            passed = (evaluateClosureAst ast vals \<and> cr_failureCode r = ''TERMINAL_CLOSURE_INCOMPLETE'' \<and> orphans = []);
            predicates = map (\<lambda>name. (name, vals name)) KNOWN_PREDICATES in
        Inr \<lparr>cp_rootKind = cr_rootKind r, cp_rootId = rootId, cp_closurePredicateId = cr_closurePredicateId r, cp_passed = passed,
          cp_failureCode = (if passed then None else Some (cr_failureCode r)), cp_predicates = predicates,
          cp_failingPredicates = map fst (filter (\<lambda>(_, ok). \<not> ok) predicates), cp_orphanInventory = orphans, cp_database = ev\<rparr>))"

definition evaluateClosure ::
  "(string \<Rightarrow> cjson option) \<Rightarrow> host_probes \<Rightarrow> closure_rows \<Rightarrow> closure_record \<Rightarrow> string option \<Rightarrow> probe_options \<Rightarrow> closure_report outcome" where
  "evaluateClosure json_parse hp rows r rootId opts =
     evaluateClosureRecord json_parse hp r (readDatabaseEvidence (cr_rootKind r) rootId rows) rootId opts"

definition closureReportForRoot ::
  "(string \<Rightarrow> cjson option) \<Rightarrow> host_probes \<Rightarrow> closure_rows \<Rightarrow> closure_record list \<Rightarrow> string \<Rightarrow> string option \<Rightarrow> probe_options
   \<Rightarrow> closure_report outcome" where
  "closureReportForRoot json_parse hp rows records rootKind rootId opts =
     (case find (\<lambda>r. cr_rootKind r = rootKind \<and> cr_lifecycle r = ''ACTIVE'') records of
        None \<Rightarrow> Inl (Plain_Error (''CLOSURE_RECORD_NOT_FOUND:'' @ rootKind))
      | Some r \<Rightarrow> evaluateClosure json_parse hp rows r rootId opts)"

section \<open>Properties\<close>

lemma orphan_count_Nil [simp]: "orphan_count kind n = [] \<longleftrightarrow> n \<le> 0"
  by (simp add: orphan_count_def not_less)

lemma evaluateClosureRecord_report:
  assumes "evaluateClosureRecord json_parse hp r ev rootId opts = Inr rep"
  shows "\<exists>ast. parseClosureAst json_parse (cr_passExpression r) = Inr ast
    \<and> cp_orphanInventory rep = orphanInventory r ev (read_runtime hp opts ev (cr_rootKind r) rootId) (read_filesystem hp opts ev (cr_rootKind r) rootId)
    \<and> cp_passed rep = (evaluateClosureAst ast (closure_values r ev (read_runtime hp opts ev (cr_rootKind r) rootId)
          (read_filesystem hp opts ev (cr_rootKind r) rootId) (read_external opts ev (cr_rootKind r) rootId))
        \<and> cr_failureCode r = ''TERMINAL_CLOSURE_INCOMPLETE'' \<and> cp_orphanInventory rep = [])"
  using assms by (auto simp: evaluateClosureRecord_def Let_def bindE_Inr_iff)

text \<open>
  C33. Whatever expression the registry carries, even the literal true, an aggregate is reported
  closed only when nothing of it is left: no pending or provisional child, lease, queue item,
  outbox entry, inbox gap, binding or cleanup, every effect resolved and none under manual review,
  and no process, socket or control group alive in the runtime inventory.
\<close>

theorem closed_means_no_orphans:
  assumes "evaluateClosureRecord json_parse hp r ev rootId opts = Inr rep" and "cp_passed rep"
  shows "pendingCommands ev \<le> 0 \<and> provisionalChildren ev \<le> 0 \<and> pendingApprovals ev \<le> 0 \<and> pendingTasks ev \<le> 0
    \<and> leases_active ev \<le> 0 \<and> pendingQueue ev \<le> 0 \<and> pendingOutbox ev \<le> 0 \<and> inboxGaps ev \<le> 0 \<and> bindings_active ev \<le> 0
    \<and> cleanup_incomplete ev \<le> 0 \<and> cleanup_liveResources ev \<le> 0 \<and> invalidStreams ev \<le> 0 \<and> manual_objects ev \<le> 0
    \<and> (\<forall>ef \<in> set (db_effects ev). ef_status ef \<in> set resolvedStatuses \<and> \<not> ef_manualReview ef)
    \<and> (\<forall>p \<in> set (ri_processes (read_runtime hp opts ev (cr_rootKind r) rootId)). \<not> pr_active p)
    \<and> (\<forall>s \<in> set (ri_sockets (read_runtime hp opts ev (cr_rootKind r) rootId)). \<not> so_active s)
    \<and> (\<forall>g \<in> set (ri_cgroups (read_runtime hp opts ev (cr_rootKind r) rootId)). \<not> snd g)"
proof -
  have "orphanInventory r ev (read_runtime hp opts ev (cr_rootKind r) rootId) (read_filesystem hp opts ev (cr_rootKind r) rootId) = []"
    using evaluateClosureRecord_report [OF assms(1)] assms(2) by auto
  then show ?thesis
    by (simp add: orphanInventory_def Let_def filter_empty_conv split: if_split_asm)
qed

lemma node_shape_predicate: "p \<in> set KNOWN_PREDICATES \<Longrightarrow> node_shape (CObj [(''predicate'', CStr p)]) = Shape_Leaf (Ast_Predicate p)"
  by (simp add: node_shape_def object_shape_def)

lemma validate_predicates:
  "set names \<subseteq> set KNOWN_PREDICATES \<Longrightarrow>
   validate_nodes (map (\<lambda>p. CObj [(''predicate'', CStr p)]) names) = Inr (map Ast_Predicate names)"
  by (induction names) (simp_all add: node_shape_predicate)

lemma node_shape_conjunction:
  "names \<noteq> [] \<Longrightarrow> node_shape (closure_conjunction names) = Shape_List True (map (\<lambda>p. CObj [(''predicate'', CStr p)]) names)"
  by (simp add: node_shape_def object_shape_def closure_conjunction_def)

lemma parse_conjunction:
  assumes "json_parse (closureAstForPredicates names) = Some (closure_conjunction names)"
    and "names \<noteq> []" and "set names \<subseteq> set KNOWN_PREDICATES"
  shows "parseClosureAst json_parse (closureAstForPredicates names) = Inr (Ast_And (map Ast_Predicate names))"
  using assms by (simp add: parseClosureAst_def node_shape_conjunction validate_predicates)

text \<open>
  The printed conjunction of predicates parses back to the expression that holds exactly when
  each of them holds, provided the JSON parser inverts the printer on it.
\<close>

theorem closure_conjunction_roundtrip:
  assumes "json_parse (closureAstForPredicates names) = Some (closure_conjunction names)"
    and "names \<noteq> []" and "set names \<subseteq> set KNOWN_PREDICATES"
  shows "\<exists>ast. parseClosureAst json_parse (closureAstForPredicates names) = Inr ast
    \<and> (\<forall>vals. evaluateClosureAst ast vals \<longleftrightarrow> (\<forall>p \<in> set names. vals p))"
  using parse_conjunction [of json_parse names, OF assms] by (simp add: list_all_iff)

lemma default_processes_closed:
  "list_all (\<lambda>p. \<not> pr_active p) (ri_processes (defaultRuntimeInventory hp ev)) \<Longrightarrow> p \<in> set (db_processes ev) \<Longrightarrow> pr_active p
    \<Longrightarrow> 0 < pr_pid p \<and> hp_kill hp (pr_pid p) = Some ''ESRCH''"
  by (auto simp: defaultRuntimeInventory_def list_all_iff processIsAlive_def)

lemma set_remdups_first [simp]: "set (remdups_first xs) = set xs"
  by (induction xs) auto

text \<open>
  The probes of the host fail closed: with the default inventories the runtime counts as closed
  only if every process the database still lists as running has a valid identifier for which the
  kernel answers that there is no such process, and every control group of the aggregate could be
  read and is empty. An unreadable control group or any other answer keeps the runtime open.
\<close>

theorem runtime_probe_fails_closed:
  assumes "runtimeClosed ev (defaultRuntimeInventory hp ev)" and "p \<in> set (db_processes ev)"
  shows "(pr_active p \<longrightarrow> 0 < pr_pid p \<and> hp_kill hp (pr_pid p) = Some ''ESRCH'')
    \<and> (pr_cgroupPath p \<noteq> [] \<longrightarrow> (\<exists>events procs. hp_read hp (cgroup_dir (pr_cgroupPath p) @ ''/cgroup.events'') = Some events
         \<and> hp_read hp (cgroup_dir (pr_cgroupPath p) @ ''/cgroup.procs'') = Some procs \<and> \<not> populated_text True events \<and> list_all is_space procs))"
proof (intro conjI impI)
  assume "pr_active p"
  then show "0 < pr_pid p" "hp_kill hp (pr_pid p) = Some ''ESRCH''"
    using assms default_processes_closed by (auto simp: runtimeClosed_def)
next
  assume "pr_cgroupPath p \<noteq> []"
  with assms have "\<not> cgroupPopulated hp (pr_cgroupPath p)"
    by (auto simp: runtimeClosed_def defaultRuntimeInventory_def list_all_iff)
  then show "\<exists>events procs. hp_read hp (cgroup_dir (pr_cgroupPath p) @ ''/cgroup.events'') = Some events
      \<and> hp_read hp (cgroup_dir (pr_cgroupPath p) @ ''/cgroup.procs'') = Some procs \<and> \<not> populated_text True events \<and> list_all is_space procs"
    using \<open>pr_cgroupPath p \<noteq> []\<close>
    by (auto simp: cgroupPopulated_def Let_def list_all_iff dropWhile_eq_Nil_conv split: option.splits if_splits)
qed

section \<open>Concrete records\<close>

definition sample_closure :: closure_record where
  "sample_closure = \<lparr>cr_rootKind = ''COMPONENT'', cr_lifecycle = ''ACTIVE'', cr_closurePredicateId = ''C'',
     cr_terminalStates = [''DEREGISTERED''], cr_passExpression = ''t'', cr_failureCode = ''TERMINAL_CLOSURE_INCOMPLETE''\<rparr>"

definition no_options :: probe_options where
  "no_options = \<lparr>po_runtimeInventory = None, po_filesystemInventory = None, po_externalReadBack = None\<rparr>"

definition dead_host :: host_probes where
  "dead_host = \<lparr>hp_kill = (\<lambda>_. Some ''ESRCH''), hp_lstat = (\<lambda>_. None), hp_read = (\<lambda>_. Some []), hp_digest = (\<lambda>_. None)\<rparr>"

definition exited_process :: closure_evidence where
  "exited_process = emptyDatabaseEvidence\<lparr>db_processes := [\<lparr>pr_id = ''p'', pr_pid = 42, pr_active = True, pr_cgroupPath = ''g''\<rparr>]\<rparr>"

theorem closed_means_no_orphans_witness:
  "\<exists>rep. evaluateClosureRecord (\<lambda>_. Some (CObj [(''literal'', CBool True)])) dead_host sample_closure exited_process (Some ''i'') no_options = Inr rep
    \<and> cp_passed rep \<and> pendingCommands exited_process \<le> 0"
proof -
  have "is_ok (evaluateClosureRecord (\<lambda>_. Some (CObj [(''literal'', CBool True)])) dead_host sample_closure exited_process (Some ''i'') no_options)"
    by (simp add: evaluateClosureRecord_def parseClosureAst_def node_shape_def object_shape_def Let_def)
  then obtain rep where rep: "evaluateClosureRecord (\<lambda>_. Some (CObj [(''literal'', CBool True)])) dead_host sample_closure exited_process (Some ''i'') no_options = Inr rep"
    by (auto simp: is_ok_iff)
  have "orphanInventory sample_closure exited_process (read_runtime dead_host no_options exited_process ''COMPONENT'' (Some ''i''))
      (read_filesystem dead_host no_options exited_process ''COMPONENT'' (Some ''i'')) = []"
    by code_simp
  with rep have passed: "cp_passed rep"
    by (auto simp: evaluateClosureRecord_def parseClosureAst_def node_shape_def object_shape_def Let_def sample_closure_def)
  from closed_means_no_orphans [OF rep passed] rep passed show ?thesis by blast
qed

theorem closure_conjunction_roundtrip_witness:
  "\<exists>ast. parseClosureAst (\<lambda>_. Some (closure_conjunction [''terminal_state''])) (closureAstForPredicates [''terminal_state'']) = Inr ast
    \<and> (\<forall>vals. evaluateClosureAst ast vals \<longleftrightarrow> vals ''terminal_state'')"
  using closure_conjunction_roundtrip [of "\<lambda>_. Some (closure_conjunction [''terminal_state''])" "[''terminal_state'']"]
  by (simp add: KNOWN_PREDICATES_def)

theorem runtime_probe_fails_closed_witness:
  "hp_kill dead_host 42 = Some ''ESRCH''"
proof -
  have closed: "runtimeClosed exited_process (defaultRuntimeInventory dead_host exited_process)" by code_simp
  from runtime_probe_fails_closed [OF closed, of "\<lparr>pr_id = ''p'', pr_pid = 42, pr_active = True, pr_cgroupPath = ''g''\<rparr>"]
  show ?thesis by (simp add: exited_process_def)
qed

end
