(* ===== verification/Database.thy ===== *)
theory Database
  imports StreamDecoder
begin

text \<open>
  The database layer (\<^verbatim>\<open>packages/database/src/index.ts\<close>): transaction profiles and their execution,
  serializable retries, the sequence allocator, advisory keys, the lock-order guard, migrations and
  the schema contract. A connection is its committed state, the working state of an open
  transaction, and the statements it received; which statements the server rejects is a
  parameter (a rejected COMMIT commits nothing), as are the
  rows of the catalogue queries, the files of the migration directory and SHA-256.
  A transaction starts once the pool has given it a connection; the pool's own failure to connect
  precedes every statement.
\<close>

section \<open>Transactions\<close>

record transaction_profile =
  tp_id :: string
  tp_isolation :: string
  tp_readOnly :: bool
  tp_deferrable :: bool
  tp_lockTimeout :: string
  tp_statementTimeout :: string
  tp_idleTimeout :: string

datatype profile_id = ONLINE_MUTATION | WORKER_COMMIT | ACTIVATION_SWITCH | CONSISTENT_READ | CLOSURE_SNAPSHOT | SERIALIZABLE_PREDICATE

definition mk_profile :: "string \<Rightarrow> string \<Rightarrow> bool \<Rightarrow> bool \<Rightarrow> string \<Rightarrow> string \<Rightarrow> string \<Rightarrow> transaction_profile" where
  "mk_profile i iso_level ro de lt st it = \<lparr>tp_id = i, tp_isolation = iso_level, tp_readOnly = ro, tp_deferrable = de,
     tp_lockTimeout = lt, tp_statementTimeout = st, tp_idleTimeout = it\<rparr>"

fun TRANSACTION_PROFILES :: "profile_id \<Rightarrow> transaction_profile" where
  "TRANSACTION_PROFILES ONLINE_MUTATION = mk_profile ''ONLINE_MUTATION'' ''READ COMMITTED'' False False ''1500ms'' ''10s'' ''10s''"
| "TRANSACTION_PROFILES WORKER_COMMIT = mk_profile ''WORKER_COMMIT'' ''READ COMMITTED'' False False ''3000ms'' ''15s'' ''15s''"
| "TRANSACTION_PROFILES ACTIVATION_SWITCH = mk_profile ''ACTIVATION_SWITCH'' ''READ COMMITTED'' False False ''5000ms'' ''30s'' ''30s''"
| "TRANSACTION_PROFILES CONSISTENT_READ = mk_profile ''CONSISTENT_READ'' ''REPEATABLE READ'' True False ''3000ms'' ''60s'' ''60s''"
| "TRANSACTION_PROFILES CLOSURE_SNAPSHOT = mk_profile ''CLOSURE_SNAPSHOT'' ''SERIALIZABLE'' True True ''5000ms'' ''120s'' ''120s''"
| "TRANSACTION_PROFILES SERIALIZABLE_PREDICATE = mk_profile ''SERIALIZABLE_PREDICATE'' ''SERIALIZABLE'' False False ''3000ms'' ''15s'' ''15s''"

record 's connection_state =
  db_committed :: 's
  db_working :: "'s option"
  db_statements :: "string list"

type_synonym faults = "nat \<Rightarrow> string \<Rightarrow> js_error option" \<comment> \<open>the error of the n-th statement, if it fails\<close>

definition pg_exec :: "faults \<Rightarrow> string \<Rightarrow> 's connection_state \<Rightarrow> 's connection_state \<times> unit outcome" where
  "pg_exec fault stmt c =
     (let c' = c\<lparr>db_statements := db_statements c @ [stmt]\<rparr> in
      case fault (length (db_statements c)) stmt of
        Some e \<Rightarrow> (c', Inl e)
      | None \<Rightarrow>
          if stmt = ''BEGIN'' then (c'\<lparr>db_working := Some (db_committed c)\<rparr>, Inr ())
          else if stmt = ''COMMIT'' then (c'\<lparr>db_committed := (case db_working c of Some w \<Rightarrow> w | None \<Rightarrow> db_committed c), db_working := None\<rparr>, Inr ())
          else if stmt = ''ROLLBACK'' then (c'\<lparr>db_working := None\<rparr>, Inr ())
          else (c', Inr ()))"

fun pg_exec_all :: "faults \<Rightarrow> string list \<Rightarrow> 's connection_state \<Rightarrow> 's connection_state \<times> unit outcome" where
  "pg_exec_all fault [] c = (c, Inr ())"
| "pg_exec_all fault (s # ss) c = (case pg_exec fault s c of (c', Inl e) \<Rightarrow> (c', Inl e) | (c', Inr _) \<Rightarrow> pg_exec_all fault ss c')"

definition profile_statements :: "transaction_profile \<Rightarrow> string list" where
  "profile_statements p =
     [''BEGIN'', ''SET TRANSACTION ISOLATION LEVEL '' @ tp_isolation p]
     @ (if tp_readOnly p then [''SET TRANSACTION READ ONLY''] else [])
     @ (if tp_deferrable p then [''SET TRANSACTION DEFERRABLE''] else [])
     @ [''SET LOCAL lock_timeout = '' @ [CHR 0x27] @ tp_lockTimeout p @ [CHR 0x27],
        ''SET LOCAL statement_timeout = '' @ [CHR 0x27] @ tp_statementTimeout p @ [CHR 0x27],
        ''SET LOCAL idle_in_transaction_session_timeout = '' @ [CHR 0x27] @ tp_idleTimeout p @ [CHR 0x27],
        ''SET LOCAL application_name = '' @ [CHR 0x27] @ ''kcml-transaction'' @ [CHR 0x27]]"

text \<open>The body works on the state of the open transaction.\<close>

type_synonym ('s, 'a) tx_body = "'s \<Rightarrow> 's \<times> 'a outcome"

definition run_body :: "('s, 'a) tx_body \<Rightarrow> 's connection_state \<Rightarrow> 's connection_state \<times> 'a outcome" where
  "run_body body c = (case db_working c of
     None \<Rightarrow> (c, Inl (Pg_Error ''25P01''))
   | Some w \<Rightarrow> (case body w of (w', r) \<Rightarrow> (c\<lparr>db_working := Some w'\<rparr>, r)))"

definition run_transaction :: "faults \<Rightarrow> string list \<Rightarrow> ('s, 'a) tx_body \<Rightarrow> 's connection_state \<Rightarrow> 's connection_state \<times> 'a outcome" where
  "run_transaction fault prologue body c =
     (let attempt = (case pg_exec_all fault prologue c of
           (c1, Inl e) \<Rightarrow> (c1, Inl e)
         | (c1, Inr _) \<Rightarrow> (case run_body body c1 of
             (c2, Inl e) \<Rightarrow> (c2, Inl e)
           | (c2, Inr v) \<Rightarrow> (case pg_exec fault ''COMMIT'' c2 of (c3, Inl e) \<Rightarrow> (c3, Inl e) | (c3, Inr _) \<Rightarrow> (c3, Inr v)))) in
      case attempt of
        (c', Inl e) \<Rightarrow> (fst (pg_exec fault ''ROLLBACK'' c'), Inl e)
      | (c', Inr v) \<Rightarrow> (c', Inr v))"

definition inTransactionProfile :: "faults \<Rightarrow> profile_id \<Rightarrow> ('s, 'a) tx_body \<Rightarrow> 's connection_state \<Rightarrow> 's connection_state \<times> 'a outcome" where
  "inTransactionProfile fault pid body c = run_transaction fault (profile_statements (TRANSACTION_PROFILES pid)) body c"

definition inTransaction :: "faults \<Rightarrow> string \<Rightarrow> ('s, 'a) tx_body \<Rightarrow> 's connection_state \<Rightarrow> 's connection_state \<times> 'a outcome" where
  "inTransaction fault isolation body c =
     inTransactionProfile fault (if isolation = ''READ COMMITTED'' then ONLINE_MUTATION
       else if isolation = ''REPEATABLE READ'' then CONSISTENT_READ else SERIALIZABLE_PREDICATE) body c"

definition closure_statements :: "string list" where
  "closure_statements = [''BEGIN'', ''SET TRANSACTION ISOLATION LEVEL SERIALIZABLE, READ ONLY, DEFERRABLE'',
     ''SET LOCAL lock_timeout = '' @ [CHR 0x27] @ ''5s'' @ [CHR 0x27],
     ''SET LOCAL idle_in_transaction_session_timeout = '' @ [CHR 0x27] @ ''15s'' @ [CHR 0x27]]"

definition inSerializableReadOnlyDeferrable :: "faults \<Rightarrow> ('s, 'a) tx_body \<Rightarrow> 's connection_state \<Rightarrow> 's connection_state \<times> 'a outcome" where
  "inSerializableReadOnlyDeferrable fault body c = run_transaction fault closure_statements body c"

text \<open>
  \<^verbatim>\<open>withSerializableRetry\<close>: each attempt runs on a fresh connection to the database as the other
  transactions have left it (\<open>others\<close>, by attempt). The result carries the number of attempts.
\<close>

definition retryable :: "js_error \<Rightarrow> bool" where
  "retryable e = (e = Pg_Error ''40001'' \<or> e = Pg_Error ''40P01'')"

definition fresh_connection :: "'s \<Rightarrow> 's connection_state" where
  "fresh_connection s = \<lparr>db_committed = s, db_working = None, db_statements = []\<rparr>"

function retry_loop ::
  "(nat \<Rightarrow> faults) \<Rightarrow> (nat \<Rightarrow> 's \<Rightarrow> 's) \<Rightarrow> ('s, 'a) tx_body \<Rightarrow> nat \<Rightarrow> nat \<Rightarrow> js_error \<Rightarrow> 's \<Rightarrow> 's \<times> 'a outcome \<times> nat" where
  "retry_loop fault others body maxAttempts attempt lastError s =
     (if attempt > maxAttempts then (s, Inl lastError, attempt - 1)
      else let s1 = others attempt s in
        (case inTransaction (fault attempt) ''SERIALIZABLE'' body (fresh_connection s1) of
           (c, Inr v) \<Rightarrow> (db_committed c, Inr v, attempt)
         | (c, Inl e) \<Rightarrow>
             if \<not> retryable e \<or> attempt = maxAttempts then (db_committed c, Inl e, attempt)
             else retry_loop fault others body maxAttempts (attempt + 1) e (db_committed c)))"
  by pat_completeness auto
termination
  by (relation "measure (\<lambda>(_, _, _, maxAttempts, attempt, _, _). Suc maxAttempts - attempt)") auto

declare retry_loop.simps [simp del]

definition withSerializableRetry ::
  "(nat \<Rightarrow> faults) \<Rightarrow> (nat \<Rightarrow> 's \<Rightarrow> 's) \<Rightarrow> ('s, 'a) tx_body \<Rightarrow> nat \<Rightarrow> 's \<Rightarrow> 's \<times> 'a outcome \<times> nat" where
  "withSerializableRetry fault others body maxAttempts s =
     retry_loop fault others body maxAttempts 1 (Plain_Error ''undefined'') s"

section \<open>Sequences and advisory keys\<close>

type_synonym sequence_table = "((string \<times> string \<times> string) \<times> int) list"

definition allocateContiguousSequence :: "string \<Rightarrow> string \<Rightarrow> string \<Rightarrow> sequence_table \<Rightarrow> sequence_table \<times> int outcome" where
  "allocateContiguousSequence ns parent kind t =
     (let k = (ns, parent, kind); t1 = (if jm_has t k then t else jm_set k 0 t) in
      case jm_get t1 k of
        None \<Rightarrow> (t1, Inl (Plain_Error ''SEQUENCE_ALLOCATOR_FAILED''))
      | Some n \<Rightarrow> (jm_set k (n + 1) t1, Inr (n + 1)))"

definition ADVISORY_NAMESPACE_IDS :: "(string \<times> int) list" where
  "ADVISORY_NAMESPACE_IDS = [(''BOOTSTRAP_SINGLETON'', 1001), (''COMPONENT_CODE'', 1010), (''SECRET_STABLE_NAME'', 1020),
     (''IDEMPOTENCY_SCOPE'', 1030), (''CONCURRENCY_CLAIM'', 1040), (''ACTIVATION_DOMAIN'', 1050), (''BROWSER_CONTROL'', 1060),
     (''CLEANUP_REMEDIATION'', 1070), (''SCHEDULE_OCCURRENCE'', 1080), (''INBOUND_EVENT'', 1090), (''SCHEMA_MIGRATION'', 1100),
     (''PLATFORM_RECOVERY_BARRIER'', 1110)]"

definition readInt32BE :: "byte list \<Rightarrow> int" where
  "readInt32BE bs = sint (word_of_nat (be_value (take 4 bs)) :: 32 word)"

definition advisoryKey :: "(byte list \<Rightarrow> byte list) \<Rightarrow> string \<Rightarrow> string \<Rightarrow> (int \<times> int) outcome" where
  "advisoryKey sha256_bytes ns identity = (case map_of ADVISORY_NAMESPACE_IDS ns of
     None \<Rightarrow> Inl (Plain_Error (''ADVISORY_NAMESPACE_INVALID:'' @ ns))
   | Some i \<Rightarrow> Inr (i, readInt32BE (sha256_bytes (utf8 (ns @ [CHR 0x00] @ identity)))))"

section \<open>Lock order\<close>

datatype lock_class = ADVISORY | PLATFORM | DEPLOYMENT | OWNER_CREDENTIAL | ACTIVATION_HEAD | IDEMPOTENCY | ACTIVATION_DOMAIN
  | AGGREGATE | CONCURRENCY | SEQUENCE | CHILD | QUEUE | OUTBOX | INBOX | AUDIT

fun LOCK_CLASS_ORDER :: "lock_class \<Rightarrow> int" where
  "LOCK_CLASS_ORDER ADVISORY = 10"
| "LOCK_CLASS_ORDER PLATFORM = 20"
| "LOCK_CLASS_ORDER DEPLOYMENT = 21"
| "LOCK_CLASS_ORDER OWNER_CREDENTIAL = 22"
| "LOCK_CLASS_ORDER ACTIVATION_HEAD = 23"
| "LOCK_CLASS_ORDER IDEMPOTENCY = 30"
| "LOCK_CLASS_ORDER ACTIVATION_DOMAIN = 40"
| "LOCK_CLASS_ORDER AGGREGATE = 50"
| "LOCK_CLASS_ORDER CONCURRENCY = 60"
| "LOCK_CLASS_ORDER SEQUENCE = 70"
| "LOCK_CLASS_ORDER CHILD = 80"
| "LOCK_CLASS_ORDER QUEUE = 90"
| "LOCK_CLASS_ORDER OUTBOX = 91"
| "LOCK_CLASS_ORDER INBOX = 92"
| "LOCK_CLASS_ORDER AUDIT = 100"

fun lock_class_text :: "lock_class \<Rightarrow> string" where
  "lock_class_text ADVISORY = ''ADVISORY''"
| "lock_class_text PLATFORM = ''PLATFORM''"
| "lock_class_text DEPLOYMENT = ''DEPLOYMENT''"
| "lock_class_text OWNER_CREDENTIAL = ''OWNER_CREDENTIAL''"
| "lock_class_text ACTIVATION_HEAD = ''ACTIVATION_HEAD''"
| "lock_class_text IDEMPOTENCY = ''IDEMPOTENCY''"
| "lock_class_text ACTIVATION_DOMAIN = ''ACTIVATION_DOMAIN''"
| "lock_class_text AGGREGATE = ''AGGREGATE''"
| "lock_class_text CONCURRENCY = ''CONCURRENCY''"
| "lock_class_text SEQUENCE = ''SEQUENCE''"
| "lock_class_text CHILD = ''CHILD''"
| "lock_class_text QUEUE = ''QUEUE''"
| "lock_class_text OUTBOX = ''OUTBOX''"
| "lock_class_text INBOX = ''INBOX''"
| "lock_class_text AUDIT = ''AUDIT''"

record lock_guard =
  lg_lastOrder :: int
  lg_lastKey :: string
  lg_acquired :: "(lock_class \<times> string) list"

definition LockOrderGuard :: lock_guard where
  "LockOrderGuard = \<lparr>lg_lastOrder = -1, lg_lastKey = [], lg_acquired = []\<rparr>"

definition guard_acquire :: "lock_guard \<Rightarrow> lock_class \<times> string \<Rightarrow> lock_guard outcome" where
  "guard_acquire g lock = (case lock of (cls, key) \<Rightarrow>
     let order = LOCK_CLASS_ORDER cls in
     if order < lg_lastOrder g \<or> order = lg_lastOrder g \<and> \<not> code_unit_le (lg_lastKey g) key
     then Inl (Plain_Error (''LOCK_ORDER_VIOLATION:'' @ lock_class_text cls @ '':'' @ key @ '':after:'' @ lg_lastKey g))
     else Inr \<lparr>lg_lastOrder = order, lg_lastKey = key, lg_acquired = lg_acquired g @ [(cls, key)]\<rparr>)"

definition lockAdvisoryOrdered :: "(byte list \<Rightarrow> byte list) \<Rightarrow> lock_guard \<Rightarrow> string \<Rightarrow> string \<Rightarrow> (lock_guard \<times> int \<times> int) outcome" where
  "lockAdvisoryOrdered sha256_bytes g ns identity =
     bindE (advisoryKey sha256_bytes ns identity) (\<lambda>(i, key).
     bindE (guard_acquire g (ADVISORY, int_text i @ '':'' @ int_text key)) (\<lambda>g'. Inr (g', i, key)))"

text \<open>\<^verbatim>\<open>lockRowsOrdered\<close>: the query runs only once the guard has accepted the lock.\<close>

definition lockRowsOrdered :: "(string \<Rightarrow> 'r outcome) \<Rightarrow> lock_guard \<Rightarrow> lock_class \<Rightarrow> string \<Rightarrow> string \<Rightarrow> (lock_guard \<times> 'r outcome) outcome" where
  "lockRowsOrdered run_query g cls key query = bindE (guard_acquire g (cls, key)) (\<lambda>g'. Inr (g', run_query query))"

section \<open>Migrations\<close>

text \<open>\<^verbatim>\<open>/^\d{14}_.+\.sql$/u\<close>\<close>

definition is_migration_name :: "string \<Rightarrow> bool" where
  "is_migration_name name = (20 \<le> length name \<and> list_all is_digit (take 14 name) \<and> name ! 14 = CHR ''_''
     \<and> ends_with ''.sql'' name \<and> list_all (\<lambda>c. c \<noteq> CHR 0x0A \<and> c \<noteq> CHR 0x0D) (drop 15 name))"

definition load_part :: "(string \<Rightarrow> string outcome) \<Rightarrow> string list \<Rightarrow> string \<Rightarrow> string list outcome" where
  "load_part read_file ps name = bindE (read_file name) (\<lambda>sql. Inr (ps @ [''-- SOURCE:'' @ name @ [CHR 0x0A] @ sql]))"

definition loadBaseline :: "(string \<Rightarrow> string outcome) \<Rightarrow> string list \<Rightarrow> string outcome" where
  "loadBaseline read_file directory =
     (let names = js_sort code_unit_le (filter is_migration_name directory) in
      if names = [] then Inl (Plain_Error ''DATABASE_BASELINE_MISSING'')
      else bindE (forE (load_part read_file) [] names) (\<lambda>parts. Inr (join_with [CHR 0x0A, CHR 0x0A] parts @ [CHR 0x0A])))"

record forward_migration =
  fm_version :: string
  fm_filename :: string
  fm_sql :: string
  fm_checksum :: "byte list"
  fm_phasePlan :: "string list"
  fm_transactionMode :: string

definition js_trim :: "string \<Rightarrow> string" where
  "js_trim s = (let sp = (\<lambda>c. c = CHR '' '' \<or> (9 \<le> (of_char c :: nat) \<and> (of_char c :: nat) \<le> 13)) in
     rev (dropWhile sp (rev (dropWhile sp s))))"

text \<open>
  \<^verbatim>\<open>migrationMetadata\<close> from the captures of the two header patterns in the SQL text (None where a
  pattern does not match).
\<close>

definition migrationMetadata :: "string option \<Rightarrow> string option \<Rightarrow> string \<Rightarrow> (string list \<times> string) outcome" where
  "migrationMetadata phaseMatch modeMatch filename = (case (phaseMatch, modeMatch) of
     (Some phases, Some mode) \<Rightarrow>
       let plan = filter (\<lambda>p. p \<noteq> []) (map js_trim (split_on CHR '','' phases)) in
       if plan = [] \<or> (\<exists>p \<in> set plan. p \<notin> set [''EXPAND'', ''MIGRATE'', ''VALIDATE'', ''ACTIVATE'', ''CONTRACT''])
         then Inl (Plain_Error (''MIGRATION_PHASE_PLAN_INVALID:'' @ filename))
       else if ''EXPAND'' \<notin> set plan \<or> ''VALIDATE'' \<notin> set plan \<or> ''ACTIVATE'' \<notin> set plan
         then Inl (Plain_Error (''MIGRATION_PHASE_PLAN_INCOMPLETE:'' @ filename))
       else Inr (plan, mode)
   | _ \<Rightarrow> Inl (Plain_Error (''MIGRATION_METADATA_MISSING:'' @ filename)))"

definition load_migration ::
  "(string \<Rightarrow> string outcome) \<Rightarrow> (string \<Rightarrow> string option \<times> string option) \<Rightarrow> (string \<Rightarrow> byte list)
   \<Rightarrow> forward_migration list \<Rightarrow> string \<Rightarrow> forward_migration list outcome" where
  "load_migration read_file headers sha256_bytes ms filename =
     (let version = take 14 filename in
      if version \<in> set (map fm_version ms) then Inl (Plain_Error (''DUPLICATE_MIGRATION_VERSION:'' @ version))
      else bindE (read_file filename) (\<lambda>sql.
        bindE (migrationMetadata (fst (headers sql)) (snd (headers sql)) filename) (\<lambda>(plan, mode).
        Inr (ms @ [\<lparr>fm_version = version, fm_filename = filename, fm_sql = sql, fm_checksum = sha256_bytes sql,
          fm_phasePlan = plan, fm_transactionMode = mode\<rparr>]))))"

definition loadForwardMigrations ::
  "(string \<Rightarrow> string outcome) \<Rightarrow> (string \<Rightarrow> string option \<times> string option) \<Rightarrow> (string \<Rightarrow> byte list) \<Rightarrow> string list
   \<Rightarrow> forward_migration list outcome" where
  "loadForwardMigrations read_file headers sha256_bytes directory =
     forE (load_migration read_file headers sha256_bytes) [] (js_sort code_unit_le (filter is_migration_name directory))"

section \<open>The schema contract\<close>

text \<open>
  The comparison of the compiled tables with the catalogue. The message of a failed contract is
  followed in the code by the JSON of the checks, which is left out here.
\<close>

record compiled_table =
  ct_tableName :: string
  ct_columns :: "(string \<times> bool) list" \<comment> \<open>name, not null\<close>

type_synonym column_row = "string \<times> string \<times> bool" \<comment> \<open>table, column, nullable\<close>

definition actual_columns :: "column_row list \<Rightarrow> (string \<times> (string \<times> bool) list) list" where
  "actual_columns rows = foldl (\<lambda>m (t, c, n). jm_set t (jm_set c n (case jm_get m t of None \<Rightarrow> [] | Some cs \<Rightarrow> cs)) m) [] rows"

record contract_counts =
  cc_owner :: int
  cc_credential :: int
  cc_incarnation :: int
  cc_deployment :: int
  cc_audit :: int
  cc_extensions :: bool
  cc_constraints :: int
  cc_indexes :: int
  cc_triggers :: int
  cc_routines :: int

definition table_complete :: "(string \<times> (string \<times> bool) list) list \<Rightarrow> compiled_table \<Rightarrow> bool" where
  "table_complete m t = (case jm_get m (ct_tableName t) of None \<Rightarrow> False
     | Some cols \<Rightarrow> list_all (\<lambda>(c, notNull). case jm_get cols c of None \<Rightarrow> False | Some nullable \<Rightarrow> \<not> (notNull \<and> nullable)) (ct_columns t))"

definition verifyDatabaseContract :: "compiled_table list option \<Rightarrow> column_row list \<Rightarrow> contract_counts \<Rightarrow> bool \<Rightarrow> unit outcome" where
  "verifyDatabaseContract compiled rows k fingerprint = (case compiled of
     None \<Rightarrow> Inl (Plain_Error ''DATABASE_COMPILED_SCHEMA_CONTRACT_MISSING'')
   | Some tables \<Rightarrow>
       if tables = [] then Inl (Plain_Error ''DATABASE_COMPILED_SCHEMA_CONTRACT_MISSING'')
       else if \<not> (cc_owner k = 1 \<and> cc_credential k = 1 \<and> cc_incarnation k = 1 \<and> cc_deployment k = 1 \<and> cc_audit k = 1
           \<and> cc_extensions k \<and> list_all (table_complete (actual_columns rows)) tables
           \<and> cc_constraints k > 0 \<and> cc_indexes k > 0 \<and> cc_triggers k > 0 \<and> cc_routines k > 0)
         then Inl (Plain_Error ''Database contract failed'')
       else if \<not> fingerprint then Inl (Plain_Error ''DATABASE_SCHEMA_FINGERPRINT_UNAVAILABLE'')
       else Inr ())"

section \<open>Atomicity\<close>

text \<open>
  What a client of a transaction relies on: a transaction that fails leaves the committed state as
  it was, and one that returns has committed what its body made of that state.
\<close>

locale transactional =
  fixes run :: "('s, 'a) tx_body \<Rightarrow> 's connection_state \<Rightarrow> 's connection_state \<times> 'a outcome"
  assumes aborted: "db_working c = None \<Longrightarrow> run body c = (c', Inl e) \<Longrightarrow> db_committed c' = db_committed c"
    and committed: "db_working c = None \<Longrightarrow> run body c = (c', Inr v)
      \<Longrightarrow> body (db_committed c) = (db_committed c', Inr v) \<and> db_working c' = None"
begin

lemma committed_invariant:
  assumes "db_working c = None" and "run body c = (c', r)" and "I (db_committed c)"
    and "\<And>s s' v. I s \<Longrightarrow> body s = (s', Inr v) \<Longrightarrow> I s'"
  shows "I (db_committed c')"
proof (cases r)
  case (Inl e)
  with aborted assms show ?thesis by metis
next
  case (Inr v)
  with committed [of c body c' v] assms show ?thesis by metis
qed

end

definition quiet :: "string \<Rightarrow> bool" where
  "quiet s = (s \<noteq> ''BEGIN'' \<and> s \<noteq> ''COMMIT'' \<and> s \<noteq> ''ROLLBACK'')"

lemma pg_exec_committed: "stmt \<noteq> ''COMMIT'' \<Longrightarrow> pg_exec fault stmt c = (c', r) \<Longrightarrow> db_committed c' = db_committed c"
  by (auto simp: pg_exec_def Let_def split: option.splits if_splits)

lemma pg_exec_quiet: "quiet stmt \<Longrightarrow> pg_exec fault stmt c = (c', Inr u) \<Longrightarrow> db_working c' = db_working c"
  by (auto simp: pg_exec_def Let_def quiet_def split: option.splits if_splits)

lemma pg_exec_all_committed: "''COMMIT'' \<notin> set ss \<Longrightarrow> pg_exec_all fault ss c = (c', r) \<Longrightarrow> db_committed c' = db_committed c"
proof (induction ss arbitrary: c)
  case (Cons s ss)
  obtain c1 r1 where s: "pg_exec fault s c = (c1, r1)" by (cases "pg_exec fault s c")
  with Cons pg_exec_committed [OF _ s] show ?case by (cases r1) auto
qed simp

lemma pg_exec_all_quiet: "list_all quiet ss \<Longrightarrow> pg_exec_all fault ss c = (c', Inr u) \<Longrightarrow> db_working c' = db_working c"
proof (induction ss arbitrary: c)
  case (Cons s ss)
  obtain c1 r1 where s: "pg_exec fault s c = (c1, r1)" by (cases "pg_exec fault s c")
  with Cons pg_exec_quiet [of s fault c c1] show ?case by (cases r1) auto
qed simp

lemma pg_exec_begin: "pg_exec fault ''BEGIN'' c = (c', Inr u) \<Longrightarrow> db_working c' = Some (db_committed c) \<and> db_committed c' = db_committed c"
  by (auto simp: pg_exec_def Let_def split: option.splits)

lemma pg_exec_commit:
  "pg_exec fault ''COMMIT'' c = (c', r) \<Longrightarrow>
     (r = Inr () \<and> db_committed c' = (case db_working c of Some w \<Rightarrow> w | None \<Rightarrow> db_committed c) \<and> db_working c' = None)
     \<or> ((\<exists>e. r = Inl e) \<and> db_committed c' = db_committed c)"
  by (auto simp: pg_exec_def Let_def split: option.splits)

lemma prologue_state:
  assumes "list_all quiet ss" and "pg_exec_all fault (''BEGIN'' # ss) c = (c1, Inr u)"
  shows "db_working c1 = Some (db_committed c) \<and> db_committed c1 = db_committed c"
proof -
  obtain c0 r0 where b: "pg_exec fault ''BEGIN'' c = (c0, r0)" by (cases "pg_exec fault ''BEGIN'' c")
  with assms(2) have rest: "pg_exec_all fault ss c0 = (c1, Inr u)" "r0 = Inr ()" by (cases r0; auto)+
  have "''COMMIT'' \<notin> set ss" using assms(1) by (auto simp: list_all_iff quiet_def)
  with pg_exec_all_committed [OF _ rest(1)] pg_exec_all_quiet [OF assms(1) rest(1)] pg_exec_begin [of fault c c0 "()"] b rest(2)
  show ?thesis by simp
qed

lemma run_body_committed: "run_body body c = (c', r) \<Longrightarrow> db_committed c' = db_committed c"
  by (auto simp: run_body_def split: option.splits prod.splits)

lemma rollback_committed: "db_committed (fst (pg_exec fault ''ROLLBACK'' c)) = db_committed c"
  by (rule pg_exec_committed [of "''ROLLBACK''" fault c _ "snd (pg_exec fault ''ROLLBACK'' c)"]) simp_all

lemma run_transaction_atomic:
  assumes "list_all quiet ss" and "run_transaction fault (''BEGIN'' # ss) body c = (c', r)"
  shows "(\<exists>e. r = Inl e \<and> db_committed c' = db_committed c)
    \<or> (\<exists>v. r = Inr v \<and> body (db_committed c) = (db_committed c', Inr v) \<and> db_working c' = None)"
proof -
  obtain c1 r1 where p: "pg_exec_all fault (''BEGIN'' # ss) c = (c1, r1)" by (cases "pg_exec_all fault (''BEGIN'' # ss) c")
  have "''COMMIT'' \<notin> set (''BEGIN'' # ss)" using assms(1) by (auto simp: list_all_iff quiet_def)
  then have c1: "db_committed c1 = db_committed c" using p by (rule pg_exec_all_committed)
  show ?thesis
  proof (cases r1)
    case (Inl e)
    with assms(2) p c1 show ?thesis
      by (auto simp: run_transaction_def rollback_committed simp del: pg_exec_all.simps)
  next
    case (Inr u)
    with prologue_state [OF assms(1), of fault c c1 u] p have w1: "db_working c1 = Some (db_committed c)" by simp
    obtain w2 rb where b: "body (db_committed c) = (w2, rb)" by (cases "body (db_committed c)")
    let ?c2 = "c1\<lparr>db_working := Some w2\<rparr>"
    have rb: "run_body body c1 = (?c2, rb)" using w1 b by (simp add: run_body_def)
    obtain c3 r3 where k: "pg_exec fault ''COMMIT'' ?c2 = (c3, r3)" by (cases "pg_exec fault ''COMMIT'' ?c2")
    show ?thesis
      using assms(2) p Inr rb b c1 pg_exec_commit [OF k] k
      by (cases rb; cases r3) (auto simp: run_transaction_def rollback_committed simp del: pg_exec_all.simps)
  qed
qed

lemma profile_prologue: "\<exists>ss. profile_statements p = ''BEGIN'' # ss \<and> list_all quiet ss"
  by (auto simp: profile_statements_def quiet_def)

lemma closure_prologue: "\<exists>ss. closure_statements = ''BEGIN'' # ss \<and> list_all quiet ss"
  by (auto simp: closure_statements_def quiet_def)

interpretation profile_tx: transactional "inTransactionProfile fault pid" for fault pid
proof
  fix c c' :: "'a connection_state" and body :: "('a, 'b) tx_body" and e v
  obtain ss where ss: "profile_statements (TRANSACTION_PROFILES pid) = ''BEGIN'' # ss" "list_all quiet ss" using profile_prologue by blast
  note atomic = run_transaction_atomic [OF ss(2), of fault body c c']
  show "inTransactionProfile fault pid body c = (c', Inl e) \<Longrightarrow> db_committed c' = db_committed c"
    using atomic [of "Inl e"] by (simp add: inTransactionProfile_def ss(1))
  show "inTransactionProfile fault pid body c = (c', Inr v) \<Longrightarrow> body (db_committed c) = (db_committed c', Inr v) \<and> db_working c' = None"
    using atomic [of "Inr v"] by (simp add: inTransactionProfile_def ss(1))
qed

interpretation closure_tx: transactional "inSerializableReadOnlyDeferrable fault" for fault
proof
  fix c c' :: "'a connection_state" and body :: "('a, 'b) tx_body" and e v
  obtain ss where ss: "closure_statements = ''BEGIN'' # ss" "list_all quiet ss" using closure_prologue by blast
  note atomic = run_transaction_atomic [OF ss(2), of fault body c c']
  show "inSerializableReadOnlyDeferrable fault body c = (c', Inl e) \<Longrightarrow> db_committed c' = db_committed c"
    using atomic [of "Inl e"] by (simp add: inSerializableReadOnlyDeferrable_def ss(1))
  show "inSerializableReadOnlyDeferrable fault body c = (c', Inr v) \<Longrightarrow> body (db_committed c) = (db_committed c', Inr v) \<and> db_working c' = None"
    using atomic [of "Inr v"] by (simp add: inSerializableReadOnlyDeferrable_def ss(1))
qed



section \<open>Serializable retries\<close>

fun env_state :: "(nat \<Rightarrow> 's \<Rightarrow> 's) \<Rightarrow> nat \<Rightarrow> nat \<Rightarrow> 's \<Rightarrow> 's" where
  "env_state others from 0 s = s"
| "env_state others from (Suc k) s = env_state others (Suc from) k (others from s)"

lemma serializable_attempt:
  "inTransaction f ''SERIALIZABLE'' body (fresh_connection s) = (c, Inr v) \<Longrightarrow> body s = (db_committed c, Inr v)"
  "inTransaction f ''SERIALIZABLE'' body (fresh_connection s) = (c, Inl e) \<Longrightarrow> db_committed c = s"
proof -
  have f: "db_working (fresh_connection s) = None" "db_committed (fresh_connection s) = s" by (simp_all add: fresh_connection_def)
  show "inTransaction f ''SERIALIZABLE'' body (fresh_connection s) = (c, Inr v) \<Longrightarrow> body s = (db_committed c, Inr v)"
    unfolding inTransaction_def by (drule profile_tx.committed [OF f(1)]) (simp add: f(2))
  show "inTransaction f ''SERIALIZABLE'' body (fresh_connection s) = (c, Inl e) \<Longrightarrow> db_committed c = s"
    unfolding inTransaction_def by (drule profile_tx.aborted [OF f(1)]) (simp add: f(2))
qed

lemma retry_loop_commits_once:
  assumes "retry_loop fault others body m attempt e0 s = (s', r, n)" and "1 \<le> attempt" and "attempt \<le> m"
  shows "attempt \<le> n \<and> n \<le> m \<and>
    (case r of Inl e \<Rightarrow> s' = env_state others attempt (Suc n - attempt) s
     | Inr v \<Rightarrow> body (env_state others attempt (Suc n - attempt) s) = (s', Inr v))"
  using assms
proof (induction "m - attempt" arbitrary: attempt e0 s)
  case 0
  obtain c res where tx: "inTransaction (fault attempt) ''SERIALIZABLE'' body (fresh_connection (others attempt s)) = (c, res)"
    by (cases "inTransaction (fault attempt) ''SERIALIZABLE'' body (fresh_connection (others attempt s))")
  from 0 have "attempt = m" by simp
  with 0 tx show ?case
    by (cases res) (auto simp: retry_loop.simps [of _ _ _ m] dest: serializable_attempt)
next
  case (Suc k)
  obtain c res where tx: "inTransaction (fault attempt) ''SERIALIZABLE'' body (fresh_connection (others attempt s)) = (c, res)"
    by (cases "inTransaction (fault attempt) ''SERIALIZABLE'' body (fresh_connection (others attempt s))")
  show ?case
  proof (cases res)
    case (Inr v)
    with Suc tx show ?thesis
      by (auto simp: retry_loop.simps [of _ _ _ m attempt] dest: serializable_attempt)
  next
    case (Inl e)
    with tx have c: "db_committed c = others attempt s" by (auto dest: serializable_attempt)
    show ?thesis
    proof (cases "retryable e")
      case True
      from Suc.hyps(2) have "attempt < m" by simp
      then have "retry_loop fault others body m (Suc attempt) e (others attempt s) = (s', r, n)"
        using Suc.prems(1) tx Inl True c by (simp add: retry_loop.simps [of _ _ _ m attempt] Let_def)
      from Suc.hyps(1) [OF _ this] Suc.hyps(2) have ih: "Suc attempt \<le> n \<and> n \<le> m \<and>
          (case r of Inl e \<Rightarrow> s' = env_state others (Suc attempt) (Suc n - Suc attempt) (others attempt s)
           | Inr v \<Rightarrow> body (env_state others (Suc attempt) (Suc n - Suc attempt) (others attempt s)) = (s', Inr v))"
        by simp
      moreover from ih have "Suc n - attempt = Suc (Suc n - Suc attempt)" by (simp add: Suc_diff_le)
      ultimately show ?thesis by (simp del: diff_Suc_Suc split: sum.splits)
    next
      case False
      with Suc tx Inl c show ?thesis by (auto simp: retry_loop.simps [of _ _ _ m attempt])
    qed
  qed
qed

text \<open>
  C35. A serializable retry makes at most the allowed number of attempts and commits its body at
  most once: when it fails the database has only seen the other transactions, and when it returns
  the final state is one application of the body to the state the last attempt saw.
\<close>

theorem serializable_retry_commits_once:
  assumes "withSerializableRetry fault others body m s = (s', r, n)" and "1 \<le> m"
  shows "1 \<le> n \<and> n \<le> m \<and> (case r of Inl e \<Rightarrow> s' = env_state others 1 n s
     | Inr v \<Rightarrow> body (env_state others 1 n s) = (s', Inr v))"
  using retry_loop_commits_once [OF assms(1) [unfolded withSerializableRetry_def] order_refl assms(2)] by (simp only: diff_Suc_1)

theorem serializable_retry_commits_once_witness:
  "\<exists>s'. withSerializableRetry (\<lambda>attempt n stmt. if attempt = 1 \<and> stmt = ''COMMIT'' then Some (Pg_Error ''40001'') else None)
     (\<lambda>attempt s. s + 10) (\<lambda>s. (s + 1, Inr s)) 3 (0::int) = (s', Inr 20, 2) \<and> s' = 21"
proof -
  let ?f = "\<lambda>attempt n stmt. if attempt = (1::nat) \<and> stmt = ''COMMIT'' then Some (Pg_Error ''40001'') else None"
  let ?b = "\<lambda>s::int. (s + 1, Inr s :: int outcome)"
  obtain s' r n where run: "withSerializableRetry ?f (\<lambda>attempt s. s + 10) ?b 3 0 = (s', r, n)" by (cases "withSerializableRetry ?f (\<lambda>attempt s. s + 10) ?b 3 0") auto
  then have "r = Inr 20 \<and> n = 2"
    by (auto simp: withSerializableRetry_def retry_loop.simps [of _ _ _ "3"] retryable_def inTransaction_def inTransactionProfile_def
        run_transaction_def profile_statements_def mk_profile_def pg_exec_def run_body_def fresh_connection_def)
  with serializable_retry_commits_once [OF run] run show ?thesis by (simp add: numeral_2_eq_2)
qed

section \<open>Lock order and deadlocks\<close>

definition lock_le :: "lock_class \<times> string \<Rightarrow> lock_class \<times> string \<Rightarrow> bool" where
  "lock_le a b = (LOCK_CLASS_ORDER (fst a) < LOCK_CLASS_ORDER (fst b)
     \<or> LOCK_CLASS_ORDER (fst a) = LOCK_CLASS_ORDER (fst b) \<and> code_unit_le (snd a) (snd b))"

lemma LOCK_CLASS_ORDER_inj: "LOCK_CLASS_ORDER a = LOCK_CLASS_ORDER b \<longleftrightarrow> a = b"
  by (cases a; cases b) simp_all

lemma LOCK_CLASS_ORDER_nonneg: "0 \<le> LOCK_CLASS_ORDER c"
  by (cases c) simp_all

lemma lock_le_trans: "lock_le a b \<Longrightarrow> lock_le b c \<Longrightarrow> lock_le a c"
  by (auto simp: lock_le_def intro: code_unit_le_trans)

lemma lock_le_antisym: "lock_le a b \<Longrightarrow> lock_le b a \<Longrightarrow> a = b"
  by (auto simp: lock_le_def LOCK_CLASS_ORDER_inj prod_eq_iff intro: code_unit_le_antisym)

text \<open>The guard stands at the last lock it accepted.\<close>

fun guard_at :: "lock_guard \<Rightarrow> lock_class \<times> string \<Rightarrow> bool" where
  "guard_at g l = (lg_lastOrder g = LOCK_CLASS_ORDER (fst l) \<and> lg_lastKey g = snd l)"

lemma guard_acquire_at:
  assumes "guard_at g l"
  shows "guard_acquire g l' = Inr g' \<longleftrightarrow> lock_le l l' \<and>
    g' = \<lparr>lg_lastOrder = LOCK_CLASS_ORDER (fst l'), lg_lastKey = snd l', lg_acquired = lg_acquired g @ [l']\<rparr>"
  using assms code_unit_le_total by (cases l'; auto simp: guard_acquire_def lock_le_def Let_def)

lemma guard_run_at:
  "guard_at g l \<Longrightarrow> forE guard_acquire g ls = Inr g' \<Longrightarrow> sorted_wrt lock_le (l # ls) \<and> lg_acquired g' = lg_acquired g @ ls"
proof (induction ls arbitrary: g l)
  case (Cons x xs)
  from Cons.prems obtain g1 where g1: "guard_acquire g x = Inr g1" "forE guard_acquire g1 xs = Inr g'"
    by (auto split: sum.splits)
  with guard_acquire_at [OF Cons.prems(1)] have le: "lock_le l x" and at: "guard_at g1 x" and acq: "lg_acquired g1 = lg_acquired g @ [x]"
    by simp_all
  from Cons.IH [OF at g1(2)] le acq show ?case by (auto intro: lock_le_trans)
qed simp

lemma guard_run_sorted:
  assumes "forE guard_acquire LockOrderGuard ls = Inr g"
  shows "sorted_wrt lock_le ls \<and> lg_acquired g = ls"
proof (cases ls)
  case (Cons x xs)
  with assms obtain g1 where g1: "guard_acquire LockOrderGuard x = Inr g1" "forE guard_acquire g1 xs = Inr g"
    by (auto split: sum.splits)
  then have "guard_at g1 x \<and> lg_acquired g1 = [x]"
    by (auto simp: guard_acquire_def LockOrderGuard_def Let_def split: prod.splits if_splits)
  with guard_run_at [of g1 x xs g] g1(2) Cons show ?thesis by simp
qed (use assms in \<open>auto simp: LockOrderGuard_def\<close>)

lemma strict_cycle:
  assumes "\<And>i. i < n \<Longrightarrow> lock_le (f i) (f (Suc i mod n)) \<and> f i \<noteq> f (Suc i mod n)" and "0 < n"
  shows False
proof -
  have step: "lock_le (f (k mod n)) (f (Suc k mod n)) \<and> f (k mod n) \<noteq> f (Suc k mod n)" for k
    using assms(1) [of "k mod n"] assms(2) by (simp add: mod_Suc_eq)
  have "lock_le (f 0) (f (Suc k mod n)) \<and> f 0 \<noteq> f (Suc k mod n)" for k
  proof (induction k)
    case 0
    then show ?case using step [of 0] by simp
  next
    case (Suc k)
    then show ?case using step [of "Suc k"] lock_le_trans lock_le_antisym by metis
  qed
  from this [of "n - 1"] assms(2) show False by simp
qed

text \<open>
  The lock-order guard excludes deadlock: for transactions whose whole sequences of lock
  requests pass the guard, there is no cycle in which each waits for a lock it does not hold and
  the next one holds.
\<close>

theorem guard_excludes_deadlock:
  assumes "0 < n"
    and "\<And>i. i < n \<Longrightarrow> is_ok (forE guard_acquire LockOrderGuard (held i @ [wanted i]))"
    and "\<And>i. i < n \<Longrightarrow> wanted i \<notin> set (held i)"
  shows "\<not> (\<forall>i < n. wanted i \<in> set (held (Suc i mod n)))"
proof
  assume cycle: "\<forall>i < n. wanted i \<in> set (held (Suc i mod n))"
  have "lock_le (wanted i) (wanted (Suc i mod n)) \<and> wanted i \<noteq> wanted (Suc i mod n)" if "i < n" for i
  proof -
    let ?j = "Suc i mod n"
    have j: "?j < n" using assms(1) by simp
    from assms(2) [OF j] have "sorted_wrt lock_le (held ?j @ [wanted ?j])"
      by (auto simp: is_ok_iff dest!: guard_run_sorted)
    moreover from cycle that have "wanted i \<in> set (held ?j)" by blast
    ultimately show ?thesis using assms(3) [OF j] by (auto simp: sorted_wrt_append)
  qed
  with assms(1) show False by (rule strict_cycle [of n wanted, rotated])
qed

theorem guard_excludes_deadlock_witness:
  "\<not> (\<forall>i < (2::nat). (if i = 0 then (AGGREGATE, ''b'') else (OUTBOX, ''x''))
     \<in> set ((\<lambda>i. if i = 0 then [(IDEMPOTENCY, ''k''), (AGGREGATE, ''a'')] else [(AGGREGATE, ''b'')]) (Suc i mod 2)))"
  by (rule guard_excludes_deadlock)
    (auto simp: guard_acquire_def LockOrderGuard_def less_2_cases_iff Let_def)

section \<open>Sequence allocation\<close>

fun allocate_all :: "(string \<times> string \<times> string) list \<Rightarrow> sequence_table \<Rightarrow> sequence_table \<times> ((string \<times> string \<times> string) \<times> int outcome) list" where
  "allocate_all [] t = (t, [])"
| "allocate_all ((ns, parent, kind) # ks) t = (case allocateContiguousSequence ns parent kind t of (t1, r) \<Rightarrow>
     (case allocate_all ks t1 of (t2, rs) \<Rightarrow> (t2, ((ns, parent, kind), r) # rs)))"

definition last_sequence :: "sequence_table \<Rightarrow> string \<times> string \<times> string \<Rightarrow> int" where
  "last_sequence t k = (case jm_get t k of None \<Rightarrow> 0 | Some n \<Rightarrow> n)"

lemma allocate_step:
  "allocateContiguousSequence ns parent kind t = (t1, r) \<Longrightarrow>
     r = Inr (last_sequence t (ns, parent, kind) + 1)
     \<and> last_sequence t1 = (last_sequence t)((ns, parent, kind) := last_sequence t (ns, parent, kind) + 1)"
  by (auto simp: allocateContiguousSequence_def last_sequence_def jm_get_def map_of_jm_set jm_has_def Let_def fun_eq_iff
      split: option.splits if_splits)

text \<open>
  However the allocations of different sequences interleave, the values one sequence hands out
  are, in order and without gap, the integers after its last one.
\<close>

theorem allocations_contiguous:
  assumes "allocate_all ks t = (t', rs)"
  shows "map snd (filter (\<lambda>r. fst r = k) rs)
    = map (\<lambda>i. Inr (last_sequence t k + 1 + int i)) [0..<length (filter (\<lambda>x. x = k) ks)]"
  using assms
proof (induction ks arbitrary: t rs)
  case (Cons x ks)
  obtain ns parent kind where x: "x = (ns, parent, kind)" by (cases x)
  obtain t1 r where a: "allocateContiguousSequence ns parent kind t = (t1, r)" by fastforce
  obtain rs1 where rs1: "allocate_all ks t1 = (t', rs1)" and rs: "rs = (x, r) # rs1"
    using Cons.prems x a by (auto split: prod.splits)
  show ?case
    using Cons.IH [OF rs1] allocate_step [OF a] x
    by (auto simp: rs map_upt_Suc algebra_simps simp del: upt_Suc)
qed simp

theorem allocations_contiguous_witness:
  "\<exists>t' rs. allocate_all [(''n'', ''p'', ''A''), (''n'', ''p'', ''B''), (''n'', ''p'', ''A'')] [((''n'', ''p'', ''A''), 7)] = (t', rs)
     \<and> map snd (filter (\<lambda>r. fst r = (''n'', ''p'', ''A'')) rs) = [Inr 8, Inr 9]"
proof -
  let ?ks = "[(''n'', ''p'', ''A''), (''n'', ''p'', ''B''), (''n'', ''p'', ''A'')]" and ?t = "[((''n'', ''p'', ''A''), 7)]"
  obtain t' rs where run: "allocate_all ?ks ?t = (t', rs)" by fastforce
  from allocations_contiguous [OF run, of "(''n'', ''p'', ''A'')"] run show ?thesis
    by (auto simp: last_sequence_def jm_get_def upt_rec)
qed

section \<open>Migrations in order\<close>

lemma code_unit_le_take: "code_unit_le s t \<Longrightarrow> code_unit_le (take n s) (take n t)"
  by (induction s t arbitrary: n rule: code_unit_le.induct) (auto simp: take_Cons split: nat.splits)

lemma sorted_wrt_distinct: "sorted_wrt P xs \<Longrightarrow> distinct (map f xs) \<Longrightarrow> sorted_wrt (\<lambda>a b. P a b \<and> f a \<noteq> f b) xs"
  by (induction xs) auto

lemma migrationMetadata_Inr:
  "migrationMetadata p m filename = Inr (plan, mode) \<Longrightarrow> {''EXPAND'', ''VALIDATE'', ''ACTIVATE''} \<subseteq> set plan"
  unfolding migrationMetadata_def Let_def by (cases p; cases m) (auto split: if_splits)

lemma load_migration_Inr:
  "load_migration rd hdr sha ms filename = Inr ms' \<Longrightarrow> \<exists>m. ms' = ms @ [m] \<and> fm_filename m = filename \<and> fm_version m = take 14 filename
     \<and> fm_version m \<notin> set (map fm_version ms) \<and> rd filename = Inr (fm_sql m) \<and> {''EXPAND'', ''VALIDATE'', ''ACTIVATE''} \<subseteq> set (fm_phasePlan m)"
  by (auto simp: load_migration_def Let_def outcome_simps dest: migrationMetadata_Inr split: if_splits)

definition migrations_ok :: "(string \<Rightarrow> string outcome) \<Rightarrow> forward_migration list \<Rightarrow> bool" where
  "migrations_ok rd ms = (distinct (map fm_version ms) \<and> map fm_version ms = map (take 14) (map fm_filename ms)
     \<and> list_all (\<lambda>m. rd (fm_filename m) = Inr (fm_sql m) \<and> {''EXPAND'', ''VALIDATE'', ''ACTIVATE''} \<subseteq> set (fm_phasePlan m)) ms)"

lemma load_all_ok:
  "forE (load_migration rd hdr sha) ms names = Inr ms' \<Longrightarrow> migrations_ok rd ms
     \<Longrightarrow> migrations_ok rd ms' \<and> map fm_filename ms' = map fm_filename ms @ names"
proof (induction names arbitrary: ms)
  case (Cons f fs)
  from Cons.prems(1) obtain ms1 where ms1: "load_migration rd hdr sha ms f = Inr ms1" "forE (load_migration rd hdr sha) ms1 fs = Inr ms'"
    by (auto split: sum.splits)
  from load_migration_Inr [OF ms1(1)] Cons.prems(2) have "migrations_ok rd ms1 \<and> map fm_filename ms1 = map fm_filename ms @ [f]"
    by (auto simp: migrations_ok_def)
  with Cons.IH [OF ms1(2)] show ?case by simp
qed simp

text \<open>
  The forward migrations are exactly the files of the directory whose name is a migration's,
  each with its own SQL and a plan that expands, validates and activates, and their versions are
  strictly increasing.
\<close>

theorem migrations_strictly_ordered:
  assumes "loadForwardMigrations read_file headers sha256_bytes directory = Inr ms"
  shows "set (map fm_filename ms) = {f \<in> set directory. is_migration_name f}
    \<and> sorted_wrt (\<lambda>a b. code_unit_le (fm_version a) (fm_version b) \<and> fm_version a \<noteq> fm_version b) ms
    \<and> (\<forall>m \<in> set ms. read_file (fm_filename m) = Inr (fm_sql m) \<and> {''EXPAND'', ''VALIDATE'', ''ACTIVATE''} \<subseteq> set (fm_phasePlan m))"
proof -
  let ?names = "js_sort code_unit_le (filter is_migration_name directory)"
  from load_all_ok [OF assms [unfolded loadForwardMigrations_def]]
  have ok: "migrations_ok read_file ms" and names: "map fm_filename ms = ?names" by (auto simp: migrations_ok_def [of _ "[]"])
  have "sorted_wrt code_unit_le (map fm_filename ms)" unfolding names by (rule sorted_js_sort [OF code_unit_le_collation(1)])
  then have "sorted_wrt (\<lambda>a b. code_unit_le (fm_version a) (fm_version b)) ms"
    unfolding sorted_wrt_map
    by (rule sorted_wrt_mono_rel [rotated]) (use ok in \<open>auto simp: migrations_ok_def intro: code_unit_le_take\<close>)
  moreover have "set (map fm_filename ms) = {f \<in> set directory. is_migration_name f}" unfolding names by auto
  ultimately show ?thesis using ok by (simp add: migrations_ok_def list_all_iff sorted_wrt_distinct)
qed

theorem migrations_strictly_ordered_witness:
  "\<exists>ms. loadForwardMigrations (\<lambda>f. Inr f) (\<lambda>sql. (Some ''EXPAND, VALIDATE,ACTIVATE'', Some ''TRANSACTIONAL'')) utf8
       [''20260102000000_b.sql'', ''README.md'', ''20260101000000_a.sql''] = Inr ms
     \<and> sorted_wrt (\<lambda>a b. code_unit_le (fm_version a) (fm_version b) \<and> fm_version a \<noteq> fm_version b) ms"
proof -
  let ?load = "loadForwardMigrations (\<lambda>f. Inr f) (\<lambda>sql. (Some ''EXPAND, VALIDATE,ACTIVATE'', Some ''TRANSACTIONAL'')) utf8
       [''20260102000000_b.sql'', ''README.md'', ''20260101000000_a.sql'']"
  have "is_ok ?load" by code_simp
  then obtain ms where "?load = Inr ms" by (auto simp: is_ok_iff)
  with migrations_strictly_ordered [OF this] show ?thesis by simp
qed

section \<open>Advisory keys\<close>

lemma ADVISORY_NAMESPACE_IDS_inj:
  "map_of ADVISORY_NAMESPACE_IDS a = Some i \<Longrightarrow> map_of ADVISORY_NAMESPACE_IDS b = Some i \<Longrightarrow> a = b"
  by (auto simp: ADVISORY_NAMESPACE_IDS_def split: if_splits)

lemma readInt32BE_bounds: "- (2 ^ 31) \<le> readInt32BE bs \<and> readInt32BE bs < 2 ^ 31"
  using sint_range_size [of "word_of_nat (be_value (take 4 bs)) :: 32 word"] by (simp add: readInt32BE_def word_size)

text \<open>
  The two keys of an advisory lock fit PostgreSQL's int4, and locks of different namespaces are
  different whatever the hash.
\<close>

lemma advisoryKey_separates:
  assumes "advisoryKey sha a x = Inr k" and "advisoryKey sha b y = Inr k"
  shows "a = b \<and> snd k \<in> {- (2 ^ 31)..<2 ^ 31} \<and> 1001 \<le> fst k \<and> fst k \<le> 1110"
proof -
  from assms obtain i where "map_of ADVISORY_NAMESPACE_IDS a = Some i" "map_of ADVISORY_NAMESPACE_IDS b = Some i" "fst k = i"
    by (auto simp: advisoryKey_def split: option.splits)
  moreover from this(1) have "1001 \<le> i \<and> i \<le> 1110" by (auto simp: ADVISORY_NAMESPACE_IDS_def split: if_splits)
  moreover from assms(1) have "snd k \<in> {- (2 ^ 31)..<2 ^ 31}"
    using readInt32BE_bounds by (auto simp: advisoryKey_def split: option.splits)
  ultimately show ?thesis using ADVISORY_NAMESPACE_IDS_inj by auto
qed

end
