(* ===== verification/CommandValidation.thy ===== *)
theory CommandValidation
  imports ContractPack
begin

text \<open>
  The checks a command passes before it is admitted
  (\<^verbatim>\<open>packages/domain/src/canonical-operation-handlers.ts\<close>): no override of server-owned authority, no
  host path in browser input, the presence or absence of a target, and the typed arguments of the
  operations that have any. Arguments are JSON; the conversion of a text to a number, date parsing
  and the clock are parameters.
\<close>

section \<open>Operations and argument readers\<close>

record op_contract = operation_contract +
  oc_operationFamily :: string
  oc_sideEffectClass :: string
  oc_aggregateRoot :: string
  oc_concurrencyScope :: string
  oc_operationRevision :: int

type_synonym json_object = "(string \<times> cjson) list"

record js_conversions =
  jc_number_of_text :: "string \<Rightarrow> js_number" \<comment> \<open>\<^verbatim>\<open>Number\<close> of a string\<close>
  jc_date_ms :: "string \<Rightarrow> int option" \<comment> \<open>\<^verbatim>\<open>new Date\<close>, None for an invalid date\<close>
  jc_bigint_of_text :: "string \<Rightarrow> int option" \<comment> \<open>\<^verbatim>\<open>BigInt\<close> of a string, None for a syntax error\<close>

definition to_lower :: "char \<Rightarrow> char" where
  "to_lower c = (if is_upper c then char_of ((of_char c :: nat) + 32) else c)"

definition to_upper :: "char \<Rightarrow> char" where
  "to_upper c = (if in_range CHR ''a'' CHR ''z'' c then char_of ((of_char c :: nat) - 32) else c)"

definition upper_text :: "string \<Rightarrow> string" where
  "upper_text s = map to_upper s"

definition lower_text :: "string \<Rightarrow> string" where
  "lower_text s = map to_lower s"

definition schema_invalid :: js_error where
  "schema_invalid = Domain_Error ''TOOL_ARGUMENT_SCHEMA_INVALID''"

definition requireTarget :: "string option \<Rightarrow> string outcome" where
  "requireTarget targetId = (case targetId of None \<Rightarrow> Inl schema_invalid | Some t \<Rightarrow> if t = [] then Inl schema_invalid else Inr t)"

definition requireString :: "json_object \<Rightarrow> string \<Rightarrow> string outcome" where
  "requireString args key = (case map_of args key of
     Some (CStr s) \<Rightarrow> if s = [] then Inl schema_invalid else Inr s | _ \<Rightarrow> Inl schema_invalid)"

text \<open>\<^verbatim>\<open>/^[0-9a-f]{8}-[0-9a-f]{4}-[1-8][0-9a-f]{3}-[89ab][0-9a-f]{3}-[0-9a-f]{12}$/iu\<close>\<close>

definition is_uuid_text :: "string \<Rightarrow> bool" where
  "is_uuid_text s = (case split_on CHR ''-'' (lower_text s) of
     [a, b, c, d, e] \<Rightarrow> map length [a, b, c, d, e] = [8, 4, 4, 4, 12] \<and> list_all (list_all is_hex_lower) [a, b, c, d, e]
       \<and> in_range CHR ''1'' CHR ''8'' (hd c) \<and> hd d \<in> set ''89ab''
   | _ \<Rightarrow> False)"

definition requireUuid :: "json_object \<Rightarrow> string \<Rightarrow> string outcome" where
  "requireUuid args key = bindE (requireString args key) (\<lambda>v. if is_uuid_text v then Inr v else Inl schema_invalid)"

definition requireDigest :: "json_object \<Rightarrow> string \<Rightarrow> string outcome" where
  "requireDigest args key = bindE (requireString args key) (\<lambda>v.
     if is_digest (lower_text v) then Inr (drop 7 v) else Inl schema_invalid)"

text \<open>\<^verbatim>\<open>String(value)\<close>\<close>

fun js_string :: "cjson \<Rightarrow> string" where
  "js_string (CStr s) = s"
| "js_string (CNum n) = number_text n"
| "js_string (CBool b) = (if b then ''true'' else ''false'')"
| "js_string CNull = ''null''"
| "js_string (CArr vs) = join_with '','' (map (\<lambda>v. if v = CNull then [] else js_string v) vs)"
| "js_string (CObj es) = ''[object Object]''"

definition requireNonNegativeInteger :: "json_object \<Rightarrow> string \<Rightarrow> int option \<Rightarrow> int outcome" where
  "requireNonNegativeInteger args key fallback = (case map_of args key of
     None \<Rightarrow> (case fallback of None \<Rightarrow> Inl schema_invalid | Some n \<Rightarrow> if n < 0 then Inl schema_invalid else Inr n)
   | Some v \<Rightarrow> if v = CNull \<or> js_string v = [] \<or> \<not> list_all is_digit (js_string v) then Inl schema_invalid
       else Inr (int (text_value (js_string v))))"

definition safe_name :: "string \<Rightarrow> bool" where
  "safe_name v = (length v \<le> 255 \<and> v \<noteq> ''.'' \<and> v \<noteq> ''..'' \<and> CHR ''/'' \<notin> set v \<and> CHR 0x5C \<notin> set v
     \<and> list_all (\<lambda>c. 32 \<le> (of_char c :: nat) \<and> (of_char c :: nat) \<noteq> 127) v)"

definition requireSafeName :: "json_object \<Rightarrow> string \<Rightarrow> string \<Rightarrow> string outcome" where
  "requireSafeName args key fallback =
     bindE (if map_of args key = None then Inr fallback else requireString args key) (\<lambda>v.
       if safe_name v then Inr v else Inl (Domain_Error ''BROWSER_ARTIFACT_INVALID''))"

definition requireIsoDeadline :: "js_conversions \<Rightarrow> int \<Rightarrow> json_object \<Rightarrow> string \<Rightarrow> int \<Rightarrow> int outcome" where
  "requireIsoDeadline jc now args key fallbackSeconds =
     bindE (if map_of args key = None then Inr (Some (now + fallbackSeconds * 1000))
            else bindE (requireString args key) (\<lambda>v. Inr (jc_date_ms jc v))) (\<lambda>d.
       case d of None \<Rightarrow> Inl (Domain_Error ''BROWSER_ACTIONABILITY_FAILED'')
       | Some ms \<Rightarrow> if ms \<le> now then Inl (Domain_Error ''BROWSER_ACTIONABILITY_FAILED'') else Inr ms)"

text \<open>\<^verbatim>\<open>/^(?:artifact|upload|download):[a-f0-9-]{36}$/iu\<close>\<close>

definition is_artifact_handle :: "string \<Rightarrow> bool" where
  "is_artifact_handle s = (let t = lower_text s in
     \<exists>p \<in> set [''artifact:'', ''upload:'', ''download:'']. starts_with p t \<and> length t = length p + 36
       \<and> list_all (\<lambda>c. is_hex_lower c \<or> c = CHR ''-'') (drop (length p) t))"

definition requireOpaqueArtifactHandle :: "cjson \<Rightarrow> string outcome" where
  "requireOpaqueArtifactHandle v = (case v of
     CStr s \<Rightarrow> if is_artifact_handle s then Inr s else Inl (Domain_Error ''BROWSER_ARTIFACT_INVALID'')
   | _ \<Rightarrow> Inl (Domain_Error ''BROWSER_ARTIFACT_INVALID''))"

text \<open>\<^verbatim>\<open>Number(value) < 1\<close> and \<^verbatim>\<open>Number(value) > 900\<close>; a comparison with NaN is false.\<close>

definition js_to_number :: "js_conversions \<Rightarrow> cjson \<Rightarrow> js_number" where
  "js_to_number jc v = (case v of CNum n \<Rightarrow> n | CBool b \<Rightarrow> JInt (if b then 1 else 0) | CNull \<Rightarrow> JInt 0
     | _ \<Rightarrow> jc_number_of_text jc (js_string v))"

fun number_below_1 :: "js_number \<Rightarrow> bool" where
  "number_below_1 JNaN = False"
| "number_below_1 (JInf negative) = negative"
| "number_below_1 JNegZero = True"
| "number_below_1 (JInt i) = (i < 1)"
| "number_below_1 (JDec s) = (starts_with ''-'' s \<or> includes_str ''e-'' s \<or> takeWhile is_digit s = ''0'')"

fun number_above_900 :: "js_number \<Rightarrow> bool" where
  "number_above_900 JNaN = False"
| "number_above_900 (JInf negative) = (\<not> negative)"
| "number_above_900 JNegZero = False"
| "number_above_900 (JInt i) = (900 < i)"
| "number_above_900 (JDec s) = (\<not> starts_with ''-'' s \<and> \<not> includes_str ''e-'' s
     \<and> (includes_str ''e+'' s \<or> 900 \<le> text_value (takeWhile is_digit s)))"

section \<open>Authority and paths\<close>

definition authority_fields :: "string list" where
  "authority_fields = [''actorId'', ''callerFingerprint'', ''correlationId'', ''logicalOperationId'', ''platformIncarnationId'',
     ''applicationDeploymentEpoch'', ''recoveryEpoch'', ''concurrencyClaim'', ''bindingId'', ''bindingDigest'']"

definition assertNoAuthorityOverride :: "json_object \<Rightarrow> unit outcome" where
  "assertNoAuthorityOverride args =
     (if filter (\<lambda>k. k \<in> fst ` set args) authority_fields \<noteq> [] then Inl (Domain_Error ''AGENTIC_ARGUMENT_ORIGIN_INVALID'') else Inr ())"

definition is_path_key :: "string \<Rightarrow> bool" where
  "is_path_key k = (lower_text k \<in> set [''path'', ''filepath'', ''hostpath'', ''temppath'', ''destinationpath'', ''downloadpath'', ''uploadpath''])"

function (sequential) rejectArbitraryBrowserPath :: "cjson \<Rightarrow> unit outcome" where
  "rejectArbitraryBrowserPath (CArr vs) = forE (\<lambda>_ v. rejectArbitraryBrowserPath v) () vs"
| "rejectArbitraryBrowserPath (CObj es) = forE (\<lambda>_ e. if is_path_key (fst e) then Inl (Domain_Error ''BROWSER_ACTIONABILITY_FAILED'')
     else rejectArbitraryBrowserPath (snd e)) () es"
| "rejectArbitraryBrowserPath v = Inr ()"
  by pat_completeness auto
termination
proof (relation "measure size", goal_cases)
  case (2 vs uu v)
  then show ?case by (auto simp: less_Suc_eq_le intro: size_list_estimation')
next
  case (3 es uu e)
  with size_entry_less [of "fst e" "snd e" es] show ?case by simp
qed simp


section \<open>The validation of a command\<close>

definition creates_aggregate :: "string list" where
  "creates_aggregate = [''component.register'', ''generation.job.create'', ''browser.session.create'', ''browser.action.start'',
     ''browser.runtimeBuild.register'', ''browser.upload.create'', ''browser.download.started'', ''browser.artifact.created'',
     ''browser.challenge.required'', ''agent.run.start'', ''chat.conversation.create'', ''mcp.stateHandle.create'',
     ''mcp.task.create'', ''provenance.content.register'', ''provenance.segment.compile'', ''provenance.valueDerivation.create'',
     ''selfTest.run.start'']"

definition check_target :: "string \<Rightarrow> string option \<Rightarrow> unit outcome" where
  "check_target name targetId =
     (if name \<in> set creates_aggregate then (if targetId \<noteq> None then Inl schema_invalid else Inr ())
      else if name = ''component.revision.publish'' then bindE (requireTarget targetId) (\<lambda>_. Inr ())
      else if name = ''monitor.alert.open'' then (if targetId \<noteq> None then Inl schema_invalid else Inr ())
      else bindE (requireTarget targetId) (\<lambda>_. Inr ()))"

text \<open>The checks run in order; the first that fails decides.\<close>

definition checked :: "'a outcome \<Rightarrow> unit outcome" where
  "checked m = bindE m (\<lambda>_. Inr ())"

definition all_checks :: "unit outcome list \<Rightarrow> unit outcome" where
  "all_checks cs = forE (\<lambda>_ c. c) () cs"

definition guarded :: "bool \<Rightarrow> unit outcome list \<Rightarrow> unit outcome" where
  "guarded b cs = (if b then all_checks cs else Inr ())"

definition failing :: "bool \<Rightarrow> string \<Rightarrow> unit outcome" where
  "failing b code = (if b then Inl (Domain_Error code) else Inr ())"

definition given :: "json_object \<Rightarrow> string \<Rightarrow> bool" where
  "given args key = (map_of args key \<noteq> None)"

definition check_general_arguments :: "string \<Rightarrow> json_object \<Rightarrow> unit outcome list" where
  "check_general_arguments name args =
    [guarded (name = ''runtime.invoke'') [checked (requireString args ''capabilityAlias'')],
     guarded (name = ''mcp.tools.call'') [checked (requireString args ''toolName'')],
     guarded (name = ''agent.run.start'')
       [checked (requireUuid args ''agentDefinitionId''), checked (requireUuid args ''agentRevisionId''), checked (requireString args ''clientRunId'')],
     guarded (name = ''mcp.stateHandle.create'')
       [checked (requireUuid args ''ownerComponentId''), checked (requireUuid args ''ownerRevisionId''), checked (requireString args ''ownerToolKey''),
        checked (requireString args ''publicOpaqueId''), checked (requireString args ''stateNamespace''),
        checked (requireString args ''stateReference''), checked (requireDigest args ''contractDigest''), checked (requireDigest args ''lookupDigest'')],
     guarded (name = ''mcp.task.create'')
       [all_checks (map (\<lambda>k. checked (requireUuid args k)) [''serverComponentId'', ''serverRevisionId'', ''originalCallRunId'']),
        all_checks (map (\<lambda>k. checked (requireString args k)) [''toolKey'', ''publicTaskId'']),
        checked (requireDigest args ''lookupDigest''), checked (requireDigest args ''originalRequestDigest'')],
     guarded (name = ''chat.conversation.create'') [checked (requireString args ''title''), checked (requireString args ''selectedModel'')]]"

definition browserDispatchPhases :: "string list" where
  "browserDispatchPhases = [''COMMAND_ACCEPTED'', ''TARGET_RESOLVED'', ''ACTIONABILITY_PASSED'', ''INPUT_SEQUENCE_STARTED'',
     ''MUTATION_TRIGGER_POSSIBLY_ISSUED'', ''NAVIGATION_OR_REQUEST_OBSERVED'', ''METHOD_RETURNED'', ''POST_OBSERVATION_CAPTURED'']"

definition browserChallengeTypes :: "string list" where
  "browserChallengeTypes = [''CAPTCHA'', ''OTP'', ''PUSH'', ''WEBAUTHN_ASSERTION'', ''WEBAUTHN_REGISTRATION'', ''PASSKEY'', ''CLIENT_CERTIFICATE'']"

definition is_object :: "cjson option \<Rightarrow> bool" where
  "is_object v = (case v of Some (CObj _) \<Rightarrow> True | Some (CArr _) \<Rightarrow> True | _ \<Rightarrow> False)"

definition check_transfer_arguments :: "string option \<Rightarrow> string \<Rightarrow> json_object \<Rightarrow> unit outcome list" where
  "check_transfer_arguments targetId name args =
    [guarded (name = ''browser.action.start'')
       [checked (requireUuid args ''sessionId''), checked (requireString args ''action''),
        guarded (given args ''targetReferenceId'' \<and> map_of args ''targetReferenceId'' \<noteq> Some CNull) [checked (requireUuid args ''targetReferenceId'')]],
     guarded (name = ''browser.upload.create'')
       [checked (requireUuid args ''sessionId''), checked (requireUuid args ''artifactId''),
        guarded (given args ''contentDigest'') [checked (requireDigest args ''contentDigest'')],
        guarded (given args ''sizeBytes'') [checked (requireNonNegativeInteger args ''sizeBytes'' None)]],
     guarded (name = ''browser.download.started'')
       [checked (requireUuid args ''sessionId''),
        guarded (targetId = None) [checked (requireUuid args ''downloadId'')],
        guarded (given args ''downloadId'') [checked (requireUuid args ''downloadId'')],
        (case map_of args ''tempHandle'' of None \<Rightarrow> Inr () | Some v \<Rightarrow> checked (requireOpaqueArtifactHandle v))],
     guarded (name = ''browser.download.persist'')
       [checked (requireUuid args ''artifactId''), checked (requireDigest args ''contentDigest''), checked (requireNonNegativeInteger args ''sizeBytes'' None)],
     guarded (name = ''browser.artifact.created'')
       [checked (requireUuid args ''sessionId''), guarded (given args ''artifactId'') [checked (requireUuid args ''artifactId'')],
        checked (requireDigest args ''artifactDigest''), checked (requireNonNegativeInteger args ''sizeBytes'' None),
        checked (requireSafeName args ''safeName'' ''artifact.bin''),
        bindE (requireString args ''storageReference'') (\<lambda>r. failing (\<not> (starts_with ''artifact:'' (lower_text r)
          \<and> is_digest (drop 9 (lower_text r)))) ''BROWSER_ARTIFACT_INVALID'')]]"

definition check_control_arguments :: "js_conversions \<Rightarrow> int \<Rightarrow> string \<Rightarrow> json_object \<Rightarrow> unit outcome list" where
  "check_control_arguments jc now name args =
    [guarded (name = ''browser.challenge.required'')
       [checked (requireUuid args ''sessionId''),
        bindE (requireString args ''challengeType'') (\<lambda>t. failing (t \<notin> set browserChallengeTypes) ''BROWSER_ACTIONABILITY_FAILED''),
        checked (requireDigest args ''pendingActionDigest''), checked (requireNonNegativeInteger args ''controlEpoch'' None),
        checked (requireIsoDeadline jc now args ''deadlineAt'' 300), checked (requireIsoDeadline jc now args ''expiresAt'' 300),
        checked (requireString args ''safePrompt'')],
     guarded (name = ''browser.challenge.resolve'')
       [guarded (given args ''responseDigest'') [checked (requireDigest args ''responseDigest'')],
        guarded (given args ''controlEpoch'') [checked (requireNonNegativeInteger args ''controlEpoch'' None)],
        guarded (given args ''ownerResponseId'') [checked (requireUuid args ''ownerResponseId'')],
        guarded (given args ''bridgeResponseId'') [checked (requireUuid args ''bridgeResponseId'')]],
     guarded (name = ''browser.control.transfer'')
       [bindE (requireString args ''holder'') (\<lambda>h. failing (h \<notin> set [''AI'', ''OWNER'', ''AUTOMATION'']) ''BROWSER_CONTROL_HELD''),
        checked (requireNonNegativeInteger args ''expectedControlEpoch'' None),
        (case map_of args ''ttlSeconds'' of None \<Rightarrow> Inr ()
         | Some v \<Rightarrow> failing (number_below_1 (js_to_number jc v) \<or> number_above_900 (js_to_number jc v)) ''BROWSER_CONTROL_HELD'')],
     guarded (name = ''browser.action.dispatchPhase'')
       [failing (case map_of args ''phase'' of Some (CStr p) \<Rightarrow> p \<notin> set browserDispatchPhases | _ \<Rightarrow> True) ''BROWSER_ACTIONABILITY_FAILED'',
        failing (\<not> is_object (map_of args ''evidence'')) ''BROWSER_CHALLENGE_REQUIRED''],
     guarded (name = ''browser.action.resolveOutcome'')
       [failing ((case map_of args ''outcome'' of None \<Rightarrow> ''undefined'' | Some v \<Rightarrow> js_string v)
          \<notin> set [''CONFIRMED_APPLIED'', ''CONFIRMED_NOT_APPLIED'', ''UNKNOWN'']) ''BROWSER_RECONCILIATION_REQUIRED''],
     guarded (name \<in> set [''browser.action.reconcile'', ''browser.action.resolveOutcome''])
       [failing (\<not> is_object (map_of args ''readBack'')) ''BROWSER_RECONCILIATION_REQUIRED'']]"

definition check_content_arguments :: "string \<Rightarrow> json_object \<Rightarrow> unit outcome list" where
  "check_content_arguments name args =
    [guarded (name \<in> set [''agent.message.append'', ''generation.message.append'', ''chat.message.append'']) [checked (requireString args ''content'')],
     guarded (name = ''provenance.content.register'')
       [all_checks (map (\<lambda>k. checked (requireString args k))
          [''sourceKind'', ''contentRole'', ''instructionAuthority'', ''extractionMethod'', ''normalizationMethod'']),
        checked (requireDigest args ''rawDigest''), checked (requireDigest args ''contentDigest'')],
     guarded (name = ''selfTest.registeredElement.run'') [checked (requireString args ''evidenceKind'')]]"

definition validateCanonicalOperationCommand ::
  "js_conversions \<Rightarrow> int \<Rightarrow> 'm op_contract_scheme \<Rightarrow> string option \<Rightarrow> json_object \<Rightarrow> unit outcome" where
  "validateCanonicalOperationCommand jc now operation targetId args =
     (let name = oc_operationName operation in
      bindE (assertNoAuthorityOverride args) (\<lambda>_.
      bindE (guarded (oc_operationFamily operation = ''BROWSER'') [rejectArbitraryBrowserPath (CObj args)]) (\<lambda>_.
      if oc_sideEffectClass operation = ''READ_ONLY'' \<or> oc_exposureClass operation = ''OWNER_QUERY'' then Inr ()
      else bindE (check_target name targetId) (\<lambda>_.
        all_checks (check_general_arguments name args @ check_transfer_arguments targetId name args
          @ check_control_arguments jc now name args @ check_content_arguments name args)))))"

section \<open>Properties\<close>

text \<open>The keys of the objects inside a value, at any depth.\<close>

function (sequential) nested_keys :: "cjson \<Rightarrow> string set" where
  "nested_keys (CArr vs) = (\<Union>v \<in> set vs. nested_keys v)"
| "nested_keys (CObj es) = fst ` set es \<union> (\<Union>e \<in> set es. nested_keys (snd e))"
| "nested_keys v = {}"
  by pat_completeness auto
termination
proof (relation "measure size", goal_cases)
  case (2 vs v)
  then show ?case by (auto simp: less_Suc_eq_le intro: size_list_estimation')
next
  case (3 es e)
  with size_entry_less [of "fst e" "snd e" es] show ?case by simp
qed simp

lemma all_checks_Inr: "all_checks cs = Inr () \<longleftrightarrow> (\<forall>c \<in> set cs. c = Inr ())"
  by (induction cs) (auto simp: all_checks_def split: sum.splits)

lemma guarded_Inr: "guarded b cs = Inr () \<longleftrightarrow> (b \<longrightarrow> (\<forall>c \<in> set cs. c = Inr ()))"
  by (simp add: guarded_def all_checks_Inr)

lemma checked_Inr: "checked m = Inr () \<longleftrightarrow> is_ok m"
  by (auto simp: checked_def bindE_def is_ok_def split: sum.splits)

lemma failing_Inr: "failing b code = Inr () \<longleftrightarrow> \<not> b"
  by (simp add: failing_def)

lemmas check_simps = all_checks_Inr guarded_Inr checked_Inr failing_Inr bindE_Inr_iff

lemma no_browser_path: "rejectArbitraryBrowserPath v = Inr () \<longleftrightarrow> (\<forall>k \<in> nested_keys v. \<not> is_path_key k)"
proof (induction v rule: rejectArbitraryBrowserPath.induct)
  case (1 vs)
  have "rejectArbitraryBrowserPath (CArr vs) = Inr () \<longleftrightarrow> (\<forall>v \<in> set vs. rejectArbitraryBrowserPath v = Inr ())"
    by (simp, induction vs) (auto split: sum.splits)
  with 1 show ?case by auto
next
  case (2 es)
  let ?f = "\<lambda>e. if is_path_key (fst e) then Inl (Domain_Error ''BROWSER_ACTIONABILITY_FAILED'') else rejectArbitraryBrowserPath (snd e)"
  have "forE (\<lambda>_. ?f) () es = Inr () \<longleftrightarrow> (\<forall>e \<in> set es. ?f e = Inr ())"
    by (induction es) (auto split: sum.splits)
  with 2 show ?case by (auto split: if_splits)
qed auto

text \<open>
  A command that passes validation cannot carry server-owned authority: none of the reserved
  fields is an argument. A browser command names no host path at any depth of its arguments. And a
  mutating command has a target exactly when its operation does not create a new aggregate.
\<close>

theorem validated_command_confined:
  assumes "validateCanonicalOperationCommand jc now operation targetId args = Inr ()"
  shows "set authority_fields \<inter> fst ` set args = {}
    \<and> (oc_operationFamily operation = ''BROWSER'' \<longrightarrow> (\<forall>k \<in> nested_keys (CObj args). \<not> is_path_key k))
    \<and> (oc_sideEffectClass operation \<noteq> ''READ_ONLY'' \<and> oc_exposureClass operation \<noteq> ''OWNER_QUERY'' \<longrightarrow>
        (targetId = None \<longleftrightarrow> oc_operationName operation \<in> set (''monitor.alert.open'' # creates_aggregate)) \<and> targetId \<noteq> Some [])"
proof -
  from assms have over: "assertNoAuthorityOverride args = Inr ()"
    and path: "guarded (oc_operationFamily operation = ''BROWSER'') [rejectArbitraryBrowserPath (CObj args)] = Inr ()"
    and target: "oc_sideEffectClass operation \<noteq> ''READ_ONLY'' \<Longrightarrow> oc_exposureClass operation \<noteq> ''OWNER_QUERY''
      \<Longrightarrow> check_target (oc_operationName operation) targetId = Inr ()"
    by (auto simp: validateCanonicalOperationCommand_def Let_def bindE_Inr_iff)
  from over have "set authority_fields \<inter> fst ` set args = {}"
    by (auto simp: assertNoAuthorityOverride_def filter_empty_conv split: if_splits)
  moreover from path have "oc_operationFamily operation = ''BROWSER'' \<Longrightarrow> \<forall>k \<in> nested_keys (CObj args). \<not> is_path_key k"
    by (simp add: guarded_Inr no_browser_path del: rejectArbitraryBrowserPath.simps nested_keys.simps)
  moreover have "(targetId = None \<longleftrightarrow> oc_operationName operation \<in> set (''monitor.alert.open'' # creates_aggregate)) \<and> targetId \<noteq> Some []"
    if "check_target (oc_operationName operation) targetId = Inr ()"
  proof -
    have "''component.revision.publish'' \<notin> set creates_aggregate" by (simp add: creates_aggregate_def)
    with that show ?thesis by (auto simp: check_target_def requireTarget_def split: if_splits option.splits)
  qed
  ultimately show ?thesis using target by blast
qed

definition sample_conversions :: js_conversions where
  "sample_conversions = \<lparr>jc_number_of_text = (\<lambda>_. JNaN), jc_date_ms = (\<lambda>_. None), jc_bigint_of_text = (\<lambda>_. None)\<rparr>"

definition sample_operation :: "string \<Rightarrow> string \<Rightarrow> op_contract" where
  "sample_operation name family = \<lparr>oc_operationId = ''op'', oc_operationName = name, oc_exposureClass = ''OWNER_COMMAND'',
     oc_canonicalWriterId = ''w'', oc_stateMachineId = ''sm'', oc_operationFamily = family, oc_sideEffectClass = ''DATABASE'',
     oc_aggregateRoot = ''BrowserSession'', oc_concurrencyScope = ''AGGREGATE'', oc_operationRevision = 1\<rparr>"

definition transfer_arguments :: "cjson \<Rightarrow> json_object" where
  "transfer_arguments ttl = [(''holder'', CStr ''AI''), (''expectedControlEpoch'', CNum (JInt 4)), (''ttlSeconds'', ttl)]"

lemma transfer_accepted:
  "validateCanonicalOperationCommand sample_conversions 0 (sample_operation ''browser.control.transfer'' ''BROWSER'')
     (Some ''s'') (transfer_arguments (CNum (JInt 60))) = Inr ()"
  by code_simp

theorem validated_command_confined_witness:
  "set authority_fields \<inter> fst ` set (transfer_arguments (CNum (JInt 60))) = {}
    \<and> {k \<in> nested_keys (CObj (transfer_arguments (CNum (JInt 60)))). is_path_key k} = {}"
  using validated_command_confined [OF transfer_accepted] by (simp add: sample_operation_def) blast

text \<open>
  The bounds of a control lease do not reject a text that is not a number: both comparisons with
  NaN are false.
\<close>

lemma lease_seconds_not_a_number:
  "validateCanonicalOperationCommand sample_conversions 0 (sample_operation ''browser.control.transfer'' ''BROWSER'')
     (Some ''s'') (transfer_arguments (CStr ''soon'')) = Inr ()"
  by code_simp

end
