(* ===== verification/CommandStore.thy ===== *)
theory CommandStore
  imports RetryPlanner Database CommandValidation
begin

text \<open>
  The persistent state of the command pipeline: the rows of the PostgreSQL tables that
  \<^verbatim>\<open>packages/domain/src/operations.ts\<close> reads and writes, with the columns the code uses, the recovery
  authority (\<^verbatim>\<open>recovery-authority.ts\<close>), the handler catalogue (\<^verbatim>\<open>operation-handler-catalog.ts\<close>) and
  the operation catalogue service. A table is the list of its rows; \<^verbatim>\<open>rows[0]\<close> of a SELECT is the
  first row that satisfies the condition, an UPDATE rewrites every row that does. Identifiers are
  supplied by the caller, by purpose. The aggregates of the business tables are a parameter type.
  Timestamps that no code reads, the digests the database recomputes and the counters
  \<^verbatim>\<open>state_version\<close> of rows never compared are left out.
\<close>

section \<open>Statements\<close>

definition sql_first :: "('r \<Rightarrow> bool) \<Rightarrow> 'r list \<Rightarrow> 'r option" where
  "sql_first P rows = find P rows"

definition sql_update :: "('r \<Rightarrow> bool) \<Rightarrow> ('r \<Rightarrow> 'r) \<Rightarrow> 'r list \<Rightarrow> 'r list" where
  "sql_update P f rows = map (\<lambda>r. if P r then f r else r) rows"

definition sql_count :: "('r \<Rightarrow> bool) \<Rightarrow> 'r list \<Rightarrow> nat" where
  "sql_count P rows = length (filter P rows)"

section \<open>Recovery authority\<close>

record lineage =
  ln_incarnation :: string
  ln_deployment :: int
  ln_recovery :: int

record recovery_row =
  rr_database_start_identity :: "byte list"
  rr_lineage :: lineage
  rr_fencing_token :: int
  rr_state :: string
  rr_current_incarnation :: string
  rr_current_epoch :: int
  rr_current_database_identity :: "byte list"

record authority_head =
  ah_lineage :: lineage \<comment> \<open>incarnation, deployment head's current epoch, recovery epoch\<close>
  ah_fencing_token :: int

definition lockAndVerifyPlatformRecovery :: "recovery_row option \<Rightarrow> authority_head outcome" where
  "lockAndVerifyPlatformRecovery r = (case r of
     None \<Rightarrow> Inl (Domain_Error ''PLATFORM_RECOVERY_IN_PROGRESS'')
   | Some row \<Rightarrow>
       let identityCurrent = (rr_database_start_identity row = rr_current_database_identity row);
           lineageCurrent = (ln_incarnation (rr_lineage row) = rr_current_incarnation row \<and> ln_deployment (rr_lineage row) = rr_current_epoch row) in
       if rr_state row \<noteq> ''READY'' \<or> \<not> identityCurrent \<or> \<not> lineageCurrent then Inl (Domain_Error ''PLATFORM_RECOVERY_IN_PROGRESS'')
       else Inr \<lparr>ah_lineage = \<lparr>ln_incarnation = ln_incarnation (rr_lineage row), ln_deployment = rr_current_epoch row,
           ln_recovery = ln_recovery (rr_lineage row)\<rparr>, ah_fencing_token = rr_fencing_token row\<rparr>)"

section \<open>Commands and results\<close>

record operation_command =
  oc_operation :: string
  oc_targetId :: "string option"
  oc_arguments :: json_object
  oc_expectedStateVersion :: "int option"
  oc_expectedActivationEpoch :: "int option"
  oc_deadlineAt :: "string option"

definition opt_text :: "string option \<Rightarrow> cjson" where
  "opt_text x = (case x of None \<Rightarrow> CNull | Some s \<Rightarrow> CStr s)"

text \<open>The command as canonical JSON, its big integers as text.\<close>

definition safe_command :: "operation_command \<Rightarrow> cjson" where
  "safe_command c = CObj [(''operation'', CStr (oc_operation c)), (''targetId'', opt_text (oc_targetId c)),
     (''arguments'', CObj (oc_arguments c)),
     (''expectedStateVersion'', opt_text (map_option int_text (oc_expectedStateVersion c))),
     (''expectedActivationEpoch'', opt_text (map_option int_text (oc_expectedActivationEpoch c))),
     (''deadlineAt'', opt_text (oc_deadlineAt c))]"

record operation_result =
  or_status :: string
  or_correlationId :: string
  or_logicalOperationId :: string
  or_commandId :: string
  or_stateVersion :: int
  or_eventSequence :: int
  or_activationEpoch :: int
  or_resultDigest :: string
  or_idempotencyReplay :: bool
  or_serverTime :: int
  or_result :: cjson
  or_error :: "canonical_failure option"

section \<open>Tables\<close>

record idempotency_row =
  ir_scope_digest :: string
  ir_key_digest :: string
  ir_request_digest :: string
  ir_logical_operation_id :: string
  ir_command_id :: string
  ir_lifecycle :: string
  ir_response_status :: "int option"
  ir_response_body :: "operation_result option"

record claim_row =
  cl_id :: string
  cl_scope_kind :: string
  cl_scope_key :: string
  cl_scope_key_digest :: string
  cl_logical_operation_id :: string
  cl_owner_instance_id :: string
  cl_fencing_token :: int
  cl_expires_at :: int
  cl_released :: bool
  cl_lineage :: lineage

record domain_head_row =
  dh_id :: string
  dh_domain_key :: string
  dh_current_activation_epoch :: int
  dh_barrier_state :: string
  dh_pending :: int

record command_row =
  cm_id :: string
  cm_logical_operation_id :: string
  cm_operation_name :: string
  cm_operation_revision :: int
  cm_target_id :: "string option"
  cm_caller_fingerprint :: string
  cm_request :: operation_command
  cm_request_digest :: string
  cm_status :: string
  cm_correlation_id :: string
  cm_causation_id :: "string option"
  cm_activation_epoch :: int
  cm_lineage :: lineage
  cm_claim_id :: string
  cm_fencing_token :: int
  cm_result :: "cjson option"
  cm_error :: "canonical_failure option"
  cm_state_version :: int

record admission_row =
  ad_id :: string
  ad_command_id :: string
  ad_domain_id :: string
  ad_pinned_epoch :: int
  ad_state :: string

record queue_row =
  qi_id :: string
  qi_queue_name :: string
  qi_partition_key :: string
  qi_command_id :: string
  qi_priority :: int
  qi_status :: string
  qi_available_at :: int
  qi_attempt_count :: int
  qi_max_attempts :: int
  qi_lease_owner :: "string option"
  qi_lease_token :: int
  qi_lease_expires_at :: "int option"
  qi_lineage :: lineage
  qi_claim_id :: string
  qi_fencing_token :: int

record checkpoint_row =
  cp_command_id :: string
  cp_logical_operation_id :: string
  cp_output :: cjson
  cp_claim_id :: string
  cp_fencing_token :: int
  cp_recovery_epoch :: int

record failure_row =
  fr_id :: string
  fr_command_id :: string
  fr_attempt_sequence :: int
  fr_failure :: canonical_failure

record plan_row =
  pl_id :: string
  pl_failure_id :: string
  pl_failed_command_id :: string
  pl_action :: retry_plan_action
  pl_state :: string
  pl_available_at :: int
  pl_lease_owner :: "string option"
  pl_lease_token :: int
  pl_lease_expires_at :: "int option"
  pl_successor_command_id :: "string option"
  pl_reconciliation_id :: "string option"
  pl_manual_review_id :: "string option"
  pl_attempt_count :: int
  pl_maximum_attempts :: int
  pl_lineage :: lineage

record reconciliation_row =
  rc_id :: string
  rc_plan_id :: string
  rc_failed_command_id :: string
  rc_state :: string
  rc_available_at :: int
  rc_attempt_count :: int
  rc_maximum_attempts :: int
  rc_lease_owner :: "string option"
  rc_lease_token :: int
  rc_lease_expires_at :: "int option"
  rc_lineage :: lineage

record review_row =
  mr_id :: string
  mr_plan_id :: string
  mr_command_id :: string
  mr_failure_id :: string

record snapshot_row =
  sn_plan_id :: string
  sn_target_state_version :: "int option"
  sn_activation_epoch :: int

record effect_row =
  ef_id :: string
  ef_command_id :: string
  ef_status :: string
  ef_attempt_count :: nat
  ef_dispatch_authority_count :: nat

record recovery_item_row =
  ri_owner_kind :: string
  ri_owner_id :: string
  ri_classification :: string
  ri_blocking :: bool

record outbox_row =
  ob_stream_key :: string
  ob_stream_sequence :: int
  ob_event_type :: string
  ob_aggregate_id :: "string option"
  ob_payload :: cjson

record 'a kcml =
  kc_recovery :: "recovery_row option"
  kc_recovery_items :: "recovery_item_row list" \<comment> \<open>of the head's current attempt\<close>
  kc_activation_epoch :: "int option"
  kc_idempotency :: "idempotency_row list"
  kc_heads :: "domain_head_row list"
  kc_claims :: "claim_row list"
  kc_commands :: "command_row list"
  kc_admissions :: "admission_row list"
  kc_queue :: "queue_row list"
  kc_outbox :: "outbox_row list"
  kc_sequences :: sequence_table
  kc_checkpoints :: "checkpoint_row list"
  kc_failures :: "failure_row list"
  kc_plans :: "plan_row list"
  kc_reconciliations :: "reconciliation_row list"
  kc_reviews :: "review_row list"
  kc_snapshots :: "snapshot_row list"
  kc_effects :: "effect_row list"
  kc_audit :: "(string \<times> string) list" \<comment> \<open>event type and aggregate\<close>
  kc_aggregates :: 'a

section \<open>Handlers and the operation catalogue\<close>

record handler_spec =
  hs_operation :: string
  hs_family :: string
  hs_entity :: string
  hs_strategy :: string
  hs_queue :: string
  hs_contractDigest :: string

definition operationHandlerFor :: "handler_spec list \<Rightarrow> string \<Rightarrow> handler_spec outcome" where
  "operationHandlerFor operationHandlerCatalog operation = (case jm_get (jm_of hs_operation operationHandlerCatalog) operation of
     None \<Rightarrow> Inl (Plain_Error (''OPERATION_HANDLER_NOT_BOUND:'' @ operation)) | Some spec \<Rightarrow> Inr spec)"

definition materialize_digests :: "(string \<times> string) list \<Rightarrow> handler_spec list \<Rightarrow> handler_spec list" where
  "materialize_digests generated declared = map (\<lambda>spec. case jm_get generated (hs_operation spec) of
     None \<Rightarrow> spec | Some d \<Rightarrow> spec\<lparr>hs_contractDigest := d\<rparr>) declared"

text \<open>A contract with its digest.\<close>

definition assertOperationHandlerCoverage :: "handler_spec list \<Rightarrow> (op_contract \<times> string) list \<Rightarrow> unit outcome" where
  "assertOperationHandlerCoverage operationHandlerCatalog contracts =
     (let expected = jm_of (oc_operationName \<circ> fst) contracts in
      if length expected \<noteq> length operationHandlerCatalog
      then Inl (Plain_Error (''OPERATION_HANDLER_COUNT_MISMATCH:contract='' @ nat_text (length expected) @ '':handler='' @ nat_text (length operationHandlerCatalog)))
      else forE (\<lambda>_ spec. case jm_get expected (hs_operation spec) of
          None \<Rightarrow> Inl (Plain_Error (''OPERATION_HANDLER_UNKNOWN:'' @ hs_operation spec))
        | Some (contract, d) \<Rightarrow> if d \<noteq> hs_contractDigest spec \<or> oc_operationFamily contract \<noteq> hs_family spec
            then Inl (Plain_Error (''OPERATION_HANDLER_STALE:'' @ hs_operation spec)) else Inr ()) () operationHandlerCatalog)"

record operation_catalog =
  cat_operations :: "op_contract list"
  cat_authorities :: "authority_ownership list"

definition load_catalog ::
  "handler_spec list \<Rightarrow> (op_contract \<times> string) list \<Rightarrow> authority_ownership list \<Rightarrow> state_machine list \<Rightarrow> exposure_parity list
   \<Rightarrow> operation_catalog outcome" where
  "load_catalog handlers contracts authorities machines parity =
     bindE (assertOperationHandlerCoverage handlers contracts) (\<lambda>_.
     bindE (validateAuthorityOwnership (map (operation_contract.truncate \<circ> fst) contracts) authorities machines) (\<lambda>_.
     bindE (validateExposureParity (map (operation_contract.truncate \<circ> fst) contracts) parity) (\<lambda>_.
     Inr \<lparr>cat_operations = map fst contracts, cat_authorities = authorities\<rparr>)))"

definition catalog_get :: "operation_catalog \<Rightarrow> string \<Rightarrow> op_contract outcome" where
  "catalog_get cat name = (case jm_get (jm_of oc_operationName (cat_operations cat)) name of
     None \<Rightarrow> Inl (Domain_Error ''KCIP_TARGET_NOT_FOUND'') | Some operation \<Rightarrow> Inr operation)"

definition authorityFor :: "operation_catalog \<Rightarrow> op_contract \<Rightarrow> authority_ownership outcome" where
  "authorityFor cat operation = authorityForOperation (oc_operationId operation) (cat_authorities cat)"

section \<open>The services of the pipeline\<close>

record 'a op_services =
  sv_sha256 :: "string \<Rightarrow> string"
  sv_collation :: collation
  sv_conversions :: js_conversions
  sv_errors :: error_registry
  sv_handlers :: "handler_spec list"
  sv_catalog :: operation_catalog
  sv_entity_row :: "'a \<Rightarrow> string \<Rightarrow> string \<Rightarrow> int option option outcome" \<comment> \<open>the entity's row: absent, or its state version if it has one\<close>

definition admission_entity :: "'a op_services \<Rightarrow> string \<Rightarrow> string outcome" where
  "admission_entity sv operationName = bindE (operationHandlerFor (sv_handlers sv) operationName) (\<lambda>h.
     Inr (if operationName = ''component.revision.publish'' then ''component'' else hs_entity h))"

section \<open>Transactions on the store\<close>

text \<open>
  The transactions of the pipeline are functions to an error or a new state. \<open>in_tx\<close> is what one of
  them leaves in the database, and \<open>tx_body_of\<close> the same function as a body for
  \<^verbatim>\<open>inTransactionProfile\<close>: whichever statement the server rejects, the committed state is the one
  \<open>in_tx\<close> gives or the one before.
\<close>

definition in_tx :: "('s \<Rightarrow> ('s \<times> 'r) outcome) \<Rightarrow> 's \<Rightarrow> 's \<times> 'r outcome" where
  "in_tx tx s = (case tx s of Inl e \<Rightarrow> (s, Inl e) | Inr (s', v) \<Rightarrow> (s', Inr v))"

definition tx_body_of :: "('s \<Rightarrow> ('s \<times> 'r) outcome) \<Rightarrow> ('s, 'r) tx_body" where
  "tx_body_of tx s = (case tx s of Inl e \<Rightarrow> (s, Inl e) | Inr (s', v) \<Rightarrow> (s', Inr v))"

lemma in_tx_profile:
  assumes "db_working c = None" and "inTransactionProfile fault pid (tx_body_of tx) c = (c', r)"
  shows "(db_committed c', r) = in_tx tx (db_committed c) \<or> (\<exists>e. r = Inl e) \<and> db_committed c' = db_committed c"
proof (cases r)
  case (Inl e)
  with assms(2) have "inTransactionProfile fault pid (tx_body_of tx) c = (c', Inl e)" by simp
  from profile_tx.aborted [OF assms(1) this] Inl show ?thesis by simp
next
  case (Inr v)
  with assms(2) have "inTransactionProfile fault pid (tx_body_of tx) c = (c', Inr v)" by simp
  from profile_tx.committed [OF assms(1) this]
  have "tx_body_of tx (db_committed c) = (db_committed c', Inr v)" by simp
  with Inr show ?thesis by (auto simp: tx_body_of_def in_tx_def split: sum.splits prod.splits)
qed

section \<open>Statements, reasoned about\<close>

lemma sql_first_Some: "sql_first P rows = Some r \<Longrightarrow> r \<in> set rows \<and> P r"
  by (auto simp: sql_first_def find_Some_iff)

lemma sql_first_None: "sql_first P rows = None \<longleftrightarrow> (\<forall>r \<in> set rows. \<not> P r)"
  by (auto simp: sql_first_def find_None_iff)

lemma sql_first_append: "sql_first P (xs @ ys) = (case sql_first P xs of None \<Rightarrow> sql_first P ys | Some r \<Rightarrow> Some r)"
  by (induction xs) (auto simp: sql_first_def)

lemma set_sql_update: "set (sql_update P f rows) = {f r | r. r \<in> set rows \<and> P r} \<union> {r \<in> set rows. \<not> P r}"
  by (auto simp: sql_update_def)

lemma map_sql_update: "(\<And>r. k (f r) = k r) \<Longrightarrow> map k (sql_update P f rows) = map k rows"
  by (simp add: sql_update_def)

lemma sql_update_none: "(\<And>x. x \<in> set rows \<Longrightarrow> \<not> P x) \<Longrightarrow> sql_update P f rows = rows"
  by (induction rows) (auto simp: sql_update_def)

lemma sql_update_append: "sql_update P f (xs @ ys) = sql_update P f xs @ sql_update P f ys"
  by (simp add: sql_update_def)

lemma sql_first_unique:
  "distinct (map k rows) \<Longrightarrow> r \<in> set rows \<Longrightarrow> sql_first (\<lambda>x. k x = k r) rows = Some r"
  by (induction rows) (auto simp: sql_first_def)

lemma sql_count_update_unique:
  assumes "distinct (map k rows)" and "r \<in> set rows" and "Q r" and "\<not> Q (f r)"
  shows "sql_count Q (sql_update (\<lambda>x. k x = k r) f rows) = sql_count Q rows - 1"
  using assms
proof (induction rows)
  case (Cons x xs)
  have upd: "k r \<notin> k ` set xs \<Longrightarrow> sql_update (\<lambda>x. k x = k r) f xs = xs" by (auto simp: sql_update_def intro!: map_idI) (metis image_eqI)
  show ?case
  proof (cases "x = r")
    case True
    with Cons.prems upd show ?thesis by (simp add: sql_count_def sql_update_def)
  next
    case False
    with Cons.prems have "k x \<noteq> k r" "r \<in> set xs" by auto
    with Cons have ih: "sql_count Q (sql_update (\<lambda>x. k x = k r) f xs) = sql_count Q xs - 1" by simp
    have "sql_count Q xs \<noteq> 0" using \<open>r \<in> set xs\<close> \<open>Q r\<close> by (auto simp: sql_count_def filter_empty_conv)
    with ih \<open>k x \<noteq> k r\<close> show ?thesis by (auto simp: sql_count_def sql_update_def)
  qed
qed simp

end
