(* ===== verification/CommandAdmission.thy ===== *)
theory CommandAdmission
  imports CommandStore
begin

text \<open>
  Admission of a mutating command: \<^verbatim>\<open>CanonicalOperationService.execute\<close> and the functions it calls
  (\<^verbatim>\<open>packages/domain/src/operations.ts\<close>). The body of the transaction maps the state of the database
  to an error, which rolls back, or to the new state and the response. Arguments are JSON values, on
  which the conversion to canonical JSON is the identity. Node and PostgreSQL read the same clock.
\<close>

type_synonym uuids = "string \<Rightarrow> string" \<comment> \<open>the generated identifier, by purpose\<close>

record command_context =
  cx_callerFingerprint :: string
  cx_actorId :: string
  cx_correlationId :: string
  cx_causationId :: "string option"
  cx_idempotencyKey :: "string option"
  cx_recoveryFence :: "(int \<times> int) option" \<comment> \<open>recovery epoch, fencing token\<close>

section \<open>Concurrency domains and claims\<close>

definition string_or :: "json_object \<Rightarrow> string \<Rightarrow> string \<Rightarrow> string" where
  "string_or args key otherwise = (case map_of args key of Some (CStr s) \<Rightarrow> s | _ \<Rightarrow> otherwise)"

definition operationDomainKey :: "'a op_services \<Rightarrow> op_contract \<Rightarrow> string option \<Rightarrow> json_object \<Rightarrow> string" where
  "operationDomainKey sv operation targetId args =
     (let kind = lower_text (oc_aggregateRoot operation) in
      case targetId of
        Some (t # ts) \<Rightarrow> kind @ '':'' @ (t # ts)
      | _ \<Rightarrow>
        if oc_operationName operation = ''monitor.alert.open'' then
          kind @ '':episode:'' @ canonicalDigest (sv_sha256 sv) (sv_collation sv) (CObj
            [(''sourceObjectType'', CStr (string_or args ''sourceObjectType'' ''invalid-source-type'')),
             (''sourceObjectId'', CStr (string_or args ''sourceObjectId'' ''invalid-source-id'')),
             (''alertType'', CStr (string_or args ''alertType'' ''invalid-alert-type'')),
             (''conditionDigest'', CStr (string_or args ''conditionDigest'' ''invalid-condition-digest''))])
        else kind @ '':create:'' @ string_or args ''stableKey'' (string_or args ''code'' (oc_operationName operation)))"

definition permitsClosedComponentAdmission :: "string \<Rightarrow> bool" where
  "permitsClosedComponentAdmission operationName = (operationName \<in> set [''component.suspend'', ''component.quarantine'',
     ''component.restore'', ''component.recertify'', ''component.deregister'', ''component.heartbeat'', ''component.state.report'',
     ''component.activate'', ''component.enable'', ''component.disable'', ''component.rollback'', ''component.control.enable'',
     ''component.control.disable'', ''component.control.ack''])"

definition reserveConcurrencyClaim ::
  "'a op_services \<Rightarrow> uuids \<Rightarrow> int \<Rightarrow> op_contract \<Rightarrow> string \<Rightarrow> string \<Rightarrow> lineage \<Rightarrow> claim_row list \<Rightarrow> (claim_row list \<times> string \<times> int) outcome" where
  "reserveConcurrencyClaim sv uuid now operation domainKey logicalOperationId lin claims =
     (let scopeKeyDigest = sv_sha256 sv domainKey;
          same = (\<lambda>c. cl_scope_kind c = oc_concurrencyScope operation \<and> cl_scope_key_digest c = scopeKeyDigest) in
      case sql_first same claims of
        Some current \<Rightarrow>
          if \<not> cl_released current
          then Inl (Domain_Error (if now < cl_expires_at current then ''CONCURRENCY_KEY_HELD'' else ''LEASE_EXPIRED''))
          else let token = cl_fencing_token current + 1 in
            Inr (sql_update (\<lambda>c. cl_id c = cl_id current) (\<lambda>c. c\<lparr>cl_scope_key := domainKey, cl_logical_operation_id := logicalOperationId,
              cl_owner_instance_id := ln_incarnation lin, cl_fencing_token := token, cl_expires_at := now + 300000,
              cl_released := False, cl_lineage := lin\<rparr>) claims, cl_id current, token)
      | None \<Rightarrow>
          Inr (claims @ [\<lparr>cl_id = uuid ''claim'', cl_scope_kind = oc_concurrencyScope operation, cl_scope_key = domainKey,
            cl_scope_key_digest = scopeKeyDigest, cl_logical_operation_id = logicalOperationId,
            cl_owner_instance_id = ln_incarnation lin, cl_fencing_token = 1, cl_expires_at = now + 300000,
            cl_released = False, cl_lineage = lin\<rparr>], uuid ''claim'', 1))"

definition terminalizeCommandGuards :: "string \<Rightarrow> string \<Rightarrow> string \<Rightarrow> 'a kcml \<Rightarrow> 'a kcml" where
  "terminalizeCommandGuards commandId logicalOperationId claimId s =
     (let open_adm = (\<lambda>a. ad_command_id a = commandId \<and> ad_state a \<noteq> ''TERMINAL'');
          s1 = s\<lparr>kc_admissions := sql_update open_adm (\<lambda>a. a\<lparr>ad_state := ''TERMINAL''\<rparr>) (kc_admissions s)\<rparr>;
          s2 = (case sql_first open_adm (kc_admissions s) of None \<Rightarrow> s1
            | Some relation \<Rightarrow> s1\<lparr>kc_heads := sql_update (\<lambda>h. dh_id h = ad_domain_id relation \<and> dh_pending h > 0)
                (\<lambda>h. h\<lparr>dh_pending := dh_pending h - 1\<rparr>) (kc_heads s1)\<rparr>) in
      if claimId = [] then s2
      else s2\<lparr>kc_claims := sql_update (\<lambda>c. cl_id c = claimId \<and> cl_logical_operation_id c = logicalOperationId \<and> \<not> cl_released c)
        (\<lambda>c. c\<lparr>cl_released := True\<rparr>) (kc_claims s2)\<rparr>)"

section \<open>Responses, streams and audit\<close>

definition acceptedResult ::
  "'a op_services \<Rightarrow> int \<Rightarrow> string \<Rightarrow> string \<Rightarrow> string \<Rightarrow> int \<Rightarrow> int \<Rightarrow> int \<Rightarrow> bool \<Rightarrow> cjson \<Rightarrow> string \<Rightarrow> operation_result" where
  "acceptedResult sv now commandId logicalOperationId correlationId stateVersion eventSequence activationEpoch replay result status =
     \<lparr>or_status = status, or_correlationId = correlationId, or_logicalOperationId = logicalOperationId, or_commandId = commandId,
      or_stateVersion = stateVersion, or_eventSequence = eventSequence, or_activationEpoch = activationEpoch,
      or_resultDigest = canonicalDigest (sv_sha256 sv) (sv_collation sv) result, or_idempotencyReplay = replay,
      or_serverTime = now, or_result = result, or_error = None\<rparr>"

definition accepted_payload :: "string \<Rightarrow> cjson" where
  "accepted_payload commandId = CObj [(''commandId'', CStr commandId), (''status'', CStr ''ACCEPTED'')]"

definition queueFor :: "'a op_services \<Rightarrow> op_contract \<Rightarrow> string outcome" where
  "queueFor sv operation = bindE (operationHandlerFor (sv_handlers sv) (oc_operationName operation)) (\<lambda>h. Inr (hs_queue h))"

definition is_stream_uuid :: "string \<Rightarrow> bool" where
  "is_stream_uuid s = (length s = 36 \<and> list_all (\<lambda>c. is_hex_lower c \<or> c = CHR ''-'') (lower_text s))"

definition nextStreamSequence :: "string \<Rightarrow> sequence_table \<Rightarrow> (sequence_table \<times> int) outcome" where
  "nextStreamSequence stream t =
     (let commandId = (if starts_with ''command:'' stream then drop 8 stream else stream) in
      if \<not> is_stream_uuid commandId then Inl (Domain_Error ''TOOL_ARGUMENT_SCHEMA_INVALID'')
      else case allocateContiguousSequence ''TRANSACTIONAL_OUTBOX'' commandId ''STREAM_SEQUENCE'' t of
          (t', Inl e) \<Rightarrow> Inl e | (t', Inr n) \<Rightarrow> Inr (t', n))"

section \<open>The stages of admission\<close>

text \<open>The idempotency claim: a new reservation, or the recorded answer of an earlier one.\<close>

datatype idempotency_outcome = Reserved | Replayed operation_result

definition same_key :: "string \<Rightarrow> string \<Rightarrow> idempotency_row \<Rightarrow> bool" where
  "same_key scopeDigest keyDigest r = (ir_scope_digest r = scopeDigest \<and> ir_key_digest r = keyDigest)"

definition claim_idempotency ::
  "'a op_services \<Rightarrow> uuids \<Rightarrow> int \<Rightarrow> command_context \<Rightarrow> string \<Rightarrow> string \<Rightarrow> string \<Rightarrow> int \<Rightarrow> idempotency_row list
   \<Rightarrow> (idempotency_row list \<times> idempotency_outcome) outcome" where
  "claim_idempotency sv uuid now cx scopeDigest keyDigest requestDigest activationEpoch rows =
     (case sql_first (same_key scopeDigest keyDigest) rows of
        None \<Rightarrow> Inr (rows @ [\<lparr>ir_scope_digest = scopeDigest, ir_key_digest = keyDigest, ir_request_digest = requestDigest,
            ir_logical_operation_id = uuid ''logical'', ir_command_id = uuid ''command'', ir_lifecycle = ''RESERVED'',
            ir_response_status = None, ir_response_body = None\<rparr>], Reserved)
      | Some r \<Rightarrow>
          if ir_request_digest r \<noteq> requestDigest then Inl (Domain_Error ''IDEMPOTENCY_CONFLICT'')
          else (case ir_response_body r of
              Some body \<Rightarrow> Inr (rows, Replayed (body\<lparr>or_idempotencyReplay := True\<rparr>))
            | None \<Rightarrow> Inr (rows, Replayed (acceptedResult sv now (ir_command_id r) (ir_logical_operation_id r) (cx_correlationId cx) 0 0
                activationEpoch True (accepted_payload (ir_command_id r)) ''ACCEPTED''))))"

definition ensure_head :: "uuids \<Rightarrow> string \<Rightarrow> int \<Rightarrow> domain_head_row list \<Rightarrow> domain_head_row list" where
  "ensure_head uuid domainKey activationEpoch heads =
     (if sql_first (\<lambda>h. dh_domain_key h = domainKey) heads = None
      then heads @ [\<lparr>dh_id = uuid ''head'', dh_domain_key = domainKey, dh_current_activation_epoch = activationEpoch,
        dh_barrier_state = ''OPEN'', dh_pending = 0\<rparr>] else heads)"

definition check_target_version :: "'a op_services \<Rightarrow> operation_command \<Rightarrow> 'a \<Rightarrow> unit outcome" where
  "check_target_version sv command aggregates =
     (case (oc_targetId command, oc_expectedStateVersion command) of
        (Some (t # ts), Some v) \<Rightarrow>
          bindE (admission_entity sv (oc_operation command)) (\<lambda>entity.
          bindE (sv_entity_row sv aggregates entity (t # ts)) (\<lambda>target. case target of
            None \<Rightarrow> Inl (Domain_Error ''KCIP_TARGET_NOT_FOUND'')
          | Some None \<Rightarrow> Inr ()
          | Some (Some v') \<Rightarrow> if v' \<noteq> v then Inl (Domain_Error ''STATE_VERSION_CONFLICT'') else Inr ()))
      | _ \<Rightarrow> Inr ())"

text \<open>The rows of an admitted command: the command, its admission, its queue item and its event.\<close>

definition insert_command ::
  "'a op_services \<Rightarrow> uuids \<Rightarrow> int \<Rightarrow> op_contract \<Rightarrow> operation_command \<Rightarrow> command_context \<Rightarrow> string \<Rightarrow> lineage \<Rightarrow> int \<Rightarrow> domain_head_row
   \<Rightarrow> string \<Rightarrow> int \<Rightarrow> string \<Rightarrow> string \<Rightarrow> 'a kcml \<Rightarrow> ('a kcml \<times> operation_result) outcome" where
  "insert_command sv uuid now operation command cx requestDigest lin activationEpoch domainHead claimId token scopeDigest keyDigest s =
     (let commandId = uuid ''command''; logicalId = uuid ''logical''; name = oc_operation command in
      bindE (queueFor sv operation) (\<lambda>queue.
      bindE (nextStreamSequence (''command:'' @ commandId) (kc_sequences s)) (\<lambda>(sequences, n).
      let event = CObj [(''commandId'', CStr commandId), (''logicalOperationId'', CStr logicalId), (''operationName'', CStr name),
            (''targetId'', opt_text (oc_targetId command))];
          response = acceptedResult sv now commandId logicalId (cx_correlationId cx) 0 n activationEpoch False (accepted_payload commandId) ''ACCEPTED'' in
      Inr (s\<lparr>kc_commands := kc_commands s @ [\<lparr>cm_id = commandId, cm_logical_operation_id = logicalId, cm_operation_name = name,
               cm_operation_revision = oc_operationRevision operation, cm_target_id = oc_targetId command,
               cm_caller_fingerprint = cx_callerFingerprint cx, cm_request = command, cm_request_digest = requestDigest,
               cm_status = ''ACCEPTED'', cm_correlation_id = cx_correlationId cx, cm_causation_id = cx_causationId cx,
               cm_activation_epoch = activationEpoch, cm_lineage = lin, cm_claim_id = claimId, cm_fencing_token = token,
               cm_result = None, cm_error = None, cm_state_version = 1\<rparr>],
             kc_admissions := kc_admissions s @ [\<lparr>ad_id = uuid ''admission'', ad_command_id = commandId, ad_domain_id = dh_id domainHead,
               ad_pinned_epoch = dh_current_activation_epoch domainHead, ad_state = ''ADMITTED''\<rparr>],
             kc_heads := sql_update (\<lambda>h. dh_id h = dh_id domainHead) (\<lambda>h. h\<lparr>dh_pending := dh_pending h + 1\<rparr>) (kc_heads s),
             kc_queue := kc_queue s @ [\<lparr>qi_id = uuid ''queue'', qi_queue_name = queue,
               qi_partition_key = (case oc_targetId command of Some t \<Rightarrow> t | None \<Rightarrow> oc_operationFamily operation),
               qi_command_id = commandId, qi_priority = 100, qi_status = ''READY'', qi_available_at = now, qi_attempt_count = 0,
               qi_max_attempts = 8, qi_lease_owner = None, qi_lease_token = 0, qi_lease_expires_at = None, qi_lineage = lin,
               qi_claim_id = claimId, qi_fencing_token = token\<rparr>],
             kc_sequences := sequences,
             kc_outbox := kc_outbox s @ [\<lparr>ob_stream_key = ''command:'' @ commandId, ob_stream_sequence = n,
               ob_event_type = ''domain.command.accepted'', ob_aggregate_id = oc_targetId command, ob_payload = event\<rparr>],
             kc_idempotency := sql_update (same_key scopeDigest keyDigest)
               (\<lambda>r. r\<lparr>ir_lifecycle := ''EXECUTING'', ir_response_status := Some 202, ir_response_body := Some response\<rparr>) (kc_idempotency s),
             kc_audit := kc_audit s @ [(''domain.command.accepted'', commandId)]\<rparr>, response))))"

definition admit_command ::
  "'a op_services \<Rightarrow> uuids \<Rightarrow> int \<Rightarrow> op_contract \<Rightarrow> operation_command \<Rightarrow> command_context \<Rightarrow> string \<Rightarrow> string \<Rightarrow> string \<Rightarrow> lineage \<Rightarrow> int
   \<Rightarrow> 'a kcml \<Rightarrow> ('a kcml \<times> operation_result) outcome" where
  "admit_command sv uuid now operation command cx requestDigest scopeDigest keyDigest lin activationEpoch s =
     (if (case oc_expectedActivationEpoch command of None \<Rightarrow> False | Some e \<Rightarrow> e \<noteq> activationEpoch)
      then Inl (Domain_Error ''ACTIVATION_EPOCH_STALE'')
      else let domainKey = operationDomainKey sv operation (oc_targetId command) (oc_arguments command);
               heads = ensure_head uuid domainKey activationEpoch (kc_heads s) in
        (case sql_first (\<lambda>h. dh_domain_key h = domainKey) heads of
           None \<Rightarrow> Inl (Domain_Error ''TOOL_ARGUMENT_SCHEMA_INVALID'')
         | Some domainHead \<Rightarrow>
             if dh_barrier_state domainHead \<noteq> ''OPEN'' \<and> \<not> permitsClosedComponentAdmission (oc_operation command)
             then Inl (Domain_Error ''TERMINAL_STATE_IMMUTABLE'')
             else bindE (check_target_version sv command (kc_aggregates s)) (\<lambda>_.
               bindE (reserveConcurrencyClaim sv uuid now operation domainKey (uuid ''logical'') lin (kc_claims s)) (\<lambda>(claims, claimId, token).
               insert_command sv uuid now operation command cx requestDigest lin activationEpoch domainHead claimId token scopeDigest keyDigest
                 (s\<lparr>kc_heads := heads, kc_claims := claims\<rparr>)))))"

section \<open>Execution of an operation\<close>

definition command_digests :: "'a op_services \<Rightarrow> operation_command \<Rightarrow> command_context \<Rightarrow> string \<Rightarrow> string \<times> string \<times> string" where
  "command_digests sv command cx key =
     (sv_sha256 sv (canonicalJson (sv_collation sv) (safe_command command)),
      sv_sha256 sv (cx_callerFingerprint cx @ [CHR 0x00] @ oc_operation command @ [CHR 0x00]
        @ (case oc_targetId command of Some t \<Rightarrow> t | None \<Rightarrow> ''none'')),
      sv_sha256 sv key)"

definition execute_transaction ::
  "'a op_services \<Rightarrow> uuids \<Rightarrow> int \<Rightarrow> op_contract \<Rightarrow> operation_command \<Rightarrow> command_context \<Rightarrow> string \<Rightarrow> 'a kcml \<Rightarrow> ('a kcml \<times> operation_result) outcome" where
  "execute_transaction sv uuid now operation command cx key s =
     (case command_digests sv command cx key of (requestDigest, scopeDigest, keyDigest) \<Rightarrow>
      bindE (lockAndVerifyPlatformRecovery (kc_recovery s)) (\<lambda>head.
      if (case cx_recoveryFence cx of None \<Rightarrow> False
          | Some (epoch, token) \<Rightarrow> epoch \<noteq> ln_recovery (ah_lineage head) \<or> token \<noteq> ah_fencing_token head)
      then Inl (Domain_Error ''FENCING_TOKEN_STALE'')
      else (case kc_activation_epoch s of
        None \<Rightarrow> Inl (Domain_Error ''CLOSURE_PREDICATE_INCOMPLETE'')
      | Some activationEpoch \<Rightarrow>
          bindE (claim_idempotency sv uuid now cx scopeDigest keyDigest requestDigest activationEpoch (kc_idempotency s)) (\<lambda>(rows, claimed).
          case claimed of
            Replayed response \<Rightarrow> Inr (s, response)
          | Reserved \<Rightarrow> admit_command sv uuid now operation command cx requestDigest scopeDigest keyDigest (ah_lineage head) activationEpoch
              (s\<lparr>kc_idempotency := rows\<rparr>)))))"

text \<open>
  A command is a query, answered on the consistent-read path by the handler \<open>query\<close>, or a mutation,
  admitted in a transaction. \<open>None\<close> stands for an input the schema rejects.
\<close>

definition operationCommandSchema :: "(string \<Rightarrow> bool) \<Rightarrow> operation_command option \<Rightarrow> operation_command outcome" where
  "operationCommandSchema is_datetime_text input = (case input of None \<Rightarrow> Inl Zod_Error
   | Some c \<Rightarrow> if oc_operation c \<noteq> [] \<and> (case oc_targetId c of None \<Rightarrow> True | Some t \<Rightarrow> is_uuid_text t)
         \<and> (case oc_expectedStateVersion c of None \<Rightarrow> True | Some v \<Rightarrow> 0 \<le> v)
         \<and> (case oc_expectedActivationEpoch c of None \<Rightarrow> True | Some v \<Rightarrow> 0 \<le> v)
         \<and> (case oc_deadlineAt c of None \<Rightarrow> True | Some d \<Rightarrow> is_datetime_text d)
       then Inr c else Inl Zod_Error)"

definition executeQuery ::
  "'a op_services \<Rightarrow> (op_contract \<Rightarrow> string option \<Rightarrow> json_object \<Rightarrow> 'a kcml \<Rightarrow> cjson outcome) \<Rightarrow> uuids \<Rightarrow> int \<Rightarrow> op_contract \<Rightarrow> operation_command
   \<Rightarrow> command_context \<Rightarrow> 'a kcml \<Rightarrow> operation_result outcome" where
  "executeQuery sv query uuid now operation command cx s =
     bindE (query operation (oc_targetId command) (oc_arguments command) s) (\<lambda>result.
     case kc_activation_epoch s of
       None \<Rightarrow> Inl (Plain_Error ''TypeError'')
     | Some epoch \<Rightarrow> Inr (acceptedResult sv now (uuid ''command'') (uuid ''logical'') (cx_correlationId cx) 0 0 epoch False result ''SUCCEEDED''))"

definition execute ::
  "'a op_services \<Rightarrow> (op_contract \<Rightarrow> string option \<Rightarrow> json_object \<Rightarrow> 'a kcml \<Rightarrow> cjson outcome) \<Rightarrow> (string \<Rightarrow> bool) \<Rightarrow> uuids \<Rightarrow> int
   \<Rightarrow> string \<Rightarrow> operation_command option \<Rightarrow> command_context \<Rightarrow> 'a kcml \<Rightarrow> ('a kcml \<times> operation_result) outcome" where
  "execute sv query is_datetime_text uuid now operationName input cx s =
     bindE (catalog_get (sv_catalog sv) operationName) (\<lambda>operation.
     bindE (authorityFor (sv_catalog sv) operation) (\<lambda>_.
     bindE (operationCommandSchema is_datetime_text (map_option (\<lambda>c. c\<lparr>oc_operation := operationName\<rparr>) input)) (\<lambda>command.
     bindE (validateCanonicalOperationCommand (sv_conversions sv) now operation (oc_targetId command) (oc_arguments command)) (\<lambda>_.
     if (case oc_deadlineAt command of None \<Rightarrow> False | Some d \<Rightarrow> d \<noteq> [] \<and>
          (case jc_date_ms (sv_conversions sv) d of None \<Rightarrow> False | Some ms \<Rightarrow> ms \<le> now))
     then Inl (Domain_Error ''RUNTIME_DEADLINE_EXCEEDED'')
     else if oc_sideEffectClass operation = ''READ_ONLY'' \<or> oc_exposureClass operation = ''OWNER_QUERY''
     then bindE (executeQuery sv query uuid now operation command cx s) (\<lambda>r. Inr (s, r))
     else (case cx_idempotencyKey cx of
         None \<Rightarrow> Inl schema_invalid
       | Some key \<Rightarrow> if key = [] then Inl schema_invalid
           else execute_transaction sv uuid now operation command cx key s)))))"

section \<open>Replay of a request\<close>

lemma sql_first_update: "(\<And>r. P (f r) = P r) \<Longrightarrow> sql_first P (sql_update P f rows) = map_option f (sql_first P rows)"
  by (induction rows) (auto simp: sql_first_def sql_update_def)

lemma same_key_update [simp]:
  "same_key a b (r\<lparr>ir_lifecycle := l, ir_response_status := st, ir_response_body := bd\<rparr>) = same_key a b r"
  by (simp add: same_key_def)

lemma insert_command_Inr:
  assumes "insert_command sv uuid now operation command cx requestDigest lin activationEpoch domainHead claimId token scopeDigest keyDigest s = Inr (s', r)"
  shows "kc_idempotency s' = sql_update (same_key scopeDigest keyDigest)
      (\<lambda>r'. r'\<lparr>ir_lifecycle := ''EXECUTING'', ir_response_status := Some 202, ir_response_body := Some r\<rparr>) (kc_idempotency s)
    \<and> or_commandId r = uuid ''command'' \<and> or_logicalOperationId r = uuid ''logical''
    \<and> kc_recovery s' = kc_recovery s \<and> kc_activation_epoch s' = kc_activation_epoch s"
  using assms by (auto simp: insert_command_def Let_def bindE_Inr_iff acceptedResult_def)

lemma admit_command_Inr:
  assumes "admit_command sv uuid now operation command cx requestDigest scopeDigest keyDigest lin activationEpoch s = Inr (s', r)"
  shows "kc_idempotency s' = sql_update (same_key scopeDigest keyDigest)
      (\<lambda>r'. r'\<lparr>ir_lifecycle := ''EXECUTING'', ir_response_status := Some 202, ir_response_body := Some r\<rparr>) (kc_idempotency s)
    \<and> or_commandId r = uuid ''command'' \<and> or_logicalOperationId r = uuid ''logical''
    \<and> kc_recovery s' = kc_recovery s \<and> kc_activation_epoch s' = kc_activation_epoch s"
  using assms
  by (auto simp: admit_command_def Let_def bindE_Inr_iff dest!: insert_command_Inr split: if_splits option.splits)

text \<open>The transaction up to the idempotency claim.\<close>

definition fence_current :: "command_context \<Rightarrow> authority_head \<Rightarrow> bool" where
  "fence_current cx head = (case cx_recoveryFence cx of None \<Rightarrow> True
     | Some (epoch, token) \<Rightarrow> epoch = ln_recovery (ah_lineage head) \<and> token = ah_fencing_token head)"

lemma execute_transaction_unfold:
  assumes "lockAndVerifyPlatformRecovery (kc_recovery s) = Inr head" and "fence_current cx head" and "kc_activation_epoch s = Some e"
    and "command_digests sv command cx key = (d, sc, kd)"
  shows "execute_transaction sv uuid now operation command cx key s =
    bindE (claim_idempotency sv uuid now cx sc kd d e (kc_idempotency s)) (\<lambda>(rows, claimed).
      case claimed of Replayed response \<Rightarrow> Inr (s, response)
      | Reserved \<Rightarrow> admit_command sv uuid now operation command cx d sc kd (ah_lineage head) e (s\<lparr>kc_idempotency := rows\<rparr>))"
  using assms by (auto simp: execute_transaction_def fence_current_def split: option.splits)

lemma execute_transaction_Inr:
  assumes "execute_transaction sv uuid now operation command cx key s = Inr (s1, r1)"
    and "command_digests sv command cx key = (d, sc, kd)"
  obtains head e where "lockAndVerifyPlatformRecovery (kc_recovery s) = Inr head" "fence_current cx head" "kc_activation_epoch s = Some e"
  using assms by (auto simp: execute_transaction_def fence_current_def bindE_Inr_iff split: option.splits if_splits)

lemma execute_transaction_recorded:
  assumes "execute_transaction sv uuid now operation command cx key s = Inr (s1, r1)"
    and "command_digests sv command cx key = (d, sc, kd)"
  shows "kc_recovery s1 = kc_recovery s \<and> kc_activation_epoch s1 = kc_activation_epoch s
    \<and> (\<exists>r. sql_first (same_key sc kd) (kc_idempotency s1) = Some r \<and> ir_request_digest r = d
        \<and> (case ir_response_body r of
             Some b \<Rightarrow> or_commandId b = or_commandId r1 \<and> or_logicalOperationId b = or_logicalOperationId r1
           | None \<Rightarrow> ir_command_id r = or_commandId r1 \<and> ir_logical_operation_id r = or_logicalOperationId r1))"
proof -
  obtain head e where pre: "lockAndVerifyPlatformRecovery (kc_recovery s) = Inr head" "fence_current cx head" "kc_activation_epoch s = Some e"
    using execute_transaction_Inr [OF assms] .
  note unfold = execute_transaction_unfold [OF pre assms(2), of uuid now operation]
  show ?thesis
  proof (cases "sql_first (same_key sc kd) (kc_idempotency s)")
    case None
    have sk: "same_key sc kd \<lparr>ir_scope_digest = sc, ir_key_digest = kd, ir_request_digest = d, ir_logical_operation_id = l,
        ir_command_id = c, ir_lifecycle = lc, ir_response_status = st, ir_response_body = b\<rparr>" for l c lc st b
      by (simp add: same_key_def)
    from assms(1) [unfolded unfold] None show ?thesis
      by (auto simp: claim_idempotency_def sql_first_update sql_first_append dest!: admit_command_Inr)
        (auto simp: sql_first_def sk)
  next
    case (Some r)
    with assms(1) [unfolded unfold] show ?thesis
      by (auto simp: claim_idempotency_def acceptedResult_def split: if_splits option.splits)
  qed
qed

text \<open>
  C2. A request is admitted at most once under its idempotency key. Repeated at any later time, it
  returns the identifiers of the first admission, marked as a replay, and changes nothing; a
  different request under the same key and scope is refused with an idempotency conflict.
\<close>

theorem admission_idempotent:
  assumes "execute_transaction sv uuid now operation command cx key s = Inr (s1, r1)"
    and "command_digests sv command cx key = (d, sc, kd)"
    and "command_digests sv command' cx' key' = (d', sc, kd)" and "cx_recoveryFence cx' = cx_recoveryFence cx"
  shows "if d' = d
    then \<exists>r2. execute_transaction sv uuid' now' operation' command' cx' key' s1 = Inr (s1, r2) \<and> or_idempotencyReplay r2
      \<and> or_commandId r2 = or_commandId r1 \<and> or_logicalOperationId r2 = or_logicalOperationId r1
    else execute_transaction sv uuid' now' operation' command' cx' key' s1 = Inl (Domain_Error ''IDEMPOTENCY_CONFLICT'')"
proof -
  obtain head e where pre: "lockAndVerifyPlatformRecovery (kc_recovery s) = Inr head" "fence_current cx head" "kc_activation_epoch s = Some e"
    using execute_transaction_Inr [OF assms(1,2)] .
  note rec = execute_transaction_recorded [OF assms(1,2)]
  have "fence_current cx' head" using pre(2) assms(4) by (simp add: fence_current_def)
  moreover have "lockAndVerifyPlatformRecovery (kc_recovery s1) = Inr head" "kc_activation_epoch s1 = Some e" using rec pre by auto
  ultimately have unfold: "execute_transaction sv uuid' now' operation' command' cx' key' s1 =
    bindE (claim_idempotency sv uuid' now' cx' sc kd d' e (kc_idempotency s1)) (\<lambda>(rows, claimed).
      case claimed of Replayed response \<Rightarrow> Inr (s1, response)
      | Reserved \<Rightarrow> admit_command sv uuid' now' operation' command' cx' d' sc kd (ah_lineage head) e (s1\<lparr>kc_idempotency := rows\<rparr>))"
    using assms(3) by (intro execute_transaction_unfold) auto
  from rec obtain r where r: "sql_first (same_key sc kd) (kc_idempotency s1) = Some r" "ir_request_digest r = d"
    "case ir_response_body r of
       Some b \<Rightarrow> or_commandId b = or_commandId r1 \<and> or_logicalOperationId b = or_logicalOperationId r1
     | None \<Rightarrow> ir_command_id r = or_commandId r1 \<and> ir_logical_operation_id r = or_logicalOperationId r1"
    by blast
  show ?thesis
    unfolding unfold using r by (auto simp: claim_idempotency_def acceptedResult_def split: option.splits)
qed


section \<open>A concrete pipeline\<close>

definition sample_lineage :: lineage where
  "sample_lineage = \<lparr>ln_incarnation = ''inc'', ln_deployment = 3, ln_recovery = 2\<rparr>"

definition sample_recovery :: recovery_row where
  "sample_recovery = \<lparr>rr_database_start_identity = [1], rr_lineage = sample_lineage, rr_fencing_token = 5, rr_state = ''READY'',
     rr_current_incarnation = ''inc'', rr_current_epoch = 3, rr_current_database_identity = [1]\<rparr>"

definition sample_handler :: handler_spec where
  "sample_handler = \<lparr>hs_operation = ''browser.control.transfer'', hs_family = ''BROWSER'', hs_entity = ''browser_session'',
     hs_strategy = ''CAS_STATE_TRANSITION'', hs_queue = ''kcml-browser'', hs_contractDigest = ''d''\<rparr>"

definition sample_owner :: authority_ownership where
  "sample_owner = sample_authority\<lparr>ao_allowedOperationIds := [''op'']\<rparr>"

definition sample_services :: "nat op_services" where
  "sample_services = \<lparr>sv_sha256 = (\<lambda>t. t), sv_collation = code_unit_le, sv_conversions = sample_conversions, sv_errors = sample_registry,
     sv_handlers = [sample_handler],
     sv_catalog = \<lparr>cat_operations = [sample_operation ''browser.control.transfer'' ''BROWSER''], cat_authorities = [sample_owner]\<rparr>,
     sv_entity_row = (\<lambda>n _ _. Inr (Some (Some (int n))))\<rparr>"

definition sample_uuid :: uuids where
  "sample_uuid purpose = replicate 35 CHR ''a'' @ (if purpose = ''command'' then ''b'' else ''c'')"

definition empty_store :: "nat kcml" where
  "empty_store = \<lparr>kc_recovery = Some sample_recovery, kc_recovery_items = [], kc_activation_epoch = Some 7, kc_idempotency = [], kc_heads = [],
     kc_claims = [], kc_commands = [], kc_admissions = [], kc_queue = [], kc_outbox = [], kc_sequences = [], kc_checkpoints = [],
     kc_failures = [], kc_plans = [], kc_reconciliations = [], kc_reviews = [], kc_snapshots = [], kc_effects = [], kc_audit = [],
     kc_aggregates = 4\<rparr>"

definition sample_command :: operation_command where
  "sample_command = \<lparr>oc_operation = ''browser.control.transfer'', oc_targetId = Some ''s'',
     oc_arguments = transfer_arguments (CNum (JInt 60)), oc_expectedStateVersion = Some 4, oc_expectedActivationEpoch = Some 7, oc_deadlineAt = None\<rparr>"

definition sample_context :: command_context where
  "sample_context = \<lparr>cx_callerFingerprint = ''fp'', cx_actorId = ''KRMAR78'', cx_correlationId = ''corr'', cx_causationId = None,
     cx_idempotencyKey = Some ''key'', cx_recoveryFence = None\<rparr>"

lemma sample_admitted:
  "is_ok (execute_transaction sample_services sample_uuid 100 (sample_operation ''browser.control.transfer'' ''BROWSER'')
     sample_command sample_context ''key'' empty_store)"
  by code_simp

definition changed_command :: operation_command where
  "changed_command = sample_command\<lparr>oc_arguments := transfer_arguments (CNum (JInt 61))\<rparr>"

theorem admission_idempotent_witness:
  "\<exists>s1 r1 r2. execute_transaction sample_services sample_uuid 100 (sample_operation ''browser.control.transfer'' ''BROWSER'')
        sample_command sample_context ''key'' empty_store = Inr (s1, r1)
    \<and> execute_transaction sample_services id 900 (sample_operation ''browser.control.transfer'' ''BROWSER'')
        sample_command sample_context ''key'' s1 = Inr (s1, r2) \<and> or_commandId r2 = or_commandId r1 \<and> or_idempotencyReplay r2
    \<and> execute_transaction sample_services id 900 (sample_operation ''browser.control.transfer'' ''BROWSER'')
        changed_command sample_context ''key'' s1 = Inl (Domain_Error ''IDEMPOTENCY_CONFLICT'')"
proof -
  let ?op = "sample_operation ''browser.control.transfer'' ''BROWSER''"
  obtain s1 r1 where run: "execute_transaction sample_services sample_uuid 100 ?op sample_command sample_context ''key'' empty_store = Inr (s1, r1)"
    using sample_admitted by (auto simp: is_ok_iff)
  obtain d sc kd where dig: "command_digests sample_services sample_command sample_context ''key'' = (d, sc, kd)"
    by (cases "command_digests sample_services sample_command sample_context ''key''")
  obtain d' where dig': "command_digests sample_services changed_command sample_context ''key'' = (d', sc, kd)"
    using dig by (auto simp: command_digests_def changed_command_def)
  have "fst (command_digests sample_services changed_command sample_context ''key'') \<noteq> fst (command_digests sample_services sample_command sample_context ''key'')"
    by code_simp
  then have "d' \<noteq> d" using dig dig' by simp
  with admission_idempotent [OF run dig dig refl, of id 900 ?op] admission_idempotent [OF run dig dig' refl, of id 900 ?op] run
  show ?thesis by auto
qed

end
