(* ===== verification/CommandWorker.thy ===== *)
theory CommandWorker
  imports CommandAdmission
begin

text \<open>
  The worker that runs admitted commands: \<^verbatim>\<open>CanonicalCommandWorker\<close> and the functions it calls
  (\<^verbatim>\<open>packages/domain/src/operations.ts\<close>). Each transaction is one function from the state of the
  database to an error or the new state; the queue rows other transactions hold locked, which
  \<^verbatim>\<open>SKIP LOCKED\<close> passes over, are a parameter. The business handlers and the specialist executor are
  parameters over the aggregates and the side-effect ledger.
\<close>

section \<open>Claims of a worker\<close>

record worker_options =
  wo_queueNames :: "string list"
  wo_allowedOperations :: "string list option"
  wo_workerId :: string
  wo_leaseSeconds :: int \<comment> \<open>60 where the option is absent\<close>

record worker_row =
  wr_queue_id :: string
  wr_queue_name :: string
  wr_command_id :: string
  wr_operation_name :: string
  wr_request :: operation_command
  wr_correlation_id :: string
  wr_target_id :: "string option"
  wr_logical_operation_id :: string
  wr_activation_epoch :: int
  wr_lineage :: lineage
  wr_claim_id :: string
  wr_fencing_token :: int
  wr_lease_token :: int

definition queue_claimable :: "int \<Rightarrow> queue_row \<Rightarrow> bool" where
  "queue_claimable now q = (qi_status q = ''READY''
     \<or> qi_status q = ''CLAIMED'' \<and> (case qi_lease_expires_at q of None \<Rightarrow> False | Some t \<Rightarrow> t \<le> now))"

definition claim_current :: "lineage \<Rightarrow> command_row \<Rightarrow> claim_row \<Rightarrow> bool" where
  "claim_current lin c cl = (\<not> cl_released cl \<and> cl_logical_operation_id cl = cm_logical_operation_id c
     \<and> cl_fencing_token cl = cm_fencing_token c \<and> cl_lineage cl = lin)"

definition is_candidate :: "worker_options \<Rightarrow> int \<Rightarrow> lineage \<Rightarrow> 'a kcml \<Rightarrow> queue_row \<Rightarrow> bool" where
  "is_candidate wo now lin s q = (qi_queue_name q \<in> set (wo_queueNames wo) \<and> qi_available_at q \<le> now \<and> queue_claimable now q
     \<and> qi_lineage q = lin
     \<and> list_ex (\<lambda>c. cm_id c = qi_command_id q
         \<and> (case wo_allowedOperations wo of None \<Rightarrow> True | Some ops \<Rightarrow> cm_operation_name c \<in> set ops)
         \<and> cm_lineage c = lin \<and> qi_fencing_token q = cm_fencing_token c
         \<and> list_ex (\<lambda>cl. cl_id cl = cm_claim_id c \<and> claim_current lin c cl) (kc_claims s)
         \<and> list_ex (\<lambda>a. ad_command_id a = cm_id c \<and> (ad_state a = ''ADMITTED''
             \<or> ad_state a = ''TERMINAL'' \<and> list_ex (\<lambda>p. cp_command_id p = cm_id c) (kc_checkpoints s))) (kc_admissions s)) (kc_commands s))"

definition queue_order :: "queue_row \<Rightarrow> queue_row \<Rightarrow> bool" where
  "queue_order a b = (qi_priority a < qi_priority b \<or> qi_priority a = qi_priority b \<and> (qi_available_at a < qi_available_at b
     \<or> qi_available_at a = qi_available_at b \<and> code_unit_le (qi_id a) (qi_id b)))"

definition lockWorkerAggregate :: "'a op_services \<Rightarrow> string \<Rightarrow> string option \<Rightarrow> 'a \<Rightarrow> unit outcome" where
  "lockWorkerAggregate sv operationName targetId aggregates = (case targetId of
     Some (t # ts) \<Rightarrow> bindE (admission_entity sv operationName) (\<lambda>entity.
       bindE (sv_entity_row sv aggregates entity (t # ts)) (\<lambda>row.
         if row = None then Inl (Domain_Error ''KCIP_TARGET_NOT_FOUND'') else Inr ()))
   | _ \<Rightarrow> Inr ())"

text \<open>The statements that advance the fences of a claimed command.\<close>

definition advance_fences ::
  "worker_options \<Rightarrow> int \<Rightarrow> lineage \<Rightarrow> queue_row \<Rightarrow> command_row \<Rightarrow> claim_row \<Rightarrow> 'a kcml \<Rightarrow> ('a kcml \<times> worker_row option) outcome" where
  "advance_fences wo now lin q c cl s =
     (let token = cl_fencing_token cl + 1; lease = qi_lease_token q + 1;
          claim_hit = (\<lambda>x. cl_id x = cl_id cl \<and> cl_logical_operation_id x = cm_logical_operation_id c
            \<and> cl_fencing_token x = cl_fencing_token cl \<and> ln_recovery (cl_lineage x) = ln_recovery lin \<and> \<not> cl_released x);
          queue_hit = (\<lambda>x. qi_id x = qi_id q \<and> ln_recovery (qi_lineage x) = ln_recovery lin);
          command_hit = (\<lambda>x. cm_id x = cm_id c \<and> ln_recovery (cm_lineage x) = ln_recovery lin \<and> cm_status x \<in> set [''ACCEPTED'', ''RUNNING'']) in
      if sql_count claim_hit (kc_claims s) \<noteq> 1 then Inr (s, None)
      else if sql_count queue_hit (kc_queue s) \<noteq> 1 \<or> sql_count command_hit (kc_commands s) \<noteq> 1
        then Inl (Domain_Error ''FENCING_TOKEN_STALE'')
      else Inr (s\<lparr>kc_claims := sql_update claim_hit (\<lambda>x. x\<lparr>cl_owner_instance_id := wo_workerId wo, cl_fencing_token := token,
                     cl_expires_at := now + 300000\<rparr>) (kc_claims s),
                  kc_queue := sql_update queue_hit (\<lambda>x. x\<lparr>qi_status := ''CLAIMED'', qi_lease_owner := Some (wo_workerId wo),
                     qi_lease_token := lease, qi_lease_expires_at := Some (now + 1000 * wo_leaseSeconds wo),
                     qi_attempt_count := qi_attempt_count x + 1, qi_fencing_token := token\<rparr>) (kc_queue s),
                  kc_commands := sql_update command_hit (\<lambda>x. x\<lparr>cm_status := ''RUNNING'', cm_fencing_token := token,
                     cm_state_version := cm_state_version x + 1\<rparr>) (kc_commands s)\<rparr>,
           Some \<lparr>wr_queue_id = qi_id q, wr_queue_name = qi_queue_name q, wr_command_id = cm_id c, wr_operation_name = cm_operation_name c,
             wr_request = cm_request c, wr_correlation_id = cm_correlation_id c, wr_target_id = cm_target_id c,
             wr_logical_operation_id = cm_logical_operation_id c, wr_activation_epoch = cm_activation_epoch c,
             wr_lineage = qi_lineage q, wr_claim_id = qi_claim_id q, wr_fencing_token = token, wr_lease_token = lease\<rparr>))"

definition claim_candidate ::
  "'a op_services \<Rightarrow> worker_options \<Rightarrow> int \<Rightarrow> lineage \<Rightarrow> queue_row \<Rightarrow> 'a kcml \<Rightarrow> ('a kcml \<times> worker_row option) outcome" where
  "claim_candidate sv wo now lin q s =
     (case sql_first (\<lambda>c. cm_id c = qi_command_id q) (kc_commands s) of
        None \<Rightarrow> Inr (s, None)
      | Some c \<Rightarrow> (case sql_first (\<lambda>a. ad_command_id a = cm_id c) (kc_admissions s) of
          None \<Rightarrow> Inr (s, None)
        | Some adm \<Rightarrow>
            bindE (lockWorkerAggregate sv (cm_operation_name c) (cm_target_id c) (kc_aggregates s)) (\<lambda>_.
            case sql_first (\<lambda>cl. cl_id cl = cm_claim_id c) (kc_claims s) of
              None \<Rightarrow> Inr (s, None)
            | Some cl \<Rightarrow>
                if \<not> claim_current lin c cl then Inr (s, None)
                else let checkpointExists = (sql_count (\<lambda>p. cp_command_id p = cm_id c) (kc_checkpoints s) = 1) in
                  if ad_state adm \<noteq> ''ADMITTED'' \<and> \<not> (ad_state adm = ''TERMINAL'' \<and> checkpointExists) then Inr (s, None)
                  else if \<not> queue_claimable now q \<or> qi_fencing_token q \<noteq> cl_fencing_token cl \<or> cm_fencing_token c \<noteq> cl_fencing_token cl
                    then Inr (s, None)
                  else advance_fences wo now lin q c cl s)))"

definition claim_transaction ::
  "'a op_services \<Rightarrow> worker_options \<Rightarrow> (string \<Rightarrow> bool) \<Rightarrow> int \<Rightarrow> 'a kcml \<Rightarrow> ('a kcml \<times> worker_row option) outcome" where
  "claim_transaction sv wo locked now s =
     bindE (lockAndVerifyPlatformRecovery (kc_recovery s)) (\<lambda>head.
     case js_sort queue_order (filter (\<lambda>q. is_candidate wo now (ah_lineage head) s q \<and> \<not> locked (qi_id q)) (kc_queue s)) of
       [] \<Rightarrow> Inr (s, None)
     | q # _ \<Rightarrow> claim_candidate sv wo now (ah_lineage head) q s)"

section \<open>Verification of the fence\<close>

definition verifyWorkerClaimAndAdmission ::
  "'a op_services \<Rightarrow> int \<Rightarrow> worker_row \<Rightarrow> string list \<Rightarrow> bool \<Rightarrow> 'a kcml \<Rightarrow> 'a kcml outcome" where
  "verifyWorkerClaimAndAdmission sv now row allowedAdmissionStates heartbeatClaim s =
     (case sql_first (\<lambda>a. ad_command_id a = wr_command_id row) (kc_admissions s) of
        None \<Rightarrow> Inl (Domain_Error ''TOOL_ARGUMENT_SCHEMA_INVALID'')
      | Some adm \<Rightarrow> (case sql_first (\<lambda>h. dh_id h = ad_domain_id adm) (kc_heads s) of
          None \<Rightarrow> Inl (Domain_Error ''TOOL_ARGUMENT_SCHEMA_INVALID'')
        | Some head \<Rightarrow>
            bindE (lockWorkerAggregate sv (wr_operation_name row) (wr_target_id row) (kc_aggregates s)) (\<lambda>_.
            case sql_first (\<lambda>cl. cl_id cl = wr_claim_id row) (kc_claims s) of
              None \<Rightarrow> Inl (Domain_Error ''FENCING_TOKEN_STALE'')
            | Some cl \<Rightarrow>
                if cl_released cl \<or> cl_lineage cl \<noteq> wr_lineage row \<or> cl_logical_operation_id cl \<noteq> wr_logical_operation_id row
                  \<or> cl_fencing_token cl \<noteq> wr_fencing_token row
                then Inl (Domain_Error ''FENCING_TOKEN_STALE'')
                else if ad_state adm \<notin> set allowedAdmissionStates \<or> ad_pinned_epoch adm \<noteq> dh_current_activation_epoch head
                  \<or> ad_pinned_epoch adm \<noteq> wr_activation_epoch row
                then Inl (Domain_Error ''STATE_VERSION_CONFLICT'')
                else if heartbeatClaim
                then Inr (s\<lparr>kc_claims := sql_update (\<lambda>x. cl_id x = cl_id cl \<and> cl_fencing_token x = cl_fencing_token cl
                    \<and> ln_recovery (cl_lineage x) = ln_recovery (cl_lineage cl)) (\<lambda>x. x\<lparr>cl_expires_at := now + 300000\<rparr>) (kc_claims s)\<rparr>)
                else Inr s)))"

definition checkpointRecoveryAuthorized :: "worker_row \<Rightarrow> checkpoint_row \<Rightarrow> 'a kcml \<Rightarrow> bool" where
  "checkpointRecoveryAuthorized row cp s =
     (if cp_logical_operation_id cp \<noteq> wr_logical_operation_id row \<or> cp_claim_id cp \<noteq> wr_claim_id row
        \<or> wr_fencing_token row < cp_fencing_token cp then False
      else if cp_recovery_epoch cp = ln_recovery (wr_lineage row) then True
      else (case kc_recovery s of None \<Rightarrow> False
        | Some h \<Rightarrow> rr_state h = ''READY'' \<and> ln_recovery (rr_lineage h) = ln_recovery (wr_lineage row)
            \<and> list_ex (\<lambda>i. ri_owner_kind i = ''DOMAIN_COMMAND'' \<and> ri_owner_id i = wr_command_id row
                \<and> ri_classification i = ''TERMINAL_REPLAY'' \<and> \<not> ri_blocking i) (kc_recovery_items s)))"

section \<open>Applying a command\<close>

type_synonym 'a handler = "authority_head \<Rightarrow> 'a \<times> effect_row list \<Rightarrow> (('a \<times> effect_row list) \<times> cjson) outcome"

definition checkpoint_of :: "worker_row \<Rightarrow> 'a kcml \<Rightarrow> checkpoint_row option" where
  "checkpoint_of row s = sql_first (\<lambda>p. cp_command_id p = wr_command_id row) (kc_checkpoints s)"

text \<open>
  The part every command transaction begins with: the recovery head, the checkpoint, the fence. It
  yields the state with the renewed claim and the checkpoint, if there is one.
\<close>

definition enter_command ::
  "'a op_services \<Rightarrow> int \<Rightarrow> worker_row \<Rightarrow> 'a kcml \<Rightarrow> ('a kcml \<times> authority_head \<times> checkpoint_row option) outcome" where
  "enter_command sv now row s =
     bindE (lockAndVerifyPlatformRecovery (kc_recovery s)) (\<lambda>head.
     if ln_recovery (wr_lineage row) \<noteq> ln_recovery (ah_lineage head) then Inl (Domain_Error ''PLATFORM_INCARNATION_STALE'')
     else bindE (verifyWorkerClaimAndAdmission sv now row
         (if checkpoint_of row s \<noteq> None then [''ADMITTED'', ''TERMINAL''] else [''ADMITTED'']) True s) (\<lambda>s1.
       case checkpoint_of row s of
         None \<Rightarrow> Inr (s1, head, None)
       | Some cp \<Rightarrow> if checkpointRecoveryAuthorized row cp s1 then Inr (s1, head, Some cp)
           else Inl (Domain_Error ''CHECKPOINT_DIGEST_INVALID'')))"

definition deadline_elapsed :: "'a op_services \<Rightarrow> int \<Rightarrow> worker_row \<Rightarrow> 'a kcml \<Rightarrow> bool" where
  "deadline_elapsed sv now row s = (case sql_first (\<lambda>c. cm_id c = wr_command_id row) (kc_commands s) of
     None \<Rightarrow> False
   | Some c \<Rightarrow> (case oc_deadlineAt (cm_request c) of None \<Rightarrow> False
       | Some d \<Rightarrow> (case jc_date_ms (sv_conversions sv) d of None \<Rightarrow> False | Some ms \<Rightarrow> ms \<le> now)))"

definition insert_checkpoint :: "worker_row \<Rightarrow> cjson \<Rightarrow> 'a kcml \<Rightarrow> 'a kcml" where
  "insert_checkpoint row result s = s\<lparr>kc_checkpoints := kc_checkpoints s @ [\<lparr>cp_command_id = wr_command_id row,
     cp_logical_operation_id = wr_logical_operation_id row, cp_output = result, cp_claim_id = wr_claim_id row,
     cp_fencing_token = wr_fencing_token row, cp_recovery_epoch = ln_recovery (wr_lineage row)\<rparr>]\<rparr>"

definition run_handler :: "'a handler \<Rightarrow> authority_head \<Rightarrow> 'a kcml \<Rightarrow> ('a kcml \<times> cjson) outcome" where
  "run_handler apply_fn head s = bindE (apply_fn head (kc_aggregates s, kc_effects s)) (\<lambda>((aggregates, effects), result).
     Inr (s\<lparr>kc_aggregates := aggregates, kc_effects := effects\<rparr>, result))"

definition applyInCommandTransaction ::
  "'a op_services \<Rightarrow> int \<Rightarrow> 'a handler \<Rightarrow> worker_row \<Rightarrow> 'a kcml \<Rightarrow> ('a kcml \<times> cjson) outcome" where
  "applyInCommandTransaction sv now apply_fn row s =
     bindE (enter_command sv now row s) (\<lambda>(s1, head, checkpoint). case checkpoint of
       Some cp \<Rightarrow> Inr (s1, cp_output cp)
     | None \<Rightarrow>
         if deadline_elapsed sv now row s1 then Inl (Domain_Error ''KCIP_DEADLINE_EXCEEDED'')
         else bindE (run_handler apply_fn head s1) (\<lambda>(s2, result). Inr (insert_checkpoint row result s2, result)))"

text \<open>
  A specialist operation prepares in one transaction, acts outside the database, and reconciles in
  another; a checkpoint found in either is replayed.
\<close>

datatype 'p specialist_preparation = Replay_Output cjson | Prepared 'p

definition prepare_specialist ::
  "'a op_services \<Rightarrow> int \<Rightarrow> (authority_head \<Rightarrow> 'a \<times> effect_row list \<Rightarrow> (('a \<times> effect_row list) \<times> 'p) outcome) \<Rightarrow> worker_row
   \<Rightarrow> 'a kcml \<Rightarrow> ('a kcml \<times> 'p specialist_preparation) outcome" where
  "prepare_specialist sv now prepare row s =
     bindE (enter_command sv now row s) (\<lambda>(s1, head, checkpoint). case checkpoint of
       Some cp \<Rightarrow> Inr (s1, Replay_Output (cp_output cp))
     | None \<Rightarrow>
         if deadline_elapsed sv now row s1 then Inl (Domain_Error ''KCIP_DEADLINE_EXCEEDED'')
         else bindE (prepare head (kc_aggregates s1, kc_effects s1)) (\<lambda>((aggregates, effects), p).
           Inr (s1\<lparr>kc_aggregates := aggregates, kc_effects := effects\<rparr>, Prepared p)))"

datatype reconcile_result = Reconciled_Applied cjson | Reconciled_Failed js_error

definition reconcile_specialist ::
  "'a op_services \<Rightarrow> int \<Rightarrow> (authority_head \<Rightarrow> 'a \<times> effect_row list \<Rightarrow> (('a \<times> effect_row list) \<times> reconcile_result) outcome) \<Rightarrow> worker_row
   \<Rightarrow> 'a kcml \<Rightarrow> ('a kcml \<times> reconcile_result) outcome" where
  "reconcile_specialist sv now reconcile row s =
     bindE (enter_command sv now row s) (\<lambda>(s1, head, checkpoint). case checkpoint of
       Some cp \<Rightarrow> Inr (s1, Reconciled_Applied (cp_output cp))
     | None \<Rightarrow> bindE (reconcile head (kc_aggregates s1, kc_effects s1)) (\<lambda>((aggregates, effects), result).
         let s2 = s1\<lparr>kc_aggregates := aggregates, kc_effects := effects\<rparr> in
         case result of
           Reconciled_Failed e \<Rightarrow> Inr (s2, Reconciled_Failed e)
         | Reconciled_Applied v \<Rightarrow> Inr (insert_checkpoint row v s2, Reconciled_Applied v)))"

text \<open>What \<^verbatim>\<open>applyCommand\<close> checks before it chooses the path.\<close>

definition check_delivery :: "'a op_services \<Rightarrow> worker_row \<Rightarrow> op_contract outcome" where
  "check_delivery sv row =
     bindE (catalog_get (sv_catalog sv) (wr_operation_name row)) (\<lambda>operation.
     bindE (authorityFor (sv_catalog sv) operation) (\<lambda>_.
     bindE (operationHandlerFor (sv_handlers sv) (oc_operationName operation)) (\<lambda>h.
     if wr_queue_name row \<noteq> hs_queue h \<or> hs_strategy h = ''CONSISTENT_QUERY'' then Inl (Domain_Error ''OPERATION_CONTRACT_INCOMPLETE'')
     else Inr operation)))"

section \<open>Terminal writes\<close>

definition output_field :: "'a op_services \<Rightarrow> cjson \<Rightarrow> string list \<Rightarrow> int outcome" where
  "output_field sv v keys = (case v of
     CObj es \<Rightarrow> (case filter (\<lambda>k. map_of es k \<noteq> None \<and> map_of es k \<noteq> Some CNull) keys of
         [] \<Rightarrow> Inr 0
       | k # _ \<Rightarrow> (case jc_bigint_of_text (sv_conversions sv) (js_string (the (map_of es k))) of
           None \<Rightarrow> Inl (Plain_Error ''SyntaxError'') | Some n \<Rightarrow> Inr n))
   | _ \<Rightarrow> Inr 0)"

definition set_command :: "string \<Rightarrow> (command_row \<Rightarrow> command_row) \<Rightarrow> 'a kcml \<Rightarrow> 'a kcml" where
  "set_command i f s = s\<lparr>kc_commands := sql_update (\<lambda>c. cm_id c = i) (\<lambda>c. (f c)\<lparr>cm_state_version := cm_state_version c + 1\<rparr>) (kc_commands s)\<rparr>"

definition set_queue :: "string \<Rightarrow> (queue_row \<Rightarrow> queue_row) \<Rightarrow> 'a kcml \<Rightarrow> 'a kcml" where
  "set_queue i f s = s\<lparr>kc_queue := sql_update (\<lambda>q. qi_id q = i) (\<lambda>q. (f q)\<lparr>qi_lease_owner := None, qi_lease_expires_at := None\<rparr>) (kc_queue s)\<rparr>"

definition set_idempotency :: "string \<Rightarrow> string \<Rightarrow> int \<Rightarrow> operation_result \<Rightarrow> 'a kcml \<Rightarrow> 'a kcml" where
  "set_idempotency commandId lifecycle status response s = s\<lparr>kc_idempotency := sql_update (\<lambda>r. ir_command_id r = commandId)
     (\<lambda>r. r\<lparr>ir_lifecycle := lifecycle, ir_response_status := Some status, ir_response_body := Some response\<rparr>) (kc_idempotency s)\<rparr>"

definition terminal_result ::
  "'a op_services \<Rightarrow> int \<Rightarrow> string \<Rightarrow> worker_row \<Rightarrow> int \<Rightarrow> int \<Rightarrow> int \<Rightarrow> string \<Rightarrow> cjson \<Rightarrow> canonical_failure option \<Rightarrow> operation_result" where
  "terminal_result sv now status row stateVersion eventSequence activationEpoch digest result err =
     \<lparr>or_status = status, or_correlationId = wr_correlation_id row, or_logicalOperationId = wr_logical_operation_id row,
      or_commandId = wr_command_id row, or_stateVersion = stateVersion, or_eventSequence = eventSequence,
      or_activationEpoch = activationEpoch, or_resultDigest = digest, or_idempotencyReplay = False, or_serverTime = now,
      or_result = result, or_error = err\<rparr>"

definition complete_transaction ::
  "'a op_services \<Rightarrow> worker_options \<Rightarrow> int \<Rightarrow> worker_row \<Rightarrow> cjson \<Rightarrow> 'a kcml \<Rightarrow> ('a kcml \<times> unit) outcome" where
  "complete_transaction sv wo now row result s =
     bindE (lockAndVerifyPlatformRecovery (kc_recovery s)) (\<lambda>head.
     if ln_recovery (wr_lineage row) \<noteq> ln_recovery (ah_lineage head) then Inl (Domain_Error ''PLATFORM_INCARNATION_STALE'')
     else (case checkpoint_of row s of
       None \<Rightarrow> Inl (Domain_Error ''CHECKPOINT_STALE'')
     | Some cp \<Rightarrow>
         if \<not> checkpointRecoveryAuthorized row cp s then Inl (Domain_Error ''CHECKPOINT_STALE'')
         else bindE (verifyWorkerClaimAndAdmission sv now row [''ADMITTED'', ''TERMINAL''] False s) (\<lambda>s.
           case sql_first (\<lambda>q. qi_id q = wr_queue_id row) (kc_queue s) of
             None \<Rightarrow> Inl (Plain_Error ''TypeError'')
           | Some q \<Rightarrow>
               let digest = canonicalDigest (sv_sha256 sv) (sv_collation sv) in
               if qi_status q \<noteq> ''CLAIMED'' \<or> qi_lease_owner q \<noteq> Some (wo_workerId wo) \<or> qi_lease_token q \<noteq> wr_lease_token row
               then Inl (Domain_Error ''FENCING_TOKEN_STALE'')
               else if digest (cp_output cp) \<noteq> digest result then Inl (Domain_Error ''CHECKPOINT_DIGEST_INVALID'')
               else bindE (output_field sv (cp_output cp) [''state_version'']) (\<lambda>stateVersion.
                 bindE (output_field sv (cp_output cp) [''aggregate_event_sequence'']) (\<lambda>eventSequence.
                 bindE (output_field sv (cp_output cp) [''current_activation_epoch'', ''activation_epoch'']) (\<lambda>activationEpoch.
                 let response = terminal_result sv now ''SUCCEEDED'' row stateVersion eventSequence activationEpoch (digest (cp_output cp)) (cp_output cp) None;
                     s1 = set_command (wr_command_id row) (\<lambda>c. c\<lparr>cm_status := ''SUCCEEDED'', cm_result := Some (cp_output cp), cm_error := None\<rparr>) s;
                     s2 = set_idempotency (wr_command_id row) ''SUCCEEDED'' 200 response s1;
                     s3 = set_queue (wr_queue_id row) (\<lambda>q. q\<lparr>qi_status := ''SUCCEEDED''\<rparr>) s2;
                     s4 = terminalizeCommandGuards (wr_command_id row) (wr_logical_operation_id row) (wr_claim_id row) s3 in
                 Inr (s4\<lparr>kc_audit := kc_audit s4 @ [(''domain.command.succeeded'', wr_command_id row)]\<rparr>, ())))))))"

definition failure_json :: "canonical_failure \<Rightarrow> cjson" where
  "failure_json f = CObj [(''code'', CStr (cf_code f)), (''effectiveCode'', CStr (cf_effectiveCode f)), (''message'', CStr (cf_message f)),
     (''classification'', CStr (cf_classification f)), (''sideEffectPoint'', CStr (cf_sideEffectPoint f)),
     (''retryDirective'', opt_json (cf_retryDirective f)), (''recordDigest'', CStr (cf_recordDigest f)),
     (''registryVersion'', CStr (cf_registryVersion f)), (''httpStatus'', CNum (JInt (cf_httpStatus f))), (''details'', cf_details f),
     (''cause'', case cf_cause f of None \<Rightarrow> CNull | Some c \<Rightarrow> CObj [(''kind'', CStr (fc_kind c)), (''originalCode'', opt_json (fc_originalCode c)),
        (''digest'', CStr (fc_digest c))])]"

text \<open>The failure of one attempt and its retry plan, each recorded once.\<close>

definition record_failure :: "uuids \<Rightarrow> string \<Rightarrow> int \<Rightarrow> canonical_failure \<Rightarrow> failure_row list \<Rightarrow> failure_row list \<times> string" where
  "record_failure uuid commandId attempt failure rows = (case sql_first (\<lambda>f. fr_command_id f = commandId \<and> fr_attempt_sequence f = attempt) rows of
     Some f \<Rightarrow> (rows, fr_id f)
   | None \<Rightarrow> (rows @ [\<lparr>fr_id = uuid ''failure'', fr_command_id = commandId, fr_attempt_sequence = attempt, fr_failure = failure\<rparr>], uuid ''failure''))"

definition record_plan :: "uuids \<Rightarrow> int \<Rightarrow> string \<Rightarrow> string \<Rightarrow> retry_plan_action \<Rightarrow> lineage \<Rightarrow> plan_row list \<Rightarrow> plan_row list \<times> string" where
  "record_plan uuid now failureId commandId action lin rows = (case sql_first (\<lambda>p. pl_failure_id p = failureId) rows of
     Some p \<Rightarrow> (rows, pl_id p)
   | None \<Rightarrow> (rows @ [\<lparr>pl_id = uuid ''plan'', pl_failure_id = failureId, pl_failed_command_id = commandId, pl_action = action,
       pl_state = ''READY'', pl_available_at = now, pl_lease_owner = None, pl_lease_token = 0, pl_lease_expires_at = None,
       pl_successor_command_id = None, pl_reconciliation_id = None, pl_manual_review_id = None, pl_attempt_count = 0,
       pl_maximum_attempts = 8, pl_lineage = lin\<rparr>], uuid ''plan''))"

definition set_ready_plan :: "string \<Rightarrow> (plan_row \<Rightarrow> plan_row) \<Rightarrow> 'a kcml \<Rightarrow> 'a kcml" where
  "set_ready_plan i f s = s\<lparr>kc_plans := sql_update (\<lambda>p. pl_id p = i \<and> pl_state p = ''READY'') f (kc_plans s)\<rparr>"

definition dispatch_failure ::
  "'a op_services \<Rightarrow> uuids \<Rightarrow> int \<Rightarrow> worker_row \<Rightarrow> canonical_failure \<Rightarrow> retry_plan_decision \<Rightarrow> string \<Rightarrow> string \<Rightarrow> 'a kcml \<Rightarrow> ('a kcml \<times> unit) outcome" where
  "dispatch_failure sv uuid now row failure decision failureId planId s =
     (let cid = wr_command_id row;
          failed = (\<lambda>status. set_command cid (\<lambda>c. c\<lparr>cm_status := status, cm_error := Some failure\<rparr>));
          dequeue = set_queue (wr_queue_id row) (\<lambda>q. q\<lparr>qi_status := ''FAILED_FINAL''\<rparr>) in
      case rd_action decision of
        Retry_Same_Command \<Rightarrow> (case rp_backoffSeconds (rd_policy decision) of
          None \<Rightarrow> Inl (Pg_Error ''23502'')
        | Some seconds \<Rightarrow> Inr (set_ready_plan planId (\<lambda>p. p\<lparr>pl_state := ''COMPLETED''\<rparr>) (failed ''ACCEPTED''
            (set_queue (wr_queue_id row) (\<lambda>q. q\<lparr>qi_status := ''READY'', qi_available_at := now + 1000 * seconds\<rparr>) s)), ()))
      | Enqueue_Reconciliation \<Rightarrow> Inr (failed ''WAITING'' (dequeue s), ())
      | Create_Manual_Review \<Rightarrow>
          if list_ex (\<lambda>m. mr_plan_id m = planId) (kc_reviews s) then Inl (Pg_Error ''23505'')
          else let s1 = failed ''MANUAL_REVIEW'' (dequeue s);
                   s2 = s1\<lparr>kc_reviews := kc_reviews s1 @ [\<lparr>mr_id = uuid ''review'', mr_plan_id = planId, mr_command_id = cid, mr_failure_id = failureId\<rparr>]\<rparr> in
            Inr (set_ready_plan planId (\<lambda>p. p\<lparr>pl_state := ''WAITING_OWNER'', pl_manual_review_id := Some (uuid ''review'')\<rparr>) s2, ())
      | _ \<Rightarrow>
          let response = terminal_result sv now ''FAILED_FINAL'' row 0 0 0
                (canonicalDigest (sv_sha256 sv) (sv_collation sv) (failure_json failure)) CNull (Some failure);
              s1 = terminalizeCommandGuards cid (wr_logical_operation_id row) (wr_claim_id row)
                (set_idempotency cid ''FAILED_FINAL'' (cf_httpStatus failure) response (failed ''FAILED_FINAL'' (dequeue s))) in
          Inr (if rd_action decision = Close_Failed_Command then set_ready_plan planId (\<lambda>p. p\<lparr>pl_state := ''COMPLETED''\<rparr>) s1 else s1, ()))"

definition fail_transaction ::
  "'a op_services \<Rightarrow> worker_options \<Rightarrow> uuids \<Rightarrow> int \<Rightarrow> worker_row \<Rightarrow> thrown \<Rightarrow> 'a kcml \<Rightarrow> ('a kcml \<times> unit) outcome" where
  "fail_transaction sv wo uuid now row err s =
     bindE (lockAndVerifyPlatformRecovery (kc_recovery s)) (\<lambda>head.
     if ln_recovery (wr_lineage row) \<noteq> ln_recovery (ah_lineage head) then Inl (Domain_Error ''PLATFORM_INCARNATION_STALE'')
     else if 0 < sql_count (\<lambda>p. cp_command_id p = wr_command_id row) (kc_checkpoints s)
       then Inl (Domain_Error ''SIDE_EFFECT_RECONCILIATION_FAILED'')
     else bindE (verifyWorkerClaimAndAdmission sv now row [''ADMITTED''] False s) (\<lambda>s.
       case sql_first (\<lambda>q. qi_id q = wr_queue_id row) (kc_queue s) of
         None \<Rightarrow> Inr (s, ())
       | Some q \<Rightarrow>
           if qi_status q \<noteq> ''CLAIMED'' \<or> qi_lease_owner q \<noteq> Some (wo_workerId wo) then Inr (s, ())
           else bindE (canonicalFailure (sv_sha256 sv) (sv_collation sv) (sv_errors sv) err) (\<lambda>failure.
             bindE (planCanonicalRetry failure (JInt (qi_attempt_count q)) (JInt (qi_max_attempts q))) (\<lambda>decision.
             let (failures, failureId) = record_failure uuid (wr_command_id row) (qi_attempt_count q) failure (kc_failures s);
                 (plans, planId) = record_plan uuid now failureId (wr_command_id row) (rd_action decision) (ah_lineage head) (kc_plans s) in
             dispatch_failure sv uuid now row failure decision failureId planId (s\<lparr>kc_failures := failures, kc_plans := plans\<rparr>)))))"

section \<open>One run of the worker\<close>

record ('a, 'p, 'v) specialist_executor =
  sp_canHandle :: "string \<Rightarrow> bool"
  sp_prepare :: "op_contract \<Rightarrow> worker_row \<Rightarrow> authority_head \<Rightarrow> 'a \<times> effect_row list \<Rightarrow> (('a \<times> effect_row list) \<times> 'p) outcome"
  sp_execute :: "'p \<Rightarrow> 'v outcome"
  sp_reconcile :: "'p \<Rightarrow> 'v outcome \<Rightarrow> authority_head \<Rightarrow> 'a \<times> effect_row list \<Rightarrow> (('a \<times> effect_row list) \<times> reconcile_result) outcome"

definition applySpecialistCommand ::
  "'a op_services \<Rightarrow> int \<Rightarrow> int \<Rightarrow> ('a, 'p, 'v) specialist_executor \<Rightarrow> op_contract \<Rightarrow> worker_row \<Rightarrow> 'a kcml \<Rightarrow> 'a kcml \<times> cjson outcome" where
  "applySpecialistCommand sv now1 now2 sp operation row s =
     (case in_tx (prepare_specialist sv now1 (sp_prepare sp operation row) row) s of
        (s1, Inl e) \<Rightarrow> (s1, Inl e)
      | (s1, Inr (Replay_Output v)) \<Rightarrow> (s1, Inr v)
      | (s1, Inr (Prepared p)) \<Rightarrow>
          (case in_tx (reconcile_specialist sv now2 (sp_reconcile sp p (sp_execute sp p)) row) s1 of
             (s2, Inl e) \<Rightarrow> (s2, Inl e)
           | (s2, Inr (Reconciled_Failed e)) \<Rightarrow> (s2, Inl e)
           | (s2, Inr (Reconciled_Applied v)) \<Rightarrow> (s2, Inr v)))"

definition applyCommand ::
  "'a op_services \<Rightarrow> int \<Rightarrow> int \<Rightarrow> ('a, 'p, 'v) specialist_executor option \<Rightarrow> (op_contract \<Rightarrow> worker_row \<Rightarrow> 'a handler) \<Rightarrow> worker_row
   \<Rightarrow> 'a kcml \<Rightarrow> 'a kcml \<times> cjson outcome" where
  "applyCommand sv now1 now2 specialist handlers row s = (case check_delivery sv row of
     Inl e \<Rightarrow> (s, Inl e)
   | Inr operation \<Rightarrow>
       (case specialist of
          Some sp \<Rightarrow> if sp_canHandle sp (oc_operationName operation) then applySpecialistCommand sv now1 now2 sp operation row s
            else in_tx (applyInCommandTransaction sv now1 (handlers operation row) row) s
        | None \<Rightarrow> in_tx (applyInCommandTransaction sv now1 (handlers operation row) row) s))"

text \<open>
  \<^verbatim>\<open>runOnce\<close>: claim, apply, then complete or fail, each in its own transaction. \<open>crash\<close> is the error the
  fault injector raises between the checkpoint and the terminal write, if it does.
\<close>

definition runOnce ::
  "'a op_services \<Rightarrow> worker_options \<Rightarrow> (string \<Rightarrow> bool) \<Rightarrow> uuids \<Rightarrow> (nat \<Rightarrow> int) \<Rightarrow> js_error option \<Rightarrow> ('a, 'p, 'v) specialist_executor option
   \<Rightarrow> (op_contract \<Rightarrow> worker_row \<Rightarrow> 'a handler) \<Rightarrow> 'a kcml \<Rightarrow> 'a kcml \<times> bool outcome" where
  "runOnce sv wo locked uuid clock crash specialist handlers s =
     (case in_tx (claim_transaction sv wo locked (clock 0)) s of
        (s1, Inl e) \<Rightarrow> (s1, Inl e)
      | (s1, Inr None) \<Rightarrow> (s1, Inr False)
      | (s1, Inr (Some row)) \<Rightarrow>
          (case applyCommand sv (clock 1) (clock 2) specialist handlers row s1 of
             (s2, Inl e) \<Rightarrow> (case in_tx (fail_transaction sv wo uuid (clock 3) row (thrown_of e)) s2 of
                 (s3, Inl e') \<Rightarrow> (s3, Inl e') | (s3, Inr _) \<Rightarrow> (s3, Inr True))
           | (s2, Inr v) \<Rightarrow> (case crash of
                 Some e \<Rightarrow> (s2, Inl e)
               | None \<Rightarrow> (case in_tx (complete_transaction sv wo (clock 3) row v) s2 of
                     (s3, Inl e') \<Rightarrow> (s3, Inl e') | (s3, Inr _) \<Rightarrow> (s3, Inr True)))))"

end
