(* ===== verification/RetryScheduler.thy ===== *)
theory RetryScheduler
  imports CommandWorker
begin

text \<open>
  The scheduler of persisted retry plans: \<^verbatim>\<open>CanonicalRetryScheduler\<close>
  (\<^verbatim>\<open>packages/domain/src/operations.ts\<close>). It leases a reconciliation command or a retry plan, decides
  from the side-effect ledger whether a failed command may be retried, admits the successor under an
  idempotency key derived from the plan, and links it. The optimistic \<^verbatim>\<open>state_version\<close> test of the
  two claim statements always holds on the row its transaction has locked and is left out.
\<close>

record scheduler_options =
  so_workerId :: string
  so_leaseSeconds :: int

section \<open>Leases\<close>

definition lease_available :: "string list \<Rightarrow> int \<Rightarrow> string \<Rightarrow> int option \<Rightarrow> bool" where
  "lease_available ready now state expires = (state \<in> set ready \<or> state = ''CLAIMED'' \<and> (case expires of None \<Rightarrow> False | Some t \<Rightarrow> t \<le> now))"

definition plan_order :: "plan_row \<Rightarrow> plan_row \<Rightarrow> bool" where
  "plan_order a b = (pl_available_at a < pl_available_at b \<or> pl_available_at a = pl_available_at b \<and> code_unit_le (pl_id a) (pl_id b))"

definition plan_claimable :: "int \<Rightarrow> lineage \<Rightarrow> 'a kcml \<Rightarrow> plan_row \<Rightarrow> bool" where
  "plan_claimable now lin s p = (pl_action p \<in> {Refresh_And_Create_Successor, Enqueue_Reconciliation} \<and> pl_available_at p \<le> now
     \<and> lease_available [''READY''] now (pl_state p) (pl_lease_expires_at p) \<and> pl_lineage p = lin
     \<and> list_ex (\<lambda>c. cm_id c = pl_failed_command_id p) (kc_commands s))"

definition claimPlan :: "scheduler_options \<Rightarrow> (string \<Rightarrow> bool) \<Rightarrow> int \<Rightarrow> 'a kcml \<Rightarrow> ('a kcml \<times> plan_row option) outcome" where
  "claimPlan so locked now s = bindE (lockAndVerifyPlatformRecovery (kc_recovery s)) (\<lambda>head.
     case js_sort plan_order (filter (\<lambda>p. plan_claimable now (ah_lineage head) s p \<and> \<not> locked (pl_id p)) (kc_plans s)) of
       [] \<Rightarrow> Inr (s, None)
     | p # _ \<Rightarrow>
         let lease = (\<lambda>x. x\<lparr>pl_state := ''CLAIMED'', pl_lease_owner := Some (so_workerId so), pl_lease_token := pl_lease_token p + 1,
               pl_lease_expires_at := Some (now + 1000 * so_leaseSeconds so), pl_attempt_count := pl_attempt_count x + 1\<rparr>) in
         Inr (s\<lparr>kc_plans := sql_update (\<lambda>x. pl_id x = pl_id p) lease (kc_plans s)\<rparr>, Some (lease p)))"

definition reconciliation_order :: "reconciliation_row \<Rightarrow> reconciliation_row \<Rightarrow> bool" where
  "reconciliation_order a b = (rc_available_at a < rc_available_at b \<or> rc_available_at a = rc_available_at b \<and> code_unit_le (rc_id a) (rc_id b))"

definition reconciliation_claimable :: "int \<Rightarrow> lineage \<Rightarrow> 'a kcml \<Rightarrow> reconciliation_row \<Rightarrow> bool" where
  "reconciliation_claimable now lin s r = (rc_available_at r \<le> now
     \<and> lease_available [''READY'', ''RETRY_ALLOWED''] now (rc_state r) (rc_lease_expires_at r) \<and> rc_lineage r = lin
     \<and> list_ex (\<lambda>p. pl_id p = rc_plan_id r) (kc_plans s) \<and> list_ex (\<lambda>c. cm_id c = rc_failed_command_id r) (kc_commands s))"

text \<open>The claimed reconciliation, with the state it was claimed in and the failure of its plan.\<close>

record claimed_reconciliation =
  cr_row :: reconciliation_row
  cr_previous_state :: string
  cr_failure_id :: string
  cr_plan_failed_command_id :: string

definition claimReconciliation :: "scheduler_options \<Rightarrow> (string \<Rightarrow> bool) \<Rightarrow> int \<Rightarrow> 'a kcml \<Rightarrow> ('a kcml \<times> claimed_reconciliation option) outcome" where
  "claimReconciliation so locked now s = bindE (lockAndVerifyPlatformRecovery (kc_recovery s)) (\<lambda>head.
     case js_sort reconciliation_order (filter (\<lambda>r. reconciliation_claimable now (ah_lineage head) s r \<and> \<not> locked (rc_id r)) (kc_reconciliations s)) of
       [] \<Rightarrow> Inr (s, None)
     | r # _ \<Rightarrow> (case sql_first (\<lambda>p. pl_id p = rc_plan_id r) (kc_plans s) of
         None \<Rightarrow> Inr (s, None)
       | Some p \<Rightarrow>
         let lease = (\<lambda>x. x\<lparr>rc_state := ''CLAIMED'', rc_lease_owner := Some (so_workerId so), rc_lease_token := rc_lease_token r + 1,
               rc_lease_expires_at := Some (now + 1000 * so_leaseSeconds so), rc_attempt_count := rc_attempt_count x + 1\<rparr>) in
         Inr (s\<lparr>kc_reconciliations := sql_update (\<lambda>x. rc_id x = rc_id r) lease (kc_reconciliations s)\<rparr>,
           Some \<lparr>cr_row = lease r, cr_previous_state = rc_state r, cr_failure_id = pl_failure_id p, cr_plan_failed_command_id = pl_failed_command_id p\<rparr>)))"

definition holds_plan_lease :: "scheduler_options \<Rightarrow> int \<Rightarrow> plan_row \<Rightarrow> bool" where
  "holds_plan_lease so token current = (pl_lease_owner current = Some (so_workerId so) \<and> pl_lease_token current = token)"

definition holds_reconciliation_lease :: "scheduler_options \<Rightarrow> reconciliation_row \<Rightarrow> reconciliation_row \<Rightarrow> bool" where
  "holds_reconciliation_lease so r current = (rc_state current = ''CLAIMED'' \<and> rc_lease_owner current = Some (so_workerId so)
     \<and> rc_lease_token current = rc_lease_token r)"

definition set_plan :: "string \<Rightarrow> (plan_row \<Rightarrow> plan_row) \<Rightarrow> 'a kcml \<Rightarrow> 'a kcml" where
  "set_plan i f s = s\<lparr>kc_plans := sql_update (\<lambda>p. pl_id p = i) (\<lambda>p. (f p)\<lparr>pl_lease_owner := None, pl_lease_expires_at := None\<rparr>) (kc_plans s)\<rparr>"

definition set_reconciliation :: "string \<Rightarrow> (reconciliation_row \<Rightarrow> reconciliation_row) \<Rightarrow> 'a kcml \<Rightarrow> 'a kcml" where
  "set_reconciliation i f s = s\<lparr>kc_reconciliations := sql_update (\<lambda>r. rc_id r = i)
     (\<lambda>r. (f r)\<lparr>rc_lease_owner := None, rc_lease_expires_at := None\<rparr>) (kc_reconciliations s)\<rparr>"

section \<open>Reconciliation\<close>

definition enqueueReconciliation :: "scheduler_options \<Rightarrow> uuids \<Rightarrow> int \<Rightarrow> plan_row \<Rightarrow> 'a kcml \<Rightarrow> ('a kcml \<times> unit) outcome" where
  "enqueueReconciliation so uuid now plan s = bindE (lockAndVerifyPlatformRecovery (kc_recovery s)) (\<lambda>head.
     case sql_first (\<lambda>p. pl_id p = pl_id plan) (kc_plans s) of
       None \<Rightarrow> Inl (Domain_Error ''FENCING_TOKEN_STALE'')
     | Some current \<Rightarrow>
         if pl_state current \<noteq> ''CLAIMED'' \<or> \<not> holds_plan_lease so (pl_lease_token plan) current then Inl (Domain_Error ''FENCING_TOKEN_STALE'')
         else let existing = sql_first (\<lambda>r. rc_plan_id r = pl_id plan) (kc_reconciliations s);
                  rid = (case existing of Some r \<Rightarrow> rc_id r | None \<Rightarrow> uuid ''reconciliation'');
                  rows = (case existing of Some _ \<Rightarrow> kc_reconciliations s
                    | None \<Rightarrow> kc_reconciliations s @ [\<lparr>rc_id = rid, rc_plan_id = pl_id plan, rc_failed_command_id = pl_failed_command_id plan,
                        rc_state = ''READY'', rc_available_at = now, rc_attempt_count = 0, rc_maximum_attempts = 8, rc_lease_owner = None,
                        rc_lease_token = 0, rc_lease_expires_at = None, rc_lineage = ah_lineage head\<rparr>]) in
           Inr (set_plan (pl_id plan) (\<lambda>p. p\<lparr>pl_state := ''WAITING_RECONCILIATION'', pl_reconciliation_id := Some rid\<rparr>)
             (s\<lparr>kc_reconciliations := rows\<rparr>), ()))"

text \<open>The oracle over the side-effect ledger of the failed command.\<close>

definition effect_retryable :: "effect_row \<Rightarrow> bool" where
  "effect_retryable e = (ef_status e \<in> set [''CONFIRMED_NOT_APPLIED'', ''FAILED_FINAL'']
     \<or> ef_status e = ''INTENT_RECORDED'' \<and> ef_attempt_count e = 0 \<and> ef_dispatch_authority_count e = 0)"

definition retry_allowed :: "string \<Rightarrow> 'a kcml \<Rightarrow> bool" where
  "retry_allowed commandId s = list_all effect_retryable (filter (\<lambda>e. ef_command_id e = commandId) (kc_effects s))"

definition effect_applied :: "string \<Rightarrow> 'a kcml \<Rightarrow> bool" where
  "effect_applied commandId s = list_ex (\<lambda>e. ef_status e = ''CONFIRMED_APPLIED'') (filter (\<lambda>e. ef_command_id e = commandId) (kc_effects s))"

definition createManualReview :: "uuids \<Rightarrow> string \<Rightarrow> string \<Rightarrow> string \<Rightarrow> 'a kcml \<Rightarrow> 'a kcml" where
  "createManualReview uuid planId commandId failureId s =
     (let existing = sql_first (\<lambda>m. mr_plan_id m = planId) (kc_reviews s);
          rid = (case existing of Some m \<Rightarrow> mr_id m | None \<Rightarrow> uuid ''review'');
          reviews = (case existing of Some _ \<Rightarrow> kc_reviews s
            | None \<Rightarrow> kc_reviews s @ [\<lparr>mr_id = rid, mr_plan_id = planId, mr_command_id = commandId, mr_failure_id = failureId\<rparr>]);
          s1 = set_plan planId (\<lambda>p. p\<lparr>pl_state := ''WAITING_OWNER'', pl_manual_review_id := Some rid\<rparr>) (s\<lparr>kc_reviews := reviews\<rparr>) in
      s1\<lparr>kc_commands := sql_update (\<lambda>c. cm_id c = commandId \<and> cm_status c = ''WAITING'')
        (\<lambda>c. c\<lparr>cm_status := ''MANUAL_REVIEW'', cm_state_version := cm_state_version c + 1\<rparr>) (kc_commands s1)\<rparr>)"

definition reconciliation_delay :: "int \<Rightarrow> int" where
  "reconciliation_delay attempts = min 300 (2 ^ nat (min 8 attempts))"

definition decide_reconciliation :: "scheduler_options \<Rightarrow> uuids \<Rightarrow> int \<Rightarrow> claimed_reconciliation \<Rightarrow> 'a kcml \<Rightarrow> ('a kcml \<times> unit) outcome" where
  "decide_reconciliation so uuid now command s = bindE (lockAndVerifyPlatformRecovery (kc_recovery s)) (\<lambda>_.
     let rid = rc_id (cr_row command); failed = cr_plan_failed_command_id command in
     case sql_first (\<lambda>r. rc_id r = rid) (kc_reconciliations s) of
       None \<Rightarrow> Inl (Domain_Error ''FENCING_TOKEN_STALE'')
     | Some current \<Rightarrow>
         if \<not> holds_reconciliation_lease so (cr_row command) current then Inl (Domain_Error ''FENCING_TOKEN_STALE'')
         else if retry_allowed failed s then Inr (set_reconciliation rid (\<lambda>r. r\<lparr>rc_state := ''RETRY_ALLOWED''\<rparr>) s, ())
         else if effect_applied failed s \<or> rc_maximum_attempts current \<le> rc_attempt_count current
         then Inr (set_reconciliation rid (\<lambda>r. r\<lparr>rc_state := ''MANUAL_REVIEW''\<rparr>)
           (createManualReview uuid (rc_plan_id (cr_row command)) failed (cr_failure_id command) s), ())
         else Inr (set_reconciliation rid (\<lambda>r. r\<lparr>rc_state := ''READY'',
             rc_available_at := now + 1000 * reconciliation_delay (rc_attempt_count current)\<rparr>) s, ()))"

section \<open>Successors\<close>

definition terminalizeReplacedCommand :: "'a op_services \<Rightarrow> int \<Rightarrow> command_row \<Rightarrow> 'a kcml \<Rightarrow> 'a kcml outcome" where
  "terminalizeReplacedCommand sv now command s =
     bindE (case cm_error command of Some f \<Rightarrow> Inr f
       | None \<Rightarrow> canonicalFailure (sv_sha256 sv) (sv_collation sv) (sv_errors sv) (Thrown_Domain ''ERROR_RECOVERY_CONTRACT_INCOMPLETE'' CNull)) (\<lambda>failure.
     let response = \<lparr>or_status = ''FAILED_FINAL'', or_correlationId = cm_correlation_id command,
           or_logicalOperationId = cm_logical_operation_id command, or_commandId = cm_id command, or_stateVersion = cm_state_version command,
           or_eventSequence = 0, or_activationEpoch = cm_activation_epoch command,
           or_resultDigest = canonicalDigest (sv_sha256 sv) (sv_collation sv) (failure_json failure), or_idempotencyReplay = False,
           or_serverTime = now, or_result = CNull, or_error = Some failure\<rparr>;
         s1 = s\<lparr>kc_commands := sql_update (\<lambda>c. cm_id c = cm_id command \<and> cm_status c = ''WAITING'')
           (\<lambda>c. c\<lparr>cm_status := ''FAILED_FINAL'', cm_state_version := cm_state_version c + 1\<rparr>) (kc_commands s)\<rparr>;
         s2 = s1\<lparr>kc_idempotency := sql_update (\<lambda>r. ir_command_id r = cm_id command \<and> ir_lifecycle r = ''EXECUTING'')
           (\<lambda>r. r\<lparr>ir_lifecycle := ''FAILED_FINAL'', ir_response_status := Some (case cm_error command of Some f \<Rightarrow> cf_httpStatus f | None \<Rightarrow> 500),
             ir_response_body := Some response\<rparr>) (kc_idempotency s1)\<rparr> in
     Inr (terminalizeCommandGuards (cm_id command) (cm_logical_operation_id command) (cm_claim_id command) s2))"

text \<open>The plan a successor is created for, as the claim of the plan or of its reconciliation names it.\<close>

record plan_ref =
  pr_id :: string
  pr_failed_command_id :: string
  pr_lease_token :: int

definition ref_of_plan :: "plan_row \<Rightarrow> plan_ref" where
  "ref_of_plan p = \<lparr>pr_id = pl_id p, pr_failed_command_id = pl_failed_command_id p, pr_lease_token = pl_lease_token p\<rparr>"

definition ref_of_reconciliation :: "claimed_reconciliation \<Rightarrow> plan_ref" where
  "ref_of_reconciliation c = \<lparr>pr_id = rc_plan_id (cr_row c), pr_failed_command_id = cr_plan_failed_command_id c,
     pr_lease_token = rc_lease_token (cr_row c)\<rparr>"

definition check_successor_authority ::
  "scheduler_options \<Rightarrow> plan_ref \<Rightarrow> string \<Rightarrow> reconciliation_row option \<Rightarrow> 'a kcml \<Rightarrow> unit outcome" where
  "check_successor_authority so plan requiredPlanState reconciliation s = (case sql_first (\<lambda>p. pl_id p = pr_id plan) (kc_plans s) of
     None \<Rightarrow> Inl (Domain_Error ''FENCING_TOKEN_STALE'')
   | Some current \<Rightarrow>
       if pl_state current \<noteq> requiredPlanState \<or> requiredPlanState = ''CLAIMED'' \<and> \<not> holds_plan_lease so (pr_lease_token plan) current
       then Inl (Domain_Error ''FENCING_TOKEN_STALE'')
       else (case reconciliation of None \<Rightarrow> Inr ()
         | Some r \<Rightarrow> (case sql_first (\<lambda>x. rc_id x = rc_id r) (kc_reconciliations s) of
             None \<Rightarrow> Inl (Domain_Error ''FENCING_TOKEN_STALE'')
           | Some current' \<Rightarrow> if holds_reconciliation_lease so r current' then Inr () else Inl (Domain_Error ''FENCING_TOKEN_STALE''))))"

definition snapshot_target :: "'a op_services \<Rightarrow> command_row \<Rightarrow> 'a \<Rightarrow> int option outcome" where
  "snapshot_target sv command aggregates = (case cm_target_id command of
     Some (t # ts) \<Rightarrow> bindE (admission_entity sv (cm_operation_name command)) (\<lambda>entity.
       bindE (sv_entity_row sv aggregates entity (t # ts)) (\<lambda>row. case row of
         None \<Rightarrow> Inl (Domain_Error ''KCIP_TARGET_NOT_FOUND'') | Some v \<Rightarrow> Inr v))
   | _ \<Rightarrow> Inr None)"

definition snapshot_transaction ::
  "'a op_services \<Rightarrow> scheduler_options \<Rightarrow> int \<Rightarrow> plan_ref \<Rightarrow> string \<Rightarrow> reconciliation_row option \<Rightarrow> 'a kcml
   \<Rightarrow> ('a kcml \<times> command_row \<times> int option \<times> int) outcome" where
  "snapshot_transaction sv so now plan requiredPlanState reconciliation s =
     bindE (lockAndVerifyPlatformRecovery (kc_recovery s)) (\<lambda>_.
     bindE (check_successor_authority so plan requiredPlanState reconciliation s) (\<lambda>_.
     case sql_first (\<lambda>c. cm_id c = pr_failed_command_id plan) (kc_commands s) of
       None \<Rightarrow> Inl (Domain_Error ''KCIP_TARGET_NOT_FOUND'')
     | Some command \<Rightarrow>
         bindE (if cm_status command = ''WAITING'' then terminalizeReplacedCommand sv now command s else Inr s) (\<lambda>s1.
         case sql_first (\<lambda>n. sn_plan_id n = pr_id plan) (kc_snapshots s1) of
           Some n \<Rightarrow> Inr (s1, command, sn_target_state_version n, sn_activation_epoch n)
         | None \<Rightarrow>
             bindE (snapshot_target sv command (kc_aggregates s1)) (\<lambda>version.
             case kc_activation_epoch s1 of
               None \<Rightarrow> Inl (Plain_Error ''TypeError'')
             | Some epoch \<Rightarrow> Inr (s1\<lparr>kc_snapshots := kc_snapshots s1
                 @ [\<lparr>sn_plan_id = pr_id plan, sn_target_state_version = version, sn_activation_epoch = epoch\<rparr>]\<rparr>, command, version, epoch)))))"

definition successor_command :: "command_row \<Rightarrow> int option \<Rightarrow> int \<Rightarrow> operation_command" where
  "successor_command command version epoch = \<lparr>oc_operation = cm_operation_name command, oc_targetId = cm_target_id command,
     oc_arguments = oc_arguments (cm_request command), oc_expectedStateVersion = version, oc_expectedActivationEpoch = Some epoch,
     oc_deadlineAt = None\<rparr>"

definition successor_key :: "plan_ref \<Rightarrow> string" where
  "successor_key plan = ''retry-plan:'' @ pr_id plan @ '':successor''"

definition successor_context :: "uuids \<Rightarrow> plan_ref \<Rightarrow> command_row \<Rightarrow> command_context" where
  "successor_context uuid plan command = \<lparr>cx_callerFingerprint = cm_caller_fingerprint command, cx_actorId = ''KRMAR78'',
     cx_correlationId = uuid ''correlation'', cx_causationId = Some (cm_correlation_id command),
     cx_idempotencyKey = Some (successor_key plan), cx_recoveryFence = None\<rparr>"

definition link_transaction ::
  "scheduler_options \<Rightarrow> plan_ref \<Rightarrow> string \<Rightarrow> reconciliation_row option \<Rightarrow> string \<Rightarrow> 'a kcml \<Rightarrow> ('a kcml \<times> unit) outcome" where
  "link_transaction so plan requiredPlanState reconciliation successorId s =
     bindE (lockAndVerifyPlatformRecovery (kc_recovery s)) (\<lambda>_.
     bindE (check_successor_authority so plan requiredPlanState None s) (\<lambda>_.
     let s1 = set_plan (pr_id plan) (\<lambda>p. p\<lparr>pl_state := ''COMPLETED'', pl_successor_command_id := Some successorId\<rparr>) s in
     case reconciliation of
       None \<Rightarrow> Inr (s1, ())
     | Some r \<Rightarrow>
         let hit = (\<lambda>x. rc_id x = rc_id r \<and> holds_reconciliation_lease so r x) in
         if sql_count hit (kc_reconciliations s1) \<noteq> 1 then Inl (Domain_Error ''FENCING_TOKEN_STALE'')
         else Inr (s1\<lparr>kc_reconciliations := sql_update hit (\<lambda>x. x\<lparr>rc_state := ''COMPLETED'', rc_lease_owner := None, rc_lease_expires_at := None\<rparr>)
           (kc_reconciliations s1)\<rparr>, ())))"

text \<open>
  \<^verbatim>\<open>createSuccessor\<close>: the snapshot, the admission and the link are three transactions; the crash of a
  process between the last two is the error \<open>crash\<close>.
\<close>

definition createSuccessor ::
  "'a op_services \<Rightarrow> scheduler_options \<Rightarrow> (op_contract \<Rightarrow> string option \<Rightarrow> json_object \<Rightarrow> 'a kcml \<Rightarrow> cjson outcome) \<Rightarrow> (string \<Rightarrow> bool)
   \<Rightarrow> uuids \<Rightarrow> (nat \<Rightarrow> int) \<Rightarrow> js_error option \<Rightarrow> plan_ref \<Rightarrow> string \<Rightarrow> reconciliation_row option \<Rightarrow> 'a kcml \<Rightarrow> 'a kcml \<times> string outcome" where
  "createSuccessor sv so query is_datetime_text uuid clock crash plan requiredPlanState reconciliation s =
     (case in_tx (snapshot_transaction sv so (clock 0) plan requiredPlanState reconciliation) s of
        (s1, Inl e) \<Rightarrow> (s1, Inl e)
      | (s1, Inr (command, version, epoch)) \<Rightarrow>
          (case in_tx (execute sv query is_datetime_text uuid (clock 1) (cm_operation_name command)
                  (Some (successor_command command version epoch)) (successor_context uuid plan command)) s1 of
             (s2, Inl e) \<Rightarrow> (s2, Inl e)
           | (s2, Inr response) \<Rightarrow> (case crash of
                 Some e \<Rightarrow> (s2, Inl e)
               | None \<Rightarrow> (case in_tx (link_transaction so plan requiredPlanState reconciliation (or_commandId response)) s2 of
                     (s3, Inl e) \<Rightarrow> (s3, Inl e) | (s3, Inr _) \<Rightarrow> (s3, Inr (or_commandId response))))))"

section \<open>Release of a failed lease\<close>

definition releasePlan :: "'a op_services \<Rightarrow> scheduler_options \<Rightarrow> uuids \<Rightarrow> int \<Rightarrow> plan_row \<Rightarrow> js_error \<Rightarrow> 'a kcml \<Rightarrow> ('a kcml \<times> unit) outcome" where
  "releasePlan sv so uuid now plan err s =
     bindE (canonicalFailure (sv_sha256 sv) (sv_collation sv) (sv_errors sv) (thrown_of err)) (\<lambda>_.
     case sql_first (\<lambda>p. pl_id p = pl_id plan) (kc_plans s) of
       None \<Rightarrow> Inr (s, ())
     | Some current \<Rightarrow>
         if pl_state current \<noteq> ''CLAIMED'' \<or> \<not> holds_plan_lease so (pl_lease_token plan) current then Inr (s, ())
         else if pl_maximum_attempts current \<le> pl_attempt_count current
         then Inr (createManualReview uuid (pl_id current) (pl_failed_command_id current) (pl_failure_id current) s, ())
         else Inr (set_plan (pl_id plan) (\<lambda>p. p\<lparr>pl_state := ''READY'', pl_available_at := now + 5000\<rparr>) s, ()))"

definition releaseReconciliation ::
  "'a op_services \<Rightarrow> scheduler_options \<Rightarrow> uuids \<Rightarrow> int \<Rightarrow> claimed_reconciliation \<Rightarrow> js_error \<Rightarrow> 'a kcml \<Rightarrow> ('a kcml \<times> unit) outcome" where
  "releaseReconciliation sv so uuid now command err s =
     bindE (canonicalFailure (sv_sha256 sv) (sv_collation sv) (sv_errors sv) (thrown_of err)) (\<lambda>_.
     let rid = rc_id (cr_row command) in
     case sql_first (\<lambda>r. rc_id r = rid) (kc_reconciliations s) of
       None \<Rightarrow> Inr (s, ())
     | Some current \<Rightarrow>
         if \<not> holds_reconciliation_lease so (cr_row command) current then Inr (s, ())
         else if rc_maximum_attempts current \<le> rc_attempt_count current
         then Inr (set_reconciliation rid (\<lambda>r. r\<lparr>rc_state := ''MANUAL_REVIEW''\<rparr>)
           (createManualReview uuid (rc_plan_id (cr_row command)) (cr_plan_failed_command_id command) (cr_failure_id command) s), ())
         else Inr (set_reconciliation rid (\<lambda>r. r\<lparr>rc_state := ''READY'', rc_available_at := now + 5000\<rparr>) s, ()))"

section \<open>One run of the scheduler\<close>

definition processReconciliation ::
  "'a op_services \<Rightarrow> scheduler_options \<Rightarrow> (op_contract \<Rightarrow> string option \<Rightarrow> json_object \<Rightarrow> 'a kcml \<Rightarrow> cjson outcome) \<Rightarrow> (string \<Rightarrow> bool)
   \<Rightarrow> uuids \<Rightarrow> (nat \<Rightarrow> int) \<Rightarrow> js_error option \<Rightarrow> claimed_reconciliation \<Rightarrow> 'a kcml \<Rightarrow> 'a kcml \<times> unit outcome" where
  "processReconciliation sv so query is_datetime_text uuid clock crash command s =
     (if cr_previous_state command = ''RETRY_ALLOWED'' then
        (case createSuccessor sv so query is_datetime_text uuid clock crash (ref_of_reconciliation command)
             ''WAITING_RECONCILIATION'' (Some (cr_row command)) s of
           (s1, Inl e) \<Rightarrow> (s1, Inl e) | (s1, Inr _) \<Rightarrow> (s1, Inr ()))
      else in_tx (decide_reconciliation so uuid (clock 0) command) s)"

definition scheduler_runOnce ::
  "'a op_services \<Rightarrow> scheduler_options \<Rightarrow> (string \<Rightarrow> bool) \<Rightarrow> (op_contract \<Rightarrow> string option \<Rightarrow> json_object \<Rightarrow> 'a kcml \<Rightarrow> cjson outcome)
   \<Rightarrow> (string \<Rightarrow> bool) \<Rightarrow> uuids \<Rightarrow> (nat \<Rightarrow> int) \<Rightarrow> js_error option \<Rightarrow> 'a kcml \<Rightarrow> 'a kcml \<times> bool outcome" where
  "scheduler_runOnce sv so locked query is_datetime_text uuid clock crash s =
     (case in_tx (claimReconciliation so locked (clock 5)) s of
        (s1, Inl e) \<Rightarrow> (s1, Inl e)
      | (s1, Inr (Some r)) \<Rightarrow>
          (case processReconciliation sv so query is_datetime_text uuid clock crash r s1 of
             (s2, Inr _) \<Rightarrow> (s2, Inr True)
           | (s2, Inl e) \<Rightarrow> (case in_tx (releaseReconciliation sv so uuid (clock 3) r e) s2 of
                 (s3, Inl e') \<Rightarrow> (s3, Inl e') | (s3, Inr _) \<Rightarrow> (s3, Inr True)))
      | (s1, Inr None) \<Rightarrow>
          (case in_tx (claimPlan so locked (clock 6)) s1 of
             (s2, Inl e) \<Rightarrow> (s2, Inl e)
           | (s2, Inr None) \<Rightarrow> (s2, Inr False)
           | (s2, Inr (Some plan)) \<Rightarrow>
               (case (if pl_action plan = Refresh_And_Create_Successor
                      then (case createSuccessor sv so query is_datetime_text uuid clock crash (ref_of_plan plan) ''CLAIMED'' None s2 of
                          (s', Inl e) \<Rightarrow> (s', Inl e) | (s', Inr _) \<Rightarrow> (s', Inr ()))
                      else if pl_action plan = Enqueue_Reconciliation then in_tx (enqueueReconciliation so uuid (clock 0) plan) s2
                      else (s2, Inl (Domain_Error ''ERROR_RECOVERY_CONTRACT_INCOMPLETE''))) of
                  (s3, Inr _) \<Rightarrow> (s3, Inr True)
                | (s3, Inl e) \<Rightarrow> (case in_tx (releasePlan sv so uuid (clock 3) plan e) s3 of
                      (s4, Inl e') \<Rightarrow> (s4, Inl e') | (s4, Inr _) \<Rightarrow> (s4, Inr True)))))"

end
