(* ===== verification/PipelineSafety.thy ===== *)
theory PipelineSafety
  imports RetryScheduler
begin

text \<open>
  What the command pipeline guarantees whatever its processes do: admissions, workers and schedulers
  interleave transaction by transaction, any worker may act on any claim it ever obtained (also after
  it lost the lease), and any process may stop between two transactions. The abstract specification
  is the state of the guards alone (activation-domain heads, admissions, concurrency claims and
  execution checkpoints) with five kinds of step; every transaction of the pipeline refines a step
  of it or leaves it unchanged.
\<close>

section \<open>The abstract guards\<close>

record guard_state =
  gs_heads :: "domain_head_row list"
  gs_admissions :: "admission_row list"
  gs_claims :: "claim_row list"
  gs_checkpoints :: "checkpoint_row list"

definition guards_of :: "'a kcml \<Rightarrow> guard_state" where
  "guards_of s = \<lparr>gs_heads = kc_heads s, gs_admissions = kc_admissions s, gs_claims = kc_claims s, gs_checkpoints = kc_checkpoints s\<rparr>"

definition open_for :: "string \<Rightarrow> admission_row \<Rightarrow> bool" where
  "open_for d a = (ad_domain_id a = d \<and> ad_state a \<noteq> ''TERMINAL'')"

text \<open>A claim is acquired, advanced by a worker, renewed, or released; its fence never goes back.\<close>

definition claim_kept :: "claim_row \<Rightarrow> claim_row \<Rightarrow> bool" where
  "claim_kept x y = (cl_id y = cl_id x \<and> cl_scope_kind y = cl_scope_kind x \<and> cl_scope_key_digest y = cl_scope_key_digest x
     \<and> cl_fencing_token x \<le> cl_fencing_token y
     \<and> (cl_fencing_token x = cl_fencing_token y \<longrightarrow> cl_logical_operation_id y = cl_logical_operation_id x \<and> (cl_released x \<longrightarrow> cl_released y))
     \<and> (\<not> cl_released x \<longrightarrow> cl_logical_operation_id y = cl_logical_operation_id x))"

inductive guard_step :: "guard_state \<Rightarrow> string option \<Rightarrow> guard_state \<Rightarrow> bool" where
  guard_idle: "guard_step g None g"
| guard_admit:
    "h \<in> set hs \<Longrightarrow> hs = gs_heads g \<or> (\<exists>h0. hs = gs_heads g @ [h0] \<and> dh_pending h0 = 0 \<and> dh_id h0 \<notin> dh_id ` set (gs_heads g)
        \<and> dh_id h0 \<notin> ad_domain_id ` set (gs_admissions g))
     \<Longrightarrow> ad_command_id a \<notin> ad_command_id ` set (gs_admissions g) \<Longrightarrow> ad_domain_id a = dh_id h \<Longrightarrow> ad_state a = ''ADMITTED''
     \<Longrightarrow> list_all2 claim_kept (gs_claims g) cs
     \<Longrightarrow> extra = [] \<or> (\<exists>c. extra = [c] \<and> cl_id c \<notin> cl_id ` set (gs_claims g)
         \<and> (\<forall>x \<in> set (gs_claims g). \<not> (cl_scope_kind x = cl_scope_kind c \<and> cl_scope_key_digest x = cl_scope_key_digest c)))
     \<Longrightarrow> guard_step g None (g\<lparr>gs_heads := sql_update (\<lambda>x. dh_id x = dh_id h) (\<lambda>x. x\<lparr>dh_pending := dh_pending x + 1\<rparr>) hs,
          gs_admissions := gs_admissions g @ [a], gs_claims := cs @ extra\<rparr>)"
| guard_claims: "list_all2 claim_kept (gs_claims g) cs \<Longrightarrow> guard_step g None (g\<lparr>gs_claims := cs\<rparr>)"
| guard_apply:
    "list_all2 claim_kept (gs_claims g) cs \<Longrightarrow> cp_command_id cp \<notin> cp_command_id ` set (gs_checkpoints g)
     \<Longrightarrow> guard_step g (Some (cp_command_id cp)) (g\<lparr>gs_claims := cs, gs_checkpoints := gs_checkpoints g @ [cp]\<rparr>)"
| guard_close:
    "sql_first (\<lambda>a. ad_command_id a = cid \<and> ad_state a \<noteq> ''TERMINAL'') (gs_admissions g) = rel
     \<Longrightarrow> hs = (case rel of None \<Rightarrow> gs_heads g | Some r \<Rightarrow> sql_update (\<lambda>h. dh_id h = ad_domain_id r \<and> dh_pending h > 0)
         (\<lambda>h. h\<lparr>dh_pending := dh_pending h - 1\<rparr>) (gs_heads g))
     \<Longrightarrow> list_all2 claim_kept (gs_claims g) cs
     \<Longrightarrow> guard_step g None (g\<lparr>gs_heads := hs, gs_admissions := sql_update (\<lambda>a. ad_command_id a = cid \<and> ad_state a \<noteq> ''TERMINAL'')
         (\<lambda>a. a\<lparr>ad_state := ''TERMINAL''\<rparr>) (gs_admissions g), gs_claims := cs\<rparr>)"

section \<open>Invariants of the guards\<close>

definition guards_ok :: "guard_state \<Rightarrow> bool" where
  "guards_ok g = (distinct (map dh_id (gs_heads g)) \<and> distinct (map ad_command_id (gs_admissions g)) \<and> distinct (map cl_id (gs_claims g))
     \<and> distinct (map (\<lambda>c. (cl_scope_kind c, cl_scope_key_digest c)) (gs_claims g)) \<and> distinct (map cp_command_id (gs_checkpoints g))
     \<and> (\<forall>h \<in> set (gs_heads g). dh_pending h = int (sql_count (open_for (dh_id h)) (gs_admissions g))))"

lemma claim_kept_refl [simp]: "claim_kept x x"
  by (simp add: claim_kept_def)

lemma claims_refl [simp]: "list_all2 claim_kept cs cs"
  by (simp add: list_all2_refl)

lemma claims_kept_keys:
  assumes "list_all2 claim_kept cs cs'"
  shows "map cl_id cs' = map cl_id cs"
    and "map (\<lambda>c. (cl_scope_kind c, cl_scope_key_digest c)) cs' = map (\<lambda>c. (cl_scope_kind c, cl_scope_key_digest c)) cs"
  using assms by (induction rule: list_all2_induct) (auto simp: claim_kept_def)

lemma claims_update:
  "(\<And>x. x \<in> set cs \<Longrightarrow> P x \<Longrightarrow> claim_kept x (f x)) \<Longrightarrow> list_all2 claim_kept cs (sql_update P f cs)"
  by (induction cs) (auto simp: sql_update_def)

lemma sql_count_append: "sql_count P (xs @ ys) = sql_count P xs + sql_count P ys"
  by (simp add: sql_count_def)

lemma close_counts:
  assumes "distinct (map ad_command_id as)"
    and "sql_first (\<lambda>a. ad_command_id a = cid \<and> ad_state a \<noteq> ''TERMINAL'') as = rel"
  shows "sql_count (open_for d) as = sql_count (open_for d) (sql_update (\<lambda>a. ad_command_id a = cid \<and> ad_state a \<noteq> ''TERMINAL'')
      (\<lambda>a. a\<lparr>ad_state := ''TERMINAL''\<rparr>) as) + (case rel of None \<Rightarrow> 0 | Some r \<Rightarrow> if ad_domain_id r = d then 1 else 0)"
  using assms
proof (induction as arbitrary: rel)
  case (Cons a as)
  show ?case
  proof (cases "ad_command_id a = cid \<and> ad_state a \<noteq> ''TERMINAL''")
    case True
    with Cons.prems have "sql_update (\<lambda>a. ad_command_id a = cid \<and> ad_state a \<noteq> ''TERMINAL'') (\<lambda>a. a\<lparr>ad_state := ''TERMINAL''\<rparr>) as = as"
      by (intro sql_update_none) (auto simp: image_iff)
    with True Cons.prems show ?thesis by (auto simp: sql_count_def sql_update_def sql_first_def open_for_def)
  next
    case False
    with Cons.prems have "sql_first (\<lambda>a. ad_command_id a = cid \<and> ad_state a \<noteq> ''TERMINAL'') as = rel" by (auto simp: sql_first_def)
    with Cons False show ?thesis by (auto simp: sql_count_def sql_update_def)
  qed
qed (auto simp: sql_count_def sql_update_def sql_first_def)

lemma guards_ok_close:
  assumes ok: "guards_ok g" and rel: "sql_first (\<lambda>a. ad_command_id a = cid \<and> ad_state a \<noteq> ''TERMINAL'') (gs_admissions g) = rel"
    and hs: "hs = (case rel of None \<Rightarrow> gs_heads g | Some r \<Rightarrow> sql_update (\<lambda>h. dh_id h = ad_domain_id r \<and> dh_pending h > 0)
         (\<lambda>h. h\<lparr>dh_pending := dh_pending h - 1\<rparr>) (gs_heads g))"
    and cs: "list_all2 claim_kept (gs_claims g) cs"
  shows "guards_ok (g\<lparr>gs_heads := hs, gs_admissions := sql_update (\<lambda>a. ad_command_id a = cid \<and> ad_state a \<noteq> ''TERMINAL'')
         (\<lambda>a. a\<lparr>ad_state := ''TERMINAL''\<rparr>) (gs_admissions g), gs_claims := cs\<rparr>)"
proof -
  let ?as = "sql_update (\<lambda>a. ad_command_id a = cid \<and> ad_state a \<noteq> ''TERMINAL'') (\<lambda>a. a\<lparr>ad_state := ''TERMINAL''\<rparr>) (gs_admissions g)"
  from ok have d: "distinct (map ad_command_id (gs_admissions g))" by (simp add: guards_ok_def)
  note counts = close_counts [OF d rel]
  have "dh_pending h = int (sql_count (open_for (dh_id h)) ?as)" if "h \<in> set hs" for h
  proof (cases rel)
    case None
    with that hs ok counts [of "dh_id h"] show ?thesis by (auto simp: guards_ok_def)
  next
    case (Some r)
    with that hs obtain h0 where h0: "h0 \<in> set (gs_heads g)"
      "h = (if dh_id h0 = ad_domain_id r \<and> dh_pending h0 > 0 then h0\<lparr>dh_pending := dh_pending h0 - 1\<rparr> else h0)"
      by (auto simp: sql_update_def split: if_splits)
    with ok counts [of "dh_id h0"] Some show ?thesis by (auto simp: guards_ok_def)
  qed
  moreover have "map dh_id hs = map dh_id (gs_heads g)" using hs by (cases rel) (auto intro: map_sql_update)
  ultimately show ?thesis using ok claims_kept_keys [OF cs] by (simp add: guards_ok_def map_sql_update)
qed

lemma guards_ok_admit:
  assumes ok: "guards_ok g" and h: "h \<in> set hs"
    and hs: "hs = gs_heads g \<or> (\<exists>h0. hs = gs_heads g @ [h0] \<and> dh_pending h0 = 0 \<and> dh_id h0 \<notin> dh_id ` set (gs_heads g)
        \<and> dh_id h0 \<notin> ad_domain_id ` set (gs_admissions g))"
    and a: "ad_command_id a \<notin> ad_command_id ` set (gs_admissions g)" "ad_domain_id a = dh_id h" "ad_state a = ''ADMITTED''"
    and cs: "list_all2 claim_kept (gs_claims g) cs"
    and extra: "extra = [] \<or> (\<exists>c. extra = [c] \<and> cl_id c \<notin> cl_id ` set (gs_claims g)
         \<and> (\<forall>x \<in> set (gs_claims g). \<not> (cl_scope_kind x = cl_scope_kind c \<and> cl_scope_key_digest x = cl_scope_key_digest c)))"
  shows "guards_ok (g\<lparr>gs_heads := sql_update (\<lambda>x. dh_id x = dh_id h) (\<lambda>x. x\<lparr>dh_pending := dh_pending x + 1\<rparr>) hs,
          gs_admissions := gs_admissions g @ [a], gs_claims := cs @ extra\<rparr>)"
proof -
  let ?hs = "sql_update (\<lambda>x. dh_id x = dh_id h) (\<lambda>x. x\<lparr>dh_pending := dh_pending x + 1\<rparr>) hs"
  have pending: "dh_pending x = int (sql_count (open_for (dh_id x)) (gs_admissions g))" if "x \<in> set hs" for x
  proof -
    have "sql_count (open_for d) (gs_admissions g) = 0" if "d \<notin> ad_domain_id ` set (gs_admissions g)" for d
      using that by (auto simp: sql_count_def open_for_def filter_empty_conv)
    with that hs ok show ?thesis by (auto simp: guards_ok_def)
  qed
  have ids: "distinct (map dh_id ?hs)" using hs ok by (auto simp: guards_ok_def map_sql_update)
  have "dh_pending x = int (sql_count (open_for (dh_id x)) (gs_admissions g @ [a]))" if x: "x \<in> set ?hs" for x
  proof -
    from x obtain y where y: "y \<in> set hs" "x = (if dh_id y = dh_id h then y\<lparr>dh_pending := dh_pending y + 1\<rparr> else y)"
      by (auto simp: sql_update_def)
    show ?thesis using y pending [OF y(1)] a(2,3) by (auto simp: sql_count_append) (auto simp: sql_count_def open_for_def)
  qed
  moreover have keys: "distinct (map cl_id (cs @ extra))" "distinct (map (\<lambda>c. (cl_scope_kind c, cl_scope_key_digest c)) (cs @ extra))"
  proof -
    note k = claims_kept_keys [OF cs]
    from k have s: "cl_id ` set cs = cl_id ` set (gs_claims g)"
      "(\<lambda>c. (cl_scope_kind c, cl_scope_key_digest c)) ` set cs = (\<lambda>c. (cl_scope_kind c, cl_scope_key_digest c)) ` set (gs_claims g)"
      by (metis list.set_map)+
    show "distinct (map cl_id (cs @ extra))" using extra ok k(1) s(1) by (auto simp: guards_ok_def image_iff)
    show "distinct (map (\<lambda>c. (cl_scope_kind c, cl_scope_key_digest c)) (cs @ extra))"
      using extra ok k(2) s(2) by (auto simp: guards_ok_def image_iff)
  qed
  ultimately show ?thesis using ok ids a(1) by (simp add: guards_ok_def)
qed

lemma guards_ok_step: "guard_step g l g' \<Longrightarrow> guards_ok g \<Longrightarrow> guards_ok g'"
proof (induction rule: guard_step.induct)
  case (guard_admit h hs g a cs extra)
  from guards_ok_admit [OF guard_admit(8,1-7)] show ?case .
next
  case (guard_close cid g rel hs cs)
  from guards_ok_close [OF guard_close(4,1-3)] show ?case .
next
  case (guard_claims g cs)
  with claims_kept_keys [OF guard_claims(1)] show ?case by (simp add: guards_ok_def)
next
  case (guard_apply g cs cp)
  with claims_kept_keys [OF guard_apply(1)] show ?case by (simp add: guards_ok_def)
qed


section \<open>The transactions of the pipeline\<close>

definition fresh_ids :: "uuids \<Rightarrow> 'a kcml \<Rightarrow> bool" where
  "fresh_ids uuid s = (uuid ''command'' \<notin> ad_command_id ` set (kc_admissions s) \<and> uuid ''claim'' \<notin> cl_id ` set (kc_claims s)
     \<and> uuid ''head'' \<notin> dh_id ` set (kc_heads s) \<union> ad_domain_id ` set (kc_admissions s))"

definition applied_label :: "worker_row \<Rightarrow> 'a kcml \<Rightarrow> string option" where
  "applied_label row s = (if checkpoint_of row s = None then Some (wr_command_id row) else None)"

text \<open>The label of a step is the command whose effect the step commits, if any.\<close>

inductive pipeline_step :: "'a op_services \<Rightarrow> 'a kcml \<Rightarrow> string option \<Rightarrow> 'a kcml \<Rightarrow> bool" for sv where
  step_admit: "fresh_ids uuid s \<Longrightarrow> execute_transaction sv uuid now operation command cx key s = Inr (s', r) \<Longrightarrow> pipeline_step sv s None s'"
| step_claim: "claim_transaction sv wo locked now s = Inr (s', r) \<Longrightarrow> pipeline_step sv s None s'"
| step_apply: "applyInCommandTransaction sv now h row s = Inr (s', v) \<Longrightarrow> pipeline_step sv s (applied_label row s) s'"
| step_prepare: "prepare_specialist sv now pr row s = Inr (s', p :: unit specialist_preparation) \<Longrightarrow> pipeline_step sv s None s'"
| step_reconcile: "reconcile_specialist sv now rc row s = Inr (s', Reconciled_Applied v) \<Longrightarrow> pipeline_step sv s (applied_label row s) s'"
| step_reconcile_failed: "reconcile_specialist sv now rc row s = Inr (s', Reconciled_Failed e) \<Longrightarrow> pipeline_step sv s None s'"
| step_complete: "complete_transaction sv wo now row v s = Inr (s', u) \<Longrightarrow> pipeline_step sv s None s'"
| step_fail: "fail_transaction sv wo uuid now row e s = Inr (s', u) \<Longrightarrow> pipeline_step sv s None s'"
| step_claim_plan: "claimPlan so locked now s = Inr (s', p) \<Longrightarrow> pipeline_step sv s None s'"
| step_claim_reconciliation: "claimReconciliation so locked now s = Inr (s', c) \<Longrightarrow> pipeline_step sv s None s'"
| step_enqueue: "enqueueReconciliation so uuid now plan s = Inr (s', u) \<Longrightarrow> pipeline_step sv s None s'"
| step_decide: "decide_reconciliation so uuid now c s = Inr (s', u) \<Longrightarrow> pipeline_step sv s None s'"
| step_snapshot: "snapshot_transaction sv so now ref st rc s = Inr (s', v) \<Longrightarrow> pipeline_step sv s None s'"
| step_link: "link_transaction so ref st rc cid s = Inr (s', u) \<Longrightarrow> pipeline_step sv s None s'"
| step_release_plan: "releasePlan sv so uuid now plan e s = Inr (s', u) \<Longrightarrow> pipeline_step sv s None s'"
| step_release_reconciliation: "releaseReconciliation sv so uuid now c e s = Inr (s', u) \<Longrightarrow> pipeline_step sv s None s'"

section \<open>Refinement\<close>

lemma guards_of_idle:
  "kc_heads s' = kc_heads s \<Longrightarrow> kc_admissions s' = kc_admissions s \<Longrightarrow> kc_claims s' = kc_claims s \<Longrightarrow> kc_checkpoints s' = kc_checkpoints s
   \<Longrightarrow> guard_step (guards_of s) None (guards_of s')"
  using guard_idle [of "guards_of s"] by (simp add: guards_of_def)

lemma guards_of_claims:
  "kc_heads s' = kc_heads s \<Longrightarrow> kc_admissions s' = kc_admissions s \<Longrightarrow> list_all2 claim_kept (kc_claims s) (kc_claims s')
   \<Longrightarrow> kc_checkpoints s' = kc_checkpoints s \<Longrightarrow> guard_step (guards_of s) None (guards_of s')"
  using guard_claims [of "guards_of s" "kc_claims s'"] by (simp add: guards_of_def)

lemma guards_of_close:
  "guard_step (guards_of s) None (guards_of (terminalizeCommandGuards cid lid claimId s))"
proof -
  have cs: "list_all2 claim_kept (kc_claims s) (sql_update (\<lambda>c. cl_id c = claimId \<and> cl_logical_operation_id c = lid \<and> \<not> cl_released c)
        (\<lambda>c. c\<lparr>cl_released := True\<rparr>) (kc_claims s))"
    by (rule claims_update) (simp add: claim_kept_def)
  show ?thesis
    using guard_close [OF refl refl, of "guards_of s" "kc_claims (terminalizeCommandGuards cid lid claimId s)" cid] cs
    by (auto simp: guards_of_def terminalizeCommandGuards_def Let_def split: option.splits if_splits)
qed

lemma guards_of_close_frame:
  assumes "kc_heads t = kc_heads s" "kc_admissions t = kc_admissions s" "kc_claims t = kc_claims s" "kc_checkpoints t = kc_checkpoints s"
    and "guards_of s' = guards_of (terminalizeCommandGuards cid lid claimId t)"
  shows "guard_step (guards_of s) None (guards_of s')"
proof -
  from assms have "guards_of t = guards_of s" by (simp add: guards_of_def)
  with guards_of_close [of t cid lid claimId] assms(5) show ?thesis by simp
qed

lemma verify_frame:
  assumes "verifyWorkerClaimAndAdmission sv now row st hb s = Inr s1"
  shows "kc_heads s1 = kc_heads s \<and> kc_admissions s1 = kc_admissions s \<and> kc_checkpoints s1 = kc_checkpoints s
    \<and> list_all2 claim_kept (kc_claims s) (kc_claims s1) \<and> (hb \<or> s1 = s)"
proof -
  have "list_all2 claim_kept (kc_claims s) (sql_update P (\<lambda>x. x\<lparr>cl_expires_at := e\<rparr>) (kc_claims s))" for P e
    by (rule claims_update) (simp add: claim_kept_def)
  with assms show ?thesis
    by (auto simp: verifyWorkerClaimAndAdmission_def bindE_Inr_iff split: option.splits if_splits)
qed

lemma enter_frame:
  assumes "enter_command sv now row s = Inr (s1, head, cp)"
  shows "kc_heads s1 = kc_heads s \<and> kc_admissions s1 = kc_admissions s \<and> kc_checkpoints s1 = kc_checkpoints s
    \<and> list_all2 claim_kept (kc_claims s) (kc_claims s1) \<and> cp = checkpoint_of row s"
  using assms by (auto simp: enter_command_def bindE_Inr_iff dest!: verify_frame split: if_splits option.splits)

lemma checkpoint_of_None: "checkpoint_of row s = None \<longleftrightarrow> wr_command_id row \<notin> cp_command_id ` set (kc_checkpoints s)"
  by (auto simp: checkpoint_of_def sql_first_None image_iff)

lemma guards_of_apply:
  assumes "kc_heads s' = kc_heads s" "kc_admissions s' = kc_admissions s" "list_all2 claim_kept (kc_claims s) (kc_claims s')"
    and "kc_checkpoints s' = kc_checkpoints (insert_checkpoint row v s)" and "checkpoint_of row s = None"
  shows "guard_step (guards_of s) (Some (wr_command_id row)) (guards_of s')"
proof -
  obtain cp where cp: "kc_checkpoints s' = kc_checkpoints s @ [cp]" "cp_command_id cp = wr_command_id row"
    using assms(4) by (simp add: insert_checkpoint_def)
  with assms(5) have "cp_command_id cp \<notin> cp_command_id ` set (gs_checkpoints (guards_of s))"
    by (simp add: checkpoint_of_None guards_of_def)
  from guard_apply [OF _ this, of "kc_claims s'"] assms cp show ?thesis by (simp add: guards_of_def)
qed


lemma refine_apply:
  assumes "applyInCommandTransaction sv now h row s = Inr (s', v)"
  shows "guard_step (guards_of s) (applied_label row s) (guards_of s')"
proof -
  from assms obtain s1 head cp where e: "enter_command sv now row s = Inr (s1, head, cp)"
    and rest: "(case cp of Some cp \<Rightarrow> Inr (s1, cp_output cp) | None \<Rightarrow>
         if deadline_elapsed sv now row s1 then Inl (Domain_Error ''KCIP_DEADLINE_EXCEEDED'')
         else bindE (run_handler h head s1) (\<lambda>(s2, result). Inr (insert_checkpoint row result s2, result))) = Inr (s', v)"
    by (auto simp: applyInCommandTransaction_def bindE_Inr_iff)
  note f = enter_frame [OF e]
  show ?thesis
  proof (cases cp)
    case None
    with rest obtain s2 where "run_handler h head s1 = Inr (s2, v)" "s' = insert_checkpoint row v s2"
      by (auto simp: bindE_Inr_iff split: if_splits)
    with f None guards_of_apply [of s' s row v] show ?thesis
      by (auto simp: run_handler_def bindE_Inr_iff insert_checkpoint_def applied_label_def)
  next
    case (Some c)
    with rest f guards_of_claims [of s' s] show ?thesis by (auto simp: applied_label_def)
  qed
qed

lemma refine_reconcile:
  assumes "reconcile_specialist sv now rc row s = Inr (s', res)"
  shows "guard_step (guards_of s) (case res of Reconciled_Applied _ \<Rightarrow> applied_label row s | Reconciled_Failed _ \<Rightarrow> None) (guards_of s')"
proof -
  from assms obtain s1 head cp where e: "enter_command sv now row s = Inr (s1, head, cp)"
    and rest: "(case cp of Some cp \<Rightarrow> Inr (s1, Reconciled_Applied (cp_output cp))
     | None \<Rightarrow> bindE (rc head (kc_aggregates s1, kc_effects s1)) (\<lambda>((aggregates, effects), result).
         let s2 = s1\<lparr>kc_aggregates := aggregates, kc_effects := effects\<rparr> in
         case result of
           Reconciled_Failed e \<Rightarrow> Inr (s2, Reconciled_Failed e)
         | Reconciled_Applied v \<Rightarrow> Inr (insert_checkpoint row v s2, Reconciled_Applied v))) = Inr (s', res)"
    by (auto simp: reconcile_specialist_def bindE_Inr_iff)
  note f = enter_frame [OF e]
  show ?thesis
  proof (cases cp)
    case None
    from rest None obtain a b result where r: "rc head (kc_aggregates s1, kc_effects s1) = Inr ((a, b), result)"
      by (auto simp: bindE_Inr_iff)
    show ?thesis
    proof (cases result)
      case (Reconciled_Applied v)
      with rest r f None guards_of_apply [of s' s row v] show ?thesis by (auto simp: insert_checkpoint_def applied_label_def)
    next
      case (Reconciled_Failed e)
      with rest r f None guards_of_claims [of s' s] show ?thesis by auto
    qed
  next
    case (Some c)
    with f have "checkpoint_of row s = Some c" by simp
    with rest Some f guards_of_claims [of s' s] show ?thesis by (auto simp: applied_label_def)
  qed
qed

lemma refine_prepare:
  assumes "prepare_specialist sv now pr row s = Inr (s', p)"
  shows "guard_step (guards_of s) None (guards_of s')"
  using assms guards_of_claims [of s' s]
  by (auto simp: prepare_specialist_def bindE_Inr_iff dest!: enter_frame split: option.splits if_splits)

lemma claim_candidate_Inr:
  assumes "claim_candidate sv wo now lin q s = Inr (s', r)"
  shows "s' = s \<and> r = None \<or> (\<exists>c cl. sql_first (\<lambda>c. cm_id c = qi_command_id q) (kc_commands s) = Some c
    \<and> sql_first (\<lambda>x. cl_id x = cm_claim_id c) (kc_claims s) = Some cl \<and> claim_current lin c cl
    \<and> advance_fences wo now lin q c cl s = Inr (s', r))"
proof (cases "sql_first (\<lambda>c. cm_id c = qi_command_id q) (kc_commands s)")
  case None
  with assms show ?thesis by (simp add: claim_candidate_def)
next
  case (Some c)
  note c = this
  show ?thesis
  proof (cases "sql_first (\<lambda>x. cl_id x = cm_claim_id c) (kc_claims s)")
    case None
    with assms c show ?thesis by (auto simp: claim_candidate_def bindE_Inr_iff split: option.splits)
  next
    case (Some cl)
    with assms c show ?thesis
      by (simp add: claim_candidate_def bindE_Inr_iff Let_def split: option.splits if_splits)
  qed
qed

lemma claim_transaction_cases:
  assumes "claim_transaction sv wo locked now s = Inr (s', r)"
  obtains "s' = s" "r = None"
  | head q where "lockAndVerifyPlatformRecovery (kc_recovery s) = Inr head" "is_candidate wo now (ah_lineage head) s q"
      "q \<in> set (kc_queue s)" "claim_candidate sv wo now (ah_lineage head) q s = Inr (s', r)"
proof -
  from assms obtain head where head: "lockAndVerifyPlatformRecovery (kc_recovery s) = Inr head"
    by (auto simp: claim_transaction_def bindE_Inr_iff)
  let ?qs = "js_sort queue_order (filter (\<lambda>q. is_candidate wo now (ah_lineage head) s q \<and> \<not> locked (qi_id q)) (kc_queue s))"
  show ?thesis
  proof (cases ?qs)
    case Nil
    with assms head that(1) show ?thesis by (simp add: claim_transaction_def)
  next
    case (Cons q qs)
    have "q \<in> set ?qs" unfolding Cons by simp
    then have "is_candidate wo now (ah_lineage head) s q" "q \<in> set (kc_queue s)" by simp_all
    with assms head Cons that(2) [of head q] show ?thesis by (simp add: claim_transaction_def)
  qed
qed

lemma refine_claim:
  assumes "claim_transaction sv wo locked now s = Inr (s', r)"
  shows "guard_step (guards_of s) None (guards_of s')"
proof -
  have "guard_step (guards_of s) None (guards_of s')" if "advance_fences wo now lin q c cl s = Inr (s', r)" for lin q c cl
  proof -
    have "list_all2 claim_kept (kc_claims s) (sql_update (\<lambda>x. cl_id x = cl_id cl \<and> cl_logical_operation_id x = cm_logical_operation_id c
            \<and> cl_fencing_token x = cl_fencing_token cl \<and> ln_recovery (cl_lineage x) = ln_recovery lin \<and> \<not> cl_released x)
          (\<lambda>x. x\<lparr>cl_owner_instance_id := wo_workerId wo, cl_fencing_token := cl_fencing_token cl + 1, cl_expires_at := now + 300000\<rparr>) (kc_claims s))"
      by (rule claims_update) (simp add: claim_kept_def)
    with that show ?thesis
      by (auto simp: advance_fences_def Let_def intro: guards_of_claims split: if_splits)
  qed
  note adv = this
  have idle: "guard_step (guards_of s) None (guards_of s)" by (rule guards_of_idle) simp_all
  from assms have "s' = s \<or> (\<exists>lin q. claim_candidate sv wo now lin q s = Inr (s', r))"
    by (elim claim_transaction_cases) auto
  with adv idle show ?thesis by (blast dest: claim_candidate_Inr)
qed

lemma complete_transaction_Inr:
  assumes "complete_transaction sv wo now row v s = Inr (s', u)"
  obtains cp response s3 s4 where "checkpoint_of row s = Some cp" "or_status response = ''SUCCEEDED''" "or_result response = cp_output cp"
    "s3 = set_queue (wr_queue_id row) (\<lambda>q. q\<lparr>qi_status := ''SUCCEEDED''\<rparr>) (set_idempotency (wr_command_id row) ''SUCCEEDED'' 200 response
      (set_command (wr_command_id row) (\<lambda>c. c\<lparr>cm_status := ''SUCCEEDED'', cm_result := Some (cp_output cp), cm_error := None\<rparr>) s))"
    "s4 = terminalizeCommandGuards (wr_command_id row) (wr_logical_operation_id row) (wr_claim_id row) s3"
    "s' = s4\<lparr>kc_audit := kc_audit s4 @ [(''domain.command.succeeded'', wr_command_id row)]\<rparr>"
proof -
  from assms obtain cp where cp: "checkpoint_of row s = Some cp"
    by (auto simp: complete_transaction_def bindE_Inr_iff split: if_splits option.splits)
  from assms cp obtain s0 q where s0: "verifyWorkerClaimAndAdmission sv now row [''ADMITTED'', ''TERMINAL''] False s = Inr s0"
    and q: "sql_first (\<lambda>q. qi_id q = wr_queue_id row) (kc_queue s0) = Some q"
    by (auto simp: complete_transaction_def bindE_Inr_iff Let_def split: if_splits option.splits)
  from verify_frame [OF s0] have "s0 = s" by simp
  with assms cp s0 q obtain a b c where s': "s' = (let response = terminal_result sv now ''SUCCEEDED'' row a b c
        (canonicalDigest (sv_sha256 sv) (sv_collation sv) (cp_output cp)) (cp_output cp) None;
      s3 = set_queue (wr_queue_id row) (\<lambda>q. q\<lparr>qi_status := ''SUCCEEDED''\<rparr>) (set_idempotency (wr_command_id row) ''SUCCEEDED'' 200 response
      (set_command (wr_command_id row) (\<lambda>c. c\<lparr>cm_status := ''SUCCEEDED'', cm_result := Some (cp_output cp), cm_error := None\<rparr>) s));
      s4 = terminalizeCommandGuards (wr_command_id row) (wr_logical_operation_id row) (wr_claim_id row) s3
      in s4\<lparr>kc_audit := kc_audit s4 @ [(''domain.command.succeeded'', wr_command_id row)]\<rparr>)"
    by (auto simp: complete_transaction_def bindE_Inr_iff Let_def split: if_splits)
  let ?r = "terminal_result sv now ''SUCCEEDED'' row a b c (canonicalDigest (sv_sha256 sv) (sv_collation sv) (cp_output cp)) (cp_output cp) None"
  show ?thesis by (rule that [OF cp _ _ refl refl, of ?r]) (use s' in \<open>simp_all add: Let_def terminal_result_def\<close>)
qed

lemma guards_of_audit [simp]: "guards_of (s\<lparr>kc_audit := x\<rparr>) = guards_of s"
  by (simp add: guards_of_def)

lemma refine_complete:
  assumes "complete_transaction sv wo now row v s = Inr (s', u)"
  shows "guard_step (guards_of s) None (guards_of s')"
  using assms
proof (rule complete_transaction_Inr)
  fix cp response s3 s4
  assume s3: "s3 = set_queue (wr_queue_id row) (\<lambda>q. q\<lparr>qi_status := ''SUCCEEDED''\<rparr>) (set_idempotency (wr_command_id row) ''SUCCEEDED'' 200 response
      (set_command (wr_command_id row) (\<lambda>c. c\<lparr>cm_status := ''SUCCEEDED'', cm_result := Some (cp_output cp), cm_error := None\<rparr>) s))"
    and s4: "s4 = terminalizeCommandGuards (wr_command_id row) (wr_logical_operation_id row) (wr_claim_id row) s3"
    and s': "s' = s4\<lparr>kc_audit := kc_audit s4 @ [(''domain.command.succeeded'', wr_command_id row)]\<rparr>"
  have "guards_of s' = guards_of (terminalizeCommandGuards (wr_command_id row) (wr_logical_operation_id row) (wr_claim_id row) s3)"
    by (simp add: s' s4)
  then show ?thesis
    by (rule guards_of_close_frame [rotated 4]) (simp_all add: s3 set_queue_def set_idempotency_def set_command_def)
qed


lemma dispatch_failure_refines:
  assumes "dispatch_failure sv uuid now row failure decision failureId planId t = Inr (s', u)"
    and "kc_heads t = kc_heads s" "kc_admissions t = kc_admissions s" "kc_claims t = kc_claims s" "kc_checkpoints t = kc_checkpoints s"
  shows "guard_step (guards_of s) None (guards_of s')"
proof (cases "rd_action decision \<in> {Retry_Same_Command, Enqueue_Reconciliation, Create_Manual_Review}")
  case True
  with assms show ?thesis
    by (intro guards_of_idle) (auto simp: dispatch_failure_def Let_def set_command_def set_queue_def set_ready_plan_def split: option.splits if_splits)
next
  case False
  then obtain response where s': "s' = (let s1 = terminalizeCommandGuards (wr_command_id row) (wr_logical_operation_id row) (wr_claim_id row)
      (set_idempotency (wr_command_id row) ''FAILED_FINAL'' (cf_httpStatus failure) response
        (set_command (wr_command_id row) (\<lambda>c. c\<lparr>cm_status := ''FAILED_FINAL'', cm_error := Some failure\<rparr>)
          (set_queue (wr_queue_id row) (\<lambda>q. q\<lparr>qi_status := ''FAILED_FINAL''\<rparr>) t)))
      in if rd_action decision = Close_Failed_Command then set_ready_plan planId (\<lambda>p. p\<lparr>pl_state := ''COMPLETED''\<rparr>) s1 else s1)"
    using assms(1) by (cases "rd_action decision") (auto simp: dispatch_failure_def Let_def)
  show ?thesis
    by (rule guards_of_close_frame [of "set_idempotency (wr_command_id row) ''FAILED_FINAL'' (cf_httpStatus failure) response
        (set_command (wr_command_id row) (\<lambda>c. c\<lparr>cm_status := ''FAILED_FINAL'', cm_error := Some failure\<rparr>)
          (set_queue (wr_queue_id row) (\<lambda>q. q\<lparr>qi_status := ''FAILED_FINAL''\<rparr>) t))" s s' "wr_command_id row" "wr_logical_operation_id row" "wr_claim_id row"])
      (use assms(2-5) in \<open>simp_all add: s' Let_def set_idempotency_def set_command_def set_queue_def set_ready_plan_def guards_of_def\<close>)
qed

lemma refine_fail:
  assumes "fail_transaction sv wo uuid now row e s = Inr (s', u)"
  shows "guard_step (guards_of s) None (guards_of s')"
proof -
  from assms obtain head s0 where s0: "verifyWorkerClaimAndAdmission sv now row [''ADMITTED''] False s = Inr s0"
    and head: "lockAndVerifyPlatformRecovery (kc_recovery s) = Inr head"
    by (auto simp: fail_transaction_def bindE_Inr_iff split: if_splits)
  from verify_frame [OF s0] have "s0 = s" by simp
  with assms s0 head have "s' = s \<or> (\<exists>failure decision failureId planId fs ps.
      dispatch_failure sv uuid now row failure decision failureId planId (s\<lparr>kc_failures := fs, kc_plans := ps\<rparr>) = Inr (s', u))"
    by (auto simp: fail_transaction_def bindE_Inr_iff Let_def case_prod_beta split: if_splits option.splits)
  then show ?thesis
    by (auto intro: guards_of_idle dispatch_failure_refines)
qed

lemma refine_snapshot:
  assumes "snapshot_transaction sv so now ref st rc s = Inr (s', v)"
  shows "guard_step (guards_of s) None (guards_of s')"
proof -
  have tm: "guard_step (guards_of s) None (guards_of s1)" if t: "terminalizeReplacedCommand sv now command s = Inr s1" for command s1
  proof -
    from t obtain t' where "s1 = terminalizeCommandGuards (cm_id command) (cm_logical_operation_id command) (cm_claim_id command) t'"
      "kc_heads t' = kc_heads s" "kc_admissions t' = kc_admissions s" "kc_claims t' = kc_claims s" "kc_checkpoints t' = kc_checkpoints s"
      by (auto simp: terminalizeReplacedCommand_def bindE_Inr_iff Let_def)
    then show ?thesis by (intro guards_of_close_frame [of t' s s1]) simp_all
  qed
  from assms obtain command s1 where s1: "(if cm_status command = ''WAITING'' then terminalizeReplacedCommand sv now command s else Inr s) = Inr s1"
    and "guards_of s' = guards_of s1"
    by (auto simp: snapshot_transaction_def bindE_Inr_iff guards_of_def split: option.splits)
  with tm [of command s1] show ?thesis by (auto intro: guards_of_idle split: if_splits)
qed

lemma list_case_Inr:
  "(case xs of [] \<Rightarrow> Inr (s, None) | y # ys \<Rightarrow> k y) = Inr (s', p) \<Longrightarrow> s' = s \<or> (\<exists>y. k y = Inr (s', p))"
  by (cases xs) auto

lemma refine_claim_plan:
  assumes "claimPlan so locked now s = Inr (s', p)"
  shows "guard_step (guards_of s) None (guards_of s')"
  using assms unfolding claimPlan_def bindE_Inr_iff Let_def
  by (elim exE conjE) (drule list_case_Inr, auto intro!: guards_of_idle)

lemma refine_claim_reconciliation:
  assumes "claimReconciliation so locked now s = Inr (s', c)"
  shows "guard_step (guards_of s) None (guards_of s')"
  using assms unfolding claimReconciliation_def bindE_Inr_iff Let_def
  by (elim exE conjE) (drule list_case_Inr, auto intro!: guards_of_idle split: option.splits)

lemma refine_enqueue: "enqueueReconciliation so uuid now plan s = Inr (s', u) \<Longrightarrow> guard_step (guards_of s) None (guards_of s')"
  by (rule guards_of_idle) (auto simp: enqueueReconciliation_def set_plan_def Let_def bindE_Inr_iff split: option.splits if_splits)

lemma refine_decide: "decide_reconciliation so uuid now cr s = Inr (s', u) \<Longrightarrow> guard_step (guards_of s) None (guards_of s')"
  by (rule guards_of_idle) (auto simp: decide_reconciliation_def createManualReview_def set_plan_def set_reconciliation_def Let_def bindE_Inr_iff split: option.splits if_splits)

lemma refine_link: "link_transaction so ref st rc cid s = Inr (s', u) \<Longrightarrow> guard_step (guards_of s) None (guards_of s')"
  by (rule guards_of_idle) (auto simp: link_transaction_def set_plan_def Let_def bindE_Inr_iff split: option.splits if_splits)

lemma refine_release_plan: "releasePlan sv so uuid now plan e s = Inr (s', u) \<Longrightarrow> guard_step (guards_of s) None (guards_of s')"
  by (rule guards_of_idle) (auto simp: releasePlan_def createManualReview_def set_plan_def Let_def bindE_Inr_iff split: option.splits if_splits)

lemma refine_release_reconciliation: "releaseReconciliation sv so uuid now cr e s = Inr (s', u) \<Longrightarrow> guard_step (guards_of s) None (guards_of s')"
  by (rule guards_of_idle) (auto simp: releaseReconciliation_def createManualReview_def set_plan_def set_reconciliation_def Let_def bindE_Inr_iff split: option.splits if_splits)

lemma reserve_claims:
  assumes "reserveConcurrencyClaim sv uuid now operation domainKey lid lin claims = Inr (claims', cid, token)"
    and "distinct (map cl_id claims)" and "uuid ''claim'' \<notin> cl_id ` set claims"
  shows "\<exists>cs extra. claims' = cs @ extra \<and> list_all2 claim_kept claims cs \<and> (extra = [] \<or> (\<exists>c. extra = [c] \<and> cl_id c \<notin> cl_id ` set claims
         \<and> (\<forall>x \<in> set claims. \<not> (cl_scope_kind x = cl_scope_kind c \<and> cl_scope_key_digest x = cl_scope_key_digest c))))"
proof (cases "sql_first (\<lambda>c. cl_scope_kind c = oc_concurrencyScope operation \<and> cl_scope_key_digest c = sv_sha256 sv domainKey) claims")
  case None
  with assms(1,3) show ?thesis
    by (intro exI [of _ claims] exI [of _ "drop (length claims) claims'"]) (auto simp: reserveConcurrencyClaim_def Let_def sql_first_None)
next
  case (Some cur)
  with assms(1) have rel: "cl_released cur" and claims': "claims' = sql_update (\<lambda>c. cl_id c = cl_id cur) (\<lambda>c. c\<lparr>cl_scope_key := domainKey,
      cl_logical_operation_id := lid, cl_owner_instance_id := ln_incarnation lin, cl_fencing_token := cl_fencing_token cur + 1,
      cl_expires_at := now + 300000, cl_released := False, cl_lineage := lin\<rparr>) claims"
    by (auto simp: reserveConcurrencyClaim_def Let_def split: if_splits)
  have same: "x = cur" if "x \<in> set claims" "cl_id x = cl_id cur" for x
    using that assms(2) sql_first_Some [OF Some] by (auto simp: distinct_map dest: inj_onD)
  have "list_all2 claim_kept claims claims'"
    unfolding claims' by (rule claims_update) (drule (1) same, use rel in \<open>simp add: claim_kept_def\<close>)
  then show ?thesis by (intro exI [of _ claims'] exI [of _ "[]"]) simp
qed

lemma refine_insert:
  assumes "admit_command sv uuid now operation command cx d sc kd lin e t = Inr (s', r)" and ok: "guards_ok (guards_of s)"
    and fresh: "fresh_ids uuid s"
    and t: "kc_heads t = kc_heads s" "kc_admissions t = kc_admissions s" "kc_claims t = kc_claims s" "kc_checkpoints t = kc_checkpoints s"
  shows "guard_step (guards_of s) None (guards_of s')"
proof -
  define dk where "dk = operationDomainKey sv operation (oc_targetId command) (oc_arguments command)"
  define hs where "hs = ensure_head uuid dk e (kc_heads s)"
  from assms(1) t obtain h cid token claims where h: "sql_first (\<lambda>h. dh_domain_key h = dk) hs = Some h"
    and res: "reserveConcurrencyClaim sv uuid now operation dk (uuid ''logical'') lin (kc_claims s) = Inr (claims, cid, token)"
    and ins: "insert_command sv uuid now operation command cx d lin e h cid token sc kd (t\<lparr>kc_heads := hs, kc_claims := claims\<rparr>) = Inr (s', r)"
    by (auto simp: admit_command_def Let_def bindE_Inr_iff dk_def hs_def split: if_splits option.splits)
  from reserve_claims [OF res] ok fresh obtain cs extra where cs: "claims = cs @ extra" "list_all2 claim_kept (kc_claims s) cs"
    "extra = [] \<or> (\<exists>c. extra = [c] \<and> cl_id c \<notin> cl_id ` set (kc_claims s)
         \<and> (\<forall>x \<in> set (kc_claims s). \<not> (cl_scope_kind x = cl_scope_kind c \<and> cl_scope_key_digest x = cl_scope_key_digest c)))"
    by (auto simp: guards_ok_def guards_of_def fresh_ids_def)
  have heads: "hs = kc_heads s \<or> (\<exists>h0. hs = kc_heads s @ [h0] \<and> dh_pending h0 = 0 \<and> dh_id h0 \<notin> dh_id ` set (kc_heads s)
        \<and> dh_id h0 \<notin> ad_domain_id ` set (kc_admissions s))"
    using fresh by (auto simp: hs_def ensure_head_def fresh_ids_def)
  from ins t obtain a where s': "guards_of s' = (guards_of s)\<lparr>gs_heads := sql_update (\<lambda>x. dh_id x = dh_id h) (\<lambda>x. x\<lparr>dh_pending := dh_pending x + 1\<rparr>) hs,
      gs_admissions := gs_admissions (guards_of s) @ [a], gs_claims := cs @ extra\<rparr>"
    and a: "ad_command_id a = uuid ''command''" "ad_domain_id a = dh_id h" "ad_state a = ''ADMITTED''"
    by (auto simp: insert_command_def Let_def bindE_Inr_iff guards_of_def cs(1))
  have "h \<in> set hs" using sql_first_Some [OF h] by simp
  moreover have "ad_command_id a \<notin> ad_command_id ` set (gs_admissions (guards_of s))" using a(1) fresh by (simp add: fresh_ids_def guards_of_def)
  ultimately show ?thesis
    unfolding s' using heads a(2,3) cs(2,3) by (intro guard_admit) (simp_all add: guards_of_def)
qed

lemma refine_admit:
  assumes "execute_transaction sv uuid now operation command cx key s = Inr (s', r)" and "guards_ok (guards_of s)" and "fresh_ids uuid s"
  shows "guard_step (guards_of s) None (guards_of s')"
proof -
  obtain d sc kd where dig: "command_digests sv command cx key = (d, sc, kd)" by (cases "command_digests sv command cx key")
  obtain head e where pre: "lockAndVerifyPlatformRecovery (kc_recovery s) = Inr head" "fence_current cx head" "kc_activation_epoch s = Some e"
    using execute_transaction_Inr [OF assms(1) dig] .
  from assms(1) [unfolded execute_transaction_unfold [OF pre dig]] obtain rows claimed where
    "(case claimed of Replayed response \<Rightarrow> Inr (s, response)
      | Reserved \<Rightarrow> admit_command sv uuid now operation command cx d sc kd (ah_lineage head) e (s\<lparr>kc_idempotency := rows\<rparr>)) = Inr (s', r)"
    by (auto simp: bindE_Inr_iff)
  then have "s' = s \<or> (\<exists>rows. admit_command sv uuid now operation command cx d sc kd (ah_lineage head) e (s\<lparr>kc_idempotency := rows\<rparr>) = Inr (s', r))"
    by (cases claimed) auto
  then show ?thesis
  proof (elim disjE exE)
    fix rows
    assume "admit_command sv uuid now operation command cx d sc kd (ah_lineage head) e (s\<lparr>kc_idempotency := rows\<rparr>) = Inr (s', r)"
    from refine_insert [OF this assms(2,3)] show ?thesis by simp
  qed (simp add: guard_idle)
qed

lemma pipeline_step_refines:
  assumes "pipeline_step sv s l s'" and "guards_ok (guards_of s)"
  shows "guard_step (guards_of s) l (guards_of s')"
  using assms
proof (induction rule: pipeline_step.induct)
  case (step_reconcile now rc row s s' v)
  from refine_reconcile [OF this(1)] show ?case by simp
next
  case (step_reconcile_failed now rc row s s' e)
  from refine_reconcile [OF this(1)] show ?case by simp
qed (blast intro: refine_admit refine_claim refine_apply refine_prepare refine_complete refine_fail refine_claim_plan
      refine_claim_reconciliation refine_enqueue refine_decide refine_snapshot refine_link refine_release_plan refine_release_reconciliation)+


section \<open>Runs\<close>

inductive runs :: "('s \<Rightarrow> 'l option \<Rightarrow> 's \<Rightarrow> bool) \<Rightarrow> 's \<Rightarrow> 'l list \<Rightarrow> 's \<Rightarrow> bool" for step where
  runs_none: "runs step s [] s"
| runs_more: "runs step s tr s1 \<Longrightarrow> step s1 l s2 \<Longrightarrow> runs step s (tr @ (case l of None \<Rightarrow> [] | Some x \<Rightarrow> [x])) s2"

text \<open>
  The contract of a component that records what it has done in the step that does it: its steps keep
  an invariant under which the record has no duplicates, and the record grows by the step's label.
\<close>

locale recorded_effects =
  fixes step :: "'s \<Rightarrow> 'l option \<Rightarrow> 's \<Rightarrow> bool" and ok :: "'s \<Rightarrow> bool" and record_of :: "'s \<Rightarrow> 'l list"
  assumes step_ok: "step s l s' \<Longrightarrow> ok s \<Longrightarrow> ok s'"
    and step_records: "step s l s' \<Longrightarrow> ok s \<Longrightarrow> record_of s' = record_of s @ (case l of None \<Rightarrow> [] | Some x \<Rightarrow> [x])"
    and ok_distinct: "ok s \<Longrightarrow> distinct (record_of s)"
begin

lemma runs_ok: "runs step s tr s' \<Longrightarrow> ok s \<Longrightarrow> ok s'"
  by (induction rule: runs.induct) (auto intro: step_ok)

lemma runs_record: "runs step s tr s' \<Longrightarrow> ok s \<Longrightarrow> record_of s' = record_of s @ tr"
  by (induction rule: runs.induct) (auto simp: step_records runs_ok)

lemma at_most_once: "runs step s tr s' \<Longrightarrow> ok s \<Longrightarrow> distinct tr \<and> set tr \<inter> set (record_of s) = {}"
  using ok_distinct [OF runs_ok] runs_record by fastforce

end

lemma guard_step_checkpoints:
  "guard_step g l g' \<Longrightarrow> map cp_command_id (gs_checkpoints g') = map cp_command_id (gs_checkpoints g) @ (case l of None \<Rightarrow> [] | Some x \<Rightarrow> [x])"
  by (induction rule: guard_step.induct) auto

interpretation pipeline: recorded_effects "pipeline_step sv" "\<lambda>s. guards_ok (guards_of s)" "\<lambda>s. map cp_command_id (kc_checkpoints s)" for sv
proof unfold_locales
  fix s l and s' :: "'a kcml"
  assume step: "pipeline_step sv s l s'" and ok: "guards_ok (guards_of s)"
  from pipeline_step_refines [OF this] show "guards_ok (guards_of s')" by (blast intro: guards_ok_step ok)
  from guard_step_checkpoints [OF pipeline_step_refines [OF step ok]]
  show "map cp_command_id (kc_checkpoints s') = map cp_command_id (kc_checkpoints s) @ (case l of None \<Rightarrow> [] | Some x \<Rightarrow> [x])"
    by (simp add: guards_of_def)
qed (simp add: guards_ok_def guards_of_def)



section \<open>Fencing\<close>

definition superseded :: "worker_row \<Rightarrow> 'a kcml \<Rightarrow> bool" where
  "superseded row s = list_ex (\<lambda>cl. cl_id cl = wr_claim_id row \<and> wr_fencing_token row < cl_fencing_token cl) (kc_claims s)"

lemma claims_kept_superseded:
  "list_all2 claim_kept cs cs' \<Longrightarrow> list_ex (\<lambda>cl. cl_id cl = i \<and> n < cl_fencing_token cl) cs \<Longrightarrow> list_ex (\<lambda>cl. cl_id cl = i \<and> n < cl_fencing_token cl) cs'"
  by (induction rule: list_all2_induct) (auto simp: claim_kept_def)

lemma guard_step_superseded:
  assumes "guard_step g l g'" and "list_ex (\<lambda>cl. cl_id cl = i \<and> n < cl_fencing_token cl) (gs_claims g)"
  shows "list_ex (\<lambda>cl. cl_id cl = i \<and> n < cl_fencing_token cl) (gs_claims g')"
  using assms by (induction rule: guard_step.induct) (auto dest: claims_kept_superseded)

lemma runs_superseded:
  "runs (pipeline_step sv) s trace s' \<Longrightarrow> guards_ok (guards_of s) \<Longrightarrow> superseded row s \<Longrightarrow> superseded row s'"
proof (induction rule: runs.induct)
  case (runs_more s tr s1 l s2)
  from pipeline.runs_ok [OF runs_more(1,4)] runs_more(2) have "guard_step (guards_of s1) l (guards_of s2)"
    by (blast intro: pipeline_step_refines)
  from guard_step_superseded [OF this] runs_more.IH runs_more.prems show ?case by (simp add: superseded_def guards_of_def)
qed

lemma superseded_verify:
  assumes "superseded row s" and "guards_ok (guards_of s)"
  shows "\<exists>e. verifyWorkerClaimAndAdmission sv now row states hb s = Inl e"
proof -
  from assms(1) obtain cl where cl: "cl \<in> set (kc_claims s)" "cl_id cl = wr_claim_id row" "wr_fencing_token row < cl_fencing_token cl"
    by (auto simp: superseded_def list_ex_iff)
  with assms(2) have "sql_first (\<lambda>x. cl_id x = wr_claim_id row) (kc_claims s) = Some cl"
    using sql_first_unique [of cl_id "kc_claims s" cl] by (simp add: guards_ok_def guards_of_def)
  with cl(3) show ?thesis
    by (cases "lockWorkerAggregate sv (wr_operation_name row) (wr_target_id row) (kc_aggregates s)")
      (auto simp: verifyWorkerClaimAndAdmission_def split: option.splits)
qed

lemma superseded_enter:
  assumes "superseded row s" and "guards_ok (guards_of s)"
  shows "\<exists>e. enter_command sv now row s = Inl e"
proof -
  obtain e where "verifyWorkerClaimAndAdmission sv now row (if checkpoint_of row s \<noteq> None then [''ADMITTED'', ''TERMINAL''] else [''ADMITTED'']) True s = Inl e"
    using superseded_verify [OF assms] by blast
  then show ?thesis
    by (cases "lockAndVerifyPlatformRecovery (kc_recovery s)") (auto simp: enter_command_def)
qed

text \<open>
  C3. A worker whose claim another worker has taken over is fenced for good: once the claim carries a
  later token, then after any run none of its transactions commits, neither the effect of the
  command, nor the preparation or reconciliation of a specialist, nor the terminal write of success
  or of failure.
\<close>

theorem superseded_worker_is_fenced:
  assumes "runs (pipeline_step sv) s trace s'" and "guards_ok (guards_of s)" and "superseded row s"
  shows "\<not> is_ok (applyInCommandTransaction sv now handler row s') \<and> \<not> is_ok (prepare_specialist sv now prep row s')
    \<and> \<not> is_ok (reconcile_specialist sv now recon row s') \<and> \<not> is_ok (complete_transaction sv wo now row v s')
    \<and> \<not> is_ok (fail_transaction sv wo uuid now row e s')"
proof -
  note ok = pipeline.runs_ok [OF assms(1,2)] and sup = runs_superseded [OF assms]
  obtain e1 where enter: "enter_command sv now row s' = Inl e1" using superseded_enter [OF sup ok] by blast
  note v = superseded_verify [OF sup ok]
  have "\<not> is_ok (complete_transaction sv wo now row v s')"
    using v [of sv now "[''ADMITTED'', ''TERMINAL'']" False]
    by (auto simp: complete_transaction_def is_ok_iff bindE_Inr_iff split: if_splits option.splits)
  moreover have "\<not> is_ok (fail_transaction sv wo uuid now row e s')"
    using v [of sv now "[''ADMITTED'']" False]
    by (auto simp: fail_transaction_def is_ok_iff bindE_Inr_iff split: if_splits)
  ultimately show ?thesis
    by (simp add: applyInCommandTransaction_def prepare_specialist_def reconcile_specialist_def enter is_ok_iff)
qed

section \<open>The loops are runs\<close>

lemma runs_one: "step s l s' \<Longrightarrow> runs step s (case l of None \<Rightarrow> [] | Some x \<Rightarrow> [x]) s'"
  using runs_more [OF runs_none, of step s l s'] by simp

lemma runs_trans: "runs step s1 tr2 s2 \<Longrightarrow> runs step s0 tr1 s1 \<Longrightarrow> runs step s0 (tr1 @ tr2) s2"
proof (induction rule: runs.induct)
  case (runs_more s tr s1 l s2)
  from runs.runs_more [OF runs_more.IH [OF runs_more.prems] runs_more(2)] show ?case by simp
qed simp

definition reaches :: "('s \<Rightarrow> 'l option \<Rightarrow> 's \<Rightarrow> bool) \<Rightarrow> 's \<Rightarrow> 's \<Rightarrow> bool" where
  "reaches step s s' = (\<exists>trace. runs step s trace s')"

lemma reaches_refl [simp]: "reaches step s s"
  by (auto simp: reaches_def intro: runs_none)

lemma reaches_trans: "reaches step s s1 \<Longrightarrow> reaches step s1 s2 \<Longrightarrow> reaches step s s2"
  unfolding reaches_def by (blast intro: runs_trans)

lemma reaches_step: "step s l s' \<Longrightarrow> reaches step s s'"
  unfolding reaches_def by (blast intro: runs_one)

lemma reaches_tx:
  "in_tx tx s = (s', r) \<Longrightarrow> (\<And>t v. tx s = Inr (t, v) \<Longrightarrow> \<exists>l. step s l t) \<Longrightarrow> reaches step s s'"
  by (auto simp: in_tx_def split: sum.splits intro: reaches_step)

lemma step_prepare_any:
  assumes "prepare_specialist sv now pr row s = Inr (s', p)"
  shows "pipeline_step sv s None s'"
proof -
  define forget where "forget = (\<lambda>head x. bindE (pr head x) (\<lambda>(y, _). Inr (y, ())))"
  from assms obtain s1 head cp where e: "enter_command sv now row s = Inr (s1, head, cp)"
    by (auto simp: prepare_specialist_def bindE_Inr_iff)
  have "\<exists>p. prepare_specialist sv now forget row s = Inr (s', p)"
  proof (cases cp)
    case None
    with assms e obtain a b q where "pr head (kc_aggregates s1, kc_effects s1) = Inr ((a, b), q)" "\<not> deadline_elapsed sv now row s1"
      "s' = s1\<lparr>kc_aggregates := a, kc_effects := b\<rparr>"
      by (auto simp: prepare_specialist_def bindE_Inr_iff split: if_splits)
    with None e show ?thesis by (simp add: prepare_specialist_def forget_def)
  next
    case (Some c)
    with assms e show ?thesis by (simp add: prepare_specialist_def)
  qed
  then show ?thesis by (blast intro: step_prepare)
qed

lemma step_reconcile_any:
  "reconcile_specialist sv now rc row s = Inr (s', res) \<Longrightarrow> \<exists>l. pipeline_step sv s l s'"
  by (cases res) (auto intro: step_reconcile step_reconcile_failed)

lemma applySpecialist_reaches:
  assumes "applySpecialistCommand sv n1 n2 sp operation row s = (s', r)"
  shows "reaches (pipeline_step sv) s s'"
proof -
  obtain s1 r1 where p: "in_tx (prepare_specialist sv n1 (sp_prepare sp operation row) row) s = (s1, r1)" by fastforce
  then have first: "reaches (pipeline_step sv) s s1" by (rule reaches_tx) (blast intro: step_prepare_any)
  show ?thesis
  proof (cases "\<exists>q. r1 = Inr (Prepared q)")
    case True
    then obtain q where q: "r1 = Inr (Prepared q)" ..
    obtain s2 r2 where "in_tx (reconcile_specialist sv n2 (sp_reconcile sp q (sp_execute sp q)) row) s1 = (s2, r2)" by fastforce
    moreover from this have "reaches (pipeline_step sv) s1 s2" by (rule reaches_tx) (blast intro: step_reconcile_any)
    ultimately show ?thesis using assms p q first
      by (auto simp: applySpecialistCommand_def split: sum.splits reconcile_result.splits intro: reaches_trans)
  next
    case False
    with assms p first show ?thesis
      by (auto simp: applySpecialistCommand_def split: sum.splits specialist_preparation.splits)
  qed
qed

lemma applyCommand_reaches:
  assumes "applyCommand sv n1 n2 specialist handlers row s = (s', r)"
  shows "reaches (pipeline_step sv) s s'"
proof -
  have plain: "reaches (pipeline_step sv) s t" if "in_tx (applyInCommandTransaction sv n1 h row) s = (t, v)" for h t v
    using that by (rule reaches_tx) (blast intro: step_apply)
  from assms show ?thesis
    by (auto simp: applyCommand_def split: sum.splits option.splits if_splits intro: plain applySpecialist_reaches)
qed

text \<open>
  One run of the worker is a run of the pipeline, whatever it claims, whatever its handlers do and
  wherever it stops: what is proved of runs holds of the worker's loop.
\<close>

theorem worker_loop_refines:
  "\<exists>trace. runs (pipeline_step sv) s trace (fst (runOnce sv wo locked uuid clock crash specialist handlers s))"
proof -
  obtain s' r where run: "runOnce sv wo locked uuid clock crash specialist handlers s = (s', r)" by fastforce
  obtain s1 r1 where c: "in_tx (claim_transaction sv wo locked (clock 0)) s = (s1, r1)" by fastforce
  then have one: "reaches (pipeline_step sv) s s1" by (rule reaches_tx) (blast intro: step_claim)
  have "reaches (pipeline_step sv) s s'"
  proof (cases "\<exists>row. r1 = Inr (Some row)")
    case True
    then obtain row where row: "r1 = Inr (Some row)" ..
    obtain s2 r2 where a: "applyCommand sv (clock 1) (clock 2) specialist handlers row s1 = (s2, r2)" by fastforce
    from reaches_trans [OF one applyCommand_reaches [OF a]] have two: "reaches (pipeline_step sv) s s2" .
    have fin: "reaches (pipeline_step sv) s2 t" if "in_tx (complete_transaction sv wo (clock 3) row v) s2 = (t, u)" for v t u
      using that by (rule reaches_tx) (blast intro: step_complete)
    have bad: "reaches (pipeline_step sv) s2 t" if "in_tx (fail_transaction sv wo uuid (clock 3) row e) s2 = (t, u)" for e t u
      using that by (rule reaches_tx) (blast intro: step_fail)
    have "reaches (pipeline_step sv) s2 s'"
      using run c row a by (auto simp: runOnce_def split: sum.splits prod.splits option.splits intro: fin bad)
    with two show ?thesis by (rule reaches_trans)
  next
    case False
    with run c one show ?thesis by (auto simp: runOnce_def split: sum.splits option.splits)
  qed
  then show ?thesis by (simp add: run reaches_def)
qed

definition guard_ids :: "'a kcml \<Rightarrow> string set \<times> string set \<times> string set \<times> string set" where
  "guard_ids s = (ad_command_id ` set (kc_admissions s), ad_domain_id ` set (kc_admissions s), dh_id ` set (kc_heads s), cl_id ` set (kc_claims s))"

lemma fresh_ids_kept: "guard_ids s' = guard_ids s \<Longrightarrow> fresh_ids uuid s' = fresh_ids uuid s"
  by (simp add: guard_ids_def fresh_ids_def)

lemma image_sql_update: "(\<And>r. k (f r) = k r) \<Longrightarrow> k ` set (sql_update P f rows) = k ` set rows"
  by (metis list.set_map map_sql_update)

lemma guard_ids_terminalize: "guard_ids (terminalizeCommandGuards cid lid claimId s) = guard_ids s"
  by (simp add: guard_ids_def terminalizeCommandGuards_def Let_def image_sql_update split: option.splits)

lemma guard_ids_snapshot:
  assumes "snapshot_transaction sv so now plan st rc s = Inr (s', v)"
  shows "guard_ids s' = guard_ids s"
proof -
  from assms obtain command s1 where s1: "(if cm_status command = ''WAITING'' then terminalizeReplacedCommand sv now command s else Inr s) = Inr s1"
    and s': "guard_ids s' = guard_ids s1"
    by (auto simp: snapshot_transaction_def bindE_Inr_iff guard_ids_def split: option.splits)
  from s1 have "guard_ids s1 = guard_ids s"
    by (auto simp: terminalizeReplacedCommand_def bindE_Inr_iff Let_def guard_ids_terminalize split: if_splits) (simp_all add: guard_ids_def)
  with s' show ?thesis by simp
qed

lemma execute_reaches:
  assumes "execute sv query is_datetime_text uuid now name input cx s = Inr (s', r)" and "fresh_ids uuid s"
  shows "reaches (pipeline_step sv) s s'"
  using assms by (auto simp: execute_def bindE_Inr_iff split: if_splits option.splits intro: reaches_step step_admit)

lemma createSuccessor_reaches:
  assumes "createSuccessor sv so query is_datetime_text uuid clock crash plan st rc s = (s', r)" and "fresh_ids uuid s"
  shows "reaches (pipeline_step sv) s s'"
proof -
  obtain s1 r1 where sn: "in_tx (snapshot_transaction sv so (clock 0) plan st rc) s = (s1, r1)" by fastforce
  then have one: "reaches (pipeline_step sv) s s1" by (rule reaches_tx) (blast intro: step_snapshot)
  from sn assms(2) have fresh: "fresh_ids uuid s1"
    by (auto simp: in_tx_def fresh_ids_kept [OF guard_ids_snapshot] split: sum.splits)
  show ?thesis
  proof (cases r1)
    case (Inl e)
    with assms(1) sn one show ?thesis by (auto simp: createSuccessor_def)
  next
    case (Inr v)
    obtain command version epoch where v: "v = (command, version, epoch)" by (cases v)
    obtain s2 r2 where ex: "in_tx (execute sv query is_datetime_text uuid (clock 1) (cm_operation_name command)
        (Some (successor_command command version epoch)) (successor_context uuid plan command)) s1 = (s2, r2)" by fastforce
    with fresh have two: "reaches (pipeline_step sv) s1 s2"
      by (auto simp: in_tx_def split: sum.splits intro: execute_reaches)
    have link: "reaches (pipeline_step sv) s2 t" if "in_tx (link_transaction so plan st rc cid) s2 = (t, u)" for cid t u
      using that by (rule reaches_tx) (blast intro: step_link)
    have "reaches (pipeline_step sv) s2 s'"
      using assms(1) sn Inr v ex by (auto simp: createSuccessor_def split: sum.splits option.splits prod.splits intro: link)
    with one two show ?thesis by (blast intro: reaches_trans)
  qed
qed

lemma processReconciliation_reaches:
  assumes "processReconciliation sv so query is_datetime_text uuid clock crash c s = (s', r)" and "fresh_ids uuid s"
  shows "reaches (pipeline_step sv) s s'"
proof (cases "cr_previous_state c = ''RETRY_ALLOWED''")
  case True
  obtain t v where cs: "createSuccessor sv so query is_datetime_text uuid clock crash (ref_of_reconciliation c) ''WAITING_RECONCILIATION'' (Some (cr_row c)) s = (t, v)"
    by fastforce
  with assms(1) True have "s' = t" by (auto simp: processReconciliation_def split: sum.splits)
  with createSuccessor_reaches [OF cs assms(2)] show ?thesis by simp
next
  case False
  with assms(1) have "in_tx (decide_reconciliation so uuid (clock 0) c) s = (s', r)" by (simp add: processReconciliation_def)
  then show ?thesis by (rule reaches_tx) (blast intro: step_decide)
qed

lemma guard_ids_claim_reconciliation:
  assumes "claimReconciliation so locked now s = Inr (s', c)"
  shows "guard_ids s' = guard_ids s"
  using assms unfolding claimReconciliation_def bindE_Inr_iff Let_def
  by (elim exE conjE) (drule list_case_Inr, auto simp: guard_ids_def split: option.splits)

lemma guard_ids_claim_plan:
  assumes "claimPlan so locked now s = Inr (s', p)"
  shows "guard_ids s' = guard_ids s"
  using assms unfolding claimPlan_def bindE_Inr_iff Let_def
  by (elim exE conjE) (drule list_case_Inr, auto simp: guard_ids_def)

text \<open>
  One run of the retry scheduler is a run of the pipeline, provided the identifiers it generates
  are new: creating a successor, reconciling, releasing a lease and stopping between any two of its
  transactions are all covered.
\<close>

theorem scheduler_loop_refines:
  assumes "fresh_ids uuid s"
  shows "\<exists>trace. runs (pipeline_step sv) s trace (fst (scheduler_runOnce sv so locked query is_datetime_text uuid clock crash s))"
proof -
  obtain s' r where run: "scheduler_runOnce sv so locked query is_datetime_text uuid clock crash s = (s', r)" by fastforce
  obtain s1 r1 where c: "in_tx (claimReconciliation so locked (clock 5)) s = (s1, r1)" by fastforce
  then have one: "reaches (pipeline_step sv) s s1" by (rule reaches_tx) (blast intro: step_claim_reconciliation)
  from c assms have f1: "fresh_ids uuid s1" by (auto simp: in_tx_def fresh_ids_kept [OF guard_ids_claim_reconciliation] split: sum.splits)
  have rec: "reaches (pipeline_step sv) s1 s'" if r: "r1 = Inr (Some x)" for x
  proof -
    obtain t v where p: "processReconciliation sv so query is_datetime_text uuid clock crash x s1 = (t, v)" by fastforce
    have rel: "reaches (pipeline_step sv) t t'" if "in_tx (releaseReconciliation sv so uuid (clock 3) x e) t = (t', u)" for e t' u
      using that by (rule reaches_tx) (blast intro: step_release_reconciliation)
    have "reaches (pipeline_step sv) t s'"
      using run c r p by (auto simp: scheduler_runOnce_def split: sum.splits prod.splits intro: rel)
    with processReconciliation_reaches [OF p f1] show ?thesis by (rule reaches_trans)
  qed
  obtain s2 r2 where c2: "in_tx (claimPlan so locked (clock 6)) s1 = (s2, r2)" by fastforce
  then have two: "reaches (pipeline_step sv) s1 s2" by (rule reaches_tx) (blast intro: step_claim_plan)
  from c2 f1 have f2: "fresh_ids uuid s2" by (auto simp: in_tx_def fresh_ids_kept [OF guard_ids_claim_plan] split: sum.splits)
  have plan: "reaches (pipeline_step sv) s2 s'" if r: "r1 = Inr None" "r2 = Inr (Some p)" for p
  proof -
    obtain t v where cs: "createSuccessor sv so query is_datetime_text uuid clock crash (ref_of_plan p) ''CLAIMED'' None s2 = (t, v)" by fastforce
    obtain t' v' where en: "in_tx (enqueueReconciliation so uuid (clock 0) p) s2 = (t', v')" by fastforce
    from en have e2: "reaches (pipeline_step sv) s2 t'" by (rule reaches_tx) (blast intro: step_enqueue)
    have rel: "reaches (pipeline_step sv) w w'" if "in_tx (releasePlan sv so uuid (clock 3) p e) w = (w', u)" for e w w' u
      using that by (rule reaches_tx) (blast intro: step_release_plan)
    have "reaches (pipeline_step sv) t s' \<or> reaches (pipeline_step sv) t' s' \<or> reaches (pipeline_step sv) s2 s'"
      using run c r c2 cs en by (auto simp: scheduler_runOnce_def split: sum.splits prod.splits if_splits intro: rel)
    with createSuccessor_reaches [OF cs f2] e2 show ?thesis by (blast intro: reaches_trans)
  qed
  consider "\<exists>x. r1 = Inr (Some x)" | "r1 = Inr None" "\<exists>p. r2 = Inr (Some p)" | "s' = s1 \<or> s' = s2"
    using run c c2 by (cases r1; cases r2) (auto simp: scheduler_runOnce_def split: option.splits)
  then have "reaches (pipeline_step sv) s1 s'" using rec plan two by cases (auto intro: reaches_trans)
  with one show ?thesis by (auto simp: run reaches_def intro: runs_trans)
qed

section \<open>A concrete store\<close>

text \<open>One command, claimed by the worker \<open>w1\<close> under token 2, its effect not yet applied.\<close>

definition claimed_command :: command_row where
  "claimed_command = \<lparr>cm_id = ''c'', cm_logical_operation_id = ''l'', cm_operation_name = ''browser.control.transfer'', cm_operation_revision = 1,
     cm_target_id = Some ''s'', cm_caller_fingerprint = ''fp'', cm_request = sample_command, cm_request_digest = ''d'', cm_status = ''RUNNING'',
     cm_correlation_id = ''corr'', cm_causation_id = None, cm_activation_epoch = 7, cm_lineage = sample_lineage, cm_claim_id = ''k'',
     cm_fencing_token = 2, cm_result = None, cm_error = None, cm_state_version = 2\<rparr>"

definition claimed_item :: queue_row where
  "claimed_item = \<lparr>qi_id = ''q'', qi_queue_name = ''kcml-browser'', qi_partition_key = ''p'', qi_command_id = ''c'', qi_priority = 100,
     qi_status = ''CLAIMED'', qi_available_at = 100, qi_attempt_count = 1, qi_max_attempts = 8, qi_lease_owner = Some ''w1'', qi_lease_token = 1,
     qi_lease_expires_at = Some 60200, qi_lineage = sample_lineage, qi_claim_id = ''k'', qi_fencing_token = 2\<rparr>"

definition claimed_claim :: claim_row where
  "claimed_claim = \<lparr>cl_id = ''k'', cl_scope_kind = ''TARGET'', cl_scope_key = ''s'', cl_scope_key_digest = ''sd'', cl_logical_operation_id = ''l'',
     cl_owner_instance_id = ''w1'', cl_fencing_token = 2, cl_expires_at = 300200, cl_released = False, cl_lineage = sample_lineage\<rparr>"

definition claimed_store :: "nat kcml" where
  "claimed_store = empty_store\<lparr>kc_commands := [claimed_command], kc_queue := [claimed_item], kc_claims := [claimed_claim],
     kc_heads := [\<lparr>dh_id = ''h'', dh_domain_key = ''s'', dh_current_activation_epoch = 7, dh_barrier_state = ''OPEN'', dh_pending = 1\<rparr>],
     kc_admissions := [\<lparr>ad_id = ''a'', ad_command_id = ''c'', ad_domain_id = ''h'', ad_pinned_epoch = 7, ad_state = ''ADMITTED''\<rparr>]\<rparr>"

definition first_row :: worker_row where
  "first_row = \<lparr>wr_queue_id = ''q'', wr_queue_name = ''kcml-browser'', wr_command_id = ''c'', wr_operation_name = ''browser.control.transfer'',
     wr_request = sample_command, wr_correlation_id = ''corr'', wr_target_id = Some ''s'', wr_logical_operation_id = ''l'',
     wr_activation_epoch = 7, wr_lineage = sample_lineage, wr_claim_id = ''k'', wr_fencing_token = 2, wr_lease_token = 1\<rparr>"

definition sample_business :: "nat handler" where
  "sample_business head = (\<lambda>(n, effects). Inr ((n + 1, effects), CObj [(''holder'', CStr ''owner'')]))"

definition second_worker :: worker_options where
  "second_worker = \<lparr>wo_queueNames = [''kcml-browser''], wo_allowedOperations = None, wo_workerId = ''w2'', wo_leaseSeconds = 60\<rparr>"

lemma claimed_store_ok: "guards_ok (guards_of claimed_store)"
  by code_simp

lemma applied_sample:
  "is_ok (applyInCommandTransaction sample_services 300 sample_business first_row claimed_store) \<and> applied_label first_row claimed_store = Some ''c''"
  by code_simp

lemma reclaimed_sample:
  "(case claim_transaction sample_services second_worker (\<lambda>_. False) 90000 claimed_store of Inr (s, Some row) \<Rightarrow> superseded first_row s | _ \<Rightarrow> False)"
  by code_simp

lemma sample_run:
  obtains s' where "runs (pipeline_step sample_services) claimed_store [''c''] s'"
proof -
  from applied_sample obtain s' v where "applyInCommandTransaction sample_services 300 sample_business first_row claimed_store = Inr (s', v)"
    by (auto simp: is_ok_iff)
  from step_apply [OF this] applied_sample have "pipeline_step sample_services claimed_store (Some ''c'') s'" by simp
  from runs_one [of "pipeline_step sample_services", OF this] that show ?thesis by simp
qed




theorem superseded_worker_is_fenced_witness:
  "\<exists>s' row. claim_transaction sample_services second_worker (\<lambda>_. False) 90000 claimed_store = Inr (s', Some row) \<and> superseded first_row s'
    \<and> \<not> is_ok (applyInCommandTransaction sample_services 90001 sample_business first_row s')"
proof -
  from reclaimed_sample obtain s' row where c: "claim_transaction sample_services second_worker (\<lambda>_. False) 90000 claimed_store = Inr (s', Some row)"
    and sup: "superseded first_row s'" by (auto split: sum.splits prod.splits option.splits)
  have "guards_ok (guards_of s')"
    using guards_ok_step [OF pipeline_step_refines [OF step_claim [OF c] claimed_store_ok] claimed_store_ok] .
  from superseded_worker_is_fenced [OF runs_none this sup] c sup show ?thesis by blast
qed

theorem scheduler_loop_refines_witness:
  "fresh_ids (\<lambda>p. p @ ''-new'') claimed_store \<and> (\<exists>trace. runs (pipeline_step sample_services) claimed_store trace
     (fst (scheduler_runOnce sample_services \<lparr>so_workerId = ''s'', so_leaseSeconds = 60\<rparr> (\<lambda>_. False) (\<lambda>_ _ _ _. Inr CNull) (\<lambda>_. True)
       (\<lambda>p. p @ ''-new'') int None claimed_store)))"
proof -
  have "fresh_ids (\<lambda>p. p @ ''-new'') claimed_store" by code_simp
  with scheduler_loop_refines [OF this] show ?thesis by blast
qed

end
