(* ===== verification/PipelineProgress.thy ===== *)
theory PipelineProgress
  imports PipelineSafety
begin

text \<open>
  What the pipeline does to completion: a command whose effect was committed before its worker
  crashed is finished by the next worker that claims it, with the recorded output and without
  running its handler; and a retry plan whose scheduler crashed after admitting the successor gets
  the same successor again.
\<close>

section \<open>A claimed row\<close>

lemma sql_first_sql_update:
  "(\<And>x. P (f x) = P x) \<Longrightarrow> sql_first P (sql_update Q f rows) = map_option (\<lambda>x. if Q x then f x else x) (sql_first P rows)"
  by (induction rows) (auto simp: sql_first_def sql_update_def)

lemma claim_transaction_Some:
  assumes "claim_transaction sv wo locked now s = Inr (s1, Some row)"
  obtains head q c cl where "lockAndVerifyPlatformRecovery (kc_recovery s) = Inr head" "q \<in> set (kc_queue s)"
    "is_candidate wo now (ah_lineage head) s q"
    "sql_first (\<lambda>c. cm_id c = qi_command_id q) (kc_commands s) = Some c"
    "lockWorkerAggregate sv (cm_operation_name c) (cm_target_id c) (kc_aggregates s) = Inr ()"
    "sql_first (\<lambda>x. cl_id x = cm_claim_id c) (kc_claims s) = Some cl" "claim_current (ah_lineage head) c cl"
    "advance_fences wo now (ah_lineage head) q c cl s = Inr (s1, Some row)"
  using assms
proof (rule claim_transaction_cases)
  fix head q
  assume head: "lockAndVerifyPlatformRecovery (kc_recovery s) = Inr head" and cand: "is_candidate wo now (ah_lineage head) s q"
    and q: "q \<in> set (kc_queue s)" and claim: "claim_candidate sv wo now (ah_lineage head) q s = Inr (s1, Some row)"
  from claim_candidate_Inr [OF claim] obtain c cl where c: "sql_first (\<lambda>c. cm_id c = qi_command_id q) (kc_commands s) = Some c"
    and cl: "sql_first (\<lambda>x. cl_id x = cm_claim_id c) (kc_claims s) = Some cl" "claim_current (ah_lineage head) c cl"
    "advance_fences wo now (ah_lineage head) q c cl s = Inr (s1, Some row)" by auto
  from claim c have "lockWorkerAggregate sv (cm_operation_name c) (cm_target_id c) (kc_aggregates s) = Inr ()"
    by (auto simp: claim_candidate_def bindE_Inr_iff split: option.splits)
  from that [OF head q cand c this cl] show ?thesis .
qed simp

text \<open>What the rest of a run reads of the state a claim leaves.\<close>

lemma claimed_row:
  assumes "claim_transaction sv wo locked now s = Inr (s1, Some row)" and "distinct (map qi_id (kc_queue s))"
    and linked: "\<And>q c. q \<in> set (kc_queue s) \<Longrightarrow> c \<in> set (kc_commands s) \<Longrightarrow> cm_id c = qi_command_id q \<Longrightarrow> qi_claim_id q = cm_claim_id c"
  obtains head cl q1 where "lockAndVerifyPlatformRecovery (kc_recovery s1) = Inr head" "wr_lineage row = ah_lineage head"
    "lockWorkerAggregate sv (wr_operation_name row) (wr_target_id row) (kc_aggregates s1) = Inr ()"
    "sql_first (\<lambda>x. cl_id x = wr_claim_id row) (kc_claims s1) = Some cl" "\<not> cl_released cl" "cl_lineage cl = wr_lineage row"
    "cl_logical_operation_id cl = wr_logical_operation_id row" "cl_fencing_token cl = wr_fencing_token row"
    "sql_first (\<lambda>q. qi_id q = wr_queue_id row) (kc_queue s1) = Some q1" "qi_status q1 = ''CLAIMED''"
    "qi_lease_owner q1 = Some (wo_workerId wo)" "qi_lease_token q1 = wr_lease_token row"
    "kc_recovery s1 = kc_recovery s" "kc_recovery_items s1 = kc_recovery_items s" "kc_admissions s1 = kc_admissions s"
    "kc_heads s1 = kc_heads s" "kc_checkpoints s1 = kc_checkpoints s" "kc_effects s1 = kc_effects s" "kc_aggregates s1 = kc_aggregates s"
  using assms(1)
proof (rule claim_transaction_Some)
  fix head q c cl
  assume head: "lockAndVerifyPlatformRecovery (kc_recovery s) = Inr head" and q: "q \<in> set (kc_queue s)"
    and cand: "is_candidate wo now (ah_lineage head) s q"
    and c: "sql_first (\<lambda>c. cm_id c = qi_command_id q) (kc_commands s) = Some c"
    and agg: "lockWorkerAggregate sv (cm_operation_name c) (cm_target_id c) (kc_aggregates s) = Inr ()"
    and cl: "sql_first (\<lambda>x. cl_id x = cm_claim_id c) (kc_claims s) = Some cl" and cur: "claim_current (ah_lineage head) c cl"
    and adv: "advance_fences wo now (ah_lineage head) q c cl s = Inr (s1, Some row)"
  from adv have row: "wr_queue_id row = qi_id q" "wr_operation_name row = cm_operation_name c" "wr_target_id row = cm_target_id c"
    "wr_logical_operation_id row = cm_logical_operation_id c" "wr_lineage row = qi_lineage q" "wr_claim_id row = qi_claim_id q"
    "wr_fencing_token row = cl_fencing_token cl + 1" "wr_lease_token row = qi_lease_token q + 1"
    by (auto simp: advance_fences_def Let_def split: if_splits)
  from cand have lin: "qi_lineage q = ah_lineage head" by (simp add: is_candidate_def)
  from linked [OF q] sql_first_Some [OF c] have claim: "qi_claim_id q = cm_claim_id c" by simp
  from sql_first_Some [OF cl] have clid: "cl_id cl = cm_claim_id c" by simp
  note keep = adv [unfolded advance_fences_def Let_def]
  have f: "kc_recovery s1 = kc_recovery s" "kc_recovery_items s1 = kc_recovery_items s" "kc_admissions s1 = kc_admissions s"
    "kc_heads s1 = kc_heads s" "kc_checkpoints s1 = kc_checkpoints s" "kc_effects s1 = kc_effects s" "kc_aggregates s1 = kc_aggregates s"
    using keep by (auto split: if_splits)
  have claims: "sql_first (\<lambda>x. cl_id x = wr_claim_id row) (kc_claims s1)
      = Some (cl\<lparr>cl_owner_instance_id := wo_workerId wo, cl_fencing_token := cl_fencing_token cl + 1, cl_expires_at := now + 300000\<rparr>)"
    using keep cur cl clid claim row(6) by (auto simp: sql_first_sql_update claim_current_def split: if_splits)
  from sql_first_unique [OF assms(2) q] have "sql_first (\<lambda>x. qi_id x = qi_id q) (kc_queue s) = Some q" .
  then have queue: "sql_first (\<lambda>x. qi_id x = wr_queue_id row) (kc_queue s1) = Some (q\<lparr>qi_status := ''CLAIMED'', qi_lease_owner := Some (wo_workerId wo),
      qi_lease_token := qi_lease_token q + 1, qi_lease_expires_at := Some (now + 1000 * wo_leaseSeconds wo),
      qi_attempt_count := qi_attempt_count q + 1, qi_fencing_token := cl_fencing_token cl + 1\<rparr>)"
    using keep row(1) lin by (auto simp: sql_first_sql_update split: if_splits)
  show ?thesis
    by (rule that [of head, OF _ _ _ claims _ _ _ _ queue]) (use head f row lin agg cur in \<open>simp_all add: claim_current_def\<close>)
qed

section \<open>Recovery of a crashed worker\<close>

definition queue_linked :: "'a kcml \<Rightarrow> bool" where
  "queue_linked s = (distinct (map qi_id (kc_queue s))
     \<and> list_all (\<lambda>q. list_all (\<lambda>c. cm_id c = qi_command_id q \<longrightarrow> qi_claim_id q = cm_claim_id c) (kc_commands s)) (kc_queue s))"

text \<open>The admission of the command is still on the epoch of its activation domain.\<close>

definition epoch_current :: "worker_row \<Rightarrow> 'a kcml \<Rightarrow> bool" where
  "epoch_current row s = (case sql_first (\<lambda>a. ad_command_id a = wr_command_id row) (kc_admissions s) of
     None \<Rightarrow> False
   | Some a \<Rightarrow> ad_state a \<in> set [''ADMITTED'', ''TERMINAL''] \<and> ad_pinned_epoch a = wr_activation_epoch row
       \<and> (case sql_first (\<lambda>h. dh_id h = ad_domain_id a) (kc_heads s) of None \<Rightarrow> False
          | Some h \<Rightarrow> dh_current_activation_epoch h = ad_pinned_epoch a))"

text \<open>The counters a terminal result reports are absent from the output or read as integers.\<close>

definition output_counters_ok :: "'a op_services \<Rightarrow> cjson \<Rightarrow> bool" where
  "output_counters_ok sv v = (is_ok (output_field sv v [''state_version'']) \<and> is_ok (output_field sv v [''aggregate_event_sequence''])
     \<and> is_ok (output_field sv v [''current_activation_epoch'', ''activation_epoch'']))"

lemma verify_ok:
  assumes "epoch_current row s" and "lockWorkerAggregate sv (wr_operation_name row) (wr_target_id row) (kc_aggregates s) = Inr ()"
    and "sql_first (\<lambda>x. cl_id x = wr_claim_id row) (kc_claims s) = Some cl" "\<not> cl_released cl" "cl_lineage cl = wr_lineage row"
    "cl_logical_operation_id cl = wr_logical_operation_id row" "cl_fencing_token cl = wr_fencing_token row"
  shows "verifyWorkerClaimAndAdmission sv now row [''ADMITTED'', ''TERMINAL''] hb s = Inr (if hb
      then s\<lparr>kc_claims := sql_update (\<lambda>x. cl_id x = cl_id cl \<and> cl_fencing_token x = cl_fencing_token cl
          \<and> ln_recovery (cl_lineage x) = ln_recovery (cl_lineage cl)) (\<lambda>x. x\<lparr>cl_expires_at := now + 300000\<rparr>) (kc_claims s)\<rparr> else s)"
  using assms by (auto simp: verifyWorkerClaimAndAdmission_def epoch_current_def split: option.splits)

lemma replay_checkpoint:
  assumes "enter_command sv now row s = Inr (s1, head, Some cp)" and "check_delivery sv row = Inr operation"
  shows "applyCommand sv now n2 specialist handlers row s = (s1, Inr (cp_output cp))"
  using assms by (auto simp: applyCommand_def applySpecialistCommand_def in_tx_def applyInCommandTransaction_def prepare_specialist_def
      split: option.splits)

lemma authorized_frame:
  "kc_recovery s' = kc_recovery s \<Longrightarrow> kc_recovery_items s' = kc_recovery_items s
   \<Longrightarrow> checkpointRecoveryAuthorized row cp s' = checkpointRecoveryAuthorized row cp s"
  by (simp add: checkpointRecoveryAuthorized_def split: option.splits)

lemma complete_ok:
  assumes "lockAndVerifyPlatformRecovery (kc_recovery s) = Inr head" "wr_lineage row = ah_lineage head" "checkpoint_of row s = Some cp"
    "checkpointRecoveryAuthorized row cp s" "verifyWorkerClaimAndAdmission sv now row [''ADMITTED'', ''TERMINAL''] False s = Inr s"
    "sql_first (\<lambda>q. qi_id q = wr_queue_id row) (kc_queue s) = Some q" "qi_status q = ''CLAIMED''"
    "qi_lease_owner q = Some (wo_workerId wo)" "qi_lease_token q = wr_lease_token row" "output_counters_ok sv (cp_output cp)"
  shows "is_ok (complete_transaction sv wo now row (cp_output cp) s)"
proof -
  from assms(10) obtain a b c where "output_field sv (cp_output cp) [''state_version''] = Inr a"
    "output_field sv (cp_output cp) [''aggregate_event_sequence''] = Inr b"
    "output_field sv (cp_output cp) [''current_activation_epoch'', ''activation_epoch''] = Inr c"
    by (auto simp: output_counters_ok_def is_ok_iff)
  with assms show ?thesis by (simp add: complete_transaction_def is_ok_iff Let_def)
qed

lemma completed_command:
  assumes "complete_transaction sv wo now row v s = Inr (s', u)" and "checkpoint_of row s = Some cp"
  shows "kc_aggregates s' = kc_aggregates s \<and> kc_effects s' = kc_effects s \<and> kc_checkpoints s' = kc_checkpoints s
    \<and> (\<forall>c \<in> set (kc_commands s'). cm_id c = wr_command_id row \<longrightarrow> cm_status c = ''SUCCEEDED'' \<and> cm_result c = Some (cp_output cp))
    \<and> (\<forall>a \<in> set (kc_admissions s'). ad_command_id a = wr_command_id row \<longrightarrow> ad_state a = ''TERMINAL'')"
  using assms(1)
proof (rule complete_transaction_Inr)
  fix cp' response s3 s4
  assume "checkpoint_of row s = Some cp'"
    and s: "s3 = set_queue (wr_queue_id row) (\<lambda>q. q\<lparr>qi_status := ''SUCCEEDED''\<rparr>) (set_idempotency (wr_command_id row) ''SUCCEEDED'' 200 response
      (set_command (wr_command_id row) (\<lambda>c. c\<lparr>cm_status := ''SUCCEEDED'', cm_result := Some (cp_output cp'), cm_error := None\<rparr>) s))"
    "s4 = terminalizeCommandGuards (wr_command_id row) (wr_logical_operation_id row) (wr_claim_id row) s3"
    "s' = s4\<lparr>kc_audit := kc_audit s4 @ [(''domain.command.succeeded'', wr_command_id row)]\<rparr>"
  with assms(2) have "cp' = cp" by simp
  then show ?thesis unfolding s
    by (auto simp: set_queue_def set_idempotency_def set_command_def terminalizeCommandGuards_def Let_def set_sql_update split: option.splits)
qed

text \<open>
  C4. A command whose effect was committed before its worker crashed is finished by the next worker
  that claims it: the run returns with the command succeeded with the checkpoint's output and its
  admission terminal, and neither its handler nor a specialist is run again, whatever they would do:
  aggregates, the side-effect ledger and the checkpoints are as before.
\<close>

theorem crashed_command_is_completed:
  assumes claim: "claim_transaction sv wo locked (clock 0) s = Inr (s1, Some row)" and "queue_linked s"
    and cp: "checkpoint_of row s = Some cp" "checkpointRecoveryAuthorized row cp s" and "epoch_current row s"
    and "check_delivery sv row = Inr operation" and "output_counters_ok sv (cp_output cp)"
  shows "\<exists>s'. runOnce sv wo locked uuid clock None specialist handlers s = (s', Inr True)
    \<and> (\<forall>c \<in> set (kc_commands s'). cm_id c = wr_command_id row \<longrightarrow> cm_status c = ''SUCCEEDED'' \<and> cm_result c = Some (cp_output cp))
    \<and> (\<forall>a \<in> set (kc_admissions s'). ad_command_id a = wr_command_id row \<longrightarrow> ad_state a = ''TERMINAL'')
    \<and> kc_aggregates s' = kc_aggregates s \<and> kc_effects s' = kc_effects s \<and> kc_checkpoints s' = kc_checkpoints s"
proof -
  from assms(2) have d: "distinct (map qi_id (kc_queue s))"
    and l: "\<And>q c. q \<in> set (kc_queue s) \<Longrightarrow> c \<in> set (kc_commands s) \<Longrightarrow> cm_id c = qi_command_id q \<Longrightarrow> qi_claim_id q = cm_claim_id c"
    by (auto simp: queue_linked_def list_all_iff)
  obtain head cl q1 where r: "lockAndVerifyPlatformRecovery (kc_recovery s1) = Inr head" "wr_lineage row = ah_lineage head"
    and v: "lockWorkerAggregate sv (wr_operation_name row) (wr_target_id row) (kc_aggregates s1) = Inr ()"
      "sql_first (\<lambda>x. cl_id x = wr_claim_id row) (kc_claims s1) = Some cl" "\<not> cl_released cl" "cl_lineage cl = wr_lineage row"
      "cl_logical_operation_id cl = wr_logical_operation_id row" "cl_fencing_token cl = wr_fencing_token row"
    and q: "sql_first (\<lambda>q. qi_id q = wr_queue_id row) (kc_queue s1) = Some q1" "qi_status q1 = ''CLAIMED''"
      "qi_lease_owner q1 = Some (wo_workerId wo)" "qi_lease_token q1 = wr_lease_token row"
    and f: "kc_recovery s1 = kc_recovery s" "kc_recovery_items s1 = kc_recovery_items s" "kc_admissions s1 = kc_admissions s"
      "kc_heads s1 = kc_heads s" "kc_checkpoints s1 = kc_checkpoints s" "kc_effects s1 = kc_effects s" "kc_aggregates s1 = kc_aggregates s"
    by (rule claimed_row [OF claim d l])
  have epoch: "epoch_current row s1" using assms(5) f(3,4) by (simp add: epoch_current_def cong: option.case_cong)
  have cp1: "checkpoint_of row s1 = Some cp" "checkpointRecoveryAuthorized row cp s1"
    using cp f by (simp_all add: checkpoint_of_def authorized_frame [of s1 s])
  define s2 where "s2 = s1\<lparr>kc_claims := sql_update (\<lambda>x. cl_id x = cl_id cl \<and> cl_fencing_token x = cl_fencing_token cl
          \<and> ln_recovery (cl_lineage x) = ln_recovery (cl_lineage cl)) (\<lambda>x. x\<lparr>cl_expires_at := clock 1 + 300000\<rparr>) (kc_claims s1)\<rparr>"
  from verify_ok [OF epoch v] r cp1 have "enter_command sv (clock 1) row s1 = Inr (s2, head, Some cp)"
    by (simp add: enter_command_def s2_def authorized_frame [of "s1\<lparr>kc_claims := x\<rparr>" s1 for x])
  from replay_checkpoint [OF this assms(6)] have ap: "applyCommand sv (clock 1) (clock 2) specialist handlers row s1 = (s2, Inr (cp_output cp))" .
  have c2: "sql_first (\<lambda>x. cl_id x = wr_claim_id row) (kc_claims s2) = Some (cl\<lparr>cl_expires_at := clock 1 + 300000\<rparr>)"
    using v(2) by (simp add: s2_def sql_first_sql_update)
  have e2: "epoch_current row s2" using epoch by (simp add: s2_def epoch_current_def cong: option.case_cong)
  have "verifyWorkerClaimAndAdmission sv (clock 3) row [''ADMITTED'', ''TERMINAL''] False s2 = Inr s2"
    using v by (subst verify_ok [OF e2 _ c2]) (simp_all add: s2_def)
  then have "is_ok (complete_transaction sv wo (clock 3) row (cp_output cp) s2)"
    using r cp1 q assms(7)
    by (intro complete_ok [where head = head and q = q1]) (simp_all add: s2_def checkpoint_of_def authorized_frame [of "s1\<lparr>kc_claims := x\<rparr>" s1 for x])
  then obtain s3 where s3: "complete_transaction sv wo (clock 3) row (cp_output cp) s2 = Inr (s3, ())" by (auto simp: is_ok_iff)
  have "checkpoint_of row s2 = Some cp" using cp1 by (simp add: s2_def checkpoint_of_def)
  from completed_command [OF s3 this] have done_: "kc_aggregates s3 = kc_aggregates s2 \<and> kc_effects s3 = kc_effects s2 \<and> kc_checkpoints s3 = kc_checkpoints s2
    \<and> (\<forall>c \<in> set (kc_commands s3). cm_id c = wr_command_id row \<longrightarrow> cm_status c = ''SUCCEEDED'' \<and> cm_result c = Some (cp_output cp))
    \<and> (\<forall>a \<in> set (kc_admissions s3). ad_command_id a = wr_command_id row \<longrightarrow> ad_state a = ''TERMINAL'')" .
  have "runOnce sv wo locked uuid clock None specialist handlers s = (s3, Inr True)"
    by (simp add: runOnce_def in_tx_def claim ap s3 del: One_nat_def)
  with done_ f show ?thesis by (auto simp: s2_def)
qed

text \<open>The worker \<open>w1\<close> applied the command and crashed; \<open>w2\<close> claims it after the lease has expired.\<close>

definition crashed_store :: "nat kcml" where
  "crashed_store = insert_checkpoint first_row (CObj [(''holder'', CStr ''owner'')]) claimed_store"

definition refusing_handler :: "op_contract \<Rightarrow> worker_row \<Rightarrow> nat handler" where
  "refusing_handler operation row head x = Inl (Plain_Error ''applied twice'')"

definition second_row :: worker_row where
  "second_row = first_row\<lparr>wr_fencing_token := 3, wr_lease_token := 2\<rparr>"

definition crashed_checkpoint :: checkpoint_row where
  "crashed_checkpoint = \<lparr>cp_command_id = ''c'', cp_logical_operation_id = ''l'', cp_output = CObj [(''holder'', CStr ''owner'')], cp_claim_id = ''k'',
     cp_fencing_token = 2, cp_recovery_epoch = 2\<rparr>"

lemma crashed_store_linked: "queue_linked crashed_store"
  by code_simp

lemma crashed_store_claimed:
  "case claim_transaction sample_services second_worker (\<lambda>_. False) 90000 crashed_store of Inr (s, Some row) \<Rightarrow> row = second_row | _ \<Rightarrow> False"
  by code_simp

lemma crashed_store_checkpoint:
  "checkpoint_of second_row crashed_store = Some crashed_checkpoint" "checkpointRecoveryAuthorized second_row crashed_checkpoint crashed_store"
  by code_simp+

lemma crashed_store_epoch: "epoch_current second_row crashed_store"
  by code_simp

lemma crashed_delivery: "is_ok (check_delivery sample_services second_row)"
  by code_simp

lemma crashed_counters: "output_counters_ok sample_services (cp_output crashed_checkpoint)"
  by (simp add: output_counters_ok_def output_field_def crashed_checkpoint_def)

theorem crashed_command_is_completed_witness:
  "\<exists>s'. runOnce sample_services second_worker (\<lambda>_. False) sample_uuid (\<lambda>n. 90000 + int n) None (None :: (nat, unit, unit) specialist_executor option)
      refusing_handler crashed_store = (s', Inr True)
    \<and> (\<forall>c \<in> set (kc_commands s'). cm_id c = ''c'' \<longrightarrow> cm_status c = ''SUCCEEDED'')"
proof -
  from crashed_store_claimed obtain s1 where c: "claim_transaction sample_services second_worker (\<lambda>_. False) (90000 + int 0) crashed_store = Inr (s1, Some second_row)"
    by (auto split: sum.splits prod.splits option.splits)
  from crashed_delivery obtain operation where d: "check_delivery sample_services second_row = Inr operation" by (auto simp: is_ok_iff)
  have "wr_command_id second_row = ''c''" by (simp add: second_row_def first_row_def)
  with crashed_command_is_completed [of sample_services second_worker "\<lambda>_. False" "\<lambda>n. 90000 + int n", OF c crashed_store_linked
      crashed_store_checkpoint crashed_store_epoch d crashed_counters, of sample_uuid None refusing_handler]
  show ?thesis by auto
qed

end
