(* ===== verification/SideEffectLedger.thy ===== *)
theory SideEffectLedger
  imports CommandStore
begin

text \<open>
  The ledger of external side effects: \<^verbatim>\<open>packages/domain/src/side-effect-ledger.ts\<close>. An intent is
  recorded once per command and step before anything happens outside the database; the evidence read
  back afterwards is appended to the attempt and sets the disposition. The tables are those of
  \<open>CommandStore\<close>'s style: lists of rows, with the defaults the schema gives to new rows. Requests and
  payloads are JSON values.
\<close>

section \<open>Tables\<close>

record effect_authority =
  ea_commandId :: string
  ea_logicalOperationId :: string
  ea_operationName :: string
  ea_sideEffectClass :: string
  ea_retryClass :: string
  ea_lineage :: lineage

record ledger_operation =
  lo_id :: string
  lo_command_id :: string
  lo_step_key :: string
  lo_target_binding :: string
  lo_request_digest :: string
  lo_idempotency_key :: string
  lo_side_effect_class :: string
  lo_retry_class :: string
  lo_reconciliation_contract :: cjson
  lo_lineage :: lineage
  lo_current_attempt_sequence :: int
  lo_status :: string

record ledger_attempt =
  la_operation_id :: string
  la_attempt_sequence :: int
  la_request_digest :: string

record ledger_attempt_state =
  ls_operation_id :: string
  ls_attempt_sequence :: int
  ls_status :: string
  ls_last_evidence_sequence :: int

record ledger_evidence =
  le_operation_id :: string
  le_attempt_sequence :: int
  le_evidence_sequence :: int
  le_payload :: cjson
  le_payload_digest :: string

record ledger =
  lg_operations :: "ledger_operation list"
  lg_attempts :: "ledger_attempt list"
  lg_states :: "ledger_attempt_state list"
  lg_evidence :: "ledger_evidence list"

record intent_record =
  in_id :: string
  in_currentAttemptSequence :: int
  in_status :: string

section \<open>Operations\<close>

definition op_key :: "ledger_operation \<Rightarrow> string \<times> string" where
  "op_key x = (lo_command_id x, lo_step_key x)"

definition attempt_key :: "ledger_attempt \<Rightarrow> string \<times> int" where
  "attempt_key x = (la_operation_id x, la_attempt_sequence x)"

definition state_key :: "ledger_attempt_state \<Rightarrow> string \<times> int" where
  "state_key x = (ls_operation_id x, ls_attempt_sequence x)"

definition evidence_key :: "ledger_evidence \<Rightarrow> string \<times> int \<times> int" where
  "evidence_key x = (le_operation_id x, le_attempt_sequence x, le_evidence_sequence x)"

text \<open>\<^verbatim>\<open>INSERT ... ON CONFLICT DO NOTHING\<close> on a unique key.\<close>

definition insert_new :: "('r \<Rightarrow> 'k) \<Rightarrow> 'r \<Rightarrow> 'r list \<Rightarrow> 'r list" where
  "insert_new key row rows = (if key row \<in> key ` set rows then rows else rows @ [row])"

definition recordSideEffectIntent ::
  "(cjson \<Rightarrow> string) \<Rightarrow> string \<Rightarrow> effect_authority \<Rightarrow> string \<Rightarrow> string \<Rightarrow> cjson \<Rightarrow> cjson \<Rightarrow> ledger \<Rightarrow> (ledger \<times> intent_record) outcome" where
  "recordSideEffectIntent digest new_id context stepKey targetBinding request reconciliationContract L =
     (let requestDigest = digest request;
          operations = insert_new op_key \<lparr>lo_id = new_id, lo_command_id = ea_commandId context, lo_step_key = stepKey,
            lo_target_binding = targetBinding, lo_request_digest = requestDigest,
            lo_idempotency_key = ea_logicalOperationId context @ '':'' @ stepKey, lo_side_effect_class = ea_sideEffectClass context,
            lo_retry_class = ea_retryClass context, lo_reconciliation_contract = reconciliationContract, lo_lineage = ea_lineage context,
            lo_current_attempt_sequence = 1, lo_status = ''INTENT_RECORDED''\<rparr> (lg_operations L) in
      case sql_first (\<lambda>x. lo_command_id x = ea_commandId context \<and> lo_step_key x = stepKey) operations of
        None \<Rightarrow> Inl (Plain_Error ''SIDE_EFFECT_INTENT_MISSING'')
      | Some row \<Rightarrow>
          if lo_request_digest row \<noteq> requestDigest then Inl (Plain_Error ''SIDE_EFFECT_INTENT_DIGEST_MISMATCH'')
          else let n = lo_current_attempt_sequence row in
            Inr (\<lparr>lg_operations = operations,
                  lg_attempts = insert_new attempt_key \<lparr>la_operation_id = lo_id row, la_attempt_sequence = n, la_request_digest = requestDigest\<rparr> (lg_attempts L),
                  lg_states = insert_new state_key \<lparr>ls_operation_id = lo_id row, ls_attempt_sequence = n, ls_status = ''INTENT_RECORDED'',
                    ls_last_evidence_sequence = 0\<rparr> (lg_states L),
                  lg_evidence = lg_evidence L\<rparr>,
              \<lparr>in_id = lo_id row, in_currentAttemptSequence = n, in_status = lo_status row\<rparr>))"

definition recordSideEffectReadbackEvidence ::
  "(cjson \<Rightarrow> string) \<Rightarrow> string \<Rightarrow> cjson \<Rightarrow> string \<Rightarrow> ledger \<Rightarrow> (ledger \<times> unit) outcome" where
  "recordSideEffectReadbackEvidence digest operationId payload disposition L =
     (case sql_first (\<lambda>x. lo_id x = operationId) (lg_operations L) of
        None \<Rightarrow> Inl (Plain_Error ''SIDE_EFFECT_OPERATION_NOT_FOUND'')
      | Some operation \<Rightarrow>
          let n = lo_current_attempt_sequence operation; here = (\<lambda>x. state_key x = (operationId, n)) in
          case sql_first here (lg_states L) of
            None \<Rightarrow> Inl (Plain_Error ''SIDE_EFFECT_ATTEMPT_STATE_NOT_FOUND'')
          | Some st \<Rightarrow>
              let row = \<lparr>le_operation_id = operationId, le_attempt_sequence = n, le_evidence_sequence = ls_last_evidence_sequence st + 1,
                    le_payload = payload, le_payload_digest = digest payload\<rparr> in
              if evidence_key row \<in> evidence_key ` set (lg_evidence L) then Inl (Pg_Error ''23505'')
              else Inr (L\<lparr>
                  lg_states := sql_update here (\<lambda>x. x\<lparr>ls_last_evidence_sequence := ls_last_evidence_sequence x + 1, ls_status := disposition\<rparr>) (lg_states L),
                  lg_evidence := lg_evidence L @ [row],
                  lg_operations := sql_update (\<lambda>x. lo_id x = operationId) (\<lambda>x. x\<lparr>lo_status := disposition\<rparr>) (lg_operations L)\<rparr>, ()))"

section \<open>Invariant\<close>

definition attempt_evidence :: "ledger \<Rightarrow> string \<Rightarrow> int \<Rightarrow> int list" where
  "attempt_evidence L i n = map le_evidence_sequence (filter (\<lambda>e. le_operation_id e = i \<and> le_attempt_sequence e = n) (lg_evidence L))"

text \<open>
  Keys are unique, every operation has its current attempt with a state that agrees on the
  disposition, and the evidence of an attempt is numbered from one without a gap.
\<close>

definition ledger_ok :: "ledger \<Rightarrow> bool" where
  "ledger_ok L = (distinct (map lo_id (lg_operations L)) \<and> distinct (map op_key (lg_operations L))
     \<and> distinct (map attempt_key (lg_attempts L)) \<and> distinct (map state_key (lg_states L))
     \<and> (\<forall>x \<in> set (lg_operations L). (lo_id x, lo_current_attempt_sequence x) \<in> attempt_key ` set (lg_attempts L)
         \<and> (\<exists>st \<in> set (lg_states L). state_key st = (lo_id x, lo_current_attempt_sequence x) \<and> ls_status st = lo_status x))
     \<and> (\<forall>st \<in> set (lg_states L). ls_last_evidence_sequence st \<ge> 0
         \<and> attempt_evidence L (ls_operation_id st) (ls_attempt_sequence st) = [1..ls_last_evidence_sequence st])
     \<and> (\<forall>e \<in> set (lg_evidence L). (le_operation_id e, le_attempt_sequence e) \<in> state_key ` set (lg_states L))
     \<and> la_operation_id ` set (lg_attempts L) \<union> ls_operation_id ` set (lg_states L) \<subseteq> lo_id ` set (lg_operations L))"

inductive ledger_step :: "(cjson \<Rightarrow> string) \<Rightarrow> ledger \<Rightarrow> ledger \<Rightarrow> bool" for digest where
  ledger_intent: "new_id \<notin> lo_id ` set (lg_operations L) \<Longrightarrow> recordSideEffectIntent digest new_id context stepKey binding request contract L = Inr (L', r)
     \<Longrightarrow> ledger_step digest L L'"
| ledger_readback: "recordSideEffectReadbackEvidence digest i payload disposition L = Inr (L', u) \<Longrightarrow> ledger_step digest L L'"

interpretation ledger_system: transition_system "\<lambda>L. L = \<lparr>lg_operations = [], lg_attempts = [], lg_states = [], lg_evidence = []\<rparr>" "ledger_step digest" for digest .

lemma ledger_okD:
  assumes "ledger_ok L"
  shows "distinct (map lo_id (lg_operations L))" "distinct (map op_key (lg_operations L))"
    "distinct (map attempt_key (lg_attempts L))" "distinct (map state_key (lg_states L))"
    "x \<in> set (lg_operations L) \<Longrightarrow> (lo_id x, lo_current_attempt_sequence x) \<in> attempt_key ` set (lg_attempts L)"
    "x \<in> set (lg_operations L) \<Longrightarrow> \<exists>st \<in> set (lg_states L). state_key st = (lo_id x, lo_current_attempt_sequence x) \<and> ls_status st = lo_status x"
    "st \<in> set (lg_states L) \<Longrightarrow> ls_last_evidence_sequence st \<ge> 0"
    "st \<in> set (lg_states L) \<Longrightarrow> attempt_evidence L (ls_operation_id st) (ls_attempt_sequence st) = [1..ls_last_evidence_sequence st]"
    "e \<in> set (lg_evidence L) \<Longrightarrow> (le_operation_id e, le_attempt_sequence e) \<in> state_key ` set (lg_states L)"
    "a \<in> set (lg_attempts L) \<Longrightarrow> la_operation_id a \<in> lo_id ` set (lg_operations L)"
    "st \<in> set (lg_states L) \<Longrightarrow> ls_operation_id st \<in> lo_id ` set (lg_operations L)"
  using assms unfolding ledger_ok_def by blast+

lemma set_insert_new: "set (insert_new key row rows) = (if key row \<in> key ` set rows then set rows else insert row (set rows))"
  by (simp add: insert_new_def)

lemma distinct_insert_new: "distinct (map key rows) \<Longrightarrow> distinct (map key (insert_new key row rows))"
  by (auto simp: insert_new_def)

lemma sql_first_key:
  "sql_first (\<lambda>x. lo_command_id x = c \<and> lo_step_key x = k) rows = sql_first (\<lambda>x. op_key x = (c, k)) rows"
  by (simp add: op_key_def)

text \<open>An intent for a step that has one changes nothing.\<close>

lemma intent_existing:
  assumes "ledger_ok L" and "x \<in> set (lg_operations L)" "op_key x = (ea_commandId context, stepKey)"
  shows "recordSideEffectIntent digest i context stepKey binding request contract L =
    (if lo_request_digest x = digest request
     then Inr (L, \<lparr>in_id = lo_id x, in_currentAttemptSequence = lo_current_attempt_sequence x, in_status = lo_status x\<rparr>)
     else Inl (Plain_Error ''SIDE_EFFECT_INTENT_DIGEST_MISMATCH''))"
proof -
  from assms have first: "sql_first (\<lambda>y. op_key y = (ea_commandId context, stepKey)) (lg_operations L) = Some x"
    using sql_first_unique [of op_key "lg_operations L" x] by (simp add: ledger_ok_def)
  have keys: "(lo_id x, lo_current_attempt_sequence x) \<in> attempt_key ` set (lg_attempts L)"
    "(lo_id x, lo_current_attempt_sequence x) \<in> state_key ` set (lg_states L)"
    using ledger_okD(5,6) [OF assms(1,2)] by force+
  have "(ea_commandId context, stepKey) \<in> op_key ` set (lg_operations L)" using assms(2,3) by (metis image_eqI)
  then have ops: "insert_new op_key (ledger_operation.make i (ea_commandId context) stepKey b d k c1 c2 rc l n st) (lg_operations L) = lg_operations L"
    for b d k c1 c2 rc l n st
    by (simp add: insert_new_def op_key_def ledger_operation.defs)
  have same: "insert_new attempt_key \<lparr>la_operation_id = lo_id x, la_attempt_sequence = lo_current_attempt_sequence x, la_request_digest = d\<rparr> (lg_attempts L) = lg_attempts L"
    "insert_new state_key \<lparr>ls_operation_id = lo_id x, ls_attempt_sequence = lo_current_attempt_sequence x, ls_status = s, ls_last_evidence_sequence = 0\<rparr> (lg_states L) = lg_states L"
    for d s using keys by (simp_all add: insert_new_def attempt_key_def [of "\<lparr>la_operation_id = _, la_attempt_sequence = _, la_request_digest = _\<rparr>"]
        state_key_def [of "\<lparr>ls_operation_id = _, ls_attempt_sequence = _, ls_status = _, ls_last_evidence_sequence = _\<rparr>"])
  show ?thesis
    unfolding recordSideEffectIntent_def Let_def sql_first_key ops [unfolded ledger_operation.defs] first by (simp add: same)
qed

lemma intent_fresh:
  assumes "ledger_ok L" and new: "(ea_commandId context, stepKey) \<notin> op_key ` set (lg_operations L)" and "i \<notin> lo_id ` set (lg_operations L)"
    and "recordSideEffectIntent digest i context stepKey binding request contract L = Inr (L', r)"
  obtains row where "lg_operations L' = lg_operations L @ [row]" "op_key row = (ea_commandId context, stepKey)" "lo_id row = i"
    "lo_current_attempt_sequence row = 1" "lo_status row = ''INTENT_RECORDED''"
    "lg_attempts L' = lg_attempts L @ [\<lparr>la_operation_id = i, la_attempt_sequence = 1, la_request_digest = digest request\<rparr>]"
    "lg_states L' = lg_states L @ [\<lparr>ls_operation_id = i, ls_attempt_sequence = 1, ls_status = ''INTENT_RECORDED'', ls_last_evidence_sequence = 0\<rparr>]"
    "lg_evidence L' = lg_evidence L" "in_id r = i"
proof -
  have keys: "(i, 1) \<notin> attempt_key ` set (lg_attempts L)" "(i, 1) \<notin> state_key ` set (lg_states L)"
    using assms(1,3) by (auto simp: ledger_ok_def attempt_key_def state_key_def)
  define row where "row = \<lparr>lo_id = i, lo_command_id = ea_commandId context, lo_step_key = stepKey, lo_target_binding = binding,
    lo_request_digest = digest request, lo_idempotency_key = ea_logicalOperationId context @ '':'' @ stepKey,
    lo_side_effect_class = ea_sideEffectClass context, lo_retry_class = ea_retryClass context, lo_reconciliation_contract = contract,
    lo_lineage = ea_lineage context, lo_current_attempt_sequence = 1, lo_status = ''INTENT_RECORDED''\<rparr>"
  from new have none: "sql_first (\<lambda>y. op_key y = (ea_commandId context, stepKey)) (lg_operations L) = None"
    by (auto simp: sql_first_None image_iff)
  have key: "op_key row = (ea_commandId context, stepKey)" by (simp add: row_def op_key_def)
  with new have ops: "insert_new op_key row (lg_operations L) = lg_operations L @ [row]" by (simp add: insert_new_def)
  have first: "sql_first (\<lambda>y. op_key y = (ea_commandId context, stepKey)) (lg_operations L @ [row]) = Some row"
    using none key by (simp add: sql_first_append) (simp add: sql_first_def)
  have fields: "lo_id row = i" "lo_request_digest row = digest request" "lo_current_attempt_sequence row = 1" "lo_status row = ''INTENT_RECORDED''"
    by (simp_all add: row_def)
  have "recordSideEffectIntent digest i context stepKey binding request contract L = Inr (\<lparr>lg_operations = lg_operations L @ [row],
      lg_attempts = lg_attempts L @ [\<lparr>la_operation_id = i, la_attempt_sequence = 1, la_request_digest = digest request\<rparr>],
      lg_states = lg_states L @ [\<lparr>ls_operation_id = i, ls_attempt_sequence = 1, ls_status = ''INTENT_RECORDED'', ls_last_evidence_sequence = 0\<rparr>],
      lg_evidence = lg_evidence L\<rparr>, \<lparr>in_id = i, in_currentAttemptSequence = 1, in_status = ''INTENT_RECORDED''\<rparr>)"
    unfolding recordSideEffectIntent_def Let_def row_def [symmetric] ops sql_first_key first
    using keys by (simp add: fields) (simp add: insert_new_def attempt_key_def state_key_def)
  with assms(4) have r: "L' = \<lparr>lg_operations = lg_operations L @ [row],
      lg_attempts = lg_attempts L @ [\<lparr>la_operation_id = i, la_attempt_sequence = 1, la_request_digest = digest request\<rparr>],
      lg_states = lg_states L @ [\<lparr>ls_operation_id = i, ls_attempt_sequence = 1, ls_status = ''INTENT_RECORDED'', ls_last_evidence_sequence = 0\<rparr>],
      lg_evidence = lg_evidence L\<rparr>" "in_id r = i" by auto
  show ?thesis by (rule that [of row]) (use key fields r in simp_all)
qed

lemma ledger_ok_intent:
  assumes ok: "ledger_ok L" and "i \<notin> lo_id ` set (lg_operations L)"
    and run: "recordSideEffectIntent digest i context stepKey binding request contract L = Inr (L', r)"
  shows "ledger_ok L'"
proof (cases "(ea_commandId context, stepKey) \<in> op_key ` set (lg_operations L)")
  case True
  then obtain x where "x \<in> set (lg_operations L)" "op_key x = (ea_commandId context, stepKey)" by auto
  from intent_existing [OF ok this] run ok show ?thesis by (auto split: if_splits)
next
  case False
  obtain row where L': "lg_operations L' = lg_operations L @ [row]" "op_key row = (ea_commandId context, stepKey)" "lo_id row = i"
    "lo_current_attempt_sequence row = 1" "lo_status row = ''INTENT_RECORDED''"
    "lg_attempts L' = lg_attempts L @ [\<lparr>la_operation_id = i, la_attempt_sequence = 1, la_request_digest = digest request\<rparr>]"
    "lg_states L' = lg_states L @ [\<lparr>ls_operation_id = i, ls_attempt_sequence = 1, ls_status = ''INTENT_RECORDED'', ls_last_evidence_sequence = 0\<rparr>]"
    "lg_evidence L' = lg_evidence L"
    by (rule intent_fresh [OF ok False assms(2) run])
  have none: "attempt_evidence L i n = []" for n
  proof -
    have "le_operation_id e \<in> lo_id ` set (lg_operations L)" if "e \<in> set (lg_evidence L)" for e
    proof -
      from ledger_okD(9) [OF ok that] obtain s where s: "s \<in> set (lg_states L)" "ls_operation_id s = le_operation_id e"
        by (auto simp: state_key_def)
      with ledger_okD(11) [OF ok s(1)] show ?thesis by simp
    qed
    with assms(2) show ?thesis by (auto simp: attempt_evidence_def filter_empty_conv)
  qed
  have ev: "attempt_evidence L' j n = attempt_evidence L j n" for j n by (simp add: attempt_evidence_def L')
  have "i \<notin> la_operation_id ` set (lg_attempts L)" "i \<notin> ls_operation_id ` set (lg_states L)"
    using ledger_okD(10,11) [OF ok] assms(2) by auto
  then have "(i, n) \<notin> attempt_key ` set (lg_attempts L)" "(i, n) \<notin> state_key ` set (lg_states L)" for n
    by (auto simp: attempt_key_def state_key_def)
  note fresh = this
  have new: "attempt_key \<lparr>la_operation_id = i, la_attempt_sequence = 1, la_request_digest = digest request\<rparr> = (i, 1)"
    "state_key \<lparr>ls_operation_id = i, ls_attempt_sequence = 1, ls_status = ''INTENT_RECORDED'', ls_last_evidence_sequence = 0\<rparr> = (i, 1)"
    by (simp_all add: attempt_key_def state_key_def)
  have "distinct (map lo_id (lg_operations L'))" "distinct (map op_key (lg_operations L'))" "distinct (map attempt_key (lg_attempts L'))"
    "distinct (map state_key (lg_states L'))"
    using ledger_okD(1-4) [OF ok] assms(2) False fresh by (simp_all add: L' new)
  moreover have "(lo_id x, lo_current_attempt_sequence x) \<in> attempt_key ` set (lg_attempts L')
      \<and> (\<exists>st \<in> set (lg_states L'). state_key st = (lo_id x, lo_current_attempt_sequence x) \<and> ls_status st = lo_status x)"
    if "x \<in> set (lg_operations L')" for x
  proof (cases "x = row")
    case True
    then show ?thesis by (simp add: L' new)
  next
    case False
    with that have "x \<in> set (lg_operations L)" by (simp add: L'(1))
    from ledger_okD(5,6) [OF ok this] show ?thesis by (auto simp: L'(6,7))
  qed
  moreover have "ls_last_evidence_sequence st \<ge> 0 \<and> attempt_evidence L' (ls_operation_id st) (ls_attempt_sequence st) = [1..ls_last_evidence_sequence st]"
    if "st \<in> set (lg_states L')" for st
    using that ledger_okD(7,8) [OF ok] none by (auto simp: L'(7) ev)
  moreover have "(le_operation_id e, le_attempt_sequence e) \<in> state_key ` set (lg_states L')" if "e \<in> set (lg_evidence L')" for e
    using ledger_okD(9) [OF ok] that by (simp add: L'(7,8))
  moreover have "la_operation_id ` set (lg_attempts L') \<union> ls_operation_id ` set (lg_states L') \<subseteq> lo_id ` set (lg_operations L')"
    using ledger_okD(10,11) [OF ok] by (auto simp: L'(1,3,6,7))
  ultimately show ?thesis by (simp add: ledger_ok_def)
qed

lemma readback_Inr:
  assumes "recordSideEffectReadbackEvidence digest i payload disposition L = Inr (L', u)"
  obtains x st where "sql_first (\<lambda>x. lo_id x = i) (lg_operations L) = Some x"
    "sql_first (\<lambda>s. state_key s = (i, lo_current_attempt_sequence x)) (lg_states L) = Some st"
    "lg_states L' = sql_update (\<lambda>s. state_key s = (i, lo_current_attempt_sequence x))
      (\<lambda>s. s\<lparr>ls_last_evidence_sequence := ls_last_evidence_sequence s + 1, ls_status := disposition\<rparr>) (lg_states L)"
    "lg_evidence L' = lg_evidence L @ [\<lparr>le_operation_id = i, le_attempt_sequence = lo_current_attempt_sequence x,
      le_evidence_sequence = ls_last_evidence_sequence st + 1, le_payload = payload, le_payload_digest = digest payload\<rparr>]"
    "lg_operations L' = sql_update (\<lambda>x. lo_id x = i) (\<lambda>x. x\<lparr>lo_status := disposition\<rparr>) (lg_operations L)"
    "lg_attempts L' = lg_attempts L"
  using assms by (auto simp: recordSideEffectReadbackEvidence_def Let_def split: option.splits if_splits)

lemma upto_Suc: "0 \<le> n \<Longrightarrow> [1..n + 1] = [1..n] @ [n + 1]"
  using upto_rec2 [of 1 "n + 1"] by simp

lemma ledger_ok_readback:
  assumes ok: "ledger_ok L" and run: "recordSideEffectReadbackEvidence digest i payload disposition L = Inr (L', u)"
  shows "ledger_ok L'"
  using run
proof (rule readback_Inr)
  fix x :: ledger_operation and st :: ledger_attempt_state
  define n where "n = lo_current_attempt_sequence x"
  assume x: "sql_first (\<lambda>x. lo_id x = i) (lg_operations L) = Some x"
    and st: "sql_first (\<lambda>s. state_key s = (i, lo_current_attempt_sequence x)) (lg_states L) = Some st"
    and L': "lg_states L' = sql_update (\<lambda>s. state_key s = (i, lo_current_attempt_sequence x))
      (\<lambda>s. s\<lparr>ls_last_evidence_sequence := ls_last_evidence_sequence s + 1, ls_status := disposition\<rparr>) (lg_states L)"
    "lg_evidence L' = lg_evidence L @ [\<lparr>le_operation_id = i, le_attempt_sequence = lo_current_attempt_sequence x,
      le_evidence_sequence = ls_last_evidence_sequence st + 1, le_payload = payload, le_payload_digest = digest payload\<rparr>]"
    "lg_operations L' = sql_update (\<lambda>x. lo_id x = i) (\<lambda>x. x\<lparr>lo_status := disposition\<rparr>) (lg_operations L)"
    "lg_attempts L' = lg_attempts L"
  from sql_first_Some [OF x] sql_first_Some [OF st] have m: "x \<in> set (lg_operations L)" "lo_id x = i" "st \<in> set (lg_states L)" "state_key st = (i, n)"
    by (simp_all add: n_def)
  have uniq: "s = st" if "s \<in> set (lg_states L)" "state_key s = (i, n)" for s
    using distinct_map_eq [OF ledger_okD(4) [OF ok] that(1) m(3)] that(2) m(4) by simp
  have ev: "attempt_evidence L' j k = attempt_evidence L j k @ (if (j, k) = (i, n) then [ls_last_evidence_sequence st + 1] else [])" for j k
    by (simp add: attempt_evidence_def L' n_def)
  have keys: "map lo_id (lg_operations L') = map lo_id (lg_operations L)" "map op_key (lg_operations L') = map op_key (lg_operations L)"
    "map state_key (lg_states L') = map state_key (lg_states L)" "map ls_operation_id (lg_states L') = map ls_operation_id (lg_states L)"
    by (simp_all add: L' map_sql_update op_key_def state_key_def)
  have images: "lo_id ` set (lg_operations L') = lo_id ` set (lg_operations L)" "state_key ` set (lg_states L') = state_key ` set (lg_states L)"
    "ls_operation_id ` set (lg_states L') = ls_operation_id ` set (lg_states L)"
    using keys by (metis list.set_map)+
  have states: "ls_last_evidence_sequence s \<ge> 0 \<and> attempt_evidence L' (ls_operation_id s) (ls_attempt_sequence s) = [1..ls_last_evidence_sequence s]"
    if "s \<in> set (lg_states L')" for s
  proof -
    from that obtain s0 where s0: "s0 \<in> set (lg_states L)"
      "s = (if state_key s0 = (i, n) then s0\<lparr>ls_last_evidence_sequence := ls_last_evidence_sequence s0 + 1, ls_status := disposition\<rparr> else s0)"
      by (auto simp: L' sql_update_def n_def)
    note old = ledger_okD(7,8) [OF ok s0(1)]
    show ?thesis
    proof (cases "state_key s0 = (i, n)")
      case True
      with uniq [OF s0(1)] have "s0 = st" by simp
      with True s0(2) old show ?thesis by (simp add: ev state_key_def upto_Suc)
    next
      case False
      with s0(2) old show ?thesis by (auto simp: ev state_key_def)
    qed
  qed
  have ops: "(lo_id y, lo_current_attempt_sequence y) \<in> attempt_key ` set (lg_attempts L')
      \<and> (\<exists>s \<in> set (lg_states L'). state_key s = (lo_id y, lo_current_attempt_sequence y) \<and> ls_status s = lo_status y)"
    if "y \<in> set (lg_operations L')" for y
  proof -
    from that obtain y0 where y0: "y0 \<in> set (lg_operations L)" "y = (if lo_id y0 = i then y0\<lparr>lo_status := disposition\<rparr> else y0)"
      by (auto simp: L' sql_update_def)
    show ?thesis
    proof (cases "lo_id y0 = i")
      case True
      with distinct_map_eq [OF ledger_okD(1) [OF ok] y0(1) m(1)] m(2) have "y0 = x" by simp
      moreover have "st\<lparr>ls_last_evidence_sequence := ls_last_evidence_sequence st + 1, ls_status := disposition\<rparr> \<in> set (lg_states L')"
        using m by (auto simp: L' set_sql_update n_def)
      moreover have "(i, n) \<in> attempt_key ` set (lg_attempts L)" using ledger_okD(5) [OF ok m(1)] m(2) by (simp add: n_def)
      ultimately show ?thesis using True y0 m(2,4) by (force simp: L'(4) state_key_def n_def)
    next
      case False
      from ledger_okD(6) [OF ok y0(1)] obtain s where s: "s \<in> set (lg_states L)" "state_key s = (lo_id y0, lo_current_attempt_sequence y0)" "ls_status s = lo_status y0"
        by auto
      with False have "s \<in> set (lg_states L')" by (simp add: L'(1) set_sql_update)
      with s False y0(2) ledger_okD(5) [OF ok y0(1)] show ?thesis by (auto simp: L'(4))
    qed
  qed
  have "(i, n) \<in> state_key ` set (lg_states L)" using m(3,4) by (metis image_eqI)
  with ledger_okD(9) [OF ok] have evs: "\<forall>e \<in> set (lg_evidence L'). (le_operation_id e, le_attempt_sequence e) \<in> state_key ` set (lg_states L')"
    unfolding images by (auto simp: L'(2) n_def)
  show ?thesis
    unfolding ledger_ok_def using ledger_okD(1-4,10,11) [OF ok] states ops evs by (auto simp: keys images L'(4))
qed

lemma ledger_reachable_ok: "ledger_system.reach digest L \<Longrightarrow> ledger_ok L"
proof (rule ledger_system.invariant_rule [of ledger_ok digest])
  fix L0 L1
  assume "ledger_ok L0" and "ledger_step digest L0 L1"
  then show "ledger_ok L1" by (auto elim!: ledger_step.cases intro: ledger_ok_intent ledger_ok_readback)
qed (simp_all add: ledger_ok_def)

text \<open>
  C10. In every ledger that intents and readbacks can produce, the evidence of each attempt is numbered
  one, two, three and so on in the order it was appended, up to the attempt's counter, and every
  operation has its current attempt, whose state has the disposition of the operation.
\<close>

theorem evidence_contiguous:
  assumes "ledger_system.reach digest L"
  shows "(\<forall>st \<in> set (lg_states L). map le_evidence_sequence (filter (\<lambda>e. le_operation_id e = ls_operation_id st
        \<and> le_attempt_sequence e = ls_attempt_sequence st) (lg_evidence L)) = [1..ls_last_evidence_sequence st])
    \<and> (\<forall>x \<in> set (lg_operations L). \<exists>st \<in> set (lg_states L). ls_operation_id st = lo_id x
        \<and> ls_attempt_sequence st = lo_current_attempt_sequence x \<and> ls_status st = lo_status x)"
  using ledger_reachable_ok [OF assms] by (auto simp: ledger_ok_def attempt_evidence_def state_key_def)

definition sample_effect :: effect_authority where
  "sample_effect = \<lparr>ea_commandId = ''c'', ea_logicalOperationId = ''l'', ea_operationName = ''runtime.stop'', ea_sideEffectClass = ''RUNTIME'',
     ea_retryClass = ''SAFE'', ea_lineage = \<lparr>ln_incarnation = ''inc'', ln_deployment = 3, ln_recovery = 2\<rparr>\<rparr>"

definition sample_ledger :: "ledger outcome" where
  "sample_ledger = bindE (recordSideEffectIntent (\<lambda>_. ''d'') ''e'' sample_effect ''step'' ''binding'' CNull CNull
       \<lparr>lg_operations = [], lg_attempts = [], lg_states = [], lg_evidence = []\<rparr>) (\<lambda>(L1, _).
     bindE (recordSideEffectReadbackEvidence (\<lambda>_. ''d'') ''e'' CNull ''UNKNOWN'' L1) (\<lambda>(L2, _). Inr L2))"

lemma sample_ledger_evidence: "case sample_ledger of Inr L \<Rightarrow> map ls_last_evidence_sequence (lg_states L) = [1] | Inl _ \<Rightarrow> False"
  by code_simp

theorem evidence_contiguous_witness:
  "\<exists>L. sample_ledger = Inr L \<and> ledger_system.reach (\<lambda>_. ''d'') L \<and> map ls_last_evidence_sequence (lg_states L) = [1]
    \<and> (\<forall>st \<in> set (lg_states L). map le_evidence_sequence (filter (\<lambda>e. le_operation_id e = ls_operation_id st
        \<and> le_attempt_sequence e = ls_attempt_sequence st) (lg_evidence L)) = [1..ls_last_evidence_sequence st])"
proof -
  let ?L0 = "\<lparr>lg_operations = [], lg_attempts = [], lg_states = [], lg_evidence = []\<rparr>"
  obtain L where L: "sample_ledger = Inr L" and one: "map ls_last_evidence_sequence (lg_states L) = [1]"
    using sample_ledger_evidence by (auto split: sum.splits)
  from L obtain L1 r where i: "recordSideEffectIntent (\<lambda>_. ''d'') ''e'' sample_effect ''step'' ''binding'' CNull CNull ?L0 = Inr (L1, r)"
    and b: "recordSideEffectReadbackEvidence (\<lambda>_. ''d'') ''e'' CNull ''UNKNOWN'' L1 = Inr (L, ())"
    by (auto simp: sample_ledger_def bindE_Inr_iff)
  have "ledger_system.reach (\<lambda>_. ''d'') ?L0" by (rule ledger_system.reach_init) simp
  from ledger_system.reach_step [OF ledger_system.reach_step [OF this ledger_intent [OF _ i]] ledger_readback [OF b]]
  have "ledger_system.reach (\<lambda>_. ''d'') L" by simp
  with evidence_contiguous [OF this] L one show ?thesis by (intro exI [of _ L] conjI) (blast | assumption)+
qed

end
