(* ===== verification/RuntimeLifecycle.thy ===== *)
theory RuntimeLifecycle
  imports PipelineProgress SideEffectLedger
begin

text \<open>
  The specialist executor of runtime operations: \<^verbatim>\<open>packages/worker-runtime/src/runtime-systemd.ts\<close>. It
  prepares under the command's fence, acts through \<^verbatim>\<open>systemctl\<close> outside the database, reads the unit
  and the process back, and reconciles. What \<^verbatim>\<open>systemctl\<close> prints and does, the files of \<^verbatim>\<open>/proc\<close> and the
  conversion of a text to a number are parameters.
\<close>

section \<open>Texts\<close>

text \<open>\<^verbatim>\<open>/^[0-9a-f]{8}-[0-9a-f]{4}-[1-5][0-9a-f]{3}-[89ab][0-9a-f]{3}-[0-9a-f]{12}$/u\<close>\<close>

definition is_runtime_uuid :: "string \<Rightarrow> bool" where
  "is_runtime_uuid s = (case split_on CHR ''-'' s of
     [a, b, c, d, e] \<Rightarrow> map length [a, b, c, d, e] = [8, 4, 4, 4, 12] \<and> list_all (list_all is_hex_lower) [a, b, c, d, e]
       \<and> in_range CHR ''1'' CHR ''5'' (hd c) \<and> hd d \<in> set ''89ab''
   | _ \<Rightarrow> False)"

definition requireRuntimeUuid :: "string option \<Rightarrow> string \<Rightarrow> string outcome" where
  "requireRuntimeUuid value label = (let text = (case value of Some s \<Rightarrow> lower_text s | None \<Rightarrow> '''') in
     if is_runtime_uuid text then Inr text else Inl (Plain_Error (label @ ''_INVALID'')))"

definition runtimeHostUnit :: "string \<Rightarrow> string outcome" where
  "runtimeHostUnit runtimeInstanceId = bindE (requireRuntimeUuid (Some runtimeInstanceId) ''RUNTIME_INSTANCE_ID'') (\<lambda>u.
     Inr (''kcml-runtime-host@'' @ u @ ''.service''))"

definition before_first :: "char \<Rightarrow> string \<Rightarrow> string" where
  "before_first c s = takeWhile (\<lambda>x. x \<noteq> c) s"

definition after_first :: "char \<Rightarrow> string \<Rightarrow> string" where
  "after_first c s = drop (Suc (length (before_first c s))) s"

text \<open>\<^verbatim>\<open>s.slice(s.lastIndexOf(c) + 1)\<close>\<close>

definition after_last :: "char \<Rightarrow> string \<Rightarrow> string" where
  "after_last c s = rev (takeWhile (\<lambda>x. x \<noteq> c) (rev s))"

definition is_js_space :: "char \<Rightarrow> bool" where
  "is_js_space c = ((of_char c :: nat) \<in> set [9, 10, 11, 12, 13, 32, 160])"

definition js_trim :: "string \<Rightarrow> string" where
  "js_trim s = rev (dropWhile is_js_space (rev (dropWhile is_js_space s)))"

text \<open>\<^verbatim>\<open>split(/\s+/u)\<close> of a trimmed text.\<close>

fun split_spaces :: "string \<Rightarrow> string list" where
  "split_spaces [] = [[]]"
| "split_spaces (c # cs) =
     (if is_js_space c then (case cs of d # ds \<Rightarrow> if is_js_space d then split_spaces cs else [] # split_spaces cs | [] \<Rightarrow> [] # split_spaces cs)
      else (case split_spaces cs of [] \<Rightarrow> [[c]] | w # ws \<Rightarrow> (c # w) # ws))"

definition digit_value :: "char \<Rightarrow> int" where
  "digit_value c = int (of_char c) - 48"

definition decimal_value :: "string \<Rightarrow> int" where
  "decimal_value s = foldl (\<lambda>n c. 10 * n + digit_value c) 0 s"

definition parse_start_ticks :: "string \<Rightarrow> int outcome" where
  "parse_start_ticks stat = (if CHR '')'' \<notin> set stat then Inl (Plain_Error ''RUNTIME_PROCESS_STAT_INVALID'')
     else let fields = split_spaces (js_trim (drop 1 (after_last CHR '')'' stat))) in
       if length fields \<le> 19 \<or> fields ! 19 = [] \<or> \<not> list_all is_digit (fields ! 19)
       then Inl (Plain_Error ''RUNTIME_PROCESS_START_TICKS_INVALID'') else Inr (decimal_value (fields ! 19)))"

section \<open>Units\<close>

record systemd_state =
  us_unit :: string
  us_loadState :: string
  us_activeState :: string
  us_subState :: string
  us_mainPid :: int
  us_invocationId :: "string option"
  us_controlGroup :: string
  us_result :: string

definition show_values :: "string \<Rightarrow> (string \<times> string) list" where
  "show_values stdout = foldl (\<lambda>m line. if CHR ''='' \<in> set line \<and> before_first CHR ''='' line \<noteq> []
      then jm_set (before_first CHR ''='' line) (after_first CHR ''='' line) m else m) [] (split_on CHR ''\<newline>'' stdout)"

definition value_or :: "(string \<times> string) list \<Rightarrow> string \<Rightarrow> string \<Rightarrow> string" where
  "value_or values key otherwise = (case jm_get values key of None \<Rightarrow> otherwise | Some v \<Rightarrow> v)"

definition dashed :: "string \<Rightarrow> string" where
  "dashed s = take 8 s @ ''-'' @ take 4 (drop 8 s) @ ''-'' @ take 4 (drop 12 s) @ ''-'' @ take 4 (drop 16 s) @ ''-'' @ drop 20 s"

definition parseSystemdShow :: "js_conversions \<Rightarrow> string \<Rightarrow> string \<Rightarrow> systemd_state outcome" where
  "parseSystemdShow jc unit stdout =
     (let values = show_values stdout; invocation = value_or values ''InvocationID'' '''' in
      case jc_number_of_text jc (value_or values ''MainPID'' ''0'') of
        JInt mainPid \<Rightarrow>
          if mainPid < 0 then Inl (Plain_Error ''SYSTEMD_MAIN_PID_INVALID'')
          else if invocation \<noteq> [] \<and> \<not> (length invocation = 32 \<and> list_all is_hex_lower invocation)
          then Inl (Plain_Error ''SYSTEMD_INVOCATION_ID_INVALID'')
          else Inr \<lparr>us_unit = unit, us_loadState = value_or values ''LoadState'' ''not-found'',
            us_activeState = value_or values ''ActiveState'' ''unknown'', us_subState = value_or values ''SubState'' ''unknown'',
            us_mainPid = mainPid, us_invocationId = (if invocation = [] then None else Some (dashed invocation)),
            us_controlGroup = value_or values ''ControlGroup'' '''', us_result = value_or values ''Result'' ''unknown''\<rparr>
      | _ \<Rightarrow> Inl (Plain_Error ''SYSTEMD_MAIN_PID_INVALID''))"

text \<open>
  The host: what each \<^verbatim>\<open>systemctl\<close> command prints or raises (the argument before it numbers the \<^verbatim>\<open>show\<close>
  commands of one execution), and the files read for a process.
\<close>

record host_io =
  io_show :: "nat \<Rightarrow> string \<Rightarrow> string outcome"
  io_systemctl :: "string list \<Rightarrow> unit outcome"
  io_boot_id :: "string outcome"
  io_stat :: "nat \<Rightarrow> int \<Rightarrow> string outcome"
  io_cgroup :: "int \<Rightarrow> string outcome"

definition controller_show :: "js_conversions \<Rightarrow> host_io \<Rightarrow> nat \<Rightarrow> string \<Rightarrow> systemd_state outcome" where
  "controller_show jc io i runtimeInstanceId = bindE (runtimeHostUnit runtimeInstanceId) (\<lambda>unit.
     bindE (io_show io i unit) (parseSystemdShow jc unit))"

definition controller_command :: "host_io \<Rightarrow> string list \<Rightarrow> string \<Rightarrow> unit outcome" where
  "controller_command io arguments runtimeInstanceId = bindE (runtimeHostUnit runtimeInstanceId) (\<lambda>unit. io_systemctl io (arguments @ [unit]))"

record process_readback =
  pb_pid :: int
  pb_bootId :: string
  pb_startTicks :: int
  pb_cgroupPath :: string

definition processReadback :: "host_io \<Rightarrow> systemd_state \<Rightarrow> process_readback option outcome" where
  "processReadback io state = (if us_mainPid state \<le> 0 then Inr None
     else bindE (io_boot_id io) (\<lambda>bootIdRaw.
       bindE (io_stat io 0 (us_mainPid state)) (\<lambda>statBefore.
       bindE (io_cgroup io (us_mainPid state)) (\<lambda>cgroup.
       bindE (io_stat io 1 (us_mainPid state)) (\<lambda>statAfter.
       bindE (parse_start_ticks statBefore) (\<lambda>beforeTicks.
       bindE (parse_start_ticks statAfter) (\<lambda>afterTicks.
       if beforeTicks \<noteq> afterTicks then Inl (Plain_Error ''RUNTIME_PROCESS_IDENTITY_CHANGED'')
       else let paths = filter (\<lambda>p. p \<noteq> []) (map (after_last CHR '':'') (filter (\<lambda>l. l \<noteq> []) (split_on CHR ''\<newline>'' cgroup)));
                cgroupPath = (case paths of [] \<Rightarrow> '''' | p # _ \<Rightarrow> p) in
         if cgroupPath = [] \<or> us_controlGroup state \<noteq> [] \<and> cgroupPath \<noteq> us_controlGroup state
         then Inl (Plain_Error ''RUNTIME_CGROUP_MISMATCH'')
         else bindE (requireRuntimeUuid (Some (lower_text (js_trim bootIdRaw))) ''HOST_BOOT_ID'') (\<lambda>_.
           Inr (Some \<lparr>pb_pid = us_mainPid state, pb_bootId = lower_text (js_trim bootIdRaw), pb_startTicks = beforeTicks,
             pb_cgroupPath = cgroupPath\<rparr>)))))))))"

section \<open>Actions\<close>

datatype runtime_action = START | RESTART | DRAIN | STOP | RECONCILE | CLEANUP | INVOKE

definition RUNTIME_MUTATIONS :: "string list" where
  "RUNTIME_MUTATIONS = [''runtime.prepare'', ''runtime.instance.start'', ''runtime.instance.restart'', ''runtime.drain'', ''runtime.stop'',
     ''runtime.cancel'', ''runtime.instance.reconcile'', ''runtime.cleanup.resume'', ''runtime.invoke'']"

definition actionFor :: "string \<Rightarrow> runtime_action outcome" where
  "actionFor operationName =
     (if operationName \<in> set [''runtime.prepare'', ''runtime.instance.start''] then Inr START
      else if operationName = ''runtime.instance.restart'' then Inr RESTART
      else if operationName = ''runtime.drain'' then Inr DRAIN
      else if operationName \<in> set [''runtime.stop'', ''runtime.cancel''] then Inr STOP
      else if operationName = ''runtime.instance.reconcile'' then Inr RECONCILE
      else if operationName = ''runtime.cleanup.resume'' then Inr CLEANUP
      else if operationName = ''runtime.invoke'' then Inr INVOKE
      else Inl (Plain_Error ''RUNTIME_SPECIALIST_OPERATION_UNSUPPORTED''))"

fun desiredStateFor :: "runtime_action \<Rightarrow> string" where
  "desiredStateFor START = ''STARTING''"
| "desiredStateFor RESTART = ''RESTARTING''"
| "desiredStateFor DRAIN = ''DRAINING''"
| "desiredStateFor STOP = ''STOPPED''"
| "desiredStateFor CLEANUP = ''STOPPED''"
| "desiredStateFor RECONCILE = ''UNCHANGED''"
| "desiredStateFor INVOKE = ''UNCHANGED''"

record runtime_row =
  rt_id :: string
  rt_lineage :: lineage
  rt_activation_epoch :: int
  rt_systemd_unit_name :: string
  rt_expected_service_class :: string
  rt_runtime_generation :: int
  rt_desired_state :: string
  rt_effective_state :: string
  rt_state_version :: int
  rt_drain_operation :: "string option"
  rt_stop_operation :: "string option"
  rt_restart_operation :: "string option"
  rt_invocation_id :: "string option"
  rt_process :: "process_readback option"
  rt_cgroup_path :: string

record cleanup_row =
  cu_id :: string
  cu_runtime_instance_id :: string
  cu_state_version :: int
  cu_systemd_stopped :: bool
  cu_completed :: bool

record runtime_store =
  rs_runtimes :: "runtime_row list"
  rs_cleanups :: "cleanup_row list"
  rs_ledger :: ledger

record specialist_context =
  sc_operationName :: string
  sc_sideEffectClass :: string
  sc_retryClass :: string
  sc_commandId :: string
  sc_targetId :: "string option"
  sc_logicalOperationId :: string
  sc_correlationId :: string
  sc_expectedStateVersion :: "int option"
  sc_activationEpoch :: int
  sc_lineage :: lineage

definition version_matches :: "int option \<Rightarrow> int \<Rightarrow> bool" where
  "version_matches expected actual = (case expected of None \<Rightarrow> True | Some v \<Rightarrow> actual = v)"

definition runtimeForContext :: "specialist_context \<Rightarrow> runtime_store \<Rightarrow> (runtime_row \<times> string option) outcome" where
  "runtimeForContext context st =
     (if sc_operationName context = ''runtime.cleanup.resume'' then
        bindE (requireRuntimeUuid (sc_targetId context) ''RUNTIME_CLEANUP_ID'') (\<lambda>cleanupId.
        case sql_first (\<lambda>c. cu_id c = cleanupId) (rs_cleanups st) of
          None \<Rightarrow> Inl (Plain_Error ''RUNTIME_CLEANUP_NOT_FOUND'')
        | Some cleanup \<Rightarrow>
            if \<not> version_matches (sc_expectedStateVersion context) (cu_state_version cleanup) then Inl (Plain_Error ''STATE_VERSION_CONFLICT'')
            else (case sql_first (\<lambda>r. rt_id r = cu_runtime_instance_id cleanup) (rs_runtimes st) of
                None \<Rightarrow> Inl (Plain_Error ''RUNTIME_INSTANCE_NOT_FOUND'')
              | Some runtime \<Rightarrow> Inr (runtime, Some cleanupId)))
      else bindE (requireRuntimeUuid (sc_targetId context) ''RUNTIME_INSTANCE_ID'') (\<lambda>runtimeId.
        case sql_first (\<lambda>r. rt_id r = runtimeId) (rs_runtimes st) of
          None \<Rightarrow> Inl (Plain_Error ''RUNTIME_INSTANCE_NOT_FOUND'')
        | Some runtime \<Rightarrow>
            if \<not> version_matches (sc_expectedStateVersion context) (rt_state_version runtime) then Inl (Plain_Error ''STATE_VERSION_CONFLICT'')
            else Inr (runtime, None)))"

definition assertRuntimeAuthority :: "runtime_row \<Rightarrow> specialist_context \<Rightarrow> unit outcome" where
  "assertRuntimeAuthority runtime context =
     (if ln_incarnation (rt_lineage runtime) \<noteq> ln_incarnation (sc_lineage context) then Inl (Plain_Error ''PLATFORM_INCARNATION_STALE'')
      else if ln_deployment (rt_lineage runtime) \<noteq> ln_deployment (sc_lineage context) then Inl (Plain_Error ''APPLICATION_DEPLOYMENT_EPOCH_STALE'')
      else if rt_activation_epoch runtime \<noteq> sc_activationEpoch context then Inl (Plain_Error ''ACTIVATION_EPOCH_STALE'')
      else bindE (requireRuntimeUuid (Some (rt_id runtime)) ''RUNTIME_INSTANCE_ID'') (\<lambda>runtimeId.
        bindE (runtimeHostUnit runtimeId) (\<lambda>unit.
        if rt_systemd_unit_name runtime \<noteq> unit then Inl (Plain_Error ''RUNTIME_SYSTEMD_UNIT_MISMATCH'')
        else if rt_expected_service_class runtime \<noteq> ''kcml-runtime-host'' then Inl (Plain_Error ''RUNTIME_SERVICE_CLASS_MISMATCH'')
        else Inr ())))"

definition effectiveStateFromReadback :: "runtime_action \<Rightarrow> systemd_state \<Rightarrow> string" where
  "effectiveStateFromReadback action state =
     (if us_activeState state = ''failed'' then ''FAILED''
      else if us_activeState state = ''inactive'' \<and> us_mainPid state = 0 then ''STOPPED''
      else if action = DRAIN \<and> us_activeState state = ''active'' then ''DRAINING''
      else if us_activeState state = ''active'' then ''STARTING''
      else ''UNKNOWN'')"

section \<open>The executor\<close>

record prepared_action =
  pa_operationName :: string
  pa_action :: runtime_action
  pa_runtimeInstanceId :: string
  pa_runtimeGeneration :: int
  pa_systemdUnitName :: string
  pa_sideEffectOperationId :: string
  pa_beforeEffectiveState :: string
  pa_desiredState :: string
  pa_cleanupOperationId :: "string option"

definition runtime_step_key :: "string \<Rightarrow> string" where
  "runtime_step_key operationName = ''runtime-systemd:'' @ operationName"

definition set_desired :: "string \<Rightarrow> specialist_context \<Rightarrow> runtime_row \<Rightarrow> runtime_row" where
  "set_desired desired context r = r\<lparr>rt_desired_state := desired,
     rt_drain_operation := (if desired = ''DRAINING'' then Some (sc_logicalOperationId context) else rt_drain_operation r),
     rt_stop_operation := (if desired = ''STOPPED'' then Some (sc_logicalOperationId context) else rt_stop_operation r),
     rt_restart_operation := (if desired = ''RESTARTING'' then Some (sc_logicalOperationId context) else rt_restart_operation r),
     rt_state_version := rt_state_version r + 1\<rparr>"

definition lifecycle_prepare :: "(cjson \<Rightarrow> string) \<Rightarrow> string \<Rightarrow> specialist_context \<Rightarrow> runtime_store \<Rightarrow> (runtime_store \<times> prepared_action) outcome" where
  "lifecycle_prepare digest new_id context st =
     bindE (runtimeForContext context st) (\<lambda>(runtime, cleanupOperationId).
     bindE (assertRuntimeAuthority runtime context) (\<lambda>_.
     bindE (requireRuntimeUuid (Some (rt_id runtime)) ''RUNTIME_INSTANCE_ID'') (\<lambda>runtimeInstanceId.
     bindE (actionFor (sc_operationName context)) (\<lambda>action.
     bindE (runtimeHostUnit runtimeInstanceId) (\<lambda>unit.
     bindE (recordSideEffectIntent digest new_id
         \<lparr>ea_commandId = sc_commandId context, ea_logicalOperationId = sc_logicalOperationId context, ea_operationName = sc_operationName context,
          ea_sideEffectClass = sc_sideEffectClass context, ea_retryClass = sc_retryClass context, ea_lineage = sc_lineage context\<rparr>
         (runtime_step_key (sc_operationName context)) (''systemd:'' @ unit)
         (CObj [(''operationName'', CStr (sc_operationName context)), (''runtimeInstanceId'', CStr runtimeInstanceId),
           (''logicalOperationId'', CStr (sc_logicalOperationId context))])
         (CObj [(''oracle'', CStr ''SYSTEMD_KERNEL_READBACK''), (''runtimeInstanceId'', CStr runtimeInstanceId), (''unit'', CStr unit)])
         (rs_ledger st)) (\<lambda>(ledger, intent).
     let desired = desiredStateFor action in
     Inr (st\<lparr>rs_ledger := ledger, rs_runtimes := (if desired = ''UNCHANGED'' then rs_runtimes st
            else sql_update (\<lambda>r. rt_id r = runtimeInstanceId) (set_desired desired context) (rs_runtimes st))\<rparr>,
       \<lparr>pa_operationName = sc_operationName context, pa_action = action, pa_runtimeInstanceId = runtimeInstanceId,
        pa_runtimeGeneration = rt_runtime_generation runtime, pa_systemdUnitName = rt_systemd_unit_name runtime,
        pa_sideEffectOperationId = in_id intent, pa_beforeEffectiveState = rt_effective_state runtime, pa_desiredState = desired,
        pa_cleanupOperationId = cleanupOperationId\<rparr>)))))))"

record execution_readback =
  er_before :: systemd_state
  er_after :: systemd_state
  er_process :: "process_readback option"

definition lifecycle_execute :: "js_conversions \<Rightarrow> host_io \<Rightarrow> prepared_action \<Rightarrow> execution_readback outcome" where
  "lifecycle_execute jc io prepared =
     (let i = pa_runtimeInstanceId prepared;
          before = (case controller_show jc io 0 i of Inr s \<Rightarrow> s
            | Inl _ \<Rightarrow> \<lparr>us_unit = pa_systemdUnitName prepared, us_loadState = ''not-found'', us_activeState = ''inactive'', us_subState = ''dead'',
                us_mainPid = 0, us_invocationId = None, us_controlGroup = '''', us_result = ''unknown''\<rparr>) in
      bindE (case pa_action prepared of
          START \<Rightarrow> controller_command io [''start'', ''--no-ask-password''] i
        | RESTART \<Rightarrow> controller_command io [''restart'', ''--no-ask-password''] i
        | DRAIN \<Rightarrow> controller_command io [''kill'', ''--no-ask-password'', ''--kill-whom=main'', ''--signal=SIGUSR1''] i
        | STOP \<Rightarrow> controller_command io [''stop'', ''--no-ask-password''] i
        | CLEANUP \<Rightarrow> controller_command io [''stop'', ''--no-ask-password''] i
        | RECONCILE \<Rightarrow> Inr ()
        | INVOKE \<Rightarrow> Inl (Plain_Error ''RUNTIME_GATEWAY_CONNECTION_REQUIRED'')) (\<lambda>_.
      bindE (controller_show jc io 1 i) (\<lambda>after.
      bindE (if us_mainPid after > 0 then processReadback io after else Inr None) (\<lambda>process.
      Inr \<lparr>er_before = before, er_after = after, er_process = process\<rparr>))))"

definition action_applied :: "runtime_action \<Rightarrow> systemd_state \<Rightarrow> bool" where
  "action_applied action after =
     ((action \<in> set [STOP, CLEANUP] \<longrightarrow> effectiveStateFromReadback action after = ''STOPPED'')
      \<and> (action \<in> set [START, RESTART, DRAIN] \<longrightarrow> us_activeState after = ''active''))"

definition record_effective :: "prepared_action \<Rightarrow> execution_readback \<Rightarrow> string \<Rightarrow> runtime_row \<Rightarrow> runtime_row" where
  "record_effective prepared readback effective r = r\<lparr>rt_effective_state := effective, rt_invocation_id := us_invocationId (er_after readback),
     rt_process := er_process readback,
     rt_cgroup_path := (case er_process readback of Some p \<Rightarrow> if pb_cgroupPath p \<noteq> [] then pb_cgroupPath p else rt_cgroup_path r | None \<Rightarrow> rt_cgroup_path r),
     rt_state_version := rt_state_version r + 1\<rparr>"

definition opt_cjson :: "('x \<Rightarrow> cjson) \<Rightarrow> 'x option \<Rightarrow> cjson" where
  "opt_cjson f x = (case x of None \<Rightarrow> CNull | Some v \<Rightarrow> f v)"

definition unit_json :: "systemd_state \<Rightarrow> cjson" where
  "unit_json u = CObj [(''unit'', CStr (us_unit u)), (''loadState'', CStr (us_loadState u)), (''activeState'', CStr (us_activeState u)),
     (''subState'', CStr (us_subState u)), (''mainPid'', CNum (JInt (us_mainPid u))), (''invocationId'', opt_cjson CStr (us_invocationId u)),
     (''controlGroup'', CStr (us_controlGroup u)), (''result'', CStr (us_result u))]"

definition process_json :: "process_readback \<Rightarrow> cjson" where
  "process_json p = CObj [(''pid'', CNum (JInt (pb_pid p))), (''bootId'', CStr (pb_bootId p)), (''startTicks'', CStr (int_text (pb_startTicks p))),
     (''cgroupPath'', CStr (pb_cgroupPath p))]"

definition lifecycle_output :: "prepared_action \<Rightarrow> execution_readback \<Rightarrow> string \<Rightarrow> cjson" where
  "lifecycle_output prepared readback effective = CObj [(''runtimeInstanceId'', CStr (pa_runtimeInstanceId prepared)),
     (''runtimeGeneration'', CStr (int_text (pa_runtimeGeneration prepared))), (''desiredState'', CStr (pa_desiredState prepared)),
     (''effectiveState'', CStr effective), (''systemdUnitName'', CStr (us_unit (er_after readback))),
     (''systemdInvocationId'', opt_cjson CStr (us_invocationId (er_after readback))), (''mainPid'', CNum (JInt (us_mainPid (er_after readback)))),
     (''processStartTicks'', opt_cjson (\<lambda>p. CStr (int_text (pb_startTicks p))) (er_process readback)),
     (''hostBootId'', opt_cjson (\<lambda>p. CStr (pb_bootId p)) (er_process readback)),
     (''cgroupPath'', opt_cjson (\<lambda>p. CStr (pb_cgroupPath p)) (er_process readback)),
     (''sideEffectOperationId'', CStr (pa_sideEffectOperationId prepared))]"

definition lifecycle_reconcile ::
  "(cjson \<Rightarrow> string) \<Rightarrow> (js_error \<Rightarrow> string) \<Rightarrow> prepared_action \<Rightarrow> execution_readback outcome \<Rightarrow> runtime_store
   \<Rightarrow> (runtime_store \<times> reconcile_result) outcome" where
  "lifecycle_reconcile digest message_of prepared execution st = (case execution of
     Inl e \<Rightarrow>
       bindE (recordSideEffectReadbackEvidence digest (pa_sideEffectOperationId prepared)
         (CObj [(''operationName'', CStr (pa_operationName prepared)), (''runtimeInstanceId'', CStr (pa_runtimeInstanceId prepared)),
           (''outcome'', CStr ''UNKNOWN''), (''errorCode'', CStr (message_of e))]) ''UNKNOWN'' (rs_ledger st)) (\<lambda>(ledger, _).
       Inr (st\<lparr>rs_ledger := ledger\<rparr>, Reconciled_Failed e))
   | Inr readback \<Rightarrow>
       let effective = effectiveStateFromReadback (pa_action prepared) (er_after readback);
           applied = action_applied (pa_action prepared) (er_after readback) in
       bindE (recordSideEffectReadbackEvidence digest (pa_sideEffectOperationId prepared)
         (CObj [(''unit'', unit_json (er_after readback)), (''process'', opt_cjson process_json (er_process readback)),
           (''operationName'', CStr (pa_operationName prepared)), (''runtimeInstanceId'', CStr (pa_runtimeInstanceId prepared))])
         (if applied then ''CONFIRMED_APPLIED'' else ''CONFIRMED_NOT_APPLIED'') (rs_ledger st)) (\<lambda>(ledger, _).
       if \<not> applied then Inr (st\<lparr>rs_ledger := ledger\<rparr>, Reconciled_Failed (Plain_Error ''RUNTIME_SYSTEMD_READBACK_NOT_APPLIED''))
       else Inr (st\<lparr>rs_ledger := ledger,
           rs_runtimes := sql_update (\<lambda>r. rt_id r = pa_runtimeInstanceId prepared) (record_effective prepared readback effective) (rs_runtimes st),
           rs_cleanups := (case pa_cleanupOperationId prepared of
               Some c \<Rightarrow> if c \<noteq> [] \<and> effective = ''STOPPED'' then sql_update (\<lambda>x. cu_id x = c \<and> \<not> cu_completed x)
                 (\<lambda>x. x\<lparr>cu_systemd_stopped := True, cu_state_version := cu_state_version x + 1\<rparr>) (rs_cleanups st) else rs_cleanups st
             | None \<Rightarrow> rs_cleanups st)\<rparr>, Reconciled_Applied (lifecycle_output prepared readback effective))))"

section \<open>The executor as a specialist of the pipeline\<close>

text \<open>The rows of the ledger the scheduler's oracle reads; \<open>authorities\<close> counts an effect's dispatch authorities.\<close>

definition ledger_effects :: "(string \<Rightarrow> nat) \<Rightarrow> ledger \<Rightarrow> effect_row list" where
  "ledger_effects authorities L = map (\<lambda>x. \<lparr>ef_id = lo_id x, ef_command_id = lo_command_id x, ef_status = lo_status x,
     ef_attempt_count = sql_count (\<lambda>a. la_operation_id a = lo_id x) (lg_attempts L), ef_dispatch_authority_count = authorities (lo_id x)\<rparr>) (lg_operations L)"

definition context_of :: "(op_contract \<Rightarrow> string) \<Rightarrow> op_contract \<Rightarrow> worker_row \<Rightarrow> authority_head \<Rightarrow> specialist_context" where
  "context_of retryClass operation row head = \<lparr>sc_operationName = oc_operationName operation, sc_sideEffectClass = oc_sideEffectClass operation,
     sc_retryClass = retryClass operation, sc_commandId = wr_command_id row, sc_targetId = wr_target_id row,
     sc_logicalOperationId = wr_logical_operation_id row, sc_correlationId = wr_correlation_id row,
     sc_expectedStateVersion = oc_expectedStateVersion (wr_request row), sc_activationEpoch = wr_activation_epoch row, sc_lineage = ah_lineage head\<rparr>"

definition lifecycle_executor ::
  "(cjson \<Rightarrow> string) \<Rightarrow> (js_error \<Rightarrow> string) \<Rightarrow> js_conversions \<Rightarrow> host_io \<Rightarrow> (string \<Rightarrow> nat) \<Rightarrow> string \<Rightarrow> (op_contract \<Rightarrow> string)
   \<Rightarrow> (runtime_store, prepared_action, execution_readback) specialist_executor" where
  "lifecycle_executor digest message_of jc io authorities new_id retryClass = \<lparr>
     sp_canHandle = (\<lambda>name. name \<in> set RUNTIME_MUTATIONS),
     sp_prepare = (\<lambda>operation row head (st, _). bindE (lifecycle_prepare digest new_id (context_of retryClass operation row head) st) (\<lambda>(st', p).
       Inr ((st', ledger_effects authorities (rs_ledger st')), p))),
     sp_execute = lifecycle_execute jc io,
     sp_reconcile = (\<lambda>p execution head (st, _). bindE (lifecycle_reconcile digest message_of p execution st) (\<lambda>(st', r).
       Inr ((st', ledger_effects authorities (rs_ledger st')), r)))\<rparr>"

section \<open>Properties\<close>

lemma readback_status:
  assumes "recordSideEffectReadbackEvidence digest i payload disposition L = Inr (L', u)"
  shows "\<exists>x \<in> set (lg_operations L'). lo_id x = i \<and> lo_status x = disposition"
  using assms
proof (rule readback_Inr)
  fix x :: ledger_operation
  assume x: "sql_first (\<lambda>x. lo_id x = i) (lg_operations L) = Some x"
    and L': "lg_operations L' = sql_update (\<lambda>x. lo_id x = i) (\<lambda>x. x\<lparr>lo_status := disposition\<rparr>) (lg_operations L)"
  from sql_first_Some [OF x] have "x\<lparr>lo_status := disposition\<rparr> \<in> set (lg_operations L')" "lo_id x = i"
    by (auto simp: L' set_sql_update)
  then show ?thesis by (intro bexI [of _ "x\<lparr>lo_status := disposition\<rparr>"]) simp_all
qed

lemma reconcile_applied:
  assumes "lifecycle_reconcile digest message_of prepared execution st = Inr (st', Reconciled_Applied out)"
  obtains readback L' where "execution = Inr readback" "action_applied (pa_action prepared) (er_after readback)"
    "recordSideEffectReadbackEvidence digest (pa_sideEffectOperationId prepared)
       (CObj [(''unit'', unit_json (er_after readback)), (''process'', opt_cjson process_json (er_process readback)),
         (''operationName'', CStr (pa_operationName prepared)), (''runtimeInstanceId'', CStr (pa_runtimeInstanceId prepared))])
       ''CONFIRMED_APPLIED'' (rs_ledger st) = Inr (L', ())" "rs_ledger st' = L'"
    "rs_runtimes st' = sql_update (\<lambda>r. rt_id r = pa_runtimeInstanceId prepared)
       (record_effective prepared readback (effectiveStateFromReadback (pa_action prepared) (er_after readback))) (rs_runtimes st)"
proof (cases execution)
  case (Inl e)
  with assms show ?thesis by (auto simp: lifecycle_reconcile_def bindE_Inr_iff)
next
  case (Inr readback)
  with assms have "action_applied (pa_action prepared) (er_after readback)"
    by (auto simp: lifecycle_reconcile_def bindE_Inr_iff Let_def split: if_splits)
  with Inr assms that show ?thesis by (auto simp: lifecycle_reconcile_def bindE_Inr_iff Let_def)
qed

lemma action_applied_iff:
  "action_applied a u \<longleftrightarrow> (a \<in> {STOP, CLEANUP} \<longrightarrow> us_activeState u = ''inactive'' \<and> us_mainPid u = 0) \<and> (a \<in> {START, RESTART, DRAIN} \<longrightarrow> us_activeState u = ''active'')"
  by (auto simp: action_applied_def effectiveStateFromReadback_def)

text \<open>
  The executor reports a runtime action as applied only on evidence: the action ran, the unit read
  back from systemd is inactive without a process for a stop and active for a start, restart or
  drain, the ledger has the effect as confirmed, and the instance has the state read back.
\<close>

theorem runtime_action_confirmed:
  assumes "lifecycle_reconcile digest message_of prepared execution st = Inr (st', Reconciled_Applied out)"
  shows "\<exists>readback. execution = Inr readback
    \<and> (pa_action prepared \<in> {STOP, CLEANUP} \<longrightarrow> us_activeState (er_after readback) = ''inactive'' \<and> us_mainPid (er_after readback) = 0)
    \<and> (pa_action prepared \<in> {START, RESTART, DRAIN} \<longrightarrow> us_activeState (er_after readback) = ''active'')
    \<and> (\<exists>x \<in> set (lg_operations (rs_ledger st')). lo_id x = pa_sideEffectOperationId prepared \<and> lo_status x = ''CONFIRMED_APPLIED'')
    \<and> (\<forall>r \<in> set (rs_runtimes st'). rt_id r = pa_runtimeInstanceId prepared
        \<longrightarrow> rt_effective_state r = effectiveStateFromReadback (pa_action prepared) (er_after readback) \<and> rt_process r = er_process readback)"
  using assms
proof (rule reconcile_applied)
  fix readback L'
  assume "execution = Inr readback" and applied: "action_applied (pa_action prepared) (er_after readback)"
    and ev: "recordSideEffectReadbackEvidence digest (pa_sideEffectOperationId prepared)
       (CObj [(''unit'', unit_json (er_after readback)), (''process'', opt_cjson process_json (er_process readback)),
         (''operationName'', CStr (pa_operationName prepared)), (''runtimeInstanceId'', CStr (pa_runtimeInstanceId prepared))])
       ''CONFIRMED_APPLIED'' (rs_ledger st) = Inr (L', ())" and "rs_ledger st' = L'"
    and rt: "rs_runtimes st' = sql_update (\<lambda>r. rt_id r = pa_runtimeInstanceId prepared)
       (record_effective prepared readback (effectiveStateFromReadback (pa_action prepared) (er_after readback))) (rs_runtimes st)"
  have "\<forall>r \<in> set (rs_runtimes st'). rt_id r = pa_runtimeInstanceId prepared
      \<longrightarrow> rt_effective_state r = effectiveStateFromReadback (pa_action prepared) (er_after readback) \<and> rt_process r = er_process readback"
    by (auto simp: rt set_sql_update record_effective_def)
  with readback_status [OF ev] applied \<open>execution = _\<close> \<open>rs_ledger st' = L'\<close> show ?thesis by (simp add: action_applied_iff)
qed

lemma intent_key:
  assumes "recordSideEffectIntent digest i context stepKey binding request contract L = Inr (L', r)"
  shows "\<exists>x \<in> set (lg_operations L'). lo_id x = in_id r \<and> op_key x = (ea_commandId context, stepKey)
    \<and> (in_id r, lo_current_attempt_sequence x) \<in> attempt_key ` set (lg_attempts L')"
  using assms by (auto simp: recordSideEffectIntent_def Let_def insert_new_def attempt_key_def op_key_def split: option.splits if_splits dest!: sql_first_Some)

lemma prepare_intent:
  assumes "lifecycle_prepare digest i context st = Inr (st', p)"
  shows "pa_operationName p = sc_operationName context \<and> actionFor (sc_operationName context) = Inr (pa_action p)
    \<and> (\<exists>x \<in> set (lg_operations (rs_ledger st')). lo_id x = pa_sideEffectOperationId p
        \<and> op_key x = (sc_commandId context, runtime_step_key (sc_operationName context))
        \<and> (lo_id x, lo_current_attempt_sequence x) \<in> attempt_key ` set (lg_attempts (rs_ledger st')))"
proof -
  from assms obtain binding request contract L' r where
    i: "recordSideEffectIntent digest i \<lparr>ea_commandId = sc_commandId context, ea_logicalOperationId = sc_logicalOperationId context,
        ea_operationName = sc_operationName context, ea_sideEffectClass = sc_sideEffectClass context, ea_retryClass = sc_retryClass context,
        ea_lineage = sc_lineage context\<rparr> (runtime_step_key (sc_operationName context)) binding request contract (rs_ledger st) = Inr (L', r)"
    and "rs_ledger st' = L'" "pa_sideEffectOperationId p = in_id r" "pa_operationName p = sc_operationName context"
      "actionFor (sc_operationName context) = Inr (pa_action p)"
    by (auto simp: lifecycle_prepare_def bindE_Inr_iff Let_def)
  with intent_key [OF i] show ?thesis by force
qed

lemma prepare_no_replay: "checkpoint_of row s = None \<Longrightarrow> prepare_specialist sv now pr row s \<noteq> Inr (s1, Replay_Output w)"
  by (auto simp: prepare_specialist_def bindE_Inr_iff dest!: enter_frame split: if_splits)

lemma applySpecialist_Inr:
  assumes run: "applySpecialistCommand sv n1 n2 sp operation row s = (s', Inr v)" and "checkpoint_of row s = None"
  obtains s1 p where "prepare_specialist sv n1 (sp_prepare sp operation row) row s = Inr (s1, Prepared p)"
    "reconcile_specialist sv n2 (sp_reconcile sp p (sp_execute sp p)) row s1 = Inr (s', Reconciled_Applied v)"
proof (cases "prepare_specialist sv n1 (sp_prepare sp operation row) row s")
  case (Inl e)
  with run show ?thesis by (simp add: applySpecialistCommand_def in_tx_def)
next
  case (Inr q)
  obtain s1 r where q: "q = (s1, r)" by fastforce
  have "r \<noteq> Replay_Output w" for w using Inr q prepare_no_replay [OF assms(2), of sv n1 "sp_prepare sp operation row" s1 w] by auto
  then obtain p where r: "r = Prepared p" by (cases r) auto
  show ?thesis
  proof (cases "reconcile_specialist sv n2 (sp_reconcile sp p (sp_execute sp p)) row s1")
    case (Inl e)
    with run Inr q r show ?thesis by (simp add: applySpecialistCommand_def in_tx_def)
  next
    fix w
    assume w: "reconcile_specialist sv n2 (sp_reconcile sp p (sp_execute sp p)) row s1 = Inr w"
    with run Inr q r have "w = (s', Reconciled_Applied v)"
      by (cases w) (auto simp: applySpecialistCommand_def in_tx_def split: reconcile_result.splits)
    with w Inr q r that show ?thesis by blast
  qed
qed

lemma specialist_prepared:
  assumes "prepare_specialist sv now (sp_prepare (lifecycle_executor digest message_of jc io authorities i retryClass) operation row) row s = Inr (s1, Prepared p)"
  shows "checkpoint_of row s1 = checkpoint_of row s \<and> pa_operationName p = oc_operationName operation
    \<and> actionFor (oc_operationName operation) = Inr (pa_action p)
    \<and> kc_effects s1 = ledger_effects authorities (rs_ledger (kc_aggregates s1))
    \<and> (\<exists>x \<in> set (lg_operations (rs_ledger (kc_aggregates s1))). lo_id x = pa_sideEffectOperationId p
        \<and> op_key x = (wr_command_id row, runtime_step_key (oc_operationName operation))
        \<and> (lo_id x, lo_current_attempt_sequence x) \<in> attempt_key ` set (lg_attempts (rs_ledger (kc_aggregates s1))))"
proof -
  from assms obtain s0 head cp where e: "enter_command sv now row s = Inr (s0, head, cp)" by (auto simp: prepare_specialist_def bindE_Inr_iff)
  from assms e obtain st where prep: "lifecycle_prepare digest i (context_of retryClass operation row head) (kc_aggregates s0) = Inr (st, p)"
    and s1: "s1 = s0\<lparr>kc_aggregates := st, kc_effects := ledger_effects authorities (rs_ledger st)\<rparr>"
    by (auto simp: prepare_specialist_def lifecycle_executor_def bindE_Inr_iff split: option.splits if_splits)
  from enter_frame [OF e] have "checkpoint_of row s1 = checkpoint_of row s" by (simp add: s1 checkpoint_of_def)
  with prepare_intent [OF prep] show ?thesis by (simp add: s1 context_of_def)
qed

text \<open>
  C11. A runtime command gets its checkpoint only together with the confirmation of its effect: when the
  specialist path of the worker returns for a command that had no checkpoint, the checkpoint with
  the returned output is committed and the ledger has the command's effect as confirmed. It never
  returns for \<^verbatim>\<open>runtime.invoke\<close>, which the executor does not carry out.
\<close>

theorem runtime_checkpoint_confirmed:
  assumes "applySpecialistCommand sv n1 n2 (lifecycle_executor digest message_of jc io authorities i retryClass) operation row s = (s', Inr v)"
    and "checkpoint_of row s = None"
  shows "(\<exists>cp. checkpoint_of row s' = Some cp \<and> cp_output cp = v)
    \<and> (\<exists>x \<in> set (lg_operations (rs_ledger (kc_aggregates s'))). lo_command_id x = wr_command_id row
        \<and> lo_step_key x = ''runtime-systemd:'' @ oc_operationName operation \<and> lo_status x = ''CONFIRMED_APPLIED'')
    \<and> oc_operationName operation \<noteq> ''runtime.invoke''"
proof -
  let ?sp = "lifecycle_executor digest message_of jc io authorities i retryClass"
  from assms(1) obtain s1 p where prep: "prepare_specialist sv n1 (sp_prepare ?sp operation row) row s = Inr (s1, Prepared p)"
    and rec: "reconcile_specialist sv n2 (sp_reconcile ?sp p (sp_execute ?sp p)) row s1 = Inr (s', Reconciled_Applied v)"
    by (rule applySpecialist_Inr [OF _ assms(2)])
  note pre = specialist_prepared [OF prep]
  obtain s2 head cp where e: "enter_command sv n2 row s1 = Inr (s2, head, cp)" using rec by (auto simp: reconcile_specialist_def bindE_Inr_iff)
  from enter_frame [OF e] pre assms(2) have cp: "cp = None" "kc_checkpoints s2 = kc_checkpoints s1" by simp_all
  from e have agg: "kc_aggregates s2 = kc_aggregates s1"
    by (auto simp: enter_command_def verifyWorkerClaimAndAdmission_def bindE_Inr_iff split: option.splits if_splits)
  from rec e cp(1) obtain st where lr: "lifecycle_reconcile digest message_of p (lifecycle_execute jc io p) (kc_aggregates s2) = Inr (st, Reconciled_Applied v)"
    and s': "s' = insert_checkpoint row v (s2\<lparr>kc_aggregates := st, kc_effects := ledger_effects authorities (rs_ledger st)\<rparr>)"
    using reconcile_result.exhaust by (auto simp: reconcile_specialist_def lifecycle_executor_def bindE_Inr_iff Let_def split: reconcile_result.splits)
  from lr obtain readback L' payload where ex: "lifecycle_execute jc io p = Inr readback"
    and ev: "recordSideEffectReadbackEvidence digest (pa_sideEffectOperationId p) payload ''CONFIRMED_APPLIED'' (rs_ledger (kc_aggregates s2)) = Inr (L', ())"
    and st: "rs_ledger st = L'"
    by (rule reconcile_applied) blast
  from pre obtain x where x: "x \<in> set (lg_operations (rs_ledger (kc_aggregates s1)))" "lo_id x = pa_sideEffectOperationId p"
    "op_key x = (wr_command_id row, runtime_step_key (oc_operationName operation))" by blast
  from ev have "lg_operations L' = sql_update (\<lambda>x. lo_id x = pa_sideEffectOperationId p) (\<lambda>x. x\<lparr>lo_status := ''CONFIRMED_APPLIED''\<rparr>) (lg_operations (rs_ledger (kc_aggregates s2)))"
    by (rule readback_Inr)
  with x agg have "x\<lparr>lo_status := ''CONFIRMED_APPLIED''\<rparr> \<in> set (lg_operations (rs_ledger (kc_aggregates s')))"
    by (auto simp: s' st insert_checkpoint_def set_sql_update)
  moreover have "lo_command_id x = wr_command_id row" "lo_step_key x = ''runtime-systemd:'' @ oc_operationName operation"
    using x(3) by (simp_all add: op_key_def runtime_step_key_def)
  ultimately have led: "\<exists>x \<in> set (lg_operations (rs_ledger (kc_aggregates s'))). lo_command_id x = wr_command_id row
      \<and> lo_step_key x = ''runtime-systemd:'' @ oc_operationName operation \<and> lo_status x = ''CONFIRMED_APPLIED''"
    by (intro bexI [of _ "x\<lparr>lo_status := ''CONFIRMED_APPLIED''\<rparr>"]) simp_all
  have "pa_action p \<noteq> INVOKE" using ex by (auto simp: lifecycle_execute_def Let_def bindE_Inr_iff)
  with pre have "oc_operationName operation \<noteq> ''runtime.invoke''" by (auto simp: actionFor_def)
  moreover have "sql_first (\<lambda>p. cp_command_id p = wr_command_id row) (kc_checkpoints s2) = None"
    using enter_frame [OF e] cp pre assms(2) by (simp add: checkpoint_of_def)
  then have "\<exists>cp. checkpoint_of row s' = Some cp \<and> cp_output cp = v"
    by (simp add: s' insert_checkpoint_def checkpoint_of_def sql_first_append) (simp add: sql_first_def)
  ultimately show ?thesis using led by blast
qed

text \<open>
  The scheduler's oracle never clears a recorded intent by itself: the oracle asks for an intent with no
  attempt, and the intent is recorded together with its first attempt.
\<close>

lemma intent_never_retryable:
  assumes "ledger_ok L" and "x \<in> set (lg_operations L)" and "lo_status x \<notin> set [''CONFIRMED_NOT_APPLIED'', ''FAILED_FINAL'']"
    and "kc_effects s = ledger_effects authorities L"
  shows "\<not> retry_allowed (lo_command_id x) s"
proof -
  from ledger_okD(5) [OF assms(1,2)] obtain a where "a \<in> set (lg_attempts L)" "la_operation_id a = lo_id x" by (auto simp: attempt_key_def)
  then have "sql_count (\<lambda>a. la_operation_id a = lo_id x) (lg_attempts L) \<noteq> 0" by (auto simp: sql_count_def filter_empty_conv)
  with assms show ?thesis by (auto simp: retry_allowed_def effect_retryable_def ledger_effects_def list_all_iff intro!: bexI [of _ x])
qed


section \<open>A concrete runtime\<close>

definition sample_runtime_id :: string where
  "sample_runtime_id = ''00000000-0000-4000-8000-000000000001''"

definition sample_runtime :: runtime_row where
  "sample_runtime = \<lparr>rt_id = sample_runtime_id, rt_lineage = sample_lineage, rt_activation_epoch = 7,
     rt_systemd_unit_name = ''kcml-runtime-host@00000000-0000-4000-8000-000000000001.service'', rt_expected_service_class = ''kcml-runtime-host'',
     rt_runtime_generation = 1, rt_desired_state = ''READY'', rt_effective_state = ''READY'', rt_state_version = 4, rt_drain_operation = None,
     rt_stop_operation = None, rt_restart_operation = None, rt_invocation_id = None, rt_process = None, rt_cgroup_path = []\<rparr>"

definition empty_ledger :: ledger where
  "empty_ledger = \<lparr>lg_operations = [], lg_attempts = [], lg_states = [], lg_evidence = []\<rparr>"

definition sample_runtime_store :: runtime_store where
  "sample_runtime_store = \<lparr>rs_runtimes = [sample_runtime], rs_cleanups = [], rs_ledger = empty_ledger\<rparr>"

text \<open>A host on which the unit is stopped: \<^verbatim>\<open>systemctl show\<close> prints an inactive unit without a process.\<close>

definition stopped_host :: host_io where
  "stopped_host = \<lparr>io_show = (\<lambda>_ _. Inr ''ActiveState=inactive''), io_systemctl = (\<lambda>_. Inr ()), io_boot_id = Inl (Plain_Error ''ENOENT''),
     io_stat = (\<lambda>_ _. Inl (Plain_Error ''ENOENT'')), io_cgroup = (\<lambda>_. Inl (Plain_Error ''ENOENT''))\<rparr>"

definition pid_conversions :: js_conversions where
  "pid_conversions = sample_conversions\<lparr>jc_number_of_text := (\<lambda>_. JInt 0)\<rparr>"

definition stop_operation :: op_contract where
  "stop_operation = sample_operation ''runtime.stop'' ''RUNTIME''"

definition sample_executor :: "(runtime_store, prepared_action, execution_readback) specialist_executor" where
  "sample_executor = lifecycle_executor (\<lambda>_. ''d'') (\<lambda>_. ''error'') pid_conversions stopped_host (\<lambda>_. 0) ''effect'' (\<lambda>_. ''SAFE'')"

definition runtime_services :: "runtime_store op_services" where
  "runtime_services = \<lparr>sv_sha256 = (\<lambda>t. t), sv_collation = code_unit_le, sv_conversions = sample_conversions, sv_errors = sample_registry,
     sv_handlers = [sample_handler\<lparr>hs_operation := ''runtime.stop'', hs_entity := ''runtime_instance''\<rparr>],
     sv_catalog = \<lparr>cat_operations = [stop_operation], cat_authorities = [sample_owner]\<rparr>,
     sv_entity_row = (\<lambda>_ _ _. Inr (Some (Some 4)))\<rparr>"

definition stop_command :: operation_command where
  "stop_command = \<lparr>oc_operation = ''runtime.stop'', oc_targetId = Some sample_runtime_id, oc_arguments = [], oc_expectedStateVersion = Some 4,
     oc_expectedActivationEpoch = Some 7, oc_deadlineAt = None\<rparr>"

definition stop_row :: worker_row where
  "stop_row = first_row\<lparr>wr_operation_name := ''runtime.stop'', wr_request := stop_command, wr_target_id := Some sample_runtime_id\<rparr>"

definition runtime_kcml :: "runtime_store kcml" where
  "runtime_kcml = \<lparr>kc_recovery = Some sample_recovery, kc_recovery_items = [], kc_activation_epoch = Some 7, kc_idempotency = [],
     kc_heads = kc_heads claimed_store, kc_claims = kc_claims claimed_store,
     kc_commands = [claimed_command\<lparr>cm_operation_name := ''runtime.stop'', cm_request := stop_command\<rparr>],
     kc_admissions = kc_admissions claimed_store, kc_queue = [], kc_outbox = [], kc_sequences = [], kc_checkpoints = [],
     kc_failures = [], kc_plans = [], kc_reconciliations = [], kc_reviews = [], kc_snapshots = [], kc_effects = [], kc_audit = [],
     kc_aggregates = sample_runtime_store\<rparr>"

lemma stop_applied:
  "is_ok (snd (applySpecialistCommand runtime_services 300 400 sample_executor stop_operation stop_row runtime_kcml))"
  by code_simp

theorem runtime_checkpoint_confirmed_witness:
  "\<exists>s' v. applySpecialistCommand runtime_services 300 400 sample_executor stop_operation stop_row runtime_kcml = (s', Inr v)
    \<and> checkpoint_of stop_row runtime_kcml = None \<and> (\<exists>cp. checkpoint_of stop_row s' = Some cp \<and> cp_output cp = v)"
proof -
  from stop_applied obtain s' v where run: "applySpecialistCommand runtime_services 300 400 sample_executor stop_operation stop_row runtime_kcml = (s', Inr v)"
    by (cases "applySpecialistCommand runtime_services 300 400 sample_executor stop_operation stop_row runtime_kcml") (auto simp: is_ok_iff)
  have none: "checkpoint_of stop_row runtime_kcml = None" by (simp add: checkpoint_of_def runtime_kcml_def sql_first_def)
  from runtime_checkpoint_confirmed [OF run [unfolded sample_executor_def] none] run none show ?thesis by blast
qed

definition stop_prepared :: "(runtime_store \<times> prepared_action) outcome" where
  "stop_prepared = lifecycle_prepare (\<lambda>_. ''d'') ''effect'' (context_of (\<lambda>_. ''SAFE'') stop_operation stop_row
     \<lparr>ah_lineage = sample_lineage, ah_fencing_token = 5\<rparr>) sample_runtime_store"

definition stop_reconciled :: "(runtime_store \<times> reconcile_result) outcome" where
  "stop_reconciled = bindE stop_prepared (\<lambda>(st, p). lifecycle_reconcile (\<lambda>_. ''d'') (\<lambda>_. ''error'') p (lifecycle_execute pid_conversions stopped_host p) st)"

lemma stop_reconciled_applied: "case stop_reconciled of Inr (_, Reconciled_Applied _) \<Rightarrow> True | _ \<Rightarrow> False"
  by code_simp

theorem runtime_action_confirmed_witness:
  "\<exists>st p st' out. stop_prepared = Inr (st, p)
    \<and> lifecycle_reconcile (\<lambda>_. ''d'') (\<lambda>_. ''error'') p (lifecycle_execute pid_conversions stopped_host p) st = Inr (st', Reconciled_Applied out)
    \<and> (\<exists>x \<in> set (lg_operations (rs_ledger st')). lo_id x = pa_sideEffectOperationId p \<and> lo_status x = ''CONFIRMED_APPLIED'')"
proof -
  obtain st' out where "stop_reconciled = Inr (st', Reconciled_Applied out)"
    using stop_reconciled_applied by (auto split: sum.splits prod.splits reconcile_result.splits)
  then obtain st p where p: "stop_prepared = Inr (st, p)"
    and run: "lifecycle_reconcile (\<lambda>_. ''d'') (\<lambda>_. ''error'') p (lifecycle_execute pid_conversions stopped_host p) st = Inr (st', Reconciled_Applied out)"
    unfolding stop_reconciled_def bindE_Inr_iff by auto
  from runtime_action_confirmed [OF run] p run show ?thesis by blast
qed

definition prepared_kcml :: "(runtime_store kcml \<times> prepared_action specialist_preparation) outcome" where
  "prepared_kcml = prepare_specialist runtime_services 300 (sp_prepare sample_executor stop_operation stop_row) stop_row runtime_kcml"

definition prepared_recorded :: "(runtime_store kcml \<times> prepared_action specialist_preparation) outcome \<Rightarrow> bool" where
  "prepared_recorded r = (case r of Inr (s1, Prepared p) \<Rightarrow> list_all (\<lambda>x. lo_status x = ''INTENT_RECORDED'') (lg_operations (rs_ledger (kc_aggregates s1)))
     | _ \<Rightarrow> False)"

lemma prepared_kcml_recorded: "prepared_recorded prepared_kcml"
  by code_simp

lemma prepare_keeps_ledger:
  assumes "lifecycle_prepare digest i context st = Inr (st', p)" and "ledger_ok (rs_ledger st)" and "i \<notin> lo_id ` set (lg_operations (rs_ledger st))"
  shows "ledger_ok (rs_ledger st')"
  using assms by (auto simp: lifecycle_prepare_def bindE_Inr_iff Let_def intro: ledger_ok_intent)


end
