(* ===== verification/RuntimeGateway.thy ===== *)
theory RuntimeGateway
  imports RuntimeLifecycle
begin

text \<open>
  The gateway runtime hosts connect to: \<^verbatim>\<open>packages/worker-runtime/src/runtime-gateway.ts\<close>. It checks the
  inherited listener, and for each connection the kernel's credentials of the peer, its process, its
  cgroup and its systemd unit against the database, records the connection, and then accepts only
  heartbeats. The native helpers, the files of \<^verbatim>\<open>/proc\<close>, \<^verbatim>\<open>systemctl\<close> and file metadata are parameters.
  The evidence digests that are stored with a connection are left out.
\<close>

section \<open>The listener\<close>

record activation_environment =
  av_listen_pid :: "string option"
  av_listen_fds :: "string option"
  av_listen_fdnames :: "string option"

definition assertRuntimeGatewayActivationEnvironment :: "activation_environment \<Rightarrow> nat \<Rightarrow> unit outcome" where
  "assertRuntimeGatewayActivationEnvironment environment pid =
     (if av_listen_pid environment \<noteq> Some (nat_text pid) then Inl (Plain_Error ''RUNTIME_SOCKET_ACTIVATION_PID_MISMATCH'')
      else if av_listen_fds environment \<noteq> Some ''1'' then Inl (Plain_Error ''RUNTIME_SOCKET_ACTIVATION_FD_COUNT_INVALID'')
      else if av_listen_fdnames environment \<noteq> Some ''runtime-gateway'' then Inl (Plain_Error ''RUNTIME_SOCKET_ACTIVATION_FD_NAME_INVALID'')
      else Inr ())"

record socket_inspection =
  si_family :: string
  si_socketType :: string
  si_accepting :: bool
  si_nonBlocking :: bool
  si_closeOnExec :: bool
  si_localPath :: string
  si_device :: int
  si_inode :: int

record file_stat =
  fs_kind :: string \<comment> \<open>\<open>socket\<close>, \<open>directory\<close>, \<open>symlink\<close> or another type\<close>
  fs_dev :: int
  fs_ino :: int
  fs_uid :: int
  fs_gid :: int
  fs_mode :: "32 word"

record listener_evidence =
  lv_path :: string
  lv_device :: int
  lv_inode :: int
  lv_uid :: int
  lv_gid :: int
  lv_mode :: int

unbundle bit_operations_syntax

definition permission_bits :: "32 word \<Rightarrow> int" where
  "permission_bits mode = uint (mode AND 511)"

definition listenerEvidence ::
  "activation_environment \<Rightarrow> nat \<Rightarrow> int \<Rightarrow> int list \<Rightarrow> socket_inspection outcome \<Rightarrow> (string \<Rightarrow> file_stat outcome) \<Rightarrow> (string \<Rightarrow> string) \<Rightarrow> string
   \<Rightarrow> listener_evidence outcome" where
  "listenerEvidence environment pid own_uid own_groups inspected lstat dirname path =
     bindE (assertRuntimeGatewayActivationEnvironment environment pid) (\<lambda>_.
     bindE inspected (\<lambda>native.
     if si_family native \<noteq> ''AF_UNIX'' \<or> si_socketType native \<noteq> ''SOCK_STREAM'' \<or> \<not> si_accepting native \<or> \<not> si_nonBlocking native \<or> \<not> si_closeOnExec native
     then Inl (Plain_Error ''RUNTIME_SOCKET_ACTIVATION_FD_INVALID'')
     else if si_localPath native \<noteq> path then Inl (Plain_Error ''RUNTIME_SOCKET_ACTIVATION_PATH_MISMATCH'')
     else bindE (lstat path) (\<lambda>socket. bindE (lstat (dirname path)) (\<lambda>parent.
       if fs_kind socket \<noteq> ''socket'' then Inl (Plain_Error ''RUNTIME_SOCKET_PATH_TYPE_INVALID'')
       else if fs_dev socket \<noteq> si_device native \<or> fs_ino socket \<noteq> si_inode native then Inl (Plain_Error ''RUNTIME_SOCKET_SUBSTITUTION_DETECTED'')
       else if permission_bits (fs_mode socket) \<noteq> 432 then Inl (Plain_Error ''RUNTIME_SOCKET_MODE_INVALID'')
       else if fs_uid socket \<noteq> own_uid then Inl (Plain_Error ''RUNTIME_SOCKET_OWNER_INVALID'')
       else if fs_gid socket \<notin> set own_groups then Inl (Plain_Error ''RUNTIME_SOCKET_GROUP_INVALID'')
       else if fs_kind parent \<noteq> ''directory'' \<or> fs_uid parent \<noteq> 0 \<or> permission_bits (fs_mode parent) \<noteq> 488 \<or> fs_gid parent \<noteq> fs_gid socket
       then Inl (Plain_Error ''RUNTIME_SOCKET_PARENT_INVALID'')
       else Inr \<lparr>lv_path = path, lv_device = fs_dev socket, lv_inode = fs_ino socket, lv_uid = fs_uid socket, lv_gid = fs_gid socket,
         lv_mode = permission_bits (fs_mode socket)\<rparr>))))"

section \<open>The peer\<close>

record runtime_hello =
  he_runtimeInstanceId :: string
  he_runtimeGeneration :: string
  he_systemdUnit :: string
  he_launchManifestDigest :: string

definition is_positive_decimal :: "string \<Rightarrow> bool" where
  "is_positive_decimal s = (case s of [] \<Rightarrow> False | c # cs \<Rightarrow> in_range CHR ''1'' CHR ''9'' c \<and> list_all is_digit cs)"

text \<open>The schema of the HELLO payload: a strict object with exactly its seven fields.\<close>

definition string_field :: "json_object \<Rightarrow> string \<Rightarrow> string option" where
  "string_field es key = (case map_of es key of Some (CStr s) \<Rightarrow> Some s | _ \<Rightarrow> None)"

definition hello_keys :: "string list" where
  "hello_keys = [''protocol'', ''peerKind'', ''serviceClass'', ''runtimeInstanceId'', ''runtimeGeneration'', ''systemdUnit'', ''launchManifestDigest'']"

definition runtimeHostHelloSchema :: "string \<Rightarrow> (string \<Rightarrow> bool) \<Rightarrow> cjson \<Rightarrow> runtime_hello outcome" where
  "runtimeHostHelloSchema protocol is_uuid payload = (case payload of
     CObj es \<Rightarrow>
       (case (string_field es ''runtimeInstanceId'', string_field es ''runtimeGeneration'', string_field es ''systemdUnit'',
              string_field es ''launchManifestDigest'') of
          (Some i, Some g, Some u, Some d) \<Rightarrow>
            if fst ` set es \<subseteq> set hello_keys \<and> string_field es ''protocol'' = Some protocol
              \<and> string_field es ''peerKind'' = Some ''RUNTIME_HOST'' \<and> string_field es ''serviceClass'' = Some ''kcml-runtime-host''
              \<and> is_uuid i \<and> is_positive_decimal g \<and> u \<noteq> [] \<and> length u \<le> 512 \<and> is_digest d
            then Inr \<lparr>he_runtimeInstanceId = i, he_runtimeGeneration = g, he_systemdUnit = u, he_launchManifestDigest = d\<rparr>
            else Inl Zod_Error
        | _ \<Rightarrow> Inl Zod_Error)
   | _ \<Rightarrow> Inl Zod_Error)"

text \<open>\<^verbatim>\<open>replace(/\\x2d/gu, '-')\<close>\<close>

fun unescape_dash :: "string \<Rightarrow> string" where
  "unescape_dash [] = []"
| "unescape_dash (c # cs) = (if starts_with ''x2d'' cs \<and> c = CHR 92 then CHR ''-'' # unescape_dash (drop 3 cs) else c # unescape_dash cs)"

definition is_runtime_unit_leaf :: "string \<Rightarrow> bool" where
  "is_runtime_unit_leaf s = (starts_with ''kcml-runtime-host@'' s \<and> ends_with ''.service'' s \<and> length s = 18 + 36 + 8
     \<and> list_all (\<lambda>c. is_hex_lower c \<or> c = CHR ''-'') (take 36 (drop 18 s)))"

definition last_segment :: "string \<Rightarrow> string" where
  "last_segment path = (case rev (filter (\<lambda>p. p \<noteq> []) (split_on CHR ''/'' path)) of [] \<Rightarrow> [] | p # _ \<Rightarrow> p)"

definition cgroup_paths :: "string \<Rightarrow> string list" where
  "cgroup_paths cgroup = map (after_last CHR '':'') (filter (\<lambda>l. l \<noteq> []) (split_on CHR ''\<newline>'' cgroup))"

definition runtimeUnitFromCgroup :: "string \<Rightarrow> string outcome" where
  "runtimeUnitFromCgroup cgroup = (case filter is_runtime_unit_leaf (map (unescape_dash \<circ> last_segment) (cgroup_paths cgroup)) of
     [] \<Rightarrow> Inl (Plain_Error ''RUNTIME_CGROUP_UNIT_NOT_FOUND'') | leaf # _ \<Rightarrow> Inr leaf)"

record peer_credentials =
  pc_pid :: int
  pc_uid :: int
  pc_gid :: int

record peer_identity = peer_credentials +
  pi_bootId :: string
  pi_startTicks :: int
  pi_cgroupPath :: string
  pi_unit :: string
  pi_invocationId :: string

record peer_io =
  px_credentials :: "peer_credentials outcome"
  px_stat :: "nat \<Rightarrow> int \<Rightarrow> string outcome"
  px_status_ids :: "int \<Rightarrow> (int \<times> int) outcome" \<comment> \<open>the first number of the \<open>Uid:\<close> and of the \<open>Gid:\<close> line, -1 where there is none\<close>
  px_cgroup :: "int \<Rightarrow> string outcome"
  px_boot_id :: "string outcome"
  px_show :: "string \<Rightarrow> string outcome"

definition requireUuidLower :: "string \<Rightarrow> string \<Rightarrow> string outcome" where
  "requireUuidLower value label = (if is_uuid_text value then Inr (lower_text value) else Inl (Plain_Error (label @ ''_INVALID'')))"

definition readPeerKernelIdentity :: "js_conversions \<Rightarrow> peer_io \<Rightarrow> runtime_hello \<Rightarrow> peer_identity outcome" where
  "readPeerKernelIdentity jc px hello =
     bindE (px_credentials px) (\<lambda>credentials.
     bindE (px_stat px 0 (pc_pid credentials)) (\<lambda>stat0. bindE (parse_start_ticks stat0) (\<lambda>before.
     bindE (px_status_ids px (pc_pid credentials)) (\<lambda>(uid, gid).
     bindE (px_cgroup px (pc_pid credentials)) (\<lambda>cgroup.
     bindE (px_boot_id px) (\<lambda>bootRaw. bindE (requireUuidLower (js_trim bootRaw) ''HOST_BOOT_ID'') (\<lambda>bootId.
     if uid \<noteq> pc_uid credentials \<or> gid \<noteq> pc_gid credentials then Inl (Plain_Error ''RUNTIME_PEER_PROC_CREDENTIAL_MISMATCH'')
     else bindE (runtimeUnitFromCgroup cgroup) (\<lambda>unit.
     bindE (if unit \<noteq> he_systemdUnit hello then Inl (Plain_Error ''RUNTIME_PEER_SYSTEMD_UNIT_MISMATCH'')
       else bindE (runtimeHostUnit (he_runtimeInstanceId hello)) (\<lambda>expected.
         if unit \<noteq> expected then Inl (Plain_Error ''RUNTIME_PEER_SYSTEMD_UNIT_MISMATCH'') else Inr ())) (\<lambda>_.
     bindE (runtimeHostUnit (he_runtimeInstanceId hello)) (\<lambda>shown. bindE (px_show px shown) (\<lambda>stdout. bindE (parseSystemdShow jc shown stdout) (\<lambda>state.
     bindE (px_stat px 1 (pc_pid credentials)) (\<lambda>stat1. bindE (parse_start_ticks stat1) (\<lambda>after.
     if before \<noteq> after then Inl (Plain_Error ''RUNTIME_PID_REUSE_DETECTED'')
     else let cgroupPath = (case filter (\<lambda>p. ends_with (''/'' @ unit) p) (cgroup_paths cgroup) of [] \<Rightarrow> [] | p # _ \<Rightarrow> p) in
       case us_invocationId state of
         Some invocation \<Rightarrow>
           if us_activeState state \<noteq> ''active'' \<or> us_mainPid state \<noteq> pc_pid credentials \<or> us_controlGroup state \<noteq> cgroupPath
           then Inl (Plain_Error ''RUNTIME_PEER_SYSTEMD_IDENTITY_MISMATCH'')
           else Inr \<lparr>pc_pid = pc_pid credentials, pc_uid = pc_uid credentials, pc_gid = pc_gid credentials, pi_bootId = bootId, pi_startTicks = before,
             pi_cgroupPath = cgroupPath, pi_unit = unit, pi_invocationId = invocation\<rparr>
       | None \<Rightarrow> Inl (Plain_Error ''RUNTIME_PEER_SYSTEMD_IDENTITY_MISMATCH'')))))))))))))))"

section \<open>The database\<close>

text \<open>A digest column is the hex text of its 32 bytes, or \<open>None\<close> where the value is not a buffer of 32 bytes.\<close>

record gateway_instance =
  gi_id :: string
  gi_generation :: int
  gi_systemd_unit_name :: string
  gi_expected_service_class :: string
  gi_launch_manifest_digest :: "string option"
  gi_linux_uid :: int
  gi_linux_gid :: int
  gi_incarnation :: string
  gi_deployment :: int
  gi_activation :: int
  gi_source_revision_id :: string
  gi_release_id :: string
  gi_binding_set_revision_id :: string
  gi_artifact_digest :: "string option"
  gi_runtime_digest :: "string option"
  gi_namespace_profile_digest :: "string option"
  gi_connection_id :: "string option"
  gi_effective_state :: string
  gi_heartbeat_sequence :: int
  gi_process :: "(string \<times> string \<times> int \<times> int \<times> string) option" \<comment> \<open>invocation, boot, process, start, cgroup\<close>

text \<open>The rows joined to an instance: its component, revision, release and runtime target.\<close>

record gateway_context =
  gc_component_lifecycle :: string
  gc_component_activation_state :: string
  gc_component_enabled :: bool
  gc_active_revision_id :: string
  gc_current_release_id :: string
  gc_active_binding_set_revision_id :: string
  gc_component_activation_epoch :: int
  gc_revision_validation_state :: string
  gc_revision_verification_state :: string
  gc_release_state :: string
  gc_release_artifact_digest :: "string option"
  gc_release_runtime_digest :: "string option"
  gc_target_lifecycle :: string

record gateway_platform =
  gp_incarnation :: string
  gp_deployment :: int
  gp_activation :: int
  gp_recovery_state :: string
  gp_database_identity_current :: bool
  gp_recovery_lineage_current :: bool

record process_identity =
  id_boot :: string
  id_pid :: int
  id_start_ticks :: int
  id_instance :: string
  id_generation :: int
  id_unit :: string
  id_invocation :: string
  id_exited :: bool

record gateway_connection =
  cn_id :: string
  cn_instance :: string
  cn_generation :: int
  cn_last_sequence :: int
  cn_state :: string
  cn_close_reason :: "string option"

record gateway_db =
  gd_instances :: "gateway_instance list"
  gd_contexts :: "(string \<times> gateway_context) list"
  gd_platform :: "gateway_platform option"
  gd_identities :: "process_identity list"
  gd_connections :: "gateway_connection list"

definition asDigest :: "string option \<Rightarrow> string \<Rightarrow> string outcome" where
  "asDigest value label = (case value of None \<Rightarrow> Inl (Plain_Error (label @ ''_INVALID'')) | Some d \<Rightarrow> Inr d)"

definition not_current :: "'b outcome" where
  "not_current = Inl (Plain_Error ''RUNTIME_CONTEXT_NOT_CURRENT'')"

definition component_current :: "gateway_instance \<Rightarrow> gateway_context \<Rightarrow> bool" where
  "component_current r c = (gc_component_lifecycle c = ''ACTIVE'' \<and> gc_component_activation_state c = ''ACTIVE'' \<and> gc_component_enabled c
     \<and> gc_active_revision_id c = gi_source_revision_id r \<and> gc_current_release_id c = gi_release_id r
     \<and> gc_active_binding_set_revision_id c = gi_binding_set_revision_id r \<and> gc_component_activation_epoch c = gi_activation r)"

definition validateRuntimeSnapshot :: "runtime_hello \<Rightarrow> peer_identity \<Rightarrow> gateway_db \<Rightarrow> gateway_instance outcome" where
  "validateRuntimeSnapshot hello peer db =
     (case (sql_first (\<lambda>r. gi_id r = he_runtimeInstanceId hello) (gd_instances db), map_of (gd_contexts db) (he_runtimeInstanceId hello), gd_platform db) of
        (Some r, Some c, Some p) \<Rightarrow>
          if gi_generation r \<noteq> decimal_value (he_runtimeGeneration hello) then Inl (Plain_Error ''RUNTIME_GENERATION_STALE'')
          else if gi_systemd_unit_name r \<noteq> he_systemdUnit hello \<or> gi_expected_service_class r \<noteq> ''kcml-runtime-host''
          then Inl (Plain_Error ''RUNTIME_PEER_SYSTEMD_IDENTITY_MISMATCH'')
          else bindE (asDigest (gi_launch_manifest_digest r) ''RUNTIME_LAUNCH_MANIFEST_DIGEST'') (\<lambda>manifest.
            if ''sha256:'' @ manifest \<noteq> he_launchManifestDigest hello then Inl (Plain_Error ''RUNTIME_LAUNCH_MANIFEST_MISMATCH'')
            else if gi_linux_uid r \<noteq> pc_uid peer \<or> gi_linux_gid r \<noteq> pc_gid peer then Inl (Plain_Error ''RUNTIME_PEER_CREDENTIAL_MISMATCH'')
            else if gi_incarnation r \<noteq> gp_incarnation p \<or> gi_deployment r \<noteq> gp_deployment p \<or> gi_activation r \<noteq> gp_activation p then not_current
            else if gp_recovery_state p \<noteq> ''READY'' \<or> \<not> gp_database_identity_current p \<or> \<not> gp_recovery_lineage_current p
            then Inl (Plain_Error ''PLATFORM_RECOVERY_REQUIRED'')
            else if \<not> component_current r c then not_current
            else if gc_revision_validation_state c \<noteq> ''VALID'' \<or> gc_revision_verification_state c \<noteq> ''VERIFIED'' \<or> gc_release_state c \<noteq> ''ACTIVE''
              \<or> gc_target_lifecycle c \<noteq> ''ACTIVE'' then not_current
            else bindE (asDigest (gc_release_artifact_digest c) ''RELEASE_ARTIFACT_DIGEST'') (\<lambda>ra.
              bindE (asDigest (gi_artifact_digest r) ''RUNTIME_ARTIFACT_DIGEST'') (\<lambda>ia.
              if ra \<noteq> ia then Inl (Plain_Error ''RUNTIME_RELEASE_DIGEST_MISMATCH'')
              else bindE (asDigest (gc_release_runtime_digest c) ''RELEASE_RUNTIME_DIGEST'') (\<lambda>rr.
                bindE (asDigest (gi_runtime_digest r) ''RUNTIME_RUNTIME_DIGEST'') (\<lambda>ir.
                if rr \<noteq> ir then Inl (Plain_Error ''RUNTIME_RELEASE_DIGEST_MISMATCH'') else Inr r)))))
      | _ \<Rightarrow> not_current)"

record accepted_connection =
  ac_connectionId :: string
  ac_runtimeInstanceId :: string
  ac_runtimeGeneration :: int

definition identity_key :: "process_identity \<Rightarrow> string \<times> int \<times> int" where
  "identity_key i = (id_boot i, id_pid i, id_start_ticks i)"

definition instance_accepts :: "runtime_hello \<Rightarrow> gateway_instance \<Rightarrow> gateway_instance \<Rightarrow> bool" where
  "instance_accepts hello runtime x = (gi_id x = he_runtimeInstanceId hello \<and> gi_generation x = decimal_value (he_runtimeGeneration hello)
     \<and> gi_launch_manifest_digest x = gi_launch_manifest_digest runtime \<and> gi_incarnation x = gi_incarnation runtime
     \<and> gi_deployment x = gi_deployment runtime \<and> gi_activation x = gi_activation runtime)"

definition persistAcceptedConnection ::
  "socket_inspection outcome \<Rightarrow> string \<Rightarrow> runtime_hello \<Rightarrow> peer_identity \<Rightarrow> gateway_db \<Rightarrow> (gateway_db \<times> accepted_connection) outcome" where
  "persistAcceptedConnection inspected connectionId hello peer db =
     bindE inspected (\<lambda>accepted.
     if si_family accepted \<noteq> ''AF_UNIX'' \<or> si_socketType accepted \<noteq> ''SOCK_STREAM'' \<or> si_accepting accepted
     then Inl (Plain_Error ''RUNTIME_PEER_SOCKET_INVALID'')
     else bindE (validateRuntimeSnapshot hello peer db) (\<lambda>runtime.
       bindE (asDigest (gi_namespace_profile_digest runtime) ''RUNTIME_NAMESPACE_PROFILE_DIGEST'') (\<lambda>_.
       let generation = decimal_value (he_runtimeGeneration hello);
           identities = insert_new identity_key \<lparr>id_boot = pi_bootId peer, id_pid = pc_pid peer, id_start_ticks = pi_startTicks peer,
             id_instance = he_runtimeInstanceId hello, id_generation = generation, id_unit = pi_unit peer, id_invocation = pi_invocationId peer,
             id_exited = False\<rparr> (gd_identities db) in
       case sql_first (\<lambda>i. identity_key i = (pi_bootId peer, pc_pid peer, pi_startTicks peer) \<and> \<not> id_exited i) identities of
         None \<Rightarrow> Inl (Plain_Error ''RUNTIME_PROCESS_IDENTITY_MISMATCH'')
       | Some i \<Rightarrow>
           if id_instance i \<noteq> he_runtimeInstanceId hello \<or> id_generation i \<noteq> generation \<or> id_unit i \<noteq> pi_unit peer \<or> id_invocation i \<noteq> pi_invocationId peer
           then Inl (Plain_Error ''RUNTIME_PROCESS_IDENTITY_MISMATCH'')
           else if sql_count (instance_accepts hello runtime) (gd_instances db) \<noteq> 1 then not_current
           else Inr (db\<lparr>gd_identities := identities,
               gd_connections := gd_connections db @ [\<lparr>cn_id = connectionId, cn_instance = he_runtimeInstanceId hello, cn_generation = generation,
                 cn_last_sequence = 1, cn_state = ''ACTIVE'', cn_close_reason = None\<rparr>],
               gd_instances := sql_update (instance_accepts hello runtime) (\<lambda>x. x\<lparr>gi_connection_id := Some connectionId,
                 gi_process := Some (pi_invocationId peer, pi_bootId peer, pc_pid peer, pi_startTicks peer, pi_cgroupPath peer),
                 gi_effective_state := (if gi_effective_state x \<in> set [''ABSENT'', ''STOPPED'', ''FAILED'', ''UNKNOWN''] then ''STARTING'' else gi_effective_state x)\<rparr>)
                 (gd_instances db)\<rparr>,
             \<lparr>ac_connectionId = connectionId, ac_runtimeInstanceId = he_runtimeInstanceId hello, ac_runtimeGeneration = generation\<rparr>))))"

definition closeConnectionEvidence :: "accepted_connection \<Rightarrow> string \<Rightarrow> gateway_db \<Rightarrow> gateway_db" where
  "closeConnectionEvidence accepted reason db = db\<lparr>
     gd_connections := sql_update (\<lambda>c. cn_id c = ac_connectionId accepted \<and> cn_state c \<noteq> ''CLOSED'')
       (\<lambda>c. c\<lparr>cn_state := ''CLOSED'', cn_close_reason := (case cn_close_reason c of None \<Rightarrow> Some (take 1000 reason) | r \<Rightarrow> r)\<rparr>) (gd_connections db),
     gd_instances := sql_update (\<lambda>r. gi_id r = ac_runtimeInstanceId accepted \<and> gi_generation r = ac_runtimeGeneration accepted
         \<and> gi_connection_id r = Some (ac_connectionId accepted))
       (\<lambda>r. r\<lparr>gi_connection_id := None, gi_effective_state := (if gi_effective_state r = ''READY'' then ''UNKNOWN'' else gi_effective_state r)\<rparr>) (gd_instances db)\<rparr>"

section \<open>A connection\<close>

text \<open>The schema of a heartbeat: a strict object of an identifier and two positive decimal texts.\<close>

definition heartbeat_schema :: "(string \<Rightarrow> bool) \<Rightarrow> cjson \<Rightarrow> (string \<times> string \<times> string) outcome" where
  "heartbeat_schema is_uuid payload = (case payload of
     CObj es \<Rightarrow>
       (case (string_field es ''runtimeInstanceId'', string_field es ''runtimeGeneration'', string_field es ''heartbeatSequence'') of
          (Some i, Some g, Some h) \<Rightarrow>
            if fst ` set es \<subseteq> set [''runtimeInstanceId'', ''runtimeGeneration'', ''heartbeatSequence''] \<and> is_uuid i \<and> is_positive_decimal g \<and> is_positive_decimal h
            then Inr (i, g, h) else Inl Zod_Error
        | _ \<Rightarrow> Inl Zod_Error)
   | _ \<Rightarrow> Inl Zod_Error)"

text \<open>The two statements of a heartbeat are not one transaction: other connections may act in between.\<close>

definition heartbeat_connection :: "accepted_connection \<Rightarrow> int \<Rightarrow> gateway_db \<Rightarrow> gateway_db outcome" where
  "heartbeat_connection accepted sequence db =
     (let hit = (\<lambda>c. cn_id c = ac_connectionId accepted \<and> cn_state c = ''ACTIVE'' \<and> cn_last_sequence c < sequence) in
      if sql_count hit (gd_connections db) \<noteq> 1 then Inl (Plain_Error ''RUNTIME_PROTOCOL_SEQUENCE_INVALID'')
      else Inr (db\<lparr>gd_connections := sql_update hit (\<lambda>c. c\<lparr>cn_last_sequence := sequence\<rparr>) (gd_connections db)\<rparr>))"

definition heartbeat_instance :: "accepted_connection \<Rightarrow> int \<Rightarrow> gateway_db \<Rightarrow> gateway_db" where
  "heartbeat_instance accepted heartbeat db = db\<lparr>gd_instances :=
     sql_update (\<lambda>r. gi_id r = ac_runtimeInstanceId accepted \<and> gi_generation r = ac_runtimeGeneration accepted
         \<and> gi_connection_id r = Some (ac_connectionId accepted) \<and> gi_heartbeat_sequence r < heartbeat)
       (\<lambda>r. r\<lparr>gi_heartbeat_sequence := heartbeat\<rparr>) (gd_instances db)\<rparr>"

definition accept_heartbeat :: "accepted_connection \<Rightarrow> int \<Rightarrow> int \<Rightarrow> gateway_db \<Rightarrow> gateway_db outcome" where
  "accept_heartbeat accepted sequence heartbeat db = bindE (heartbeat_connection accepted sequence db) (\<lambda>db. Inr (heartbeat_instance accepted heartbeat db))"

text \<open>
  The frame handler of one socket: the first frame must be a HELLO with sequence one, every later
  one a heartbeat. The identity of the peer, the inspection of its socket and the new connection's
  identifier are what the host gives for this socket.
\<close>

definition gateway_frame ::
  "js_conversions \<Rightarrow> string \<Rightarrow> (string \<Rightarrow> bool) \<Rightarrow> peer_io \<Rightarrow> socket_inspection outcome \<Rightarrow> string \<Rightarrow> string \<Rightarrow> int \<Rightarrow> cjson
   \<Rightarrow> accepted_connection option \<Rightarrow> gateway_db \<Rightarrow> (gateway_db \<times> accepted_connection) outcome" where
  "gateway_frame jc protocol is_uuid px inspected connectionId frameType sequence payload accepted db = (case accepted of
     None \<Rightarrow>
       if frameType \<noteq> ''HELLO'' \<or> sequence \<noteq> 1 then Inl (Plain_Error ''RUNTIME_PROTOCOL_HELLO_REQUIRED'')
       else bindE (runtimeHostHelloSchema protocol is_uuid payload) (\<lambda>hello.
         bindE (readPeerKernelIdentity jc px hello) (\<lambda>peer.
         persistAcceptedConnection inspected connectionId hello peer db))
   | Some a \<Rightarrow>
       if frameType \<noteq> ''HEARTBEAT'' then Inl (Plain_Error ''RUNTIME_PROTOCOL_UNEXPECTED_FRAME'')
       else bindE (heartbeat_schema is_uuid payload) (\<lambda>(i, g, h).
         if i \<noteq> ac_runtimeInstanceId a \<or> decimal_value g \<noteq> ac_runtimeGeneration a then Inl (Plain_Error ''RUNTIME_GENERATION_STALE'')
         else bindE (accept_heartbeat a sequence (decimal_value h) db) (\<lambda>db'. Inr (db', a))))"

section \<open>The gateway at work\<close>

text \<open>
  The database together with the connections the gateway has accepted. A socket is accepted with a
  fresh identifier (\<^verbatim>\<open>randomUUID\<close>); an accepted connection sends heartbeats and is closed at the end.
\<close>

inductive gateway_step :: "gateway_db \<times> accepted_connection set \<Rightarrow> gateway_db \<times> accepted_connection set \<Rightarrow> bool" where
  gateway_accept: "connectionId \<notin> cn_id ` set (gd_connections db) \<Longrightarrow> persistAcceptedConnection inspected connectionId hello peer db = Inr (db', a)
     \<Longrightarrow> gateway_step (db, as) (db', insert a as)"
| gateway_heartbeat: "a \<in> as \<Longrightarrow> heartbeat_connection a sequence db = Inr db' \<Longrightarrow> gateway_step (db, as) (db', as)"
| gateway_liveness: "a \<in> as \<Longrightarrow> gateway_step (db, as) (heartbeat_instance a heartbeat db, as)"
| gateway_close: "a \<in> as \<Longrightarrow> gateway_step (db, as) (closeConnectionEvidence a reason db, as)"

definition gateway_initial :: "gateway_db \<times> accepted_connection set \<Rightarrow> bool" where
  "gateway_initial s = (gd_connections (fst s) = [] \<and> snd s = {} \<and> distinct (map gi_id (gd_instances (fst s)))
     \<and> list_all (\<lambda>r. gi_connection_id r = None) (gd_instances (fst s)))"

interpretation gateway: transition_system gateway_initial gateway_step .

definition connection_of :: "accepted_connection \<Rightarrow> gateway_connection \<Rightarrow> bool" where
  "connection_of a c = (cn_id c = ac_connectionId a \<and> cn_instance c = ac_runtimeInstanceId a \<and> cn_generation c = ac_runtimeGeneration a)"

definition carries :: "gateway_connection \<Rightarrow> gateway_instance \<Rightarrow> bool" where
  "carries c r = (gi_connection_id r = Some (cn_id c) \<and> cn_instance c = gi_id r \<and> cn_generation c = gi_generation r \<and> cn_state c = ''ACTIVE'')"

definition gateway_ok :: "gateway_db \<times> accepted_connection set \<Rightarrow> bool" where
  "gateway_ok s = (distinct (map cn_id (gd_connections (fst s))) \<and> distinct (map gi_id (gd_instances (fst s)))
     \<and> (\<forall>a \<in> snd s. \<exists>c \<in> set (gd_connections (fst s)). connection_of a c)
     \<and> (\<forall>r \<in> set (gd_instances (fst s)). gi_connection_id r \<noteq> None \<longrightarrow> (\<exists>c \<in> set (gd_connections (fst s)). carries c r)))"

lemma gateway_okD:
  assumes "gateway_ok (db, as)"
  shows "distinct (map cn_id (gd_connections db))" "distinct (map gi_id (gd_instances db))"
    "a \<in> as \<Longrightarrow> \<exists>c \<in> set (gd_connections db). connection_of a c"
    "r \<in> set (gd_instances db) \<Longrightarrow> gi_connection_id r = Some i \<Longrightarrow> \<exists>c \<in> set (gd_connections db). carries c r"
  using assms by (auto simp: gateway_ok_def)

lemma gateway_okI:
  assumes "distinct (map cn_id (gd_connections db))" "distinct (map gi_id (gd_instances db))"
    and "\<And>a. a \<in> as \<Longrightarrow> \<exists>c \<in> set (gd_connections db). connection_of a c"
    and "\<And>r i. r \<in> set (gd_instances db) \<Longrightarrow> gi_connection_id r = Some i \<Longrightarrow> \<exists>c \<in> set (gd_connections db). carries c r"
  shows "gateway_ok (db, as)"
  using assms by (auto simp: gateway_ok_def)

text \<open>What acceptance has checked and what it writes.\<close>

definition snapshot_authorized :: "runtime_hello \<Rightarrow> peer_identity \<Rightarrow> gateway_db \<Rightarrow> gateway_instance \<Rightarrow> bool" where
  "snapshot_authorized hello peer db r = (r \<in> set (gd_instances db) \<and> gi_id r = he_runtimeInstanceId hello
     \<and> gi_generation r = decimal_value (he_runtimeGeneration hello) \<and> gi_systemd_unit_name r = he_systemdUnit hello
     \<and> (\<exists>d. gi_launch_manifest_digest r = Some d \<and> he_launchManifestDigest hello = ''sha256:'' @ d)
     \<and> gi_linux_uid r = pc_uid peer \<and> gi_linux_gid r = pc_gid peer
     \<and> (\<exists>p. gd_platform db = Some p \<and> gp_recovery_state p = ''READY'' \<and> gp_database_identity_current p \<and> gp_recovery_lineage_current p
          \<and> (gi_incarnation r, gi_deployment r, gi_activation r) = (gp_incarnation p, gp_deployment p, gp_activation p))
     \<and> (\<exists>c. map_of (gd_contexts db) (gi_id r) = Some c \<and> component_current r c \<and> gc_revision_validation_state c = ''VALID''
          \<and> gc_revision_verification_state c = ''VERIFIED'' \<and> gc_release_state c = ''ACTIVE'' \<and> gc_target_lifecycle c = ''ACTIVE''
          \<and> gi_artifact_digest r \<noteq> None \<and> gc_release_artifact_digest c = gi_artifact_digest r
          \<and> gi_runtime_digest r \<noteq> None \<and> gc_release_runtime_digest c = gi_runtime_digest r))"

lemma validateRuntimeSnapshot_Inr:
  assumes "validateRuntimeSnapshot hello peer db = Inr r"
  shows "snapshot_authorized hello peer db r"
proof -
  obtain x c p where rows: "sql_first (\<lambda>r. gi_id r = he_runtimeInstanceId hello) (gd_instances db) = Some x"
      "map_of (gd_contexts db) (he_runtimeInstanceId hello) = Some c" "gd_platform db = Some p"
    using assms by (auto simp: validateRuntimeSnapshot_def not_current_def split: option.splits)
  have "x = r" using assms rows
    by (auto simp: validateRuntimeSnapshot_def not_current_def bindE_Inr_iff asDigest_def split: if_splits option.splits)
  with sql_first_Some [OF rows(1)] rows assms show ?thesis
    by (auto simp: snapshot_authorized_def validateRuntimeSnapshot_def not_current_def bindE_Inr_iff asDigest_def split: if_splits option.splits)
qed

lemma persistAcceptedConnection_Inr:
  assumes "persistAcceptedConnection inspected connectionId hello peer db = Inr (db', a)"
  obtains r where "snapshot_authorized hello peer db r"
    and "a = \<lparr>ac_connectionId = connectionId, ac_runtimeInstanceId = gi_id r, ac_runtimeGeneration = gi_generation r\<rparr>"
    and "gd_connections db' = gd_connections db @ [\<lparr>cn_id = connectionId, cn_instance = gi_id r, cn_generation = gi_generation r,
           cn_last_sequence = 1, cn_state = ''ACTIVE'', cn_close_reason = None\<rparr>]"
    and "gd_instances db' = sql_update (instance_accepts hello r) (\<lambda>x. x\<lparr>gi_connection_id := Some connectionId,
           gi_process := Some (pi_invocationId peer, pi_bootId peer, pc_pid peer, pi_startTicks peer, pi_cgroupPath peer),
           gi_effective_state := (if gi_effective_state x \<in> set [''ABSENT'', ''STOPPED'', ''FAILED'', ''UNKNOWN''] then ''STARTING'' else gi_effective_state x)\<rparr>)
           (gd_instances db)"
    and "\<exists>i \<in> set (gd_identities db'). identity_key i = (pi_bootId peer, pc_pid peer, pi_startTicks peer) \<and> \<not> id_exited i
           \<and> (id_instance i, id_generation i, id_unit i, id_invocation i) = (gi_id r, gi_generation r, pi_unit peer, pi_invocationId peer)"
proof -
  obtain r where r: "validateRuntimeSnapshot hello peer db = Inr r"
    using assms by (auto simp: persistAcceptedConnection_def bindE_Inr_iff split: if_splits)
  have auth: "snapshot_authorized hello peer db r" by (rule validateRuntimeSnapshot_Inr [OF r])
  then have key: "gi_id r = he_runtimeInstanceId hello" "gi_generation r = decimal_value (he_runtimeGeneration hello)"
    by (auto simp: snapshot_authorized_def)
  show thesis
    by (rule that [of r]) (use assms r auth key in
      \<open>auto simp: persistAcceptedConnection_def bindE_Inr_iff not_current_def Let_def split: if_splits option.splits dest!: sql_first_Some\<close>)
qed

lemma sql_update_hit: "r \<in> set rows \<Longrightarrow> P r \<Longrightarrow> f r \<in> set (sql_update P f rows)"
  by (auto simp: sql_update_def)

lemma bex_sql_update: "\<exists>x \<in> set rows. Q x \<Longrightarrow> (\<And>x. Q (f x) = Q x) \<Longrightarrow> \<exists>x \<in> set (sql_update P f rows). Q x"
  by (auto simp: sql_update_def)

lemma gateway_ok_accept:
  assumes ok: "gateway_ok (db, as)" and fresh: "connectionId \<notin> cn_id ` set (gd_connections db)"
    and acc: "persistAcceptedConnection inspected connectionId hello peer db = Inr (db', a)"
  shows "gateway_ok (db', insert a as)"
proof (rule persistAcceptedConnection_Inr [OF acc])
  fix r
  assume auth: "snapshot_authorized hello peer db r"
    and a: "a = \<lparr>ac_connectionId = connectionId, ac_runtimeInstanceId = gi_id r, ac_runtimeGeneration = gi_generation r\<rparr>"
    and cs: "gd_connections db' = gd_connections db @ [\<lparr>cn_id = connectionId, cn_instance = gi_id r, cn_generation = gi_generation r,
           cn_last_sequence = 1, cn_state = ''ACTIVE'', cn_close_reason = None\<rparr>]"
    and rs: "gd_instances db' = sql_update (instance_accepts hello r) (\<lambda>x. x\<lparr>gi_connection_id := Some connectionId,
           gi_process := Some (pi_invocationId peer, pi_bootId peer, pc_pid peer, pi_startTicks peer, pi_cgroupPath peer),
           gi_effective_state := (if gi_effective_state x \<in> set [''ABSENT'', ''STOPPED'', ''FAILED'', ''UNKNOWN''] then ''STARTING'' else gi_effective_state x)\<rparr>)
           (gd_instances db)"
  from auth have r: "gi_id r = he_runtimeInstanceId hello" "gi_generation r = decimal_value (he_runtimeGeneration hello)"
    by (auto simp: snapshot_authorized_def)
  show ?thesis
  proof (rule gateway_okI)
    show "distinct (map cn_id (gd_connections db'))" using gateway_okD(1) [OF ok] fresh by (auto simp: cs)
    show "distinct (map gi_id (gd_instances db'))" using gateway_okD(2) [OF ok] by (simp add: rs map_sql_update)
    show "\<exists>c \<in> set (gd_connections db'). connection_of b c" if "b \<in> insert a as" for b
      using that gateway_okD(3) [OF ok, of b] by (auto simp: a cs connection_of_def)
    show "\<exists>c \<in> set (gd_connections db'). carries c x" if "x \<in> set (gd_instances db')" "gi_connection_id x = Some i" for x i
      using that gateway_okD(4) [OF ok, of x] r by (auto simp: rs cs set_sql_update instance_accepts_def carries_def)
  qed
qed

lemma gateway_ok_heartbeat:
  assumes ok: "gateway_ok (db, as)" and hb: "heartbeat_connection a sequence db = Inr db'"
  shows "gateway_ok (db', as)"
proof -
  let ?hit = "\<lambda>c. cn_id c = ac_connectionId a \<and> cn_state c = ''ACTIVE'' \<and> cn_last_sequence c < sequence"
  have db': "db' = db\<lparr>gd_connections := sql_update ?hit (\<lambda>c. c\<lparr>cn_last_sequence := sequence\<rparr>) (gd_connections db)\<rparr>"
    using hb by (auto simp: heartbeat_connection_def Let_def split: if_splits)
  show ?thesis
  proof (rule gateway_okI)
    show "distinct (map cn_id (gd_connections db'))" using gateway_okD(1) [OF ok] by (simp add: db' map_sql_update)
    show "distinct (map gi_id (gd_instances db'))" using gateway_okD(2) [OF ok] by (simp add: db')
    show "\<exists>c \<in> set (gd_connections db'). connection_of b c" if "b \<in> as" for b
      using bex_sql_update [OF gateway_okD(3) [OF ok that]] by (simp add: db' connection_of_def)
    show "\<exists>c \<in> set (gd_connections db'). carries c x" if "x \<in> set (gd_instances db')" "gi_connection_id x = Some i" for x i
      using bex_sql_update [OF gateway_okD(4) [OF ok, of x]] that by (simp add: db' carries_def)
  qed
qed

lemma gateway_ok_liveness:
  assumes ok: "gateway_ok (db, as)"
  shows "gateway_ok (heartbeat_instance a heartbeat db, as)"
proof (rule gateway_okI)
  show "distinct (map gi_id (gd_instances (heartbeat_instance a heartbeat db)))"
    using gateway_okD(2) [OF ok] by (simp add: heartbeat_instance_def map_sql_update)
  show "\<exists>c \<in> set (gd_connections (heartbeat_instance a heartbeat db)). carries c x"
    if "x \<in> set (gd_instances (heartbeat_instance a heartbeat db))" "gi_connection_id x = Some i" for x i
    using that gateway_okD(4) [OF ok] by (fastforce simp: heartbeat_instance_def set_sql_update carries_def)
qed (use gateway_okD [OF ok] in \<open>simp_all add: heartbeat_instance_def\<close>)

lemma gateway_ok_close:
  assumes ok: "gateway_ok (db, as)" and a: "a \<in> as"
  shows "gateway_ok (closeConnectionEvidence a reason db, as)"
proof -
  obtain ca where ca: "ca \<in> set (gd_connections db)" "connection_of a ca" using gateway_okD(3) [OF ok a] by blast
  have only: "c = ca" if "c \<in> set (gd_connections db)" "cn_id c = ac_connectionId a" for c
    using distinct_map_eq [OF gateway_okD(1) [OF ok] that(1) ca(1)] that(2) ca(2) by (simp add: connection_of_def)
  show ?thesis
  proof (rule gateway_okI)
    show "distinct (map cn_id (gd_connections (closeConnectionEvidence a reason db)))"
      using gateway_okD(1) [OF ok] by (simp add: closeConnectionEvidence_def map_sql_update)
    show "distinct (map gi_id (gd_instances (closeConnectionEvidence a reason db)))"
      using gateway_okD(2) [OF ok] by (simp add: closeConnectionEvidence_def map_sql_update)
    show "\<exists>c \<in> set (gd_connections (closeConnectionEvidence a reason db)). connection_of b c" if "b \<in> as" for b
      using bex_sql_update [OF gateway_okD(3) [OF ok that]] by (simp add: closeConnectionEvidence_def connection_of_def)
    show "\<exists>c \<in> set (gd_connections (closeConnectionEvidence a reason db)). carries c x"
      if x: "x \<in> set (gd_instances (closeConnectionEvidence a reason db))" "gi_connection_id x = Some i" for x i
    proof -
      from x have "x \<in> set (gd_instances db)"
        and other: "\<not> (gi_id x = ac_runtimeInstanceId a \<and> gi_generation x = ac_runtimeGeneration a \<and> gi_connection_id x = Some (ac_connectionId a))"
        by (auto simp: closeConnectionEvidence_def set_sql_update)
      then obtain c where c: "c \<in> set (gd_connections db)" "carries c x" using gateway_okD(4) [OF ok _ x(2)] by blast
      have "cn_id c \<noteq> ac_connectionId a" using only [OF c(1)] ca(2) c(2) other by (auto simp: carries_def connection_of_def)
      with c show ?thesis by (auto simp: closeConnectionEvidence_def set_sql_update)
    qed
  qed
qed

lemma gateway_reachable_ok: "gateway.reach s \<Longrightarrow> gateway_ok s"
proof (rule gateway.invariant_rule [where I = gateway_ok])
  show "gateway_ok s" if "gateway_initial s" for s
    using that by (cases s) (auto simp: gateway_initial_def gateway_ok_def list_all_iff)
  show "gateway_ok t" if "gateway_ok s" "gateway_step s t" for s t
    using that(2,1) by cases (auto intro: gateway_ok_accept gateway_ok_heartbeat gateway_ok_liveness gateway_ok_close)
qed

text \<open>In every state the gateway reaches, an instance marked as connected has exactly one connection row
  with that identifier, which is active and was opened for that instance in that generation, and no other
  instance is marked with the same connection.\<close>

theorem connected_instance_has_active_connection:
  assumes "gateway.reach (db, as)" and "r \<in> set (gd_instances db)" and "gi_connection_id r = Some i"
  shows "\<exists>c. filter (\<lambda>c. cn_id c = i) (gd_connections db) = [c] \<and> carries c r \<and> filter (\<lambda>x. gi_connection_id x = Some i) (gd_instances db) = [r]"
proof -
  note ok = gateway_reachable_ok [OF assms(1)]
  obtain c where c: "c \<in> set (gd_connections db)" "carries c r" using gateway_okD(4) [OF ok assms(2,3)] by blast
  have i: "cn_id c = i" using c(2) assms(3) by (simp add: carries_def)
  have same: "x = r" if x: "x \<in> set (gd_instances db)" "gi_connection_id x = Some i" for x
  proof -
    obtain d where d: "d \<in> set (gd_connections db)" "carries d x" using gateway_okD(4) [OF ok x] by blast
    then have "d = c" using distinct_map_eq [OF gateway_okD(1) [OF ok] d(1) c(1)] i x(2) by (simp add: carries_def)
    with c(2) d(2) have "gi_id x = gi_id r" by (simp add: carries_def)
    then show ?thesis by (rule distinct_map_eq [OF gateway_okD(2) [OF ok] x(1) assms(2)])
  qed
  have "filter (\<lambda>x. gi_connection_id x = Some i) (gd_instances db) = filter (\<lambda>x. gi_id x = gi_id r) (gd_instances db)"
    using same assms(3) distinct_map_eq [OF gateway_okD(2) [OF ok] _ assms(2)] by (intro filter_cong) auto
  then show ?thesis using filter_key_unique [OF gateway_okD(1) [OF ok] c(1)] filter_key_unique [OF gateway_okD(2) [OF ok] assms(2)] c(2) i by auto
qed

text \<open>Once a runtime host has connected again, its older connections are inert: neither their heartbeats
  nor their closing change any runtime instance, so they cannot refresh or take down the instance of the
  newer connection.\<close>

theorem replaced_connection_is_inert:
  assumes "gateway.reach (db, as)" and "a \<in> as"
    and "connectionId \<notin> cn_id ` set (gd_connections db)"
    and "persistAcceptedConnection inspected connectionId hello peer db = Inr (db', b)"
    and "ac_runtimeInstanceId a = ac_runtimeInstanceId b"
  shows "gd_instances (closeConnectionEvidence a reason db') = gd_instances db'
    \<and> gd_instances (heartbeat_instance a heartbeat db') = gd_instances db'"
proof (rule persistAcceptedConnection_Inr [OF assms(4)])
  fix r
  note ok = gateway_reachable_ok [OF assms(1)]
  assume auth: "snapshot_authorized hello peer db r"
    and b: "b = \<lparr>ac_connectionId = connectionId, ac_runtimeInstanceId = gi_id r, ac_runtimeGeneration = gi_generation r\<rparr>"
    and rs: "gd_instances db' = sql_update (instance_accepts hello r) (\<lambda>x. x\<lparr>gi_connection_id := Some connectionId,
           gi_process := Some (pi_invocationId peer, pi_bootId peer, pc_pid peer, pi_startTicks peer, pi_cgroupPath peer),
           gi_effective_state := (if gi_effective_state x \<in> set [''ABSENT'', ''STOPPED'', ''FAILED'', ''UNKNOWN''] then ''STARTING'' else gi_effective_state x)\<rparr>)
           (gd_instances db)"
  have "ac_connectionId a \<noteq> connectionId" using gateway_okD(3) [OF ok assms(2)] assms(3) by (auto simp: connection_of_def intro: rev_image_eqI)
  moreover have "instance_accepts hello r x" if "x \<in> set (gd_instances db)" "gi_id x = gi_id r" for x
    using distinct_map_eq [OF gateway_okD(2) [OF ok] that(1)] that(2) auth by (auto simp: snapshot_authorized_def instance_accepts_def)
  ultimately have "gi_connection_id x \<noteq> Some (ac_connectionId a)" if "x \<in> set (gd_instances db')" "gi_id x = ac_runtimeInstanceId a" for x
    using that assms(5) by (auto simp: rs b set_sql_update)
  then show ?thesis by (auto simp: closeConnectionEvidence_def heartbeat_instance_def intro!: sql_update_none)
qed

text \<open>What is known of the process behind a connection: the kernel names its credentials, its process did not
  change while it was examined, and its cgroup and systemd both say it is the main process of the unit of the
  instance it claims to be.\<close>

definition peer_verified :: "js_conversions \<Rightarrow> peer_io \<Rightarrow> runtime_hello \<Rightarrow> peer_identity \<Rightarrow> bool" where
  "peer_verified jc px hello peer = (
     px_credentials px = Inr \<lparr>pc_pid = pc_pid peer, pc_uid = pc_uid peer, pc_gid = pc_gid peer\<rparr>
     \<and> px_status_ids px (pc_pid peer) = Inr (pc_uid peer, pc_gid peer)
     \<and> (\<forall>n \<in> {0, 1}. bindE (px_stat px n (pc_pid peer)) parse_start_ticks = Inr (pi_startTicks peer))
     \<and> bindE (px_cgroup px (pc_pid peer)) runtimeUnitFromCgroup = Inr (pi_unit peer)
     \<and> pi_unit peer = he_systemdUnit hello \<and> runtimeHostUnit (he_runtimeInstanceId hello) = Inr (pi_unit peer)
     \<and> (\<exists>state. bindE (px_show px (pi_unit peer)) (parseSystemdShow jc (pi_unit peer)) = Inr state \<and> us_activeState state = ''active''
          \<and> us_mainPid state = pc_pid peer \<and> us_controlGroup state = pi_cgroupPath peer \<and> us_invocationId state = Some (pi_invocationId peer)))"

lemma readPeerKernelIdentity_Inr: "readPeerKernelIdentity jc px hello = Inr peer \<Longrightarrow> peer_verified jc px hello peer"
  by (auto simp: readPeerKernelIdentity_def peer_verified_def bindE_Inr_iff Let_def split: if_splits option.splits)


section \<open>A sample host\<close>

definition sample_manifest_digest :: string where
  "sample_manifest_digest = ''sha256:'' @ replicate 64 CHR ''0''"

definition sample_hello :: runtime_hello where
  "sample_hello = \<lparr>he_runtimeInstanceId = sample_runtime_id, he_runtimeGeneration = ''7'',
     he_systemdUnit = ''kcml-runtime-host@'' @ sample_runtime_id @ ''.service'', he_launchManifestDigest = sample_manifest_digest\<rparr>"

definition sample_hello_payload :: cjson where
  "sample_hello_payload = CObj [(''protocol'', CStr ''P''), (''peerKind'', CStr ''RUNTIME_HOST''), (''serviceClass'', CStr ''kcml-runtime-host''),
     (''runtimeInstanceId'', CStr sample_runtime_id), (''runtimeGeneration'', CStr ''7''), (''systemdUnit'', CStr (he_systemdUnit sample_hello)),
     (''launchManifestDigest'', CStr sample_manifest_digest)]"

definition sample_peer_io :: peer_io where
  "sample_peer_io = \<lparr>px_credentials = Inr \<lparr>pc_pid = 42, pc_uid = 1000, pc_gid = 1001\<rparr>,
     px_stat = (\<lambda>n pid. Inr ''42 (host) S 1 2 3 4 5 6 7 8 9 10 11 12 13 14 15 16 17 18 777 20''),
     px_status_ids = (\<lambda>pid. Inr (1000, 1001)), px_cgroup = (\<lambda>pid. Inr (''0::/kcml.slice/'' @ he_systemdUnit sample_hello)),
     px_boot_id = Inr sample_runtime_id,
     px_show = (\<lambda>unit. Inr (''ActiveState=active'' @ ''\<newline>'' @ ''MainPID=42'' @ ''\<newline>'' @ ''InvocationID=0123456789abcdef0123456789abcdef'' @ ''\<newline>''
       @ ''ControlGroup=/kcml.slice/'' @ unit))\<rparr>"

definition sample_peer_conversions :: js_conversions where
  "sample_peer_conversions = sample_conversions\<lparr>jc_number_of_text := (\<lambda>s. JInt (decimal_value s))\<rparr>"

definition sample_instance :: gateway_instance where
  "sample_instance = \<lparr>gi_id = sample_runtime_id, gi_generation = 7, gi_systemd_unit_name = he_systemdUnit sample_hello,
     gi_expected_service_class = ''kcml-runtime-host'', gi_launch_manifest_digest = Some (replicate 64 CHR ''0''), gi_linux_uid = 1000, gi_linux_gid = 1001,
     gi_incarnation = ''I'', gi_deployment = 1, gi_activation = 2, gi_source_revision_id = ''R'', gi_release_id = ''L'', gi_binding_set_revision_id = ''B'',
     gi_artifact_digest = Some ''a'', gi_runtime_digest = Some ''r'', gi_namespace_profile_digest = Some ''n'', gi_connection_id = None,
     gi_effective_state = ''STOPPED'', gi_heartbeat_sequence = 0, gi_process = None\<rparr>"

definition sample_gateway_db :: gateway_db where
  "sample_gateway_db = \<lparr>gd_instances = [sample_instance],
     gd_contexts = [(sample_runtime_id, \<lparr>gc_component_lifecycle = ''ACTIVE'', gc_component_activation_state = ''ACTIVE'', gc_component_enabled = True,
       gc_active_revision_id = ''R'', gc_current_release_id = ''L'', gc_active_binding_set_revision_id = ''B'', gc_component_activation_epoch = 2,
       gc_revision_validation_state = ''VALID'', gc_revision_verification_state = ''VERIFIED'', gc_release_state = ''ACTIVE'',
       gc_release_artifact_digest = Some ''a'', gc_release_runtime_digest = Some ''r'', gc_target_lifecycle = ''ACTIVE''\<rparr>)],
     gd_platform = Some \<lparr>gp_incarnation = ''I'', gp_deployment = 1, gp_activation = 2, gp_recovery_state = ''READY'',
       gp_database_identity_current = True, gp_recovery_lineage_current = True\<rparr>, gd_identities = [], gd_connections = []\<rparr>"

definition sample_socket :: socket_inspection where
  "sample_socket = \<lparr>si_family = ''AF_UNIX'', si_socketType = ''SOCK_STREAM'', si_accepting = False, si_nonBlocking = True, si_closeOnExec = True,
     si_localPath = ''p'', si_device = 1, si_inode = 2\<rparr>"

definition sample_peer :: peer_identity where
  "sample_peer = \<lparr>pc_pid = 42, pc_uid = 1000, pc_gid = 1001, pi_bootId = sample_runtime_id, pi_startTicks = 777,
     pi_cgroupPath = ''/kcml.slice/'' @ he_systemdUnit sample_hello, pi_unit = he_systemdUnit sample_hello,
     pi_invocationId = ''01234567-89ab-cdef-0123-456789abcdef''\<rparr>"

definition sample_connect :: "string \<Rightarrow> gateway_db \<Rightarrow> (gateway_db \<times> accepted_connection) outcome" where
  "sample_connect connectionId db = persistAcceptedConnection (Inr sample_socket) connectionId sample_hello sample_peer db"

lemma sample_peer_read: "is_ok (readPeerKernelIdentity sample_peer_conversions sample_peer_io sample_hello)
  \<and> bindE (readPeerKernelIdentity sample_peer_conversions sample_peer_io sample_hello) (\<lambda>p. Inr (p = sample_peer)) = (Inr True :: bool outcome)"
  by code_simp

lemma sample_hello_read: "bindE (runtimeHostHelloSchema ''P'' is_uuid_text sample_hello_payload) (\<lambda>h. Inr (h = sample_hello)) = (Inr True :: bool outcome)"
  by code_simp

lemma sample_connects: "\<exists>db a db' b. sample_connect ''c1'' sample_gateway_db = Inr (db, a) \<and> sample_connect ''c2'' db = Inr (db', b)"
proof -
  have "is_ok (bindE (sample_connect ''c1'' sample_gateway_db) (\<lambda>(db, a). sample_connect ''c2'' db))" by code_simp
  then show ?thesis by (auto simp: is_ok_iff bindE_Inr_iff)
qed

lemma sample_reach:
  assumes "sample_connect ''c1'' sample_gateway_db = Inr (db, a)"
  shows "gateway.reach (db, {a})"
proof (rule gateway.reach_step)
  show "gateway.reach (sample_gateway_db, {})"
    by (rule gateway.reach_init) (simp add: gateway_initial_def sample_gateway_db_def sample_instance_def)
  show "gateway_step (sample_gateway_db, {}) (db, {a})"
    using gateway_accept [OF _ assms [unfolded sample_connect_def]] by (simp add: sample_gateway_db_def)
qed


theorem connected_instance_has_active_connection_witness:
  "\<exists>db a r c. gateway.reach (db, {a}) \<and> r \<in> set (gd_instances db) \<and> filter (\<lambda>c. cn_id c = ''c1'') (gd_connections db) = [c] \<and> carries c r"
proof -
  obtain db a where c: "sample_connect ''c1'' sample_gateway_db = Inr (db, a)" using sample_connects by blast
  have "bindE (sample_connect ''c1'' sample_gateway_db) (\<lambda>(db, a). Inr (map gi_connection_id (gd_instances db))) = (Inr [Some ''c1''] :: _ outcome)"
    by code_simp
  with c obtain r where r: "r \<in> set (gd_instances db)" "gi_connection_id r = Some ''c1''" by auto
  from connected_instance_has_active_connection [OF sample_reach [OF c] r] sample_reach [OF c] r show ?thesis by blast
qed

theorem replaced_connection_is_inert_witness:
  "\<exists>db a db' b. gateway.reach (db, {a}) \<and> sample_connect ''c2'' db = Inr (db', b)
     \<and> gd_instances (closeConnectionEvidence a ''gone'' db') = gd_instances db' \<and> gd_instances (heartbeat_instance a 9 db') = gd_instances db'"
proof -
  obtain db a db' b where c: "sample_connect ''c1'' sample_gateway_db = Inr (db, a)" "sample_connect ''c2'' db = Inr (db', b)"
    using sample_connects by blast
  have "bindE (sample_connect ''c1'' sample_gateway_db) (\<lambda>(db, a). Inr (map cn_id (gd_connections db))) = (Inr [''c1''] :: _ outcome)"
    by code_simp
  with c have fresh: "''c2'' \<notin> cn_id ` set (gd_connections db)" by auto
  have "ac_runtimeInstanceId a = sample_runtime_id" "ac_runtimeInstanceId b = sample_runtime_id"
    using c by (auto simp: sample_connect_def persistAcceptedConnection_def sample_hello_def not_current_def bindE_Inr_iff Let_def split: if_splits option.splits)
  from replaced_connection_is_inert [OF sample_reach [OF c(1)] _ fresh c(2) [unfolded sample_connect_def], where a = a and reason = "''gone''" and heartbeat = 9] this
    sample_reach [OF c(1)] c(2) show ?thesis by auto
qed

end
