(* ===== verification/AuditChain.thy ===== *)
theory AuditChain
  imports StreamDecoder Database
begin

text \<open>
  The hash chain of the audit log: the verifier \<^verbatim>\<open>verifyAuditChainClient\<close> of
  \<^verbatim>\<open>packages/domain/src/audit-integrity.ts\<close>, which reads the events in pages, and the database function
  that appends an event (\<^verbatim>\<open>database/baseline/00000000000000_greenfield.sql\<close>). SHA-256 is a parameter.
  The chain covers the type and the canonical payload of an event, not its other columns.
\<close>

record audit_event =
  ae_sequence :: int
  ae_event_type :: string
  ae_payload :: "byte list"
  ae_payload_digest :: "byte list"
  ae_previous_hash :: "byte list"
  ae_event_hash :: "byte list"

record audit_head =
  hd_last_sequence :: int
  hd_last_hash :: "byte list"

definition zero_hash :: "byte list" where
  "zero_hash = replicate 32 0"

text \<open>\<^verbatim>\<open>writeBigInt64BE\<close>, which throws outside the range of a signed 64-bit integer.\<close>

definition writeBigInt64BE :: "int \<Rightarrow> byte list outcome" where
  "writeBigInt64BE n = (if - (2 ^ 63) \<le> n \<and> n < 2 ^ 63 then Inr (be_bytes 8 (nat (n mod 2 ^ 64))) else Inl (Range_Error ''ERR_OUT_OF_RANGE''))"

definition event_preimage :: "byte list \<Rightarrow> byte list \<Rightarrow> string \<Rightarrow> byte list \<Rightarrow> byte list" where
  "event_preimage previous sequenceBytes event_type payloadDigest = previous @ sequenceBytes @ utf8 event_type @ payloadDigest"

text \<open>The state of the loop is the predecessor's hash, the expected sequence and the number of events.\<close>

definition check_event :: "(byte list \<Rightarrow> byte list) \<Rightarrow> byte list \<times> int \<times> nat \<Rightarrow> audit_event \<Rightarrow> (byte list \<times> int \<times> nat) outcome" where
  "check_event sha256 st e = (case st of (previous, expectedSequence, eventCount) \<Rightarrow>
     if ae_sequence e \<noteq> expectedSequence then Inl (Domain_Error ''SEQUENCE_GAP'')
     else if ae_previous_hash e \<noteq> previous then Inl (Domain_Error ''CHECKPOINT_DIGEST_INVALID'')
     else if sha256 (ae_payload e) \<noteq> ae_payload_digest e then Inl (Domain_Error ''CHECKPOINT_DIGEST_INVALID'')
     else bindE (writeBigInt64BE (ae_sequence e)) (\<lambda>sequenceBytes.
       let calculated = sha256 (event_preimage previous sequenceBytes (ae_event_type e) (sha256 (ae_payload e))) in
       if calculated \<noteq> ae_event_hash e then Inl (Domain_Error ''CHECKPOINT_DIGEST_INVALID'')
       else Inr (calculated, expectedSequence + 1, eventCount + 1)))"

text \<open>\<^verbatim>\<open>SELECT ... WHERE chain_sequence >= $1 ORDER BY chain_sequence LIMIT $2\<close>\<close>

definition audit_page :: "audit_event list \<Rightarrow> int \<Rightarrow> nat \<Rightarrow> audit_event list" where
  "audit_page events start limit = take limit (sort_key ae_sequence (filter (\<lambda>e. start \<le> ae_sequence e) events))"

text \<open>One link of the chain.\<close>

definition chain_link :: "(byte list \<Rightarrow> byte list) \<Rightarrow> byte list \<Rightarrow> int \<Rightarrow> audit_event \<Rightarrow> bool" where
  "chain_link sha256 previous n e = (ae_sequence e = n \<and> ae_previous_hash e = previous \<and> ae_payload_digest e = sha256 (ae_payload e)
     \<and> - (2 ^ 63) \<le> n \<and> n < 2 ^ 63
     \<and> ae_event_hash e = sha256 (event_preimage previous (be_bytes 8 (nat (n mod 2 ^ 64))) (ae_event_type e) (sha256 (ae_payload e))))"

lemma check_event_Inr:
  "check_event sha256 (p, n, c) e = Inr st \<longleftrightarrow> chain_link sha256 p n e \<and> st = (ae_event_hash e, n + 1, c + 1)"
  by (auto simp: check_event_def chain_link_def writeBigInt64BE_def Let_def split: if_splits)

lemma check_events_Cons:
  "forE (check_event sha256) (p, n, c) (e # es) = Inr st
     \<longleftrightarrow> chain_link sha256 p n e \<and> forE (check_event sha256) (ae_event_hash e, n + 1, c + 1) es = Inr st"
  unfolding forE_Cons_Inr by (auto simp: check_event_Inr)

lemma check_events_advance:
  "forE (check_event sha256) (p, n, c) es = Inr (p', n', c')
     \<Longrightarrow> n' = n + int (length es) \<and> map ae_sequence es = [n..n + int (length es) - 1] \<and> c' = c + length es"
proof (induction es arbitrary: p n c)
  case (Cons e es)
  then have "chain_link sha256 p n e" and rest: "forE (check_event sha256) (ae_event_hash e, n + 1, c + 1) es = Inr (p', n', c')"
    by (simp_all only: check_events_Cons)
  with Cons.IH [OF rest] show ?case by (auto simp: chain_link_def upto_rec1 [of n] algebra_simps)
qed simp

lemma length_filter_strict:
  "x \<in> set xs \<Longrightarrow> P x \<Longrightarrow> \<not> Q x \<Longrightarrow> (\<And>y. Q y \<Longrightarrow> P y) \<Longrightarrow> length (filter Q xs) < length (filter P xs)"
proof (induction xs)
  case (Cons y ys)
  have "length (filter Q ys) \<le> length (filter P ys)" using Cons.prems(4) by (induction ys) auto
  with Cons show ?case by auto
qed simp

lemma page_shrinks:
  assumes "forE (check_event sha256) (p, n, c) (audit_page events n limit) = Inr (p', n', c')" and "audit_page events n limit \<noteq> []"
  shows "length (filter (\<lambda>e. n' \<le> ae_sequence e) events) < length (filter (\<lambda>e. n \<le> ae_sequence e) events)"
proof -
  note adv = check_events_advance [OF assms(1)]
  then have n': "n < n'" using assms(2) by simp
  from adv assms(2) obtain e where e: "e \<in> set (audit_page events n limit)" "ae_sequence e = n"
    by (cases "audit_page events n limit") (auto simp: upto_rec1 [of n])
  then have "e \<in> set events" by (auto simp: audit_page_def dest: in_set_takeD)
  then show ?thesis by (rule length_filter_strict) (use n' e(2) in auto)
qed

function audit_loop :: "(byte list \<Rightarrow> byte list) \<Rightarrow> audit_event list \<Rightarrow> nat \<Rightarrow> byte list \<times> int \<times> nat \<Rightarrow> (byte list \<times> int \<times> nat) outcome" where
  "audit_loop sha256 events pageSize (p, n, c) =
     (let page = audit_page events n pageSize in
      if page = [] then Inr (p, n, c)
      else case forE (check_event sha256) (p, n, c) page of
        Inl e \<Rightarrow> Inl e
      | Inr st \<Rightarrow> if length page < pageSize then Inr st else audit_loop sha256 events pageSize st)"
  by pat_completeness auto
termination
  by (relation "measure (\<lambda>(_, events, _, (_, n, _)). length (filter (\<lambda>e. n \<le> ae_sequence e) events))") (auto simp: page_shrinks)

record audit_integrity_result =
  ai_eventCount :: nat
  ai_lastSequence :: int
  ai_lastHash :: "byte list"

definition finish_audit :: "audit_head \<Rightarrow> byte list \<times> int \<times> nat \<Rightarrow> audit_integrity_result outcome" where
  "finish_audit head st = (case st of (previous, expectedSequence, eventCount) \<Rightarrow>
     if hd_last_sequence head \<noteq> expectedSequence - 1 \<or> hd_last_hash head \<noteq> previous then Inl (Domain_Error ''CLOSURE_PREDICATE_INCOMPLETE'')
     else Inr \<lparr>ai_eventCount = eventCount, ai_lastSequence = expectedSequence - 1, ai_lastHash = previous\<rparr>)"

definition verifyAuditChainClient ::
  "(byte list \<Rightarrow> byte list) \<Rightarrow> js_number \<Rightarrow> audit_head option \<Rightarrow> audit_event list \<Rightarrow> audit_integrity_result outcome" where
  "verifyAuditChainClient sha256 pageSize head events = (case pageSize of
     JInt k \<Rightarrow>
       if k < 1 \<or> 10000 < k then Inl (Plain_Error ''AUDIT_PAGE_SIZE_INVALID'')
       else (case head of None \<Rightarrow> Inl (Domain_Error ''CLOSURE_PREDICATE_INCOMPLETE'')
         | Some h \<Rightarrow> bindE (audit_loop sha256 events (nat k) (zero_hash, 1, 0)) (finish_audit h))
   | _ \<Rightarrow> Inl (Plain_Error ''AUDIT_PAGE_SIZE_INVALID''))"

text \<open>The database function \<^verbatim>\<open>append_audit_event\<close>; its sequence is a bigint, so appending past its range is an error.\<close>

definition append_audit_event ::
  "(byte list \<Rightarrow> byte list) \<Rightarrow> string \<Rightarrow> byte list \<Rightarrow> audit_head \<times> audit_event list \<Rightarrow> (audit_head \<times> audit_event list) outcome" where
  "append_audit_event sha256 event_type payload log = (case log of (head, events) \<Rightarrow>
     let n = hd_last_sequence head + 1 in
     bindE (writeBigInt64BE n) (\<lambda>sequenceBytes.
       let payloadDigest = sha256 payload; event_hash = sha256 (event_preimage (hd_last_hash head) sequenceBytes event_type payloadDigest) in
       Inr (\<lparr>hd_last_sequence = n, hd_last_hash = event_hash\<rparr>,
         events @ [\<lparr>ae_sequence = n, ae_event_type = event_type, ae_payload = payload, ae_payload_digest = payloadDigest,
           ae_previous_hash = hd_last_hash head, ae_event_hash = event_hash\<rparr>])))"

section \<open>The chain as one pass\<close>

text \<open>The reference: all events in one pass, ordered by sequence, against the head.\<close>

definition verify_chain :: "(byte list \<Rightarrow> byte list) \<Rightarrow> audit_head \<Rightarrow> audit_event list \<Rightarrow> audit_integrity_result outcome" where
  "verify_chain sha256 head events = bindE (forE (check_event sha256) (zero_hash, 1, 0) (sort_key ae_sequence events)) (finish_audit head)"

lemma audit_loop_one_pass:
  assumes "distinct (map ae_sequence events)" and "0 < pageSize"
  shows "audit_loop sha256 events pageSize (p, n, c) = forE (check_event sha256) (p, n, c) (sort_key ae_sequence (filter (\<lambda>e. n \<le> ae_sequence e) events))"
  using assms
proof (induction sha256 events pageSize "(p, n, c)" arbitrary: p n c rule: audit_loop.induct)
  case (1 sha256 events pageSize p n c)
  let ?L = "sort_key ae_sequence (filter (\<lambda>e. n \<le> ae_sequence e) events)"
  let ?page = "audit_page events n pageSize"
  have page: "?page = take pageSize ?L" by (simp add: audit_page_def)
  have L: "?L = ?page @ drop pageSize ?L" by (simp add: page)
  have split: "forE (check_event sha256) (p, n, c) ?L = bindE (forE (check_event sha256) (p, n, c) ?page) (\<lambda>st. forE (check_event sha256) st (drop pageSize ?L))"
    by (subst L) (simp add: forE_append bindE_def)
  show ?case
  proof (cases "?page = []")
    case True
    with "1.prems"(2) have "?L = []" by (simp add: page)
    with True show ?thesis by (simp add: Let_def)
  next
    case False
    show ?thesis
    proof (cases "forE (check_event sha256) (p, n, c) ?page")
      case (Inl e)
      with False show ?thesis by (simp add: Let_def split)
    next
      case (Inr st)
      obtain p' n' c' where st: "st = (p', n', c')" by (cases st)
      note adv = check_events_advance [OF Inr [unfolded st]]
      show ?thesis
      proof (cases "length ?page < pageSize")
        case True
        then have "drop pageSize ?L = []" by (simp add: page)
        with False Inr True show ?thesis by (simp add: Let_def split)
      next
        case more: False
        have seqs: "ae_sequence ` set ?page = {n..n' - 1}" using adv by (metis add_diff_cancel_left' diff_add_eq list.set_map set_upto)
        have "distinct (map ae_sequence ?L)" using "1.prems"(1) by (auto simp: distinct_map intro: inj_on_subset)
        moreover have "sorted (map ae_sequence ?L)" by simp
        ultimately have disj: "ae_sequence x \<notin> ae_sequence ` set ?page" if "x \<in> set (drop pageSize ?L)" for x
          using that L by (metis (no_types, lifting) disjoint_iff distinct_append image_eqI list.set_map map_append)
        have "n' \<le> ae_sequence x" if x: "x \<in> set (drop pageSize ?L)" for x
        proof -
          have "ae_sequence x \<notin> {n..n' - 1}" using disj [OF x] by (simp only: seqs not_False_eq_True)
          moreover have "n \<le> ae_sequence x" using in_set_dropD [OF x] by simp
          ultimately show ?thesis by simp
        qed
        then have "drop pageSize ?L = filter (\<lambda>e. n' \<le> ae_sequence e) (drop pageSize ?L)" by simp
        also have "\<dots> = filter (\<lambda>e. n' \<le> ae_sequence e) (?page @ drop pageSize ?L)"
        proof -
          have "\<not> n' \<le> ae_sequence x" if "x \<in> set ?page" for x
          proof -
            have "ae_sequence x \<in> {n..n' - 1}" unfolding seqs [symmetric] using that by (rule imageI)
            then show ?thesis by simp
          qed
          then show ?thesis by (simp add: filter_empty_conv)
        qed
        also have "\<dots> = filter (\<lambda>e. n' \<le> ae_sequence e) ?L" using L by simp
        also have "\<dots> = sort_key ae_sequence (filter (\<lambda>e. n' \<le> ae_sequence e) events)"
          using adv by (auto simp: filter_sort intro!: arg_cong [of _ _ "sort_key ae_sequence"] filter_cong)
        finally have rest: "drop pageSize ?L = sort_key ae_sequence (filter (\<lambda>e. n' \<le> ae_sequence e) events)" .
        have "audit_loop sha256 events pageSize (p, n, c) = audit_loop sha256 events pageSize (p', n', c')"
          using False Inr more st by (simp add: Let_def)
        also have "\<dots> = forE (check_event sha256) (p', n', c') (drop pageSize ?L)"
          unfolding rest using "1.hyps" [OF refl False Inr [unfolded st] more] "1.prems" by simp
        finally show ?thesis using Inr st by (simp add: split)
      qed
    qed
  qed
qed

declare audit_loop.simps [simp del]

lemma verify_one_pass:
  assumes "distinct (map ae_sequence events)" and "\<And>e. e \<in> set events \<Longrightarrow> 0 < ae_sequence e" and "1 \<le> k" and "k \<le> 10000"
  shows "verifyAuditChainClient sha256 (JInt k) (Some head) events = verify_chain sha256 head events"
proof -
  have "filter (\<lambda>e. 1 \<le> ae_sequence e) events = events" using assms(2) by (fastforce simp: filter_id_conv)
  with assms show ?thesis by (simp add: verifyAuditChainClient_def verify_chain_def audit_loop_one_pass)
qed

text \<open>The page size does not matter: for every admissible page size the verifier gives the result, or the
  error, of one pass over the events in the order of their sequence numbers.\<close>

theorem audit_verification_page_independent:
  assumes "distinct (map ae_sequence events)" and "list_all (\<lambda>e. 0 < ae_sequence e) events" and "1 \<le> k" and "k \<le> 10000"
  shows "verifyAuditChainClient sha256 (JInt k) (Some head) events = verify_chain sha256 head events"
  by (rule verify_one_pass) (use assms in \<open>auto simp: list_all_iff\<close>)

section \<open>The log and its verification\<close>

inductive audit_step :: "(byte list \<Rightarrow> byte list) \<Rightarrow> audit_head \<times> audit_event list \<Rightarrow> audit_head \<times> audit_event list \<Rightarrow> bool" for sha256 where
  audit_append: "append_audit_event sha256 event_type payload log = Inr log' \<Longrightarrow> audit_step sha256 log log'"

interpretation audit_log: transition_system "\<lambda>log. log = (\<lparr>hd_last_sequence = 0, hd_last_hash = zero_hash\<rparr>, [])" "audit_step sha256" for sha256 .

definition audit_log_ok :: "(byte list \<Rightarrow> byte list) \<Rightarrow> audit_head \<times> audit_event list \<Rightarrow> bool" where
  "audit_log_ok sha256 log = (hd_last_sequence (fst log) = int (length (snd log))
     \<and> forE (check_event sha256) (zero_hash, 1, 0) (snd log) = Inr (hd_last_hash (fst log), int (length (snd log)) + 1, length (snd log)))"

lemma append_audit_event_link:
  assumes "append_audit_event sha256 event_type payload (h, es) = Inr t"
  obtains e where "chain_link sha256 (hd_last_hash h) (hd_last_sequence h + 1) e"
    and "t = (\<lparr>hd_last_sequence = hd_last_sequence h + 1, hd_last_hash = ae_event_hash e\<rparr>, es @ [e])"
proof -
  from assms have "chain_link sha256 (hd_last_hash h) (hd_last_sequence h + 1) (last (snd t))
      \<and> t = (\<lparr>hd_last_sequence = hd_last_sequence h + 1, hd_last_hash = ae_event_hash (last (snd t))\<rparr>, es @ [last (snd t)])"
    by (auto simp: append_audit_event_def bindE_Inr_iff Let_def writeBigInt64BE_def chain_link_def split: if_splits)
  then show thesis using that by blast
qed

lemma audit_log_reach: "audit_log.reach sha256 log \<Longrightarrow> audit_log_ok sha256 log"
proof (rule audit_log.invariant_rule [where I = "audit_log_ok sha256"])
  show "audit_log_ok sha256 t" if ok: "audit_log_ok sha256 s" and st: "audit_step sha256 s t" for s t
  proof -
    obtain h es where s: "s = (h, es)" by (cases s)
    from st obtain ty pl where "append_audit_event sha256 ty pl (h, es) = Inr t" unfolding s by cases
    then obtain e where e: "chain_link sha256 (hd_last_hash h) (hd_last_sequence h + 1) e"
      and t: "t = (\<lparr>hd_last_sequence = hd_last_sequence h + 1, hd_last_hash = ae_event_hash e\<rparr>, es @ [e])"
      by (rule append_audit_event_link)
    from ok have "forE (check_event sha256) (zero_hash, 1, 0) es = Inr (hd_last_hash h, int (length es) + 1, length es)"
      and n: "hd_last_sequence h = int (length es)" by (simp_all add: s audit_log_ok_def)
    moreover from e n have "check_event sha256 (hd_last_hash h, int (length es) + 1, length es) e = Inr (ae_event_hash e, int (length es) + 2, Suc (length es))"
      by (simp add: check_event_Inr)
    ultimately have "forE (check_event sha256) (zero_hash, 1, 0) (es @ [e]) = Inr (ae_event_hash e, int (length es) + 2, Suc (length es))"
      by (simp add: forE_append)
    with n show ?thesis by (simp add: t audit_log_ok_def)
  qed
qed (simp_all add: audit_log_ok_def)

lemma reached_log_verifies:
  assumes "audit_log.reach sha256 (head, events)" and "1 \<le> k" and "k \<le> 10000"
  shows "verifyAuditChainClient sha256 (JInt k) (Some head) events
    = Inr \<lparr>ai_eventCount = length events, ai_lastSequence = int (length events), ai_lastHash = hd_last_hash head\<rparr>"
proof -
  from audit_log_reach [OF assms(1)] have pass: "forE (check_event sha256) (zero_hash, 1, 0) events = Inr (hd_last_hash head, int (length events) + 1, length events)"
    and n: "hd_last_sequence head = int (length events)" by (simp_all add: audit_log_ok_def)
  from check_events_advance [OF pass] have seqs: "map ae_sequence events = [1..int (length events)]" by simp
  then have "sort_key ae_sequence events = events" by (intro sort_key_id_if_sorted) simp
  moreover have "distinct (map ae_sequence events)" using seqs by simp
  moreover have "0 < ae_sequence e" if "e \<in> set events" for e
  proof -
    from that have "ae_sequence e \<in> set (map ae_sequence events)" by simp
    then show ?thesis by (simp only: seqs) simp
  qed
  ultimately show ?thesis using assms(2,3) n pass by (simp add: verify_one_pass verify_chain_def finish_audit_def)
qed

text \<open>A log that was only ever appended to is verified, with any admissible page size, and the verifier
  reports all of its events and the hash of the last one.\<close>

theorem appended_log_verifies:
  assumes "audit_log.reach sha256 (head, events)" and "1 \<le> k" and "k \<le> 10000"
  shows "verifyAuditChainClient sha256 (JInt k) (Some head) events
    = Inr \<lparr>ai_eventCount = length events, ai_lastSequence = int (length events), ai_lastHash = hd_last_hash head\<rparr>"
  using assms by (rule reached_log_verifies)

section \<open>Tamper evidence\<close>

lemma unat_utf8_char:
  "map unat (utf8_char c) = (let n = of_char c in if n < 128 then [n] else [192 + n div 64, 128 + n mod 64])"
proof -
  have small: "unat (of_nat m :: byte) = m" if "m < 256" for m using that by (simp add: unsigned_of_nat take_bit_nat_eq_self)
  have n: "(of_char c :: nat) < 256" by (rule nat_of_char_less_256)
  then have "(of_char c :: nat) div 64 < 4" by (rule less_mult_imp_div_less [of _ 4 64, simplified])
  then have "192 + (of_char c :: nat) div 64 < 256" "128 + (of_char c :: nat) mod 64 < 256" by (auto intro: less_trans)
  with n small show ?thesis unfolding utf8_char_def Let_def by (auto simp del: of_nat_add of_nat_numeral)
qed

lemma utf8_char_prefix:
  assumes "utf8_char c @ xs = utf8_char d @ ys"
  shows "c = d \<and> xs = ys"
proof -
  have eq: "map unat (utf8_char c) @ map unat xs = map unat (utf8_char d) @ map unat ys" using assms by (metis map_append)
  have "c = d"
    using eq nat_of_char_less_256 [of c] nat_of_char_less_256 [of d] unfolding unat_utf8_char Let_def
    by (auto split: if_splits) (metis div_mult_mod_eq of_char_eq_iff)
  with assms show ?thesis by simp
qed

lemma utf8_inj: "utf8 s = utf8 t \<Longrightarrow> s = t"
proof (induction s arbitrary: t)
  case Nil
  then show ?case by (cases t) (auto simp: utf8_def utf8_char_def Let_def split: if_splits)
next
  case (Cons c s)
  then obtain d t' where t: "t = d # t'" by (cases t) (auto simp: utf8_def utf8_char_def Let_def split: if_splits)
  with Cons.prems have "utf8_char c @ utf8 s = utf8_char d @ utf8 t'" by (simp add: utf8_def)
  from utf8_char_prefix [OF this] Cons.IH t show ?case by simp
qed

lemma event_preimage_inj:
  assumes "event_preimage p s t d = event_preimage p' s' t' d'" and "length p = length p'" "length s = length s'" "length d = length d'"
  shows "p = p' \<and> s = s' \<and> t = t' \<and> d = d'"
proof -
  from assms have "p = p'" "s = s'" and rest: "utf8 t @ d = utf8 t' @ d'" by (auto simp: event_preimage_def)
  from rest assms(4) have "utf8 t = utf8 t'" "d = d'" by auto
  with \<open>p = p'\<close> \<open>s = s'\<close> utf8_inj show ?thesis by blast
qed

text \<open>What is hashed for an event, and what an event says.\<close>

definition hashed_inputs :: "audit_event list \<Rightarrow> byte list set" where
  "hashed_inputs es = ae_payload ` set es
     \<union> (\<lambda>e. event_preimage (ae_previous_hash e) (be_bytes 8 (nat (ae_sequence e mod 2 ^ 64))) (ae_event_type e) (ae_payload_digest e)) ` set es"

definition event_content :: "audit_event \<Rightarrow> int \<times> string \<times> byte list" where
  "event_content e = (ae_sequence e, ae_event_type e, ae_payload e)"

lemma chain_hash_length:
  assumes "\<And>x. length (sha256 x) = 32" and "forE (check_event sha256) (p, n, c) es = Inr (p', n', c')" and "length p = 32"
  shows "length p' = 32"
  using assms(2,3)
proof (induction es arbitrary: p n c)
  case (Cons e es)
  then show ?case unfolding check_events_Cons by (auto simp: chain_link_def assms(1))
qed simp

lemma check_events_snoc:
  "forE (check_event sha256) st (es @ [e]) = Inr (q, m, k)
     \<longleftrightarrow> (\<exists>q1 m1 k1. forE (check_event sha256) st es = Inr (q1, m1, k1) \<and> chain_link sha256 q1 m1 e \<and> q = ae_event_hash e \<and> m = m1 + 1 \<and> k = k1 + 1)"
  unfolding forE_append bindE_Inr_iff forE_Cons_Inr by (auto simp: check_event_Inr)

lemma same_end_same_chain:
  assumes len: "\<And>x. length (sha256 x) = 32" and inj: "inj_on sha256 (hashed_inputs es \<union> hashed_inputs fs)"
    and es: "forE (check_event sha256) (p, n, c) es = Inr (q, m, k)" and fs: "forE (check_event sha256) (p, n, c) fs = Inr (q, m, k')"
    and p: "length p = 32"
  shows "map event_content es = map event_content fs"
  using inj es fs
proof (induction es arbitrary: fs q m k k' rule: rev_induct)
  case Nil
  then have "m = n" "int (length fs) = m - n" using check_events_advance [OF Nil(3)] by auto
  then show ?case by simp
next
  case (snoc e es)
  obtain q1 m1 k1 where e: "forE (check_event sha256) (p, n, c) es = Inr (q1, m1, k1)" "chain_link sha256 q1 m1 e" "q = ae_event_hash e" "m = m1 + 1"
    using snoc.prems(2) unfolding check_events_snoc by blast
  have "length fs = length (es @ [e])" using check_events_advance [OF snoc.prems(2)] check_events_advance [OF snoc.prems(3)] by simp
  then obtain gs f where fs': "fs = gs @ [f]" by (cases fs rule: rev_cases) auto
  obtain q2 m2 k2 where f: "forE (check_event sha256) (p, n, c) gs = Inr (q2, m2, k2)" "chain_link sha256 q2 m2 f" "q = ae_event_hash f" "m = m2 + 1"
    using snoc.prems(3) unfolding fs' check_events_snoc by blast
  have m12: "m2 = m1" using e(4) f(4) by simp
  have inputs: "{ae_payload e, ae_payload f} \<union> {event_preimage q1 (be_bytes 8 (nat (m1 mod 2 ^ 64))) (ae_event_type e) (sha256 (ae_payload e)),
      event_preimage q2 (be_bytes 8 (nat (m1 mod 2 ^ 64))) (ae_event_type f) (sha256 (ae_payload f))} \<subseteq> hashed_inputs (es @ [e]) \<union> hashed_inputs fs"
    using e(2) f(2) m12 by (auto simp: hashed_inputs_def fs' chain_link_def)
  have "sha256 (event_preimage q1 (be_bytes 8 (nat (m1 mod 2 ^ 64))) (ae_event_type e) (sha256 (ae_payload e)))
      = sha256 (event_preimage q2 (be_bytes 8 (nat (m1 mod 2 ^ 64))) (ae_event_type f) (sha256 (ae_payload f)))"
    using e(2,3) f(2,3) m12 by (simp add: chain_link_def)
  then have "event_preimage q1 (be_bytes 8 (nat (m1 mod 2 ^ 64))) (ae_event_type e) (sha256 (ae_payload e))
      = event_preimage q2 (be_bytes 8 (nat (m1 mod 2 ^ 64))) (ae_event_type f) (sha256 (ae_payload f))"
    by (rule inj_onD [OF snoc.prems(1)]) (use inputs in auto)
  from event_preimage_inj [OF this] have same: "q1 = q2" "ae_event_type e = ae_event_type f" "sha256 (ae_payload e) = sha256 (ae_payload f)"
    using chain_hash_length [OF len e(1) p] chain_hash_length [OF len f(1) p] len by simp_all
  have pay: "ae_payload e = ae_payload f" by (rule inj_onD [OF snoc.prems(1) same(3)]) (use inputs in auto)
  have "inj_on sha256 (hashed_inputs es \<union> hashed_inputs gs)"
    by (rule inj_on_subset [OF snoc.prems(1)]) (auto simp: hashed_inputs_def fs')
  from snoc.IH [OF this e(1)] f(1) same(1) m12 have "map event_content es = map event_content gs" by simp
  moreover have "event_content e = event_content f" using same(2) pay e(2) f(2) m12 by (simp add: event_content_def chain_link_def)
  ultimately show ?case by (simp add: fs')
qed

text \<open>C20. The head binds the whole history: two event tables that are both verified against the same head hold the
  same sequence of event types and payloads, unless two of the values hashed for them collide under SHA-256.\<close>

theorem audit_head_binds_history:
  assumes "\<And>x. length (sha256 x) = 32" and "inj_on sha256 (hashed_inputs A \<union> hashed_inputs B)"
    and "distinct (map ae_sequence A)" "list_all (\<lambda>e. 0 < ae_sequence e) A"
    and "distinct (map ae_sequence B)" "list_all (\<lambda>e. 0 < ae_sequence e) B"
    and "verifyAuditChainClient sha256 (JInt k) (Some head) A = Inr ra" and "1 \<le> k" "k \<le> 10000"
    and "verifyAuditChainClient sha256 (JInt l) (Some head) B = Inr rb" and "1 \<le> l" "l \<le> 10000"
  shows "map event_content (sort_key ae_sequence A) = map event_content (sort_key ae_sequence B)"
proof -
  have pass: "\<exists>c. forE (check_event sha256) (zero_hash, 1, 0) (sort_key ae_sequence X) = Inr (hd_last_hash head, hd_last_sequence head + 1, c)"
    if "distinct (map ae_sequence X)" "list_all (\<lambda>e. 0 < ae_sequence e) X" "1 \<le> i" "i \<le> 10000"
      "verifyAuditChainClient sha256 (JInt i) (Some head) X = Inr r" for X i r
  proof -
    from that have "verify_chain sha256 head X = Inr r" by (subst verify_one_pass [symmetric]) (auto simp: list_all_iff)
    then show ?thesis by (auto simp: verify_chain_def bindE_Inr_iff finish_audit_def split: if_splits)
  qed
  from pass [OF assms(3,4,8,9,7)] pass [OF assms(5,6,11,12,10)] obtain c d
    where "forE (check_event sha256) (zero_hash, 1, 0) (sort_key ae_sequence A) = Inr (hd_last_hash head, hd_last_sequence head + 1, c)"
      "forE (check_event sha256) (zero_hash, 1, 0) (sort_key ae_sequence B) = Inr (hd_last_hash head, hd_last_sequence head + 1, d)" by blast
  from same_end_same_chain [OF assms(1) _ this] assms(2) show ?thesis by (simp add: hashed_inputs_def zero_hash_def)
qed

section \<open>A sample log\<close>

definition sample_sha :: "byte list \<Rightarrow> byte list" where
  "sample_sha x = of_nat (length x) # replicate 31 0"

lemma sample_sha_length: "length (sample_sha x) = 32"
  by (simp add: sample_sha_def)

definition sample_audit_head :: audit_head where
  "sample_audit_head = \<lparr>hd_last_sequence = 1, hd_last_hash = sample_sha (event_preimage zero_hash (be_bytes 8 1) ''a'' (sample_sha [5]))\<rparr>"

definition sample_audit_events :: "audit_event list" where
  "sample_audit_events = [\<lparr>ae_sequence = 1, ae_event_type = ''a'', ae_payload = [5], ae_payload_digest = sample_sha [5],
     ae_previous_hash = zero_hash, ae_event_hash = hd_last_hash sample_audit_head\<rparr>]"

lemma sample_log_reach: "audit_log.reach sample_sha (sample_audit_head, sample_audit_events)"
proof (rule audit_log.reach_step)
  show "audit_log.reach sample_sha (\<lparr>hd_last_sequence = 0, hd_last_hash = zero_hash\<rparr>, [])" by (rule audit_log.reach_init) (rule refl)
  show "audit_step sample_sha (\<lparr>hd_last_sequence = 0, hd_last_hash = zero_hash\<rparr>, []) (sample_audit_head, sample_audit_events)"
    by (rule audit_append [of _ "''a''" "[5]"])
      (simp add: append_audit_event_def writeBigInt64BE_def Let_def sample_audit_head_def sample_audit_events_def)
qed

lemma sample_log_sequences: "distinct (map ae_sequence sample_audit_events)" "list_all (\<lambda>e. 0 < ae_sequence e) sample_audit_events"
  by (simp_all add: sample_audit_events_def)

theorem audit_verification_page_independent_witness:
  "verifyAuditChainClient sample_sha (JInt 1) (Some sample_audit_head) sample_audit_events = verify_chain sample_sha sample_audit_head sample_audit_events"
  using audit_verification_page_independent [OF sample_log_sequences, of 1 sample_sha sample_audit_head] by simp

theorem appended_log_verifies_witness:
  "verifyAuditChainClient sample_sha (JInt 1) (Some sample_audit_head) sample_audit_events
    = Inr \<lparr>ai_eventCount = 1, ai_lastSequence = 1, ai_lastHash = hd_last_hash sample_audit_head\<rparr>"
  using appended_log_verifies [OF sample_log_reach, of 1] by (simp add: sample_audit_events_def)

lemma sample_inputs_inj: "inj_on sample_sha (hashed_inputs sample_audit_events)"
proof -
  have "sample_sha [5] \<noteq> sample_sha (event_preimage zero_hash (be_bytes 8 1) ''a'' (sample_sha [5]))"
    by (simp add: sample_sha_def event_preimage_def zero_hash_def utf8_def utf8_char_def)
  then show ?thesis by (auto simp: hashed_inputs_def sample_audit_events_def inj_on_def)
qed

theorem audit_head_binds_history_witness:
  "\<exists>ra rb. verifyAuditChainClient sample_sha (JInt 1) (Some sample_audit_head) sample_audit_events = Inr ra
    \<and> verifyAuditChainClient sample_sha (JInt 2) (Some sample_audit_head) sample_audit_events = Inr rb
    \<and> map event_content (sort_key ae_sequence sample_audit_events) = [(1, ''a'', [5])]"
proof -
  from reached_log_verifies [OF sample_log_reach, of 1] reached_log_verifies [OF sample_log_reach, of 2] obtain ra rb
    where ok: "verifyAuditChainClient sample_sha (JInt 1) (Some sample_audit_head) sample_audit_events = Inr ra"
      "verifyAuditChainClient sample_sha (JInt 2) (Some sample_audit_head) sample_audit_events = Inr rb" by simp
  have "map event_content (sort_key ae_sequence sample_audit_events) = map event_content (sort_key ae_sequence sample_audit_events)"
    by (rule audit_head_binds_history [OF sample_sha_length _ sample_log_sequences sample_log_sequences ok(1) _ _ ok(2)]) (simp_all add: sample_inputs_inj)
  with ok show ?thesis by (auto simp: sample_audit_events_def event_content_def)
qed

end
