(* ===== verification/OwnerCrypto.thy ===== *)
theory OwnerCrypto
  imports AuditChain CommandValidation
begin

text \<open>
  The primitives of owner authentication (\<^verbatim>\<open>packages/domain/src/crypto.ts\<close>): Base32 with the 32-bit accumulator of
  the code, whose older bits are shifted out rather than cleared, time-based one-time codes, and the envelope
  cipher around AES-256-GCM. SHA-256, HMAC-SHA-1 and the cipher itself are parameters.
\<close>

unbundle bit_operations_syntax

section \<open>Base32\<close>

definition base32Alphabet :: string where
  "base32Alphabet = ''ABCDEFGHIJKLMNOPQRSTUVWXYZ234567''"

fun encode_while :: "32 word \<Rightarrow> nat \<Rightarrow> string \<times> nat" where
  "encode_while acc bits = (if bits \<ge> 5
     then (let (rest, left) = encode_while acc (bits - 5) in (base32Alphabet ! unat (drop_bit (bits - 5) acc AND 31) # rest, left))
     else ([], bits))"

declare encode_while.simps [simp del]

fun base32_encode :: "32 word \<Rightarrow> nat \<Rightarrow> byte list \<Rightarrow> string" where
  "base32_encode acc bits [] = (if bits > 0 then [base32Alphabet ! unat (push_bit (5 - bits) acc AND 31)] else [])"
| "base32_encode acc bits (b # bs) =
     (let acc' = push_bit 8 acc OR ucast b; (chars, left) = encode_while acc' (bits + 8) in chars @ base32_encode acc' left bs)"

definition base32Encode :: "byte list \<Rightarrow> string" where
  "base32Encode value = base32_encode 0 0 value"

definition strip_padding :: "string \<Rightarrow> string" where
  "strip_padding s = rev (dropWhile (\<lambda>c. c = CHR ''='') (rev s))"

definition index_of :: "char \<Rightarrow> string \<Rightarrow> nat option" where
  "index_of c s = (if c \<in> set s then Some (length (takeWhile (\<lambda>x. x \<noteq> c) s)) else None)"

fun base32_decode :: "32 word \<Rightarrow> nat \<Rightarrow> string \<Rightarrow> byte list outcome" where
  "base32_decode acc bits [] = Inr []"
| "base32_decode acc bits (c # cs) = (case index_of c base32Alphabet of
     None \<Rightarrow> Inl (Plain_Error ''Invalid Base32'')
   | Some index \<Rightarrow>
       let acc' = push_bit 5 acc OR of_nat index in
       if bits + 5 \<ge> 8 then bindE (base32_decode acc' (bits + 5 - 8) cs) (\<lambda>rest. Inr (ucast (drop_bit (bits + 5 - 8) acc' AND 255) # rest))
       else base32_decode acc' (bits + 5) cs)"

definition base32Decode :: "string \<Rightarrow> byte list outcome" where
  "base32Decode value = base32_decode 0 0 (strip_padding (upper_text value))"

text \<open>The bits of a word, most significant first, and the codes as sequences of bits.\<close>

definition to_bits :: "nat \<Rightarrow> 'a::len word \<Rightarrow> bool list" where
  "to_bits k w = map (\<lambda>i. bit w (k - 1 - i)) [0..<k]"

lemma length_to_bits [simp]: "length (to_bits k w) = k"
  by (simp add: to_bits_def)

lemma to_bits_nth: "i < k \<Longrightarrow> to_bits k w ! i = bit w (k - 1 - i)"
  by (simp add: to_bits_def)

lemma to_bits_push:
  fixes acc :: "32 word" and b :: "'b::len word"
  assumes "\<And>i. k \<le> i \<Longrightarrow> \<not> bit b i" and "n + k \<le> 32"
  shows "to_bits (n + k) (push_bit k acc OR ucast b) = to_bits n acc @ to_bits k b"
proof (rule nth_equalityI)
  fix i assume "i < length (to_bits (n + k) (push_bit k acc OR ucast b))"
  then have i: "i < n + k" by simp
  show "to_bits (n + k) (push_bit k acc OR ucast b) ! i = (to_bits n acc @ to_bits k b) ! i"
  proof (cases "i < n")
    case True
    then have "k \<le> n + k - 1 - i" "n + k - 1 - i - k = n - 1 - i" by auto
    with True assms i show ?thesis by (auto simp: to_bits_nth nth_append bit_or_iff bit_push_bit_iff bit_unsigned_iff)
  next
    case False
    then have "\<not> k \<le> n + k - 1 - i" "n + k - 1 - i = k - 1 - (i - n)" "i - n < k" using i by auto
    with False assms i show ?thesis by (auto simp: to_bits_nth nth_append bit_or_iff bit_push_bit_iff bit_unsigned_iff)
  qed
qed simp

lemma to_bits_drop:
  fixes acc :: "32 word"
  assumes "k \<le> n" and "n \<le> 32"
  shows "to_bits k (drop_bit (n - k) acc AND mask k) = take k (to_bits n acc)"
  using assms by (intro nth_equalityI) (auto simp: to_bits_nth bit_and_iff bit_drop_bit_eq bit_mask_iff algebra_simps)

lemma to_bits_shorter: "k \<le> n \<Longrightarrow> to_bits (n - k) w = drop k (to_bits n w)"
  by (intro nth_equalityI) (auto simp: to_bits_nth intro: arg_cong)

lemma to_bits_pad:
  fixes acc :: "32 word"
  assumes "n \<le> k" and "k \<le> 32"
  shows "to_bits k (push_bit (k - n) acc AND mask k) = to_bits n acc @ replicate (k - n) False"
  using assms by (intro nth_equalityI) (auto simp: to_bits_nth nth_append bit_and_iff bit_push_bit_iff bit_mask_iff intro: arg_cong [of _ _ "bit acc"])

lemma to_bits_inj:
  fixes v w :: "'a::len word"
  assumes "to_bits LENGTH('a) v = to_bits LENGTH('a) w"
  shows "v = w"
proof (rule bit_word_eqI)
  fix n assume n: "n < LENGTH('a)"
  then have "to_bits LENGTH('a) v ! (LENGTH('a) - 1 - n) = to_bits LENGTH('a) w ! (LENGTH('a) - 1 - n)" using assms by simp
  with n show "bit v n = bit w n" by (simp add: to_bits_nth)
qed

definition symbol_bits :: "char \<Rightarrow> bool list" where
  "symbol_bits c = to_bits 5 (of_nat (the (index_of c base32Alphabet)) :: 32 word)"

definition byte_bits :: "byte list \<Rightarrow> bool list" where
  "byte_bits bs = concat (map (to_bits 8) bs)"

definition symbols_bits :: "string \<Rightarrow> bool list" where
  "symbols_bits s = concat (map symbol_bits s)"

lemma length_base32Alphabet: "length base32Alphabet = 32"
  by (simp add: base32Alphabet_def)

lemma distinct_base32Alphabet: "distinct base32Alphabet"
  by (simp add: base32Alphabet_def)

lemma takeWhile_nth: "distinct xs \<Longrightarrow> i < length xs \<Longrightarrow> length (takeWhile (\<lambda>x. x \<noteq> xs ! i) xs) = i"
proof (induction xs arbitrary: i)
  case (Cons x xs)
  then show ?case by (cases i) auto
qed simp

lemma index_of_nth: "i < 32 \<Longrightarrow> index_of (base32Alphabet ! i) base32Alphabet = Some i"
  by (simp add: index_of_def takeWhile_nth distinct_base32Alphabet length_base32Alphabet)

lemma mask_small: "unat (w AND 31 :: 32 word) < 32"
proof -
  have "w AND 31 = take_bit 5 w" by (simp add: take_bit_eq_mask mask_eq_exp_minus_1)
  moreover have "unat (take_bit 5 w) < 2 ^ 5" by (simp only: unsigned_take_bit_eq) (rule take_bit_nat_less_exp)
  ultimately show ?thesis by simp
qed

lemma symbol_bits_nth: "symbol_bits (base32Alphabet ! unat (w AND 31 :: 32 word)) = to_bits 5 (w AND mask 5)"
  using index_of_nth [OF mask_small [of w]] by (simp add: symbol_bits_def mask_eq_exp_minus_1)

lemma symbol_in_alphabet: "base32Alphabet ! unat (w AND 31 :: 32 word) \<in> set base32Alphabet"
  using mask_small [of w] by (simp add: length_base32Alphabet)

lemma encode_while_bits:
  "n \<le> 32 \<Longrightarrow> encode_while acc n = (chars, left)
     \<Longrightarrow> left < 5 \<and> set chars \<subseteq> set base32Alphabet \<and> symbols_bits chars @ to_bits left acc = to_bits n acc"
proof (induction acc n arbitrary: chars left rule: encode_while.induct)
  case (1 acc n)
  show ?case
  proof (cases "5 \<le> n")
    case True
    obtain rest left' where r: "encode_while acc (n - 5) = (rest, left')" by (cases "encode_while acc (n - 5)")
    with True "1.prems" have c: "chars = base32Alphabet ! unat (drop_bit (n - 5) acc AND 31) # rest" "left = left'"
      by (auto simp: encode_while.simps [of acc n])
    from "1.IH" [OF True _ r] "1.prems" have ih: "left < 5" "set rest \<subseteq> set base32Alphabet" "symbols_bits rest @ to_bits left acc = to_bits (n - 5) acc"
      using c by auto
    have "symbols_bits chars @ to_bits left acc = take 5 (to_bits n acc) @ drop 5 (to_bits n acc)"
      using ih(3) True "1.prems"(1) by (simp add: c symbols_bits_def symbol_bits_nth to_bits_drop to_bits_shorter)
    with ih(1,2) symbol_in_alphabet show ?thesis by (simp add: c)
  next
    case False
    with "1.prems" show ?thesis by (simp add: encode_while.simps [of acc n] symbols_bits_def)
  qed
qed

lemma byte_high_bits: "8 \<le> i \<Longrightarrow> \<not> bit (b :: byte) i"
  using bit_imp_le_length [of b i] by auto

lemma base32_encode_bits:
  "n < 5 \<Longrightarrow> set (base32_encode acc n bs) \<subseteq> set base32Alphabet
     \<and> (\<exists>pad < 5. symbols_bits (base32_encode acc n bs) = to_bits n acc @ byte_bits bs @ replicate pad False)"
proof (induction acc n bs rule: base32_encode.induct)
  case (1 acc n)
  show ?case
  proof (cases "0 < n")
    case True
    with 1 have "symbols_bits (base32_encode acc n []) = to_bits n acc @ replicate (5 - n) False"
      by (simp add: symbols_bits_def symbol_bits_nth to_bits_pad)
    with True 1 symbol_in_alphabet show ?thesis by (auto simp: byte_bits_def intro!: exI [of _ "5 - n"])
  next
    case False
    then show ?thesis by (auto simp: symbols_bits_def byte_bits_def to_bits_def intro!: exI [of _ 0])
  qed
next
  case (2 acc n b bs)
  define acc' where "acc' = push_bit 8 acc OR ucast b"
  obtain chars left where w: "encode_while acc' (n + 8) = (chars, left)" by (cases "encode_while acc' (n + 8)")
  have enc: "base32_encode acc n (b # bs) = chars @ base32_encode acc' left bs" using w by (simp add: acc'_def Let_def)
  note cw = encode_while_bits [OF _ w]
  have split: "to_bits (n + 8) acc' = to_bits n acc @ to_bits 8 b"
    unfolding acc'_def by (rule to_bits_push) (use "2.prems" in \<open>auto simp: byte_high_bits\<close>)
  from "2.IH" [OF acc'_def w [symmetric] refl] cw "2.prems" obtain pad where pad: "pad < 5" "set (base32_encode acc' left bs) \<subseteq> set base32Alphabet"
      "symbols_bits (base32_encode acc' left bs) = to_bits left acc' @ byte_bits bs @ replicate pad False" by auto
  have "symbols_bits (base32_encode acc n (b # bs)) = (symbols_bits chars @ to_bits left acc') @ byte_bits bs @ replicate pad False"
    unfolding enc using pad(3) by (simp add: symbols_bits_def)
  also have "\<dots> = to_bits n acc @ byte_bits (b # bs) @ replicate pad False" using cw "2.prems" split by (simp add: byte_bits_def)
  finally show ?case using pad cw "2.prems" enc by auto
qed

lemma symbol_high_bits:
  assumes "index_of c base32Alphabet = Some i" and "5 \<le> j"
  shows "\<not> bit (of_nat i :: 32 word) j"
proof -
  have "c \<in> set xs \<Longrightarrow> length (takeWhile (\<lambda>x. x \<noteq> c) xs) < length xs" for xs by (induction xs) auto
  with assms(1) have "i < length base32Alphabet" by (auto simp: index_of_def split: if_splits)
  then have "i < 32" by (simp add: length_base32Alphabet)
  then have "take_bit 5 (of_nat i :: 32 word) = of_nat i" by (simp add: take_bit_of_nat take_bit_nat_eq_self)
  with assms(2) show ?thesis by (metis bit_take_bit_iff not_less)
qed

lemma base32_decode_bits:
  "n < 8 \<Longrightarrow> set cs \<subseteq> set base32Alphabet
     \<Longrightarrow> \<exists>out rest. base32_decode acc n cs = Inr out \<and> byte_bits out @ rest = to_bits n acc @ symbols_bits cs \<and> length rest < 8"
proof (induction acc n cs rule: base32_decode.induct)
  case (1 acc n)
  then show ?case by (auto simp: byte_bits_def symbols_bits_def)
next
  case (2 acc n c cs)
  from "2.prems" obtain i where i: "index_of c base32Alphabet = Some i" by (auto simp: index_of_def)
  define acc' where "acc' = push_bit 5 acc OR (of_nat i :: 32 word)"
  have split: "to_bits (n + 5) acc' = to_bits n acc @ symbol_bits c"
    using to_bits_push [of 5 "of_nat i :: 32 word" n acc] symbol_high_bits [OF i] "2.prems" by (simp add: acc'_def symbol_bits_def i)
  show ?case
  proof (cases "8 \<le> n + 5")
    case True
    have "n + 5 - 8 < 8" using "2.prems" by simp
    with True "2.IH"(1) [OF i acc'_def] "2.prems" obtain out rest where d: "base32_decode acc' (n + 5 - 8) cs = Inr out"
        "byte_bits out @ rest = to_bits (n + 5 - 8) acc' @ symbols_bits cs" "length rest < 8" by auto
    have "to_bits 8 (ucast (drop_bit (n + 5 - 8) acc' AND 255) :: byte) = to_bits 8 (drop_bit (n + 5 - 8) acc' AND mask 8)"
      by (intro nth_equalityI) (auto simp: to_bits_nth bit_unsigned_iff mask_eq_exp_minus_1)
    also have "\<dots> = take 8 (to_bits (n + 5) acc')" using True "2.prems" by (intro to_bits_drop) auto
    finally have "byte_bits (ucast (drop_bit (n + 5 - 8) acc' AND 255) # out) @ rest = take 8 (to_bits (n + 5) acc') @ (byte_bits out @ rest)"
      by (simp add: byte_bits_def)
    also have "\<dots> = (take 8 (to_bits (n + 5) acc') @ drop 8 (to_bits (n + 5) acc')) @ symbols_bits cs"
      unfolding d(2) to_bits_shorter [OF True] by simp
    also have "\<dots> = to_bits n acc @ symbols_bits (c # cs)" unfolding append_take_drop_id split by (simp add: symbols_bits_def)
    finally have "byte_bits (ucast (drop_bit (n + 5 - 8) acc' AND 255) # out) @ rest = to_bits n acc @ symbols_bits (c # cs)" .
    with d True i show ?thesis by (auto simp: acc'_def Let_def)
  next
    case False
    with "2.IH"(2) [OF i acc'_def] "2.prems" split i show ?thesis by (auto simp: acc'_def Let_def symbols_bits_def)
  qed
qed

lemma length_byte_bits: "length (byte_bits bs) = 8 * length bs"
  by (induction bs) (simp_all add: byte_bits_def)

lemma byte_bits_inj: "length bs = length cs \<Longrightarrow> byte_bits bs = byte_bits cs \<Longrightarrow> bs = cs"
proof (induction bs cs rule: list_induct2)
  case (Cons b bs c cs)
  then have "to_bits 8 b = to_bits 8 c" "byte_bits bs = byte_bits cs" by (simp_all add: byte_bits_def)
  with Cons.IH to_bits_inj [of b c] show ?case by simp
qed simp

text \<open>Decoding the Base32 text of a byte sequence gives the sequence back, whatever its length, although the
  32-bit accumulator keeps and shifts out bits of earlier bytes.\<close>

theorem base32_roundtrip: "base32Decode (base32Encode bs) = Inr bs"
proof -
  let ?s = "base32_encode 0 0 bs"
  obtain pad where enc: "pad < 5" "set ?s \<subseteq> set base32Alphabet" "symbols_bits ?s = byte_bits bs @ replicate pad False"
    using base32_encode_bits [of 0 0 bs] by (auto simp: to_bits_def)
  have upper: "to_upper c = c" "c \<noteq> CHR ''=''" if "c \<in> set base32Alphabet" for c
    using that by (auto simp: base32Alphabet_def to_upper_def in_range_def)
  have "upper_text ?s = ?s" using enc(2) upper(1) by (auto simp: upper_text_def intro!: map_idI)
  moreover have "strip_padding ?s = ?s" using enc(2) upper(2) by (cases ?s rule: rev_cases) (auto simp: strip_padding_def)
  ultimately have dec: "base32Decode (base32Encode bs) = base32_decode 0 0 ?s" by (simp add: base32Decode_def base32Encode_def)
  obtain out rest where d: "base32_decode 0 0 ?s = Inr out" "byte_bits out @ rest = byte_bits bs @ replicate pad False" "length rest < 8"
    using base32_decode_bits [OF _ enc(2), of 0 0] enc(3) by (auto simp: to_bits_def)
  have "8 * length out + length rest = 8 * length bs + pad" using arg_cong [OF d(2), of length] by (simp add: length_byte_bits)
  then have "length out = length bs" using d(3) enc(1) by presburger
  with d(2) have "byte_bits out = byte_bits bs" by (simp add: length_byte_bits append_eq_append_conv)
  with byte_bits_inj \<open>length out = length bs\<close> d(1) dec show ?thesis by simp
qed

section \<open>One-time codes\<close>

text \<open>\<^verbatim>\<open>Math.floor(timestamp / 1000 / 30)\<close> is the integer quotient for every timestamp a clock gives: the quotient is a
  multiple of 1/30000 and far smaller than the precision of a double allows to round up.\<close>

definition totp_counter :: "int \<Rightarrow> int" where
  "totp_counter timestamp = timestamp div 30000"

definition writeBigUInt64BE :: "int \<Rightarrow> byte list outcome" where
  "writeBigUInt64BE n = (if 0 \<le> n \<and> n < 2 ^ 64 then Inr (be_bytes 8 (nat n)) else Inl (Range_Error ''ERR_OUT_OF_RANGE''))"

definition byte_at :: "byte list \<Rightarrow> nat \<Rightarrow> byte" where
  "byte_at bs i = (if i < length bs then bs ! i else 0)"

definition totp_binary :: "byte list \<Rightarrow> 32 word" where
  "totp_binary digest = (let offset = unat (byte_at digest (length digest - 1) AND 15) in
     push_bit 24 (ucast (byte_at digest offset AND 127)) OR push_bit 16 (ucast (byte_at digest (offset + 1)))
       OR push_bit 8 (ucast (byte_at digest (offset + 2))) OR ucast (byte_at digest (offset + 3)))"

definition js_remainder :: "int \<Rightarrow> int \<Rightarrow> int" where
  "js_remainder a b = (if a < 0 then - ((- a) mod b) else a mod b)"

definition padStart :: "nat \<Rightarrow> char \<Rightarrow> string \<Rightarrow> string" where
  "padStart n c s = replicate (n - length s) c @ s"

definition totp_code :: "(byte list \<Rightarrow> byte list \<Rightarrow> byte list) \<Rightarrow> byte list \<Rightarrow> byte list \<Rightarrow> string" where
  "totp_code hmac key message = padStart 6 CHR ''0'' (int_text (js_remainder (sint (totp_binary (hmac key message))) 1000000))"

definition totp :: "(byte list \<Rightarrow> byte list \<Rightarrow> byte list) \<Rightarrow> string \<Rightarrow> int \<Rightarrow> string outcome" where
  "totp hmac secretBase32 timestamp = bindE (writeBigUInt64BE (totp_counter timestamp)) (\<lambda>message.
     bindE (base32Decode secretBase32) (\<lambda>key. Inr (totp_code hmac key message)))"

fun try_offsets :: "(byte list \<Rightarrow> byte list \<Rightarrow> byte list) \<Rightarrow> string \<Rightarrow> string \<Rightarrow> int \<Rightarrow> int list \<Rightarrow> bool outcome" where
  "try_offsets hmac secret code timestamp [] = Inr False"
| "try_offsets hmac secret code timestamp (offset # offsets) = bindE (totp hmac secret (timestamp + offset)) (\<lambda>expected.
     if length (utf8 code) = length (utf8 expected) \<and> utf8 code = utf8 expected then Inr True else try_offsets hmac secret code timestamp offsets)"

definition verifyTotp :: "(byte list \<Rightarrow> byte list \<Rightarrow> byte list) \<Rightarrow> string \<Rightarrow> string \<Rightarrow> int \<Rightarrow> bool outcome" where
  "verifyTotp hmac secretBase32 code timestamp = try_offsets hmac secretBase32 code timestamp [-30000, 0, 30000]"

lemma totp_binary_nonneg: "0 \<le> sint (totp_binary digest)"
proof -
  have high: "\<not> bit (b :: byte) 15" "\<not> bit b 23" "\<not> bit b 31" for b by (auto dest: bit_imp_le_length)
  have seven: "\<not> bit (b AND 127 :: byte) 7" for b
  proof -
    have "\<not> bit (127 :: byte) 7" by code_simp
    then show ?thesis by (simp add: bit_and_iff)
  qed
  have shifted: "\<not> bit (push_bit k (ucast b :: 32 word)) 31" if "\<not> bit (b :: byte) (31 - k)" for k b
    using that by (simp add: bit_push_bit_iff bit_unsigned_iff)
  have "\<not> bit (push_bit 24 (ucast (b AND 127) :: 32 word)) 31" "\<not> bit (push_bit 16 (ucast b :: 32 word)) 31"
      "\<not> bit (push_bit 8 (ucast b :: 32 word)) 31" "\<not> bit (ucast b :: 32 word) 31" for b :: byte
    using shifted [of "b AND 127" 24] shifted [of b 16] shifted [of b 8] shifted [of b 0] high [of b] seven [of b] by simp_all
  then have "\<not> bit (totp_binary digest) 31" by (simp add: totp_binary_def Let_def bit_or_iff)
  then show ?thesis by (simp add: sint_uint bit_unsigned_iff)
qed

lemma nat_text_length: "n < 10 ^ Suc k \<Longrightarrow> length (nat_text n) \<le> Suc k"
proof (induction k arbitrary: n)
  case 0
  then show ?case by (subst nat_text.simps) simp
next
  case (Suc k)
  then have "n div 10 < 10 ^ Suc k" by (simp add: less_mult_imp_div_less mult.commute)
  with Suc.IH show ?case by (subst nat_text.simps) auto
qed

lemma totp_code_digits: "length (totp_code hmac key message) = 6 \<and> list_all is_digit (totp_code hmac key message)"
proof -
  let ?n = "nat (sint (totp_binary (hmac key message)) mod 1000000)"
  have "\<not> sint (totp_binary (hmac key message)) mod 1000000 < 0" by (simp add: not_less)
  then have code: "totp_code hmac key message = padStart 6 CHR ''0'' (nat_text ?n)"
    using totp_binary_nonneg [of "hmac key message"] by (simp add: totp_code_def js_remainder_def int_text_def)
  have "?n < 10 ^ Suc 5" by (simp add: nat_less_iff)
  then have "length (nat_text ?n) \<le> 6" using nat_text_length [of ?n 5] by simp
  with nat_text_digits [of ?n] show ?thesis by (auto simp: code padStart_def is_digit_def in_range_def list_all_iff)
qed

lemma verifyTotp_window:
  assumes "base32Decode secret = Inr key" and "30000 \<le> now" and "now < 30000 * (2 ^ 64 - 1)"
  shows "verifyTotp hmac secret code now
      = Inr (\<exists>d \<in> {-1, 0, 1}. code = totp_code hmac key (be_bytes 8 (nat (now div 30000 + d))))"
proof -
  have same: "length (utf8 s) = length (utf8 t) \<and> utf8 s = utf8 t \<longleftrightarrow> s = t" for s t using utf8_inj by auto
  have shift: "totp_counter (now + -30000) = now div 30000 - 1" "totp_counter (now + 0) = now div 30000" "totp_counter (now + 30000) = now div 30000 + 1"
    by (simp_all add: totp_counter_def)
  have "1 \<le> now div 30000" "now div 30000 < 2 ^ 64 - 1" using assms(2,3) by (simp_all add: div_less_iff_less_mult mult.commute pos_imp_zdiv_pos_iff)
  then have range: "totp hmac secret (now + d) = Inr (totp_code hmac key (be_bytes 8 (nat (totp_counter (now + d)))))" if "d \<in> {-30000, 0, 30000}" for d
    using that shift assms(1) by (auto simp: totp_def writeBigUInt64BE_def)
  have "verifyTotp hmac secret code now = Inr (\<exists>d \<in> {-1, 0, 1}. code = totp_code hmac key (be_bytes 8 (nat (now div 30000 + d))))"
    using range [of "-30000"] range [of 0] range [of 30000] by (simp add: verifyTotp_def same shift [simplified])
  then show ?thesis .
qed

text \<open>For a well-formed secret, a one-time code is accepted exactly when it is the code of the current 30-second
  step or of one of its two neighbours, and every such code has six digits: the sign bit of the 32-bit
  truncation is cleared, so that the remainder is never negative.\<close>

theorem one_time_code_window:
  assumes "base32Decode secret = Inr key" and "30000 \<le> now" and "now < 30000 * (2 ^ 64 - 1)"
  shows "verifyTotp hmac secret code now
      = Inr (\<exists>d \<in> {-1, 0, 1}. code = totp_code hmac key (be_bytes 8 (nat (now div 30000 + d))))
    \<and> (verifyTotp hmac secret code now = Inr True \<longrightarrow> length code = 6 \<and> list_all is_digit code)"
  using verifyTotp_window [OF assms, of hmac code] totp_code_digits by auto

lemma zero_totp_code: "totp_code (\<lambda>_ _. []) key message = ''000000''"
proof -
  have "totp_code (\<lambda>_ _. []) key message = replicate 5 CHR ''0'' @ [digit_char 0]"
    by (simp add: totp_code_def totp_binary_def byte_at_def js_remainder_def int_text_def nat_text.simps padStart_def)
  also have "\<dots> = ''000000''" by code_simp
  finally show ?thesis .
qed

theorem one_time_code_window_witness:
  "verifyTotp (\<lambda>_ _. []) ''AA'' ''000000'' 60000 = Inr True \<and> base32Decode ''AA'' = Inr [0]"
proof -
  have key: "base32Decode ''AA'' = Inr [0]" by code_simp
  with one_time_code_window [OF key, of 60000 "\<lambda>_ _. []" "''000000''"] show ?thesis by (auto simp: zero_totp_code)
qed

section \<open>The envelope cipher\<close>

record cipher_envelope =
  ce_ciphertext :: "byte list"
  ce_nonce :: "byte list"
  ce_authTag :: "byte list"
  ce_keyId :: string
  ce_fingerprint :: string
  ce_valueDigest :: "byte list"

text \<open>AES-256-GCM: sealing gives a ciphertext and a tag, opening fails where the tag does not verify.\<close>

record gcm =
  gcm_seal :: "byte list \<Rightarrow> byte list \<Rightarrow> byte list \<Rightarrow> byte list \<Rightarrow> byte list \<times> byte list" \<comment> \<open>key, nonce, associated data, plaintext\<close>
  gcm_open :: "byte list \<Rightarrow> byte list \<Rightarrow> byte list \<Rightarrow> byte list \<times> byte list \<Rightarrow> byte list option"

definition make_cipher :: "byte list \<Rightarrow> string \<Rightarrow> (byte list \<times> string) outcome" where
  "make_cipher key keyId = (if length key \<noteq> 32 then Inl (Plain_Error ''Master key must be exactly 32 bytes'') else Inr (key, keyId))"

definition hex_text :: "byte list \<Rightarrow> string" where
  "hex_text bs = concat (map (\<lambda>b. [hex_char (unat b div 16), hex_char (unat b mod 16)]) bs)"

definition encrypt :: "gcm \<Rightarrow> (byte list \<Rightarrow> byte list) \<Rightarrow> byte list \<times> string \<Rightarrow> byte list \<Rightarrow> string \<Rightarrow> string \<Rightarrow> cipher_envelope" where
  "encrypt g sha256 cipher nonce value associatedData =
     (let plaintext = utf8 value; (ciphertext, authTag) = gcm_seal g (fst cipher) nonce (utf8 associatedData) plaintext; valueDigest = sha256 plaintext in
      \<lparr>ce_ciphertext = ciphertext, ce_nonce = nonce, ce_authTag = authTag, ce_keyId = snd cipher,
       ce_fingerprint = take 16 (hex_text valueDigest), ce_valueDigest = valueDigest\<rparr>)"

text \<open>The argument \<open>to_text\<close> is \<^verbatim>\<open>Buffer.toString('utf8')\<close>.\<close>

definition decrypt :: "gcm \<Rightarrow> (byte list \<Rightarrow> string) \<Rightarrow> byte list \<times> string \<Rightarrow> byte list \<Rightarrow> byte list \<Rightarrow> byte list \<Rightarrow> string \<Rightarrow> string outcome" where
  "decrypt g to_text cipher ciphertext nonce authTag associatedData =
     (case gcm_open g (fst cipher) nonce (utf8 associatedData) (ciphertext, authTag) of
        None \<Rightarrow> Inl (Plain_Error ''Unsupported state or unable to authenticate data'')
      | Some plaintext \<Rightarrow> Inr (to_text plaintext))"

definition tokenDigest :: "(byte list \<Rightarrow> byte list) \<Rightarrow> string \<Rightarrow> byte list" where
  "tokenDigest sha256 token = sha256 (utf8 token)"

definition fingerprint :: "(byte list \<Rightarrow> byte list) \<Rightarrow> string \<Rightarrow> string" where
  "fingerprint sha256 token = take 16 (hex_text (tokenDigest sha256 token))"

end
