(* ===== verification/OwnerAuth.thy ===== *)
theory OwnerAuth
  imports OwnerCrypto CommandStore
begin

text \<open>
  The owner's authentication (\<^verbatim>\<open>packages/domain/src/auth.ts\<close>): password login with its throttle, sessions, multi-factor
  enrollment and verification, recovery codes and revocation, over the tables the service writes. Times are
  milliseconds; a revoked or consumed time stamp is a flag. Argon2, SHA-256, HMAC-SHA-1 and AES-256-GCM are parameters,
  and so is everything random: tokens, identifiers, seeds, nonces and recovery codes. The operations that first
  authenticate a session token and then run a transaction take the principal in the transaction's definition, so that
  other operations may run in between.
\<close>

section \<open>State\<close>

record owner_row =
  ow_id :: string
  ow_username :: string
  ow_password_hash :: "string option"
  ow_session_epoch :: int
  ow_mfa_enabled :: bool
  ow_mfa_secret :: "(byte list \<times> byte list) option" \<comment> \<open>tag and ciphertext, nonce\<close>
  ow_deployment_epoch :: int

record session_row =
  os_id :: string
  os_owner :: string
  os_lookup_digest :: "byte list"
  os_session_hash :: "byte list"
  os_csrf_digest :: "byte list"
  os_session_epoch :: int
  os_mfa_verified :: bool
  os_expires_at :: int
  os_revoked :: bool
  os_reauthenticated_at :: "int option"

record throttle_row =
  th_key :: "byte list"
  th_failure_count :: int
  th_first_failure_at :: int
  th_locked_until :: "int option"

record enrollment_row =
  en_owner :: string
  en_token_digest :: "byte list"
  en_seed :: "byte list \<times> byte list \<times> byte list" \<comment> \<open>ciphertext, nonce, tag\<close>
  en_expires_at :: int
  en_verified :: bool
  en_created_at :: int

record recovery_code_row =
  rc_owner :: string
  rc_code_hash :: "byte list"
  rc_consumed :: bool

record auth_db =
  au_owner :: "owner_row option"
  au_deployment_epoch :: "int option"
  au_sessions :: "session_row list"
  au_throttle :: "throttle_row list"
  au_enrollments :: "enrollment_row list"
  au_codes :: "recovery_code_row list"
  au_audit :: "(string \<times> cjson) list"

record auth_services =
  sa_sha256 :: "byte list \<Rightarrow> byte list"
  sa_hmac_sha1 :: "byte list \<Rightarrow> byte list \<Rightarrow> byte list"
  sa_argon2_hash :: "string \<Rightarrow> string"
  sa_argon2_verify :: "string \<Rightarrow> string \<Rightarrow> bool" \<comment> \<open>False where the library throws\<close>
  sa_gcm :: gcm
  sa_to_text :: "byte list \<Rightarrow> string"
  sa_cipher :: "byte list \<times> string"

record principal =
  ap_ownerId :: string
  ap_sessionId :: string
  ap_csrfTokenDigest :: "byte list"
  ap_mfaVerified :: bool
  ap_sessionEpoch :: int
  ap_expiresAt :: int

record login_result =
  lr_state :: string
  lr_sessionToken :: string
  lr_csrfToken :: string
  lr_sessionId :: string
  lr_expiresAt :: int

definition context_invalid :: js_error where
  "context_invalid = Domain_Error ''AGENTIC_OPERATION_CONTEXT_INVALID''"

definition intent_missing :: js_error where
  "intent_missing = Domain_Error ''AGENTIC_OWNER_INTENT_MISSING''"

definition token_digest :: "auth_services \<Rightarrow> string \<Rightarrow> byte list" where
  "token_digest sv token = tokenDigest (sa_sha256 sv) token"

definition sessionHash :: "auth_services \<Rightarrow> string \<Rightarrow> byte list" where
  "sessionHash sv token = token_digest sv (''KCML-OWNER-SESSION/1'' @ [CHR 0x00] @ token)"

definition equalDigest :: "byte list option \<Rightarrow> byte list \<Rightarrow> bool" where
  "equalDigest left right = (case left of None \<Rightarrow> False | Some l \<Rightarrow> length l = length right \<and> l = right)"

definition owner_by_id :: "string \<Rightarrow> auth_db \<Rightarrow> owner_row option" where
  "owner_by_id i db = (case au_owner db of None \<Rightarrow> None | Some w \<Rightarrow> if ow_id w = i then Some w else None)"

section \<open>Passwords, login and sessions\<close>

definition revoke_sessions :: "(session_row \<Rightarrow> bool) \<Rightarrow> auth_db \<Rightarrow> auth_db" where
  "revoke_sessions P db = db\<lparr>au_sessions := sql_update (\<lambda>s. P s \<and> \<not> os_revoked s) (\<lambda>s. s\<lparr>os_revoked := True\<rparr>) (au_sessions db)\<rparr>"

definition synchronize_tx :: "auth_services \<Rightarrow> string \<Rightarrow> auth_db \<Rightarrow> auth_db outcome" where
  "synchronize_tx sv password db =
     (if utf8 password = [] then Inl context_invalid
      else case (au_owner db, au_deployment_epoch db) of
        (Some w, Some epoch) \<Rightarrow>
          let w' = w\<lparr>ow_password_hash := Some (sa_argon2_hash sv password), ow_session_epoch := ow_session_epoch w + 1, ow_deployment_epoch := epoch\<rparr>;
              db1 = revoke_sessions (\<lambda>s. os_owner s = ow_id w) (db\<lparr>au_owner := Some w'\<rparr>) in
          Inr (db1\<lparr>au_audit := au_audit db1 @ [(''owner.password.synchronized'', CObj [(''username'', CStr ''KRMAR78''),
            (''source'', CStr ''GITHUB_ACTIONS_PASS''), (''deploymentEpoch'', CStr (int_text epoch))])]\<rparr>)
      | _ \<Rightarrow> Inl (Plain_Error ''TypeError''))"

definition synchronizeDeploymentPassword :: "auth_services \<Rightarrow> string \<Rightarrow> auth_db \<Rightarrow> auth_db \<times> unit outcome" where
  "synchronizeDeploymentPassword sv password db = (case synchronize_tx sv password db of
     Inl e \<Rightarrow> (db, Inl e)
   | Inr db' \<Rightarrow> (db', case au_owner db' of
       Some w \<Rightarrow> (case ow_password_hash w of
         Some h \<Rightarrow> if h \<noteq> [] \<and> sa_argon2_verify sv h password then Inr () else Inl (Plain_Error ''Deployment password verification failed'')
       | None \<Rightarrow> Inl (Plain_Error ''Deployment password verification failed''))
     | None \<Rightarrow> Inl (Plain_Error ''Deployment password verification failed'')))"

definition quarter_hour :: int where
  "quarter_hour = 15 * 60 * 1000"

definition next_failure_count :: "int \<Rightarrow> throttle_row \<Rightarrow> int" where
  "next_failure_count now t = (if th_first_failure_at t < now - quarter_hour then 1 else th_failure_count t + 1)"

definition recordLoginFailure :: "byte list \<Rightarrow> int \<Rightarrow> throttle_row list \<Rightarrow> throttle_row list" where
  "recordLoginFailure key now rows =
     (if key \<in> th_key ` set rows
      then sql_update (\<lambda>t. th_key t = key) (\<lambda>t. t\<lparr>th_failure_count := next_failure_count now t,
        th_first_failure_at := (if th_first_failure_at t < now - quarter_hour then now else th_first_failure_at t),
        th_locked_until := (if next_failure_count now t \<ge> 12 then Some (now + quarter_hour) else None)\<rparr>) rows
      else rows @ [\<lparr>th_key = key, th_failure_count = 1, th_first_failure_at = now, th_locked_until = None\<rparr>])"

definition createSession ::
  "auth_services \<Rightarrow> int \<Rightarrow> owner_row \<Rightarrow> bool \<Rightarrow> string \<Rightarrow> string \<Rightarrow> string \<Rightarrow> auth_db \<Rightarrow> (auth_db \<times> login_result) outcome" where
  "createSession sv now owner mfaVerified sessionToken csrfToken sessionId db =
     (if sessionId \<in> os_id ` set (au_sessions db) \<or> token_digest sv sessionToken \<in> os_lookup_digest ` set (au_sessions db)
      then Inl (Pg_Error ''23505'')
      else let expiresAt = now + 12 * 60 * 60 * 1000 in
        Inr (db\<lparr>au_sessions := au_sessions db @ [\<lparr>os_id = sessionId, os_owner = ow_id owner, os_lookup_digest = token_digest sv sessionToken,
            os_session_hash = sessionHash sv sessionToken, os_csrf_digest = token_digest sv csrfToken, os_session_epoch = ow_session_epoch owner,
            os_mfa_verified = mfaVerified, os_expires_at = expiresAt, os_revoked = False, os_reauthenticated_at = None\<rparr>]\<rparr>,
          \<lparr>lr_state = (if ow_mfa_enabled owner then ''MFA_REQUIRED'' else ''MFA_ENROLLMENT_REQUIRED''), lr_sessionToken = sessionToken,
           lr_csrfToken = csrfToken, lr_sessionId = sessionId, lr_expiresAt = expiresAt\<rparr>))"

definition throttle_key :: "auth_services \<Rightarrow> string option \<Rightarrow> byte list" where
  "throttle_key sv remoteAddress = token_digest sv (''OWNER_LOGIN/1'' @ [CHR 0x00] @ (case remoteAddress of Some a \<Rightarrow> a | None \<Rightarrow> ''unknown''))"

definition login_locked :: "auth_services \<Rightarrow> int \<Rightarrow> string option \<Rightarrow> auth_db \<Rightarrow> bool" where
  "login_locked sv now remoteAddress db = (case sql_first (\<lambda>t. th_key t = throttle_key sv remoteAddress) (au_throttle db) of
     None \<Rightarrow> False | Some t \<Rightarrow> (case th_locked_until t of None \<Rightarrow> False | Some u \<Rightarrow> now < u))"

definition username_digest :: "auth_services \<Rightarrow> string \<Rightarrow> byte list" where
  "username_digest sv u = token_digest sv (''OWNER_USERNAME/1'' @ [CHR 0x00] @ u)"

definition valid_credentials :: "auth_services \<Rightarrow> string \<Rightarrow> string \<Rightarrow> auth_db \<Rightarrow> bool" where
  "valid_credentials sv username password db =
     (username_digest sv username = username_digest sv (case au_owner db of Some w \<Rightarrow> ow_username w | None \<Rightarrow> [])
      \<and> (case au_owner db of Some w \<Rightarrow> (case ow_password_hash w of Some h \<Rightarrow> sa_argon2_verify sv h password | None \<Rightarrow> False) | None \<Rightarrow> False))"

definition lift_tx :: "auth_db \<Rightarrow> (auth_db \<times> 'r) outcome \<Rightarrow> auth_db \<times> 'r outcome" where
  "lift_tx db r = (case r of Inl e \<Rightarrow> (db, Inl e) | Inr (db', x) \<Rightarrow> (db', Inr x))"

text \<open>A rejected login leaves its failure and its audit event behind.\<close>

definition login ::
  "auth_services \<Rightarrow> int \<Rightarrow> string \<Rightarrow> string \<Rightarrow> string option \<Rightarrow> string \<times> string \<times> string \<Rightarrow> auth_db \<Rightarrow> auth_db \<times> login_result outcome" where
  "login sv now username password remoteAddress fresh db = (case fresh of (sessionToken, csrfToken, sessionId) \<Rightarrow>
     if login_locked sv now remoteAddress db then (db, Inl (Domain_Error ''PROVIDER_RATE_LIMITED''))
     else if \<not> valid_credentials sv username password db
     then (let db1 = db\<lparr>au_throttle := recordLoginFailure (throttle_key sv remoteAddress) now (au_throttle db)\<rparr> in
       (case au_owner db of None \<Rightarrow> db1
        | Some w \<Rightarrow> db1\<lparr>au_audit := au_audit db1 @ [(''owner.login.rejected'', CObj [(''accepted'', CBool False),
            (''remoteAddress'', opt_text remoteAddress), (''reasonCode'', CStr ''INVALID_CREDENTIALS'')])]\<rparr>, Inl context_invalid))
     else (let db1 = db\<lparr>au_throttle := filter (\<lambda>t. th_key t \<noteq> throttle_key sv remoteAddress) (au_throttle db)\<rparr> in
       case au_owner db of None \<Rightarrow> (db1, Inl (Plain_Error ''TypeError''))
       | Some w \<Rightarrow> lift_tx db1 (createSession sv now w False sessionToken csrfToken sessionId db1)))"

definition createApiKeySession :: "auth_services \<Rightarrow> int \<Rightarrow> string \<times> string \<times> string \<Rightarrow> auth_db \<Rightarrow> auth_db \<times> login_result outcome" where
  "createApiKeySession sv now fresh db = (case fresh of (sessionToken, csrfToken, sessionId) \<Rightarrow>
     case au_owner db of None \<Rightarrow> (db, Inl intent_missing)
     | Some w \<Rightarrow> lift_tx db (createSession sv now w True sessionToken csrfToken sessionId db))"

definition authenticate :: "auth_services \<Rightarrow> int \<Rightarrow> string \<Rightarrow> bool \<Rightarrow> auth_db \<Rightarrow> principal outcome" where
  "authenticate sv now sessionToken requireMfa db =
     (case sql_first (\<lambda>s. os_lookup_digest s = token_digest sv sessionToken \<and> \<not> os_revoked s \<and> now < os_expires_at s
         \<and> owner_by_id (os_owner s) db \<noteq> None) (au_sessions db) of
        None \<Rightarrow> Inl context_invalid
      | Some s \<Rightarrow> (case owner_by_id (os_owner s) db of
          None \<Rightarrow> Inl context_invalid
        | Some w \<Rightarrow>
            if \<not> equalDigest (Some (os_session_hash s)) (sessionHash sv sessionToken) \<or> os_session_epoch s \<noteq> ow_session_epoch w then Inl context_invalid
            else if requireMfa \<and> \<not> os_mfa_verified s then Inl intent_missing
            else Inr \<lparr>ap_ownerId = os_owner s, ap_sessionId = os_id s, ap_csrfTokenDigest = os_csrf_digest s, ap_mfaVerified = os_mfa_verified s,
              ap_sessionEpoch = os_session_epoch s, ap_expiresAt = os_expires_at s\<rparr>))"

definition verifyCsrf :: "auth_services \<Rightarrow> principal \<Rightarrow> string \<Rightarrow> unit outcome" where
  "verifyCsrf sv p token = (if equalDigest (Some (ap_csrfTokenDigest p)) (token_digest sv token) then Inr () else Inl context_invalid)"

section \<open>Multi-factor authentication\<close>

definition enrollment_aad :: "string \<Rightarrow> string" where
  "enrollment_aad ownerId = ''owner-mfa-enrollment:'' @ ownerId"

definition mfa_aad :: "string \<Rightarrow> string" where
  "mfa_aad ownerId = ''owner-mfa:'' @ ownerId"

text \<open>The checks both enrollment transactions start with.\<close>

definition enrollment_owner :: "int \<Rightarrow> principal \<Rightarrow> auth_db \<Rightarrow> owner_row outcome" where
  "enrollment_owner now p db = (case owner_by_id (ap_ownerId p) db of
     None \<Rightarrow> Inl intent_missing
   | Some w \<Rightarrow> (case sql_first (\<lambda>s. os_id s = ap_sessionId p \<and> os_owner s = ap_ownerId p) (au_sessions db) of
       None \<Rightarrow> Inl context_invalid
     | Some s \<Rightarrow> if os_revoked s \<or> os_expires_at s \<le> now then Inl context_invalid
         else if ow_mfa_enabled w \<and> \<not> os_mfa_verified s then Inl intent_missing
         else Inr w))"

definition begin_enrollment_tx ::
  "auth_services \<Rightarrow> int \<Rightarrow> principal \<Rightarrow> byte list \<Rightarrow> string \<Rightarrow> byte list \<Rightarrow> auth_db \<Rightarrow> (auth_db \<times> string) outcome" where
  "begin_enrollment_tx sv now p seed enrollmentToken nonce db =
     (let secret = base32Encode seed; envelope = encrypt (sa_gcm sv) (sa_sha256 sv) (sa_cipher sv) nonce secret (enrollment_aad (ap_ownerId p)) in
      bindE (enrollment_owner now p db) (\<lambda>w.
      Inr (db\<lparr>au_enrollments := filter (\<lambda>e. \<not> (en_owner e = ap_ownerId p \<and> \<not> en_verified e)) (au_enrollments db)
          @ [\<lparr>en_owner = ap_ownerId p, en_token_digest = token_digest sv enrollmentToken,
              en_seed = (ce_ciphertext envelope, ce_nonce envelope, ce_authTag envelope), en_expires_at = now + 10 * 60 * 1000,
              en_verified = False, en_created_at = now\<rparr>]\<rparr>, secret)))"

definition latest_enrollment :: "int \<Rightarrow> string \<Rightarrow> auth_db \<Rightarrow> enrollment_row option" where
  "latest_enrollment now ownerId db = (case rev (sort_key en_created_at (filter (\<lambda>e. en_owner e = ownerId \<and> \<not> en_verified e \<and> now < en_expires_at e) (au_enrollments db))) of
     [] \<Rightarrow> None | e # _ \<Rightarrow> Some e)"

definition enrollment_secret :: "auth_services \<Rightarrow> enrollment_row \<Rightarrow> string outcome" where
  "enrollment_secret sv e = (case en_seed e of (ciphertext, nonce, authTag) \<Rightarrow>
     decrypt (sa_gcm sv) (sa_to_text sv) (sa_cipher sv) ciphertext nonce authTag (enrollment_aad (en_owner e)))"

text \<open>Replacing the recovery codes; the hash of a code is unique.\<close>

definition replace_codes :: "auth_services \<Rightarrow> string \<Rightarrow> string list \<Rightarrow> auth_db \<Rightarrow> auth_db outcome" where
  "replace_codes sv ownerId codes db =
     (let kept = filter (\<lambda>c. rc_owner c \<noteq> ownerId) (au_codes db);
          new = map (\<lambda>c. \<lparr>rc_owner = ownerId, rc_code_hash = token_digest sv c, rc_consumed = False\<rparr>) codes in
      if distinct (map rc_code_hash (kept @ new)) then Inr (db\<lparr>au_codes := kept @ new\<rparr>) else Inl (Pg_Error ''23505''))"

definition mark_mfa_verified :: "int \<Rightarrow> string \<Rightarrow> auth_db \<Rightarrow> auth_db" where
  "mark_mfa_verified now sessionId db = db\<lparr>au_sessions :=
     sql_update (\<lambda>s. os_id s = sessionId) (\<lambda>s. s\<lparr>os_mfa_verified := True, os_reauthenticated_at := Some now\<rparr>) (au_sessions db)\<rparr>"

definition complete_mfa_tx ::
  "auth_services \<Rightarrow> int \<Rightarrow> principal \<Rightarrow> string \<Rightarrow> byte list \<Rightarrow> string list \<Rightarrow> auth_db \<Rightarrow> (auth_db \<times> string list) outcome" where
  "complete_mfa_tx sv now p code nonce recoveryCodes db =
     bindE (enrollment_owner now p db) (\<lambda>w.
     case latest_enrollment now (ap_ownerId p) db of
       None \<Rightarrow> Inl context_invalid
     | Some e \<Rightarrow>
         bindE (enrollment_secret sv e) (\<lambda>secret.
         bindE (verifyTotp (sa_hmac_sha1 sv) secret code now) (\<lambda>good.
         if \<not> good then Inl context_invalid
         else let envelope = encrypt (sa_gcm sv) (sa_sha256 sv) (sa_cipher sv) nonce secret (mfa_aad (ap_ownerId p)) in
           bindE (replace_codes sv (ap_ownerId p) recoveryCodes db) (\<lambda>db1.
           let db2 = db1\<lparr>au_enrollments := map (\<lambda>x. if x = e then x\<lparr>en_verified := True\<rparr> else x) (au_enrollments db1),
                 au_owner := Some (w\<lparr>ow_mfa_enabled := True, ow_mfa_secret := Some (ce_authTag envelope @ ce_ciphertext envelope, ce_nonce envelope)\<rparr>)\<rparr>;
               db3 = mark_mfa_verified now (ap_sessionId p) (revoke_sessions (\<lambda>s. os_owner s = ap_ownerId p \<and> os_id s \<noteq> ap_sessionId p) db2) in
           Inr (db3\<lparr>au_audit := au_audit db3 @ [(''owner.mfa.enrollment.completed'', CObj [(''ownerId'', CStr (ap_ownerId p)),
               (''sessionId'', CStr (ap_sessionId p)), (''replacement'', CBool (ow_mfa_enabled w)), (''otherSessionsRevoked'', CBool True)])]\<rparr>,
             recoveryCodes)))))"

definition is_six_digits :: "string \<Rightarrow> bool" where
  "is_six_digits code = (length code = 6 \<and> list_all is_digit code)"

definition totp_accepts :: "auth_services \<Rightarrow> int \<Rightarrow> principal \<Rightarrow> string \<Rightarrow> auth_db \<Rightarrow> bool outcome" where
  "totp_accepts sv now p code db =
     (if \<not> is_six_digits code then Inr False
      else case owner_by_id (ap_ownerId p) db of
        None \<Rightarrow> Inl (Plain_Error ''TypeError'')
      | Some w \<Rightarrow> if \<not> ow_mfa_enabled w then Inr False
          else (case ow_mfa_secret w of None \<Rightarrow> Inr False
            | Some (stored, nonce) \<Rightarrow>
                bindE (decrypt (sa_gcm sv) (sa_to_text sv) (sa_cipher sv) (drop 16 stored) nonce (take 16 stored) (mfa_aad (ap_ownerId p)))
                  (\<lambda>secret. verifyTotp (sa_hmac_sha1 sv) secret code now)))"

definition code_matches :: "auth_services \<Rightarrow> string \<Rightarrow> string \<Rightarrow> recovery_code_row \<Rightarrow> bool" where
  "code_matches sv ownerId code c = (rc_owner c = ownerId \<and> rc_code_hash c = token_digest sv code \<and> \<not> rc_consumed c)"

definition verify_mfa_tx :: "auth_services \<Rightarrow> int \<Rightarrow> principal \<Rightarrow> string \<Rightarrow> auth_db \<Rightarrow> (auth_db \<times> unit) outcome" where
  "verify_mfa_tx sv now p code db =
     bindE (totp_accepts sv now p code db) (\<lambda>accepted.
     if accepted then Inr (mark_mfa_verified now (ap_sessionId p) db, ())
     else if sql_count (code_matches sv (ap_ownerId p) code) (au_codes db) = 1
     then Inr (mark_mfa_verified now (ap_sessionId p)
       (db\<lparr>au_codes := sql_update (code_matches sv (ap_ownerId p) code) (\<lambda>c. c\<lparr>rc_consumed := True\<rparr>) (au_codes db)\<rparr>), ())
     else Inl context_invalid)"

definition mark_reauthenticated :: "int \<Rightarrow> principal \<Rightarrow> auth_db \<Rightarrow> auth_db" where
  "mark_reauthenticated now p db = db\<lparr>au_sessions :=
     sql_update (\<lambda>s. os_id s = ap_sessionId p) (\<lambda>s. s\<lparr>os_reauthenticated_at := Some now\<rparr>) (au_sessions db)\<rparr>"

definition verifyMfa :: "auth_services \<Rightarrow> int \<Rightarrow> string \<Rightarrow> string \<Rightarrow> auth_db \<Rightarrow> auth_db \<times> unit outcome" where
  "verifyMfa sv now sessionToken code db = (case authenticate sv now sessionToken False db of
     Inl e \<Rightarrow> (db, Inl e) | Inr p \<Rightarrow> lift_tx db (verify_mfa_tx sv now p code db))"

definition reauthenticate :: "auth_services \<Rightarrow> int \<Rightarrow> string \<Rightarrow> string \<Rightarrow> string option \<Rightarrow> auth_db \<Rightarrow> auth_db \<times> unit outcome" where
  "reauthenticate sv now sessionToken password mfaCode db = (case authenticate sv now sessionToken False db of
     Inl e \<Rightarrow> (db, Inl e)
   | Inr p \<Rightarrow> (case owner_by_id (ap_ownerId p) db of
       None \<Rightarrow> (db, Inl context_invalid)
     | Some w \<Rightarrow> (case ow_password_hash w of
         None \<Rightarrow> (db, Inl context_invalid)
       | Some h \<Rightarrow>
           if h = [] \<or> \<not> sa_argon2_verify sv h password then (db, Inl context_invalid)
           else if \<not> ow_mfa_enabled w then (mark_reauthenticated now p db, Inr ())
           else (case mfaCode of
             None \<Rightarrow> (db, Inl intent_missing)
           | Some code \<Rightarrow> if code = [] then (db, Inl intent_missing)
               else (case verifyMfa sv now sessionToken code db of
                 (db', Inl e) \<Rightarrow> (db', Inl e)
               | (db', Inr _) \<Rightarrow> (mark_reauthenticated now p db', Inr ()))))))"

definition rotate_codes_tx :: "auth_services \<Rightarrow> principal \<Rightarrow> string list \<Rightarrow> auth_db \<Rightarrow> (auth_db \<times> string list) outcome" where
  "rotate_codes_tx sv p recoveryCodes db = bindE (replace_codes sv (ap_ownerId p) recoveryCodes db) (\<lambda>db1.
     Inr (db1\<lparr>au_audit := au_audit db1 @ [(''owner.recovery_codes.rotated'', CObj [(''rotated'', CNum (JInt (int (length recoveryCodes)))),
       (''ownerId'', CStr (ap_ownerId p))])]\<rparr>, recoveryCodes))"

section \<open>Ending sessions\<close>

definition logout :: "principal \<Rightarrow> auth_db \<Rightarrow> auth_db" where
  "logout p db = revoke_sessions (\<lambda>s. os_id s = ap_sessionId p) db"

definition revokeSession :: "string \<Rightarrow> string \<Rightarrow> auth_db \<Rightarrow> auth_db \<times> unit outcome" where
  "revokeSession ownerId sessionId db =
     (if sql_count (\<lambda>s. os_owner s = ownerId \<and> os_id s = sessionId \<and> \<not> os_revoked s) (au_sessions db) \<noteq> 1 then (db, Inl intent_missing)
      else (revoke_sessions (\<lambda>s. os_owner s = ownerId \<and> os_id s = sessionId) db, Inr ()))"

definition revokeOtherSessions :: "string \<Rightarrow> string \<Rightarrow> auth_db \<Rightarrow> auth_db" where
  "revokeOtherSessions ownerId currentSessionId db = revoke_sessions (\<lambda>s. os_owner s = ownerId \<and> os_id s \<noteq> currentSessionId) db"

definition revokeAllSessions :: "string \<Rightarrow> auth_db \<Rightarrow> auth_db" where
  "revokeAllSessions ownerId db = revoke_sessions (\<lambda>s. os_owner s = ownerId) db"

section \<open>Runs\<close>

text \<open>
  Everything that changes the tables, each as one atomic action: a transaction is run for a principal that some earlier
  authentication returned.
\<close>

datatype auth_action =
    Synchronize_Password string
  | Login int string string "string option" "string \<times> string \<times> string"
  | Create_Api_Key_Session int "string \<times> string \<times> string"
  | Begin_Enrollment int principal "byte list" string "byte list"
  | Complete_Mfa int principal string "byte list" "string list"
  | Verify_Mfa int principal string
  | Mark_Reauthenticated int principal
  | Rotate_Codes principal "string list"
  | Logout principal
  | Revoke_Session string string
  | Revoke_Other_Sessions string string
  | Revoke_All_Sessions string

fun run_action :: "auth_services \<Rightarrow> auth_db \<Rightarrow> auth_action \<Rightarrow> auth_db" where
  "run_action sv db (Synchronize_Password password) = fst (synchronizeDeploymentPassword sv password db)"
| "run_action sv db (Login now username password remoteAddress fresh) = fst (login sv now username password remoteAddress fresh db)"
| "run_action sv db (Create_Api_Key_Session now fresh) = fst (createApiKeySession sv now fresh db)"
| "run_action sv db (Begin_Enrollment now p seed token nonce) = fst (lift_tx db (begin_enrollment_tx sv now p seed token nonce db))"
| "run_action sv db (Complete_Mfa now p code nonce codes) = fst (lift_tx db (complete_mfa_tx sv now p code nonce codes db))"
| "run_action sv db (Verify_Mfa now p code) = fst (lift_tx db (verify_mfa_tx sv now p code db))"
| "run_action sv db (Mark_Reauthenticated now p) = mark_reauthenticated now p db"
| "run_action sv db (Rotate_Codes p codes) = fst (lift_tx db (rotate_codes_tx sv p codes db))"
| "run_action sv db (Logout p) = logout p db"
| "run_action sv db (Revoke_Session ownerId sessionId) = fst (revokeSession ownerId sessionId db)"
| "run_action sv db (Revoke_Other_Sessions ownerId sessionId) = revokeOtherSessions ownerId sessionId db"
| "run_action sv db (Revoke_All_Sessions ownerId) = revokeAllSessions ownerId db"

text \<open>What an action may do to a session: nothing restores a revoked one, gives it another identifier, or extends it.\<close>

definition session_kept :: "session_row \<Rightarrow> session_row \<Rightarrow> bool" where
  "session_kept s t = (os_id t = os_id s \<and> os_owner t = os_owner s \<and> os_lookup_digest t = os_lookup_digest s \<and> os_session_hash t = os_session_hash s
     \<and> os_session_epoch t = os_session_epoch s \<and> os_expires_at t = os_expires_at s \<and> (os_revoked s \<longrightarrow> os_revoked t) \<and> (os_mfa_verified s \<longrightarrow> os_mfa_verified t))"

definition sessions_evolve :: "session_row list \<Rightarrow> session_row list \<Rightarrow> bool" where
  "sessions_evolve ss ts = (\<exists>kept new. ts = kept @ new \<and> list_all2 session_kept ss kept \<and> (\<forall>s \<in> set new. os_id s \<notin> os_id ` set ss))"

lemma session_kept_refl [simp]: "session_kept s s"
  by (simp add: session_kept_def)

lemma session_kept_trans: "session_kept s t \<Longrightarrow> session_kept t u \<Longrightarrow> session_kept s u"
  by (auto simp: session_kept_def)

lemma sessions_evolveI:
  "ts = kept @ new \<Longrightarrow> list_all2 session_kept ss kept \<Longrightarrow> (\<And>s. s \<in> set new \<Longrightarrow> os_id s \<notin> os_id ` set ss) \<Longrightarrow> sessions_evolve ss ts"
  unfolding sessions_evolve_def by blast

lemma sessions_kept_refl [simp]: "list_all2 session_kept ss ss"
  by (simp add: list_all2_refl)

lemma sessions_evolve_update: "(\<And>s. session_kept s (f s)) \<Longrightarrow> sessions_evolve ss (sql_update P f ss)"
  by (rule sessions_evolveI [of _ _ "[]"]) (auto simp: sql_update_def list_all2_conv_all_nth)

lemma sessions_evolve_refl [simp]: "sessions_evolve ss ss"
  by (rule sessions_evolveI [of _ ss "[]"]) auto

lemma kept_ids: "list_all2 session_kept ss ts \<Longrightarrow> map os_id ts = map os_id ss"
  by (induction rule: list_all2_induct) (auto simp: session_kept_def)

lemma sessions_evolve_trans:
  assumes "sessions_evolve ss ts" and "sessions_evolve ts us"
  shows "sessions_evolve ss us"
proof -
  obtain k n where t: "ts = k @ n" "list_all2 session_kept ss k" "\<forall>s \<in> set n. os_id s \<notin> os_id ` set ss" using assms(1) by (auto simp: sessions_evolve_def)
  obtain k' n' where u: "us = k' @ n'" "list_all2 session_kept ts k'" "\<forall>s \<in> set n'. os_id s \<notin> os_id ` set ts" using assms(2) by (auto simp: sessions_evolve_def)
  obtain a b where ab: "k' = a @ b" "list_all2 session_kept k a" "list_all2 session_kept n b"
    using u(2) unfolding t(1) by (auto simp: list_all2_append1)
  have "list_all2 session_kept ss a" by (rule list_all2_trans [OF _ t(2) ab(2)]) (rule session_kept_trans)
  moreover have "os_id s \<notin> os_id ` set ss" if s: "s \<in> set (b @ n')" for s
  proof -
    have ids: "os_id ` set b = os_id ` set n" "os_id ` set ss = os_id ` set k"
      using kept_ids [OF ab(3)] kept_ids [OF t(2)] by (metis list.set_map)+
    show ?thesis
    proof (cases "s \<in> set b")
      case True
      then have "os_id s \<in> os_id ` set n" using ids(1) by blast
      then obtain x where "x \<in> set n" "os_id s = os_id x" by blast
      with t(3) show ?thesis by simp
    next
      case False
      with s u(3) ids(2) show ?thesis by (auto simp: t(1))
    qed
  qed
  ultimately show ?thesis using u(1) ab(1) by (intro sessions_evolveI [of us a "b @ n'"]) auto
qed

lemma revoke_evolves: "sessions_evolve (au_sessions db) (au_sessions (revoke_sessions P db))"
  unfolding revoke_sessions_def by (simp, rule sessions_evolve_update) (simp add: session_kept_def)

lemma mark_evolves: "sessions_evolve (au_sessions db) (au_sessions (mark_mfa_verified now i db))"
  unfolding mark_mfa_verified_def by (simp, rule sessions_evolve_update) (simp add: session_kept_def)

lemma reauth_evolves: "sessions_evolve (au_sessions db) (au_sessions (mark_reauthenticated now p db))"
  unfolding mark_reauthenticated_def by (simp, rule sessions_evolve_update) (simp add: session_kept_def)

lemma create_evolves: "createSession sv now w m t c i db = Inr (db', r) \<Longrightarrow> sessions_evolve (au_sessions db) (au_sessions db')"
  by (auto simp: createSession_def Let_def split: if_splits intro!: sessions_evolveI [OF refl])

lemma replace_codes_sessions: "replace_codes sv i codes db = Inr db' \<Longrightarrow> au_sessions db' = au_sessions db"
  by (auto simp: replace_codes_def Let_def split: if_splits)

lemma complete_mfa_Inr:
  assumes "complete_mfa_tx sv now p code nonce codes db = Inr (db', r)"
  obtains w e secret db1 where "enrollment_owner now p db = Inr w" and "latest_enrollment now (ap_ownerId p) db = Some e"
    and "enrollment_secret sv e = Inr secret" and "verifyTotp (sa_hmac_sha1 sv) secret code now = Inr True"
    and "replace_codes sv (ap_ownerId p) codes db = Inr db1" and "au_codes db' = au_codes db1" and "map_option ow_id (au_owner db') = Some (ow_id w)"
    and "au_sessions db' = au_sessions (mark_mfa_verified now (ap_sessionId p)
           (revoke_sessions (\<lambda>s. os_owner s = ap_ownerId p \<and> os_id s \<noteq> ap_sessionId p) db))"
proof -
  obtain w e secret db1 where run: "enrollment_owner now p db = Inr w" "latest_enrollment now (ap_ownerId p) db = Some e"
      "enrollment_secret sv e = Inr secret" "verifyTotp (sa_hmac_sha1 sv) secret code now = Inr True" "replace_codes sv (ap_ownerId p) codes db = Inr db1"
    using assms by (auto simp: complete_mfa_tx_def Let_def bindE_Inr_iff split: option.splits if_splits)
  from assms run have "au_codes db' = au_codes db1" "map_option ow_id (au_owner db') = Some (ow_id w)"
      "au_sessions db' = au_sessions (mark_mfa_verified now (ap_sessionId p) (revoke_sessions (\<lambda>s. os_owner s = ap_ownerId p \<and> os_id s \<noteq> ap_sessionId p) db))"
    using replace_codes_sessions [OF run(5)] by (auto simp: complete_mfa_tx_def Let_def mark_mfa_verified_def revoke_sessions_def)
  with run that show thesis by blast
qed

lemma run_action_evolves: "sessions_evolve (au_sessions db) (au_sessions (run_action sv db a))"
proof (cases a)
  case (Synchronize_Password password)
  then show ?thesis using revoke_evolves [of "db\<lparr>au_owner := w\<rparr>" for w]
    by (auto simp: synchronizeDeploymentPassword_def synchronize_tx_def Let_def split: sum.splits option.splits if_splits)
next
  case (Login now username password remoteAddress fresh)
  then show ?thesis
    by (auto simp: login_def lift_tx_def Let_def split: prod.splits sum.splits option.splits if_splits dest!: create_evolves)
next
  case (Create_Api_Key_Session now fresh)
  then show ?thesis by (auto simp: createApiKeySession_def lift_tx_def split: prod.splits sum.splits option.splits dest!: create_evolves)
next
  case (Begin_Enrollment now p seed token nonce)
  then show ?thesis by (auto simp: begin_enrollment_tx_def lift_tx_def Let_def bindE_Inr_iff split: sum.splits)
next
  case (Complete_Mfa now p code nonce codes)
  then show ?thesis using sessions_evolve_trans [OF revoke_evolves mark_evolves]
    by (cases "complete_mfa_tx sv now p code nonce codes db") (auto simp: lift_tx_def elim!: complete_mfa_Inr)
next
  case (Verify_Mfa now p code)
  have "sessions_evolve (au_sessions db) (au_sessions (mark_mfa_verified now i (db\<lparr>au_codes := cs\<rparr>)))" for i cs using mark_evolves [of "db\<lparr>au_codes := cs\<rparr>"] by simp
  with Verify_Mfa mark_evolves show ?thesis
    by (auto simp: verify_mfa_tx_def lift_tx_def bindE_Inr_iff split: sum.splits if_splits)
next
  case (Rotate_Codes p codes)
  then show ?thesis by (auto simp: rotate_codes_tx_def lift_tx_def bindE_Inr_iff replace_codes_sessions split: sum.splits)
qed (auto simp: logout_def revokeSession_def revokeOtherSessions_def revokeAllSessions_def revoke_evolves reauth_evolves)

lemma run_evolves: "sessions_evolve (au_sessions db) (au_sessions (foldl (run_action sv) db as))"
proof (induction as arbitrary: db)
  case (Cons a as)
  from sessions_evolve_trans [OF run_action_evolves Cons.IH] show ?case by simp
qed simp

lemma run_action_owner_id: "map_option ow_id (au_owner (run_action sv db a)) = map_option ow_id (au_owner db)"
proof -
  have cs: "createSession sv now w m t c i d = Inr (d', r) \<Longrightarrow> au_owner d' = au_owner d" for now w m t c i d d' r
    by (auto simp: createSession_def Let_def split: if_splits)
  have rc: "replace_codes sv i codes d = Inr d' \<Longrightarrow> au_owner d' = au_owner d" for i codes d d'
    by (auto simp: replace_codes_def Let_def split: if_splits)
  have eo: "enrollment_owner now p d = Inr w \<Longrightarrow> au_owner d = Some w" for now p d w
    by (auto simp: enrollment_owner_def owner_by_id_def split: option.splits if_splits)
  have frames: "au_owner (revoke_sessions P d) = au_owner d" "au_owner (mark_mfa_verified now i d) = au_owner d" "au_owner (mark_reauthenticated now p d) = au_owner d" for P d now i p
    by (simp_all add: revoke_sessions_def mark_mfa_verified_def mark_reauthenticated_def)
  show ?thesis
  proof (cases a)
    case (Synchronize_Password password)
    then show ?thesis by (auto simp: synchronizeDeploymentPassword_def synchronize_tx_def Let_def frames split: sum.splits option.splits if_splits)
  next
    case (Login now username password remoteAddress fresh)
    then show ?thesis by (auto simp: login_def lift_tx_def Let_def split: prod.splits sum.splits option.splits dest!: cs)
  next
    case (Complete_Mfa now p code nonce codes)
    then show ?thesis
      by (cases "complete_mfa_tx sv now p code nonce codes db") (auto simp: lift_tx_def elim!: complete_mfa_Inr dest!: eo)
  qed (auto simp: createApiKeySession_def begin_enrollment_tx_def verify_mfa_tx_def rotate_codes_tx_def logout_def revokeSession_def
      revokeOtherSessions_def revokeAllSessions_def lift_tx_def Let_def bindE_Inr_iff frames split: prod.splits sum.splits option.splits if_splits dest!: cs rc)
qed

lemma run_owner_id: "map_option ow_id (au_owner (foldl (run_action sv) db as)) = map_option ow_id (au_owner db)"
  by (induction as arbitrary: db) (auto simp: run_action_owner_id)

lemma evolved_session:
  assumes "sessions_evolve ss ts" and "t \<in> set ts" and "os_id t \<in> os_id ` set ss"
  shows "\<exists>s \<in> set ss. session_kept s t"
proof -
  obtain kept new where k: "ts = kept @ new" "list_all2 session_kept ss kept" "\<forall>s \<in> set new. os_id s \<notin> os_id ` set ss"
    using assms(1) by (auto simp: sessions_evolve_def)
  with assms(2,3) have "t \<in> set kept" by auto
  with k(2) show ?thesis by (auto simp: list_all2_conv_all_nth in_set_conv_nth) (metis nth_mem)
qed

lemma authenticate_Inr:
  assumes "authenticate sv now token m db = Inr p"
  obtains s w where "s \<in> set (au_sessions db)" and "os_id s = ap_sessionId p" and "\<not> os_revoked s" and "now < os_expires_at s"
    and "au_owner db = Some w" and "os_owner s = ow_id w" and "os_session_epoch s = ow_session_epoch w"
    and "os_session_hash s = sessionHash sv token" and "m \<longrightarrow> os_mfa_verified s" and "ap_ownerId p = ow_id w"
  using assms by (auto simp: authenticate_def owner_by_id_def equalDigest_def split: option.splits if_splits dest!: sql_first_Some)

text \<open>C29. Changing the password ends every session: whatever happens afterwards, no session that existed at that moment
  authenticates again.\<close>

theorem password_change_ends_sessions:
  assumes "synchronize_tx sv password db = Inr db1" and "authenticate sv now token m (foldl (run_action sv) db1 as) = Inr p"
  shows "ap_sessionId p \<notin> os_id ` set (au_sessions db)"
proof
  assume old: "ap_sessionId p \<in> os_id ` set (au_sessions db)"
  obtain w where w: "au_owner db = Some w" "map_option ow_id (au_owner db1) = Some (ow_id w)"
      and db1: "au_sessions db1 = sql_update (\<lambda>s. os_owner s = ow_id w \<and> \<not> os_revoked s) (\<lambda>s. s\<lparr>os_revoked := True\<rparr>) (au_sessions db)"
    using assms(1) by (auto simp: synchronize_tx_def revoke_sessions_def Let_def split: option.splits if_splits)
  obtain t v where t: "t \<in> set (au_sessions (foldl (run_action sv) db1 as))" "os_id t = ap_sessionId p" "\<not> os_revoked t"
      "au_owner (foldl (run_action sv) db1 as) = Some v" "os_owner t = ow_id v"
    by (rule authenticate_Inr [OF assms(2)]) blast
  have "os_id t \<in> os_id ` set (au_sessions db1)" using old t(2) by (simp add: db1 map_sql_update flip: set_map)
  then obtain s where s: "s \<in> set (au_sessions db1)" "session_kept s t" using evolved_session [OF run_evolves t(1)] by blast
  have "ow_id v = ow_id w" using run_owner_id [of sv db1 as] t(4) w(2) by simp
  with s t(3,5) have "os_owner s = ow_id w" "\<not> os_revoked s" by (auto simp: session_kept_def)
  with s(1) show False by (auto simp: db1 set_sql_update)
qed

text \<open>What proves the second factor: a current one-time code of the owner's secret or an unused recovery code, or, in an
  enrollment, a current code of the secret just issued.\<close>

definition proved_by_code :: "auth_services \<Rightarrow> int \<Rightarrow> principal \<Rightarrow> string \<Rightarrow> auth_db \<Rightarrow> bool" where
  "proved_by_code sv now p code db = (totp_accepts sv now p code db = Inr True \<or> sql_count (code_matches sv (ap_ownerId p) code) (au_codes db) = 1)"

definition proved_by_enrollment :: "auth_services \<Rightarrow> int \<Rightarrow> principal \<Rightarrow> string \<Rightarrow> auth_db \<Rightarrow> bool" where
  "proved_by_enrollment sv now p code db = (\<exists>e secret. latest_enrollment now (ap_ownerId p) db = Some e \<and> enrollment_secret sv e = Inr secret
     \<and> verifyTotp (sa_hmac_sha1 sv) secret code now = Inr True)"

definition newly_verified :: "session_row list \<Rightarrow> session_row list \<Rightarrow> string \<Rightarrow> bool" where
  "newly_verified ss ts i = ((\<exists>t \<in> set ts. os_id t = i \<and> os_mfa_verified t) \<and> \<not> (\<exists>s \<in> set ss. os_id s = i \<and> os_mfa_verified s))"

lemma bex_sql_update_iff: "(\<And>x. Q (f x) = Q x) \<Longrightarrow> (\<exists>x \<in> set (sql_update P f rows). Q x) \<longleftrightarrow> (\<exists>x \<in> set rows. Q x)"
proof -
  assume "\<And>x. Q (f x) = Q x"
  then have "Q (if P r then f r else r) = Q r" for r by simp
  then show ?thesis unfolding sql_update_def set_map bex_simps by (simp only:)
qed

lemma newly_verified_refl: "\<not> newly_verified ss ss i"
  by (auto simp: newly_verified_def)

lemma newly_verified_same:
  "(\<And>s. os_id (f s) = os_id s \<and> os_mfa_verified (f s) = os_mfa_verified s) \<Longrightarrow> newly_verified ss (sql_update P f ts) i \<longleftrightarrow> newly_verified ss ts i"
  unfolding newly_verified_def by (subst bex_sql_update_iff) auto

lemma newly_verified_mark:
  "newly_verified ss (au_sessions (mark_mfa_verified now j db)) i \<Longrightarrow> i = j \<or> newly_verified ss (au_sessions db) i"
  by (auto simp: newly_verified_def mark_mfa_verified_def set_sql_update)

lemma newly_verified_revoke: "newly_verified ss (au_sessions (revoke_sessions P db)) i \<longleftrightarrow> newly_verified ss (au_sessions db) i"
  by (simp add: revoke_sessions_def newly_verified_same)

lemmas newly_verified_frame = newly_verified_refl newly_verified_revoke newly_verified_same

lemma newly_verified_create:
  assumes "createSession sv now w m token csrf j db = Inr (db', r)" and "newly_verified (au_sessions db) (au_sessions db') i"
  shows "m \<and> i = j"
  using assms by (auto simp: createSession_def newly_verified_def Let_def split: if_splits)

text \<open>Only an API key session is created with the second factor; any other session gets it by one action, for that
  session, that proves a one-time code or a recovery code of the owner, or completes the first enrollment of an owner
  who has no second factor yet.\<close>

theorem second_factor_requires_proof:
  assumes "newly_verified (au_sessions db) (au_sessions (run_action sv db a)) i"
  shows "(\<exists>now token csrf. a = Create_Api_Key_Session now (token, csrf, i))
    \<or> (\<exists>now p code. a = Verify_Mfa now p code \<and> ap_sessionId p = i \<and> proved_by_code sv now p code db)
    \<or> (\<exists>now p code nonce codes w. a = Complete_Mfa now p code nonce codes \<and> ap_sessionId p = i \<and> proved_by_enrollment sv now p code db
         \<and> au_owner db = Some w \<and> \<not> ow_mfa_enabled w)"
proof (cases a)
  case (Synchronize_Password password)
  with assms show ?thesis
    by (auto simp: synchronizeDeploymentPassword_def synchronize_tx_def Let_def newly_verified_frame split: sum.splits option.splits if_splits)
next
  case (Login now username password remoteAddress fresh)
  with assms show ?thesis
    by (auto simp: login_def lift_tx_def Let_def newly_verified_frame split: prod.splits sum.splits option.splits if_splits dest: newly_verified_create)
next
  case (Create_Api_Key_Session now fresh)
  with assms show ?thesis
    by (auto simp: createApiKeySession_def lift_tx_def newly_verified_frame split: prod.splits sum.splits option.splits dest: newly_verified_create)
next
  case (Verify_Mfa now p code)
  have codes: "newly_verified ss (au_sessions (mark_mfa_verified now j (db\<lparr>au_codes := cs\<rparr>))) i \<Longrightarrow> i = j \<or> newly_verified ss (au_sessions db) i" for ss j cs
    using newly_verified_mark [of ss now j "db\<lparr>au_codes := cs\<rparr>" i] by simp
  from Verify_Mfa assms have "i = ap_sessionId p \<and> proved_by_code sv now p code db"
    by (auto simp: verify_mfa_tx_def lift_tx_def bindE_Inr_iff proved_by_code_def newly_verified_frame
        split: sum.splits if_splits dest!: codes newly_verified_mark)
  with Verify_Mfa show ?thesis by blast
next
  case (Complete_Mfa now p code nonce codes)
  from Complete_Mfa assms obtain db' r where tx: "complete_mfa_tx sv now p code nonce codes db = Inr (db', r)" and nv: "newly_verified (au_sessions db) (au_sessions db') i"
    by (cases "complete_mfa_tx sv now p code nonce codes db") (auto simp: lift_tx_def newly_verified_refl)
  obtain w e secret where run: "enrollment_owner now p db = Inr w" "latest_enrollment now (ap_ownerId p) db = Some e"
      "enrollment_secret sv e = Inr secret" "verifyTotp (sa_hmac_sha1 sv) secret code now = Inr True"
      and ss: "au_sessions db' = au_sessions (mark_mfa_verified now (ap_sessionId p) (revoke_sessions (\<lambda>s. os_owner s = ap_ownerId p \<and> os_id s \<noteq> ap_sessionId p) db))"
    using tx by (rule complete_mfa_Inr) blast
  have i: "i = ap_sessionId p" using newly_verified_mark [OF nv [unfolded ss]] by (simp add: newly_verified_frame)
  have "proved_by_enrollment sv now p code db" using run(2-4) by (auto simp: proved_by_enrollment_def)
  moreover have "au_owner db = Some w \<and> \<not> ow_mfa_enabled w" using run(1) assms i
    by (auto simp: enrollment_owner_def owner_by_id_def newly_verified_def split: option.splits if_splits dest!: sql_first_Some)
  ultimately show ?thesis using Complete_Mfa i by blast
qed (use assms in \<open>auto simp: begin_enrollment_tx_def rotate_codes_tx_def lift_tx_def Let_def bindE_Inr_iff mark_reauthenticated_def logout_def revokeSession_def
    revokeOtherSessions_def revokeAllSessions_def newly_verified_frame split: sum.splits if_splits dest!: replace_codes_sessions\<close>)

text \<open>The recovery codes an action generates.\<close>

fun new_codes :: "auth_action \<Rightarrow> string list" where
  "new_codes (Complete_Mfa now p code nonce codes) = codes"
| "new_codes (Rotate_Codes p codes) = codes"
| "new_codes _ = []"

definition code_spent :: "auth_services \<Rightarrow> string \<Rightarrow> string \<Rightarrow> auth_db \<Rightarrow> bool" where
  "code_spent sv ownerId code db = list_all (\<lambda>c. \<not> code_matches sv ownerId code c) (au_codes db)"

lemma replace_codes_spent:
  assumes "replace_codes sv i codes db = Inr db'" and "code_spent sv ownerId code db" and "token_digest sv code \<notin> token_digest sv ` set codes"
  shows "code_spent sv ownerId code db'"
proof -
  have "token_digest sv c \<noteq> token_digest sv code" if "c \<in> set codes" for c using assms(3) imageI [OF that, of "token_digest sv"] by auto
  with assms(1,2) show ?thesis by (auto simp: replace_codes_def code_spent_def code_matches_def Let_def list_all_iff split: if_splits)
qed

lemma run_action_spent:
  assumes spent: "code_spent sv ownerId code db" and fresh: "token_digest sv code \<notin> token_digest sv ` set (new_codes a)"
  shows "code_spent sv ownerId code (run_action sv db a)"
proof -
  have frames: "au_codes (revoke_sessions P d) = au_codes d" "au_codes (mark_mfa_verified now i d) = au_codes d" "au_codes (mark_reauthenticated now p d) = au_codes d" for P d now i p
    by (simp_all add: revoke_sessions_def mark_mfa_verified_def mark_reauthenticated_def)
  have cs: "createSession sv now w m t c i d = Inr (d', r) \<Longrightarrow> au_codes d' = au_codes d" for now w m t c i d d' r
    by (auto simp: createSession_def Let_def split: if_splits)
  show ?thesis
  proof (cases a)
    case (Complete_Mfa now p c nonce codes)
    have keep: "code_spent sv ownerId code d \<Longrightarrow> au_codes d' = au_codes d \<Longrightarrow> code_spent sv ownerId code d'" for d d' by (simp add: code_spent_def)
    show ?thesis
    proof (cases "complete_mfa_tx sv now p c nonce codes db")
      case (Inr r)
      obtain db' x where r: "r = (db', x)" by (cases r)
      obtain db1 where "replace_codes sv (ap_ownerId p) codes db = Inr db1" "au_codes db' = au_codes db1"
        using Inr unfolding r by (rule complete_mfa_Inr)
      with replace_codes_spent [OF this(1) spent] fresh keep Complete_Mfa Inr r show ?thesis by (auto simp: lift_tx_def)
    qed (use spent Complete_Mfa in \<open>simp add: lift_tx_def\<close>)
  next
    case (Verify_Mfa now p c)
    have "code_spent sv ownerId code (db\<lparr>au_codes := sql_update P (\<lambda>c. c\<lparr>rc_consumed := True\<rparr>) (au_codes db)\<rparr>)" for P
      using spent by (auto simp: code_spent_def sql_update_def list_all_iff code_matches_def)
    with spent Verify_Mfa show ?thesis
      by (auto simp: verify_mfa_tx_def lift_tx_def bindE_Inr_iff code_spent_def frames split: sum.splits if_splits)
  next
    case (Rotate_Codes p codes)
    then show ?thesis using spent replace_codes_spent [OF _ spent] fresh
      by (auto simp: rotate_codes_tx_def lift_tx_def bindE_Inr_iff code_spent_def split: sum.splits)
  next
    case (Login now username password remoteAddress fresh)
    with spent show ?thesis by (auto simp: login_def lift_tx_def Let_def code_spent_def split: prod.splits sum.splits option.splits dest!: cs)
  qed (use spent in \<open>auto simp: synchronizeDeploymentPassword_def synchronize_tx_def createApiKeySession_def begin_enrollment_tx_def logout_def revokeSession_def
      revokeOtherSessions_def revokeAllSessions_def lift_tx_def Let_def bindE_Inr_iff code_spent_def frames split: prod.splits sum.splits option.splits if_splits dest!: cs\<close>)
qed

lemma run_spent:
  "code_spent sv ownerId code db \<Longrightarrow> (\<And>a. a \<in> set as \<Longrightarrow> token_digest sv code \<notin> token_digest sv ` set (new_codes a)) \<Longrightarrow> code_spent sv ownerId code (foldl (run_action sv) db as)"
  by (induction as arbitrary: db) (auto simp: run_action_spent)

text \<open>C30. A recovery code works once: after a verification that a recovery code passed, no later verification for the
  same owner passes with it, whatever happens in between, unless a code with the same digest is generated again; it
  could only pass as a one-time code.\<close>

theorem recovery_code_single_use:
  assumes "verify_mfa_tx sv now p code db = Inr (db1, u)" and "totp_accepts sv now p code db = Inr False"
    and "\<And>a. a \<in> set as \<Longrightarrow> token_digest sv code \<notin> token_digest sv ` set (new_codes a)"
    and "ap_ownerId q = ap_ownerId p" and "verify_mfa_tx sv later q code (foldl (run_action sv) db1 as) = Inr r"
  shows "totp_accepts sv later q code (foldl (run_action sv) db1 as) = Inr True"
proof -
  have "code_spent sv (ap_ownerId p) code db1"
    using assms(1,2) by (auto simp: verify_mfa_tx_def mark_mfa_verified_def code_spent_def sql_update_def list_all_iff code_matches_def split: if_splits)
  then have "code_spent sv (ap_ownerId p) code (foldl (run_action sv) db1 as)" using assms(3) by (rule run_spent)
  then have "sql_count (code_matches sv (ap_ownerId q) code) (au_codes (foldl (run_action sv) db1 as)) = 0"
    using assms(4) by (auto simp: code_spent_def sql_count_def list_all_iff filter_empty_conv)
  with assms(5) show ?thesis by (auto simp: verify_mfa_tx_def bindE_Inr_iff split: if_splits)
qed

text \<open>An API key session is created with the second factor, and yet its result never says that it is authenticated.\<close>

lemma api_key_session_state:
  "createApiKeySession sv now fresh db = (db', Inr r) \<Longrightarrow> lr_state r \<in> {''MFA_REQUIRED'', ''MFA_ENROLLMENT_REQUIRED''}
     \<and> (\<exists>s \<in> set (au_sessions db'). os_id s = lr_sessionId r \<and> os_mfa_verified s)"
  by (auto simp: createApiKeySession_def lift_tx_def createSession_def Let_def split: prod.splits option.splits sum.splits if_splits)

section \<open>A sample owner\<close>

definition sample_auth_services :: auth_services where
  "sample_auth_services = \<lparr>sa_sha256 = (\<lambda>x. x), sa_hmac_sha1 = (\<lambda>_ message. if message = be_bytes 8 5 then [] else [0, 0, 0, 1]), sa_argon2_hash = (\<lambda>p. p), sa_argon2_verify = (\<lambda>h p. h = p),
     sa_gcm = \<lparr>gcm_seal = (\<lambda>_ _ _ plaintext. (plaintext, replicate 16 0)), gcm_open = (\<lambda>_ _ _ sealed. Some (fst sealed))\<rparr>,
     sa_to_text = map (\<lambda>b. char_of (unat b)), sa_cipher = (replicate 32 0, ''k'')\<rparr>"

definition sample_owner_row :: owner_row where
  "sample_owner_row = \<lparr>ow_id = ''O'', ow_username = ''KRMAR78'', ow_password_hash = Some ''old'', ow_session_epoch = 1, ow_mfa_enabled = True,
     ow_mfa_secret = Some (replicate 16 0 @ utf8 ''AA'', []), ow_deployment_epoch = 1\<rparr>"

definition sample_session :: session_row where
  "sample_session = \<lparr>os_id = ''s1'', os_owner = ''O'', os_lookup_digest = [1], os_session_hash = [2], os_csrf_digest = [3], os_session_epoch = 1,
     os_mfa_verified = False, os_expires_at = 1000000, os_revoked = False, os_reauthenticated_at = None\<rparr>"

definition sample_auth_db :: auth_db where
  "sample_auth_db = \<lparr>au_owner = Some sample_owner_row, au_deployment_epoch = Some 2, au_sessions = [sample_session], au_throttle = [], au_enrollments = [],
     au_codes = [\<lparr>rc_owner = ''O'', rc_code_hash = utf8 ''000000'', rc_consumed = False\<rparr>], au_audit = []\<rparr>"

definition sample_principal :: principal where
  "sample_principal = \<lparr>ap_ownerId = ''O'', ap_sessionId = ''s1'', ap_csrfTokenDigest = [3], ap_mfaVerified = False, ap_sessionEpoch = 1, ap_expiresAt = 1000000\<rparr>"


text \<open>The code \<open>000000\<close> is a recovery code of the sample owner and, two minutes later, also a one-time code.\<close>

lemma sample_totp_accepts:
  assumes "30000 \<le> now" and "now < 1000000"
  shows "totp_accepts sample_auth_services now sample_principal ''000000'' (sample_auth_db\<lparr>au_sessions := ss, au_codes := cs\<rparr>)
    = Inr (\<exists>d \<in> {-1, 0, 1}. ''000000'' = totp_code (sa_hmac_sha1 sample_auth_services) [0] (be_bytes 8 (nat (now div 30000 + d))))"
proof -
  have key: "base32Decode ''AA'' = Inr [0]" by code_simp
  have six: "is_six_digits ''000000''" by code_simp
  have plain: "map (\<lambda>b. char_of (unat b)) (utf8 ''AA'') = ''AA''" by code_simp
  from verifyTotp_window [OF key assms(1), of "sa_hmac_sha1 sample_auth_services" "''000000''"] assms(2) six plain show ?thesis
    by (simp add: totp_accepts_def owner_by_id_def sample_principal_def sample_auth_db_def sample_owner_row_def decrypt_def sample_auth_services_def)
qed

lemma sample_codes:
  "totp_code (sa_hmac_sha1 sample_auth_services) [0] (be_bytes 8 5) = ''000000''"
  "message \<noteq> be_bytes 8 5 \<Longrightarrow> totp_code (sa_hmac_sha1 sample_auth_services) [0] message \<noteq> ''000000''"
proof -
  have "totp_code (sa_hmac_sha1 sample_auth_services) [0] (be_bytes 8 5) = totp_code (\<lambda>_ _. []) [0] (be_bytes 8 5)"
    by (simp add: totp_code_def sample_auth_services_def)
  then show "totp_code (sa_hmac_sha1 sample_auth_services) [0] (be_bytes 8 5) = ''000000''" by (simp add: zero_totp_code)
  have "unat (totp_binary [0, 0, 0, 1]) = 256" by code_simp
  then have b: "sint (totp_binary [0, 0, 0, 1]) = 256"
    using totp_binary_nonneg [of "[0, 0, 0, 1]"] by (simp add: totp_binary_def byte_at_def Let_def)
  have "nat_text 256 = [digit_char 2, digit_char 5, digit_char 6]" by (simp add: nat_text.simps)
  moreover have "digit_char 2 \<noteq> CHR ''0''" by code_simp
  ultimately show "message \<noteq> be_bytes 8 5 \<Longrightarrow> totp_code (sa_hmac_sha1 sample_auth_services) [0] message \<noteq> ''000000''"
    by (auto simp: totp_code_def sample_auth_services_def b js_remainder_def int_text_def padStart_def)
qed

lemma sample_rejected_at: "be_bytes 8 0 \<noteq> be_bytes 8 5" "be_bytes 8 1 \<noteq> be_bytes 8 5" "be_bytes 8 2 \<noteq> be_bytes 8 5"
  using be_value_bytes [of 5 8] be_value_bytes [of 0 8] be_value_bytes [of 1 8] be_value_bytes [of 2 8] by auto

definition sample_verified_db :: auth_db where
  "sample_verified_db = sample_auth_db\<lparr>au_sessions := [sample_session\<lparr>os_mfa_verified := True, os_reauthenticated_at := Some 30000\<rparr>],
     au_codes := [\<lparr>rc_owner = ''O'', rc_code_hash = utf8 ''000000'', rc_consumed = True\<rparr>]\<rparr>"

lemma sample_first_verification:
  "totp_accepts sample_auth_services 30000 sample_principal ''000000'' sample_auth_db = Inr False"
  "verify_mfa_tx sample_auth_services 30000 sample_principal ''000000'' sample_auth_db = Inr (sample_verified_db, ())"
proof -
  show no: "totp_accepts sample_auth_services 30000 sample_principal ''000000'' sample_auth_db = Inr False"
    using sample_totp_accepts [of 30000 "au_codes sample_auth_db" "au_sessions sample_auth_db"] sample_codes(2) [OF sample_rejected_at(1)]
      sample_codes(2) [OF sample_rejected_at(2)] sample_codes(2) [OF sample_rejected_at(3)] by simp
  show "verify_mfa_tx sample_auth_services 30000 sample_principal ''000000'' sample_auth_db = Inr (sample_verified_db, ())"
    by (simp add: verify_mfa_tx_def no) (simp add: sample_verified_db_def sample_auth_db_def sample_session_def sql_count_def sql_update_def code_matches_def
        mark_mfa_verified_def sample_principal_def token_digest_def tokenDigest_def sample_auth_services_def)
qed

lemma sample_second_verification: "totp_accepts sample_auth_services 150000 sample_principal ''000000'' sample_verified_db = Inr True"
  unfolding sample_verified_db_def using sample_totp_accepts [of 150000] sample_codes(1) by simp

theorem recovery_code_single_use_witness:
  "\<exists>r. verify_mfa_tx sample_auth_services 150000 sample_principal ''000000'' sample_verified_db = Inr r
    \<and> totp_accepts sample_auth_services 150000 sample_principal ''000000'' (foldl (run_action sample_auth_services) sample_verified_db []) = Inr True"
proof -
  have r: "verify_mfa_tx sample_auth_services 150000 sample_principal ''000000'' sample_verified_db
      = Inr (mark_mfa_verified 150000 (ap_sessionId sample_principal) sample_verified_db, ())"
    by (simp add: verify_mfa_tx_def sample_second_verification)
  from recovery_code_single_use [OF sample_first_verification(2,1), of "[]" sample_principal 150000] r show ?thesis by simp
qed

theorem second_factor_requires_proof_witness:
  "newly_verified (au_sessions sample_auth_db) (au_sessions (run_action sample_auth_services sample_auth_db (Verify_Mfa 30000 sample_principal ''000000''))) ''s1''
    \<and> proved_by_code sample_auth_services 30000 sample_principal ''000000'' sample_auth_db"
proof -
  have "newly_verified (au_sessions sample_auth_db) (au_sessions (run_action sample_auth_services sample_auth_db (Verify_Mfa 30000 sample_principal ''000000''))) ''s1''"
    by (simp add: sample_first_verification lift_tx_def) (simp add: newly_verified_def sample_auth_db_def sample_session_def sample_verified_db_def)
  with second_factor_requires_proof [OF this] show ?thesis by simp
qed

theorem password_change_ends_sessions_witness:
  "\<exists>db1 p. synchronize_tx sample_auth_services ''new'' sample_auth_db = Inr db1
    \<and> authenticate sample_auth_services 60000 ''token'' False
        (foldl (run_action sample_auth_services) db1 [Login 50000 ''KRMAR78'' ''new'' None (''token'', ''csrf'', ''s2'')]) = Inr p
    \<and> ap_sessionId p \<notin> os_id ` set (au_sessions sample_auth_db)"
proof -
  obtain db1 where db1: "synchronize_tx sample_auth_services ''new'' sample_auth_db = Inr db1"
    by (auto simp: synchronize_tx_def sample_auth_db_def Let_def utf8_def utf8_char_def)
  obtain p where p: "authenticate sample_auth_services 60000 ''token'' False
        (foldl (run_action sample_auth_services) db1 [Login 50000 ''KRMAR78'' ''new'' None (''token'', ''csrf'', ''s2'')]) = Inr p"
    using db1 by (auto simp: synchronize_tx_def sample_auth_db_def sample_owner_row_def sample_session_def revoke_sessions_def sql_update_def Let_def utf8_def utf8_char_def
        login_def login_locked_def valid_credentials_def sample_auth_services_def sql_first_def lift_tx_def createSession_def token_digest_def tokenDigest_def
        authenticate_def owner_by_id_def equalDigest_def sessionHash_def)
  from password_change_ends_sessions [OF db1 p] db1 p show ?thesis by blast
qed

end
