(* ===== verification/EgressPolicy.thy ===== *)
theory EgressPolicy
  imports CommandValidation
begin

text \<open>
  What leaves the platform over HTTP: \<^verbatim>\<open>packages/worker-runtime/src/egress-policy.ts\<close>. Addresses are words, and the
  block list compares the leading bits of 128-bit addresses, an IPv4 address being the IPv6 address that maps it, as
  \<^verbatim>\<open>net.BlockList\<close> documents. The parsers of addresses and of URLs are parameters, as is the resolver.
\<close>

unbundle bit_operations_syntax

section \<open>Addresses\<close>

datatype ip_address = IPv4 "32 word" | IPv6 "128 word"

definition mapped_prefix :: "128 word" where
  "mapped_prefix = push_bit 32 (mask 16)"

fun as_ipv6 :: "ip_address \<Rightarrow> 128 word" where
  "as_ipv6 (IPv4 a) = mapped_prefix OR ucast a"
| "as_ipv6 (IPv6 a) = a"

record subnet =
  sn_network :: "128 word"
  sn_prefix :: nat

definition octets :: "nat \<Rightarrow> nat \<Rightarrow> nat \<Rightarrow> nat \<Rightarrow> 32 word" where
  "octets a b c d = of_nat (((a * 256 + b) * 256 + c) * 256 + d)"

definition ipv4_subnet :: "32 word \<Rightarrow> nat \<Rightarrow> subnet" where
  "ipv4_subnet network prefix = \<lparr>sn_network = as_ipv6 (IPv4 network), sn_prefix = 96 + prefix\<rparr>"

definition ipv6_subnet :: "128 word \<Rightarrow> nat \<Rightarrow> subnet" where
  "ipv6_subnet network prefix = \<lparr>sn_network = network, sn_prefix = prefix\<rparr>"

definition forbiddenAddresses :: "subnet list" where
  "forbiddenAddresses =
     [ipv4_subnet (octets 0 0 0 0) 8, ipv4_subnet (octets 10 0 0 0) 8, ipv4_subnet (octets 100 64 0 0) 10, ipv4_subnet (octets 127 0 0 0) 8,
      ipv4_subnet (octets 169 254 0 0) 16, ipv4_subnet (octets 172 16 0 0) 12, ipv4_subnet (octets 192 0 0 0) 24, ipv4_subnet (octets 192 0 2 0) 24,
      ipv4_subnet (octets 192 168 0 0) 16, ipv4_subnet (octets 198 18 0 0) 15, ipv4_subnet (octets 198 51 100 0) 24, ipv4_subnet (octets 203 0 113 0) 24,
      ipv4_subnet (octets 224 0 0 0) 4, ipv4_subnet (octets 240 0 0 0) 4,
      ipv6_subnet 0 128, ipv6_subnet 1 128, ipv6_subnet (push_bit 112 0xfc00) 7, ipv6_subnet (push_bit 112 0xfe80) 10,
      ipv6_subnet (push_bit 112 0xff00) 8, ipv6_subnet (push_bit 96 0x20010db8) 32]"

definition in_subnet :: "subnet \<Rightarrow> 128 word \<Rightarrow> bool" where
  "in_subnet n a = (drop_bit (128 - sn_prefix n) a = drop_bit (128 - sn_prefix n) (sn_network n))"

definition block_list_check :: "ip_address \<Rightarrow> bool" where
  "block_list_check a = list_ex (\<lambda>n. in_subnet n (as_ipv6 a)) forbiddenAddresses"

text \<open>\<^verbatim>\<open>/^::ffff:(\d{1,3}(?:\.\d{1,3}){3})$/iu\<close>\<close>

definition is_dotted_quad :: "string \<Rightarrow> bool" where
  "is_dotted_quad s = (length (split_on CHR ''.'' s) = 4 \<and> list_all (\<lambda>p. 1 \<le> length p \<and> length p \<le> 3 \<and> list_all is_digit p) (split_on CHR ''.'' s))"

definition mapped_text :: "string \<Rightarrow> string option" where
  "mapped_text address = (if lower_text (take 7 address) = ''::ffff:'' \<and> is_dotted_quad (drop 7 address) then Some (drop 7 address) else None)"

text \<open>The recursion of the code is one level deep: a dotted quad is not a mapped address.\<close>

definition isForbiddenEgressAddress :: "(string \<Rightarrow> ip_address option) \<Rightarrow> string \<Rightarrow> bool" where
  "isForbiddenEgressAddress isIP address =
     (let plain = (case mapped_text address of Some quad \<Rightarrow> quad | None \<Rightarrow> address) in
      case isIP plain of None \<Rightarrow> True | Some a \<Rightarrow> block_list_check a)"

section \<open>Ranges\<close>

text \<open>The reserved blocks as ranges of addresses, the way they are usually written down.\<close>

definition in_range_v4 :: "32 word \<Rightarrow> 32 word \<times> 32 word \<Rightarrow> bool" where
  "in_range_v4 a r = (fst r \<le> a \<and> a \<le> snd r)"

definition reserved_v4 :: "(32 word \<times> 32 word) list" where
  "reserved_v4 =
     [(octets 0 0 0 0, octets 0 255 255 255), (octets 10 0 0 0, octets 10 255 255 255), (octets 100 64 0 0, octets 100 127 255 255),
      (octets 127 0 0 0, octets 127 255 255 255), (octets 169 254 0 0, octets 169 254 255 255), (octets 172 16 0 0, octets 172 31 255 255),
      (octets 192 0 0 0, octets 192 0 0 255), (octets 192 0 2 0, octets 192 0 2 255), (octets 192 168 0 0, octets 192 168 255 255),
      (octets 198 18 0 0, octets 198 19 255 255), (octets 198 51 100 0, octets 198 51 100 255), (octets 203 0 113 0, octets 203 0 113 255),
      (octets 224 0 0 0, octets 255 255 255 255)]"

lemma bit_mapped: "bit (mapped_prefix OR ucast (a :: 32 word)) n \<longleftrightarrow> (if n < 32 then bit a n else n < 48)"
  by (auto simp: mapped_prefix_def bit_or_iff bit_push_bit_iff bit_mask_iff bit_unsigned_iff dest: bit_imp_le_length)

lemma drop_mapped:
  "drop_bit k (mapped_prefix OR ucast (a :: 32 word)) = drop_bit k (mapped_prefix OR ucast b) \<longleftrightarrow> drop_bit k a = drop_bit k b"
proof
  assume eq: "drop_bit k (mapped_prefix OR ucast a) = drop_bit k (mapped_prefix OR ucast b)"
  show "drop_bit k a = drop_bit k b"
  proof (rule bit_word_eqI)
    fix n
    have "bit (mapped_prefix OR ucast a) (k + n) = bit (mapped_prefix OR ucast b) (k + n)"
      using arg_cong [OF eq, of "\<lambda>w. bit w n"] unfolding bit_drop_bit_eq by simp
    then show "bit (drop_bit k a) n = bit (drop_bit k b) n"
      unfolding bit_mapped bit_drop_bit_eq o_apply using bit_imp_le_length [of a "k + n"] bit_imp_le_length [of b "k + n"] by (auto split: if_splits)
  qed
next
  assume eq: "drop_bit k a = drop_bit k b"
  show "drop_bit k (mapped_prefix OR ucast a) = drop_bit k (mapped_prefix OR ucast b)"
  proof (rule bit_word_eqI)
    fix n
    have "bit a (k + n) = bit b (k + n)" using arg_cong [OF eq, of "\<lambda>w. bit w n"] by (simp add: bit_drop_bit_eq)
    then show "bit (drop_bit k (mapped_prefix OR ucast a)) n = bit (drop_bit k (mapped_prefix OR ucast b)) n"
      unfolding bit_drop_bit_eq o_apply bit_mapped by simp
  qed
qed

lemma aligned_block:
  fixes a n :: "32 word"
  assumes "2 ^ k dvd unat n"
  shows "drop_bit k a = drop_bit k n \<longleftrightarrow> unat n \<le> unat a \<and> unat a < unat n + 2 ^ k"
proof -
  obtain q where q: "unat n = 2 ^ k * q" using assms by (rule dvdE)
  have "drop_bit k a = drop_bit k n \<longleftrightarrow> unat a div 2 ^ k = q"
    by (simp only: word_unat_eq_iff unat_drop_bit_eq) (simp add: drop_bit_eq_div q)
  also have "\<dots> \<longleftrightarrow> unat n \<le> unat a \<and> unat a < unat n + 2 ^ k"
    unfolding q by (metis add.commute div_mult_self_is_m div_nat_eqI dividend_less_times_div mult.commute mult_Suc_right times_div_less_eq_dividend zero_less_numeral zero_less_power)
  finally show ?thesis .
qed

lemma in_ipv4_subnet:
  assumes "2 ^ (32 - p) dvd unat n"
  shows "in_subnet (ipv4_subnet n p) (as_ipv6 (IPv4 a)) \<longleftrightarrow> unat n \<le> unat a \<and> unat a \<le> unat n + (2 ^ (32 - p) - 1)"
proof -
  have "128 - (96 + p) = 32 - p" by simp
  then have "in_subnet (ipv4_subnet n p) (as_ipv6 (IPv4 a)) \<longleftrightarrow> drop_bit (32 - p) a = drop_bit (32 - p) n"
    by (simp only: in_subnet_def ipv4_subnet_def subnet.simps as_ipv6.simps drop_mapped)
  moreover have "x < y + 2 ^ k \<longleftrightarrow> x \<le> y + (2 ^ k - 1)" for x y k :: nat by (metis Suc_pred' add_Suc_right less_Suc_eq_le zero_less_numeral zero_less_power)
  ultimately show ?thesis by (simp only: aligned_block [OF assms])
qed

lemma not_in_ipv6_subnet:
  assumes "bit n j \<noteq> (32 \<le> j \<and> j < 48)" and "128 - p \<le> j" and "32 \<le> j"
  shows "\<not> in_subnet (ipv6_subnet n p) (as_ipv6 (IPv4 a))"
proof
  assume "in_subnet (ipv6_subnet n p) (as_ipv6 (IPv4 a))"
  then have "drop_bit (128 - p) (mapped_prefix OR ucast a) = drop_bit (128 - p) n" by (simp only: in_subnet_def ipv6_subnet_def subnet.simps as_ipv6.simps)
  from arg_cong [OF this, of "\<lambda>w. bit w (j - (128 - p))"] assms show False unfolding bit_drop_bit_eq o_apply bit_mapped by simp
qed

lemma unat_octets: "((a * 256 + b) * 256 + c) * 256 + d < 4294967296 \<Longrightarrow> unat (octets a b c d) = ((a * 256 + b) * 256 + c) * 256 + d"
  unfolding octets_def unsigned_of_nat of_nat_id by (rule take_bit_nat_eq_self) simp

lemma in_range_v4_unat: "in_range_v4 a (x, y) \<longleftrightarrow> unat x \<le> unat a \<and> unat a \<le> unat y"
  by (simp add: in_range_v4_def word_le_nat_alt)

lemma block_list_ipv4: "block_list_check (IPv4 a) \<longleftrightarrow> list_ex (in_range_v4 a) reserved_v4"
proof -
  have v6: "\<not> in_subnet (ipv6_subnet 0 128) (as_ipv6 (IPv4 a))" "\<not> in_subnet (ipv6_subnet 1 128) (as_ipv6 (IPv4 a))"
    "\<not> in_subnet (ipv6_subnet (push_bit 112 0xfc00) 7) (as_ipv6 (IPv4 a))" "\<not> in_subnet (ipv6_subnet (push_bit 112 0xfe80) 10) (as_ipv6 (IPv4 a))"
    "\<not> in_subnet (ipv6_subnet (push_bit 112 0xff00) 8) (as_ipv6 (IPv4 a))" "\<not> in_subnet (ipv6_subnet (push_bit 96 0x20010db8) 32) (as_ipv6 (IPv4 a))"
    by (rule not_in_ipv6_subnet [where j = 32] not_in_ipv6_subnet [where j = 127] not_in_ipv6_subnet [where j = 125]; simp add: bit_1_iff; fail)+
  have top: "unat a < 4294967296" using unsigned_less [of a] by simp
  then have upper: "3758096384 \<le> unat a \<and> unat a \<le> 4026531839 \<or> 4026531840 \<le> unat a \<longleftrightarrow> 3758096384 \<le> unat a" "unat a \<le> 4294967295"
    by linarith+
  show ?thesis
    unfolding block_list_check_def forbiddenAddresses_def reserved_v4_def list_ex_iff
    using v6 upper by (simp add: in_ipv4_subnet unat_octets in_range_v4_unat del: as_ipv6.simps)
qed

text \<open>C37. The block list forbids an IPv4 address exactly when it lies in one of the reserved ranges: this network,
  private, shared, loopback, link-local, protocol, documentation and benchmark blocks, multicast and everything above.\<close>

theorem blocked_ipv4_ranges: "block_list_check (IPv4 a) \<longleftrightarrow> list_ex (in_range_v4 a) reserved_v4"
  by (rule block_list_ipv4)


section \<open>Name resolution\<close>

record lookup_address =
  la_address :: string
  la_family :: int

definition answer_key :: "lookup_address \<Rightarrow> string" where
  "answer_key entry = int_text (la_family entry) @ '':'' @ la_address entry"

definition assertPublicDnsAnswers :: "(string \<Rightarrow> ip_address option) \<Rightarrow> lookup_address list \<Rightarrow> lookup_address list outcome" where
  "assertPublicDnsAnswers isIP addresses =
     (if addresses = [] then Inl (Plain_Error ''EGRESS_DNS_EMPTY'')
      else if list_ex (\<lambda>entry. isForbiddenEgressAddress isIP (la_address entry)) addresses then Inl (Plain_Error ''EGRESS_DNS_ADDRESS_DENIED'')
      else Inr (map snd (jm_of answer_key addresses)))"

definition resolvePublicAddresses ::
  "(string \<Rightarrow> ip_address option) \<Rightarrow> (string \<Rightarrow> lookup_address list outcome) \<Rightarrow> string \<Rightarrow> lookup_address list outcome" where
  "resolvePublicAddresses isIP resolver hostname = bindE (resolver hostname) (assertPublicDnsAnswers isIP)"

section \<open>Targets\<close>

record egress_policy =
  ep_baseUrl :: string
  ep_allowedPaths :: "string list"
  ep_allowedMethods :: "string list"
  ep_timeoutMs :: int
  ep_maxRequestBytes :: nat
  ep_maxResponseBytes :: nat
  ep_allowPlainHttp :: bool

record js_url =
  url_protocol :: string
  url_username :: string
  url_password :: string
  url_hash :: string
  url_origin :: string
  url_hostname :: string
  url_pathname :: string

definition is_scheme_char :: "char \<Rightarrow> bool" where
  "is_scheme_char c = (in_range CHR ''a'' CHR ''z'' (to_lower c) \<or> is_digit c \<or> c \<in> set ''+.-'')"

text \<open>\<^verbatim>\<open>/^[a-z][a-z0-9+.-]*:/iu\<close>\<close>

definition has_scheme :: "string \<Rightarrow> bool" where
  "has_scheme s = (CHR '':'' \<in> set s \<and> (case takeWhile (\<lambda>c. c \<noteq> CHR '':'') s of
     [] \<Rightarrow> False | c # cs \<Rightarrow> in_range CHR ''a'' CHR ''z'' (to_lower c) \<and> list_all is_scheme_char cs))"

definition path_allowed :: "string \<Rightarrow> string \<Rightarrow> bool" where
  "path_allowed pathname prefix = (pathname = prefix \<or> starts_with (if ends_with ''/'' prefix then prefix else prefix @ ''/'') pathname)"

definition authorizeEgressUrl ::
  "(string \<Rightarrow> js_url outcome) \<Rightarrow> (string \<Rightarrow> js_url \<Rightarrow> js_url outcome) \<Rightarrow> egress_policy \<Rightarrow> string \<Rightarrow> string \<Rightarrow> js_url outcome" where
  "authorizeEgressUrl new_url relative_url policy relativePath http_method =
     bindE (new_url (ep_baseUrl policy)) (\<lambda>base.
     if url_username base \<noteq> [] \<or> url_password base \<noteq> [] \<or> url_hash base \<noteq> [] then Inl (Plain_Error ''EGRESS_TARGET_URL_INVALID'')
     else if url_protocol base \<noteq> ''https:'' \<and> \<not> (ep_allowPlainHttp policy \<and> url_protocol base = ''http:'') then Inl (Plain_Error ''EGRESS_TLS_REQUIRED'')
     else if has_scheme relativePath \<or> starts_with ''//'' relativePath \<or> CHR 0x5C \<in> set relativePath then Inl (Plain_Error ''EGRESS_ABSOLUTE_URL_DENIED'')
     else bindE (relative_url relativePath base) (\<lambda>url.
       if url_origin url \<noteq> url_origin base \<or> url_username url \<noteq> [] \<or> url_password url \<noteq> [] \<or> url_hash url \<noteq> [] then Inl (Plain_Error ''EGRESS_ORIGIN_MISMATCH'')
       else if upper_text http_method \<notin> set (map upper_text (ep_allowedMethods policy)) then Inl (Plain_Error ''EGRESS_METHOD_DENIED'')
       else if \<not> list_ex (path_allowed (url_pathname url)) (ep_allowedPaths policy) then Inl (Plain_Error ''EGRESS_PATH_DENIED'')
       else Inr url))"

section \<open>The request\<close>

text \<open>
  The promise of \<^verbatim>\<open>performPinnedRequest\<close> is settled by the events of the request and of its response; destroying the
  request is a request to the host, whose error event comes later or not at all. The response of an event is
  what the listener of that event does.
\<close>

type_synonym response_headers = "(string \<times> string list) list"

datatype request_event =
    Response_Head int response_headers
  | Response_Data "byte list"
  | Response_Error js_error
  | Response_End
  | Request_Error js_error
  | Deadline

record pinned_response =
  pr_status :: int
  pr_headers :: response_headers
  pr_body :: "byte list"
  pr_remoteAddress :: string

record pinned_state =
  ps_settled :: "pinned_response outcome list" \<comment> \<open>what the promise was settled with, in order\<close>
  ps_response :: "(int \<times> response_headers) option"
  ps_chunks :: "byte list list"
  ps_received :: nat
  ps_destroyed :: "js_error list"

definition finishError :: "js_error \<Rightarrow> pinned_state \<Rightarrow> pinned_state" where
  "finishError e s = (if ps_settled s \<noteq> [] then s else s\<lparr>ps_settled := ps_settled s @ [Inl e]\<rparr>)"

fun pinned_event :: "nat \<Rightarrow> lookup_address \<Rightarrow> pinned_state \<Rightarrow> request_event \<Rightarrow> pinned_state" where
  "pinned_event maxResponseBytes selected s (Response_Head status headers) =
     (if ps_response s = None then s\<lparr>ps_response := Some (status, headers)\<rparr> else s)"
| "pinned_event maxResponseBytes selected s (Response_Data chunk) = (if ps_response s = None then s
     else let received = ps_received s + length chunk; s1 = s\<lparr>ps_received := received\<rparr> in
       if received > maxResponseBytes then s1\<lparr>ps_destroyed := ps_destroyed s1 @ [Plain_Error ''EGRESS_RESPONSE_TOO_LARGE'']\<rparr>
       else s1\<lparr>ps_chunks := ps_chunks s1 @ [chunk]\<rparr>)"
| "pinned_event maxResponseBytes selected s (Response_Error e) = (if ps_response s = None then s else finishError e s)"
| "pinned_event maxResponseBytes selected s Response_End = (case ps_response s of
     None \<Rightarrow> s
   | Some (status, headers) \<Rightarrow> if ps_settled s \<noteq> [] then s
       else s\<lparr>ps_settled := ps_settled s @ [Inr \<lparr>pr_status = status, pr_headers = headers, pr_body = concat (ps_chunks s), pr_remoteAddress = la_address selected\<rparr>]\<rparr>)"
| "pinned_event maxResponseBytes selected s (Request_Error e) = finishError e s"
| "pinned_event maxResponseBytes selected s Deadline = s\<lparr>ps_destroyed := ps_destroyed s @ [Plain_Error ''EGRESS_DEADLINE_EXCEEDED'']\<rparr>"

definition pinned_start :: pinned_state where
  "pinned_start = \<lparr>ps_settled = [], ps_response = None, ps_chunks = [], ps_received = 0, ps_destroyed = []\<rparr>"

definition performPinnedRequest ::
  "(string \<Rightarrow> ip_address option) \<Rightarrow> (string \<Rightarrow> lookup_address list outcome) \<Rightarrow> js_url \<Rightarrow> nat \<Rightarrow> request_event list \<Rightarrow> (lookup_address \<times> pinned_state) outcome" where
  "performPinnedRequest isIP resolver url maxResponseBytes events =
     bindE (resolvePublicAddresses isIP resolver (url_hostname url)) (\<lambda>addresses. case addresses of
       [] \<Rightarrow> Inl (Plain_Error ''EGRESS_DNS_EMPTY'')
     | selected # _ \<Rightarrow> Inr (selected, foldl (pinned_event maxResponseBytes selected) pinned_start events))"

section \<open>What a request can reach\<close>

lemma path_allowed_iff: "path_allowed pathname prefix \<longleftrightarrow> pathname = prefix \<or> (\<exists>rest. pathname = prefix @ rest \<and> (ends_with ''/'' prefix \<or> starts_with ''/'' rest))"
  by (auto simp: path_allowed_def starts_with_iff)

text \<open>An authorized target keeps the origin of the policy's base URL over TLS, or plain HTTP where the policy allows
  it, carries no credentials or fragment, uses an allowed method, and its path is an allowed path or continues one at a
  segment boundary.\<close>

theorem authorized_target_confined:
  assumes "authorizeEgressUrl new_url relative_url policy relativePath http_method = Inr url"
  shows "\<exists>base. new_url (ep_baseUrl policy) = Inr base \<and> url_origin url = url_origin base
    \<and> (url_protocol base = ''https:'' \<or> ep_allowPlainHttp policy \<and> url_protocol base = ''http:'')
    \<and> url_username url = [] \<and> url_password url = [] \<and> url_hash url = []
    \<and> upper_text http_method \<in> upper_text ` set (ep_allowedMethods policy)
    \<and> \<not> has_scheme relativePath \<and> \<not> starts_with ''//'' relativePath
    \<and> (\<exists>prefix \<in> set (ep_allowedPaths policy). url_pathname url = prefix
         \<or> (\<exists>rest. url_pathname url = prefix @ rest \<and> (ends_with ''/'' prefix \<or> starts_with ''/'' rest)))"
  using assms by (auto simp: authorizeEgressUrl_def bindE_Inr_iff list_ex_iff path_allowed_iff split: if_splits)

lemma dns_answers_public:
  assumes "assertPublicDnsAnswers isIP addresses = Inr answers"
  shows "set answers \<subseteq> set addresses" "list_all (\<lambda>entry. \<not> isForbiddenEgressAddress isIP (la_address entry)) addresses"
proof -
  have "snd ` set (foldl (\<lambda>m x. jm_set (key x) x m) m xs) \<subseteq> snd ` set m \<union> set xs" for key :: "lookup_address \<Rightarrow> string" and m xs
  proof (induction xs arbitrary: m)
    case (Cons x xs)
    have "snd ` set (jm_set (key x) x m) \<subseteq> insert x (snd ` set m)" using image_mono [OF set_jm_set_subset [of "key x" x m], of snd] by simp
    with Cons.IH [of "jm_set (key x) x m"] show ?case unfolding foldl_Cons set_simps by blast
  qed simp
  from this [of answer_key "[]" addresses] assms show "set answers \<subseteq> set addresses"
    by (auto simp: assertPublicDnsAnswers_def jm_of_def split: if_splits)
  from assms show "list_all (\<lambda>entry. \<not> isForbiddenEgressAddress isIP (la_address entry)) addresses"
    by (auto simp: assertPublicDnsAnswers_def list_ex_iff list_all_iff split: if_splits)
qed

definition response_ok :: "nat \<Rightarrow> lookup_address \<Rightarrow> pinned_response outcome \<Rightarrow> bool" where
  "response_ok maxResponseBytes selected r = (case r of Inl _ \<Rightarrow> True
     | Inr v \<Rightarrow> length (pr_body v) \<le> maxResponseBytes \<and> pr_remoteAddress v = la_address selected)"

definition pinned_ok :: "nat \<Rightarrow> lookup_address \<Rightarrow> pinned_state \<Rightarrow> bool" where
  "pinned_ok maxResponseBytes selected s = (length (ps_settled s) \<le> 1 \<and> length (concat (ps_chunks s)) \<le> maxResponseBytes
     \<and> length (concat (ps_chunks s)) \<le> ps_received s
     \<and> list_all (response_ok maxResponseBytes selected) (ps_settled s))"

lemma finishError_ok: "pinned_ok m a s \<Longrightarrow> pinned_ok m a (finishError e s)"
  by (simp add: pinned_ok_def finishError_def response_ok_def)

lemma pinned_event_ok: "pinned_ok m a s \<Longrightarrow> pinned_ok m a (pinned_event m a s e)"
proof (cases e)
  case (Response_Data chunk)
  assume "pinned_ok m a s"
  with Response_Data show ?thesis by (simp add: pinned_ok_def Let_def)
next
  case Response_End
  assume "pinned_ok m a s"
  with Response_End show ?thesis by (simp add: pinned_ok_def response_ok_def split: option.splits)
qed (simp_all add: finishError_ok, simp_all add: pinned_ok_def)

lemma pinned_run_ok: "pinned_ok m a (foldl (pinned_event m a) pinned_start events)"
proof -
  have "pinned_ok m a s \<Longrightarrow> pinned_ok m a (foldl (pinned_event m a) s events)" for s
    by (induction events arbitrary: s) (auto simp: pinned_event_ok)
  then show ?thesis by (simp add: pinned_start_def pinned_ok_def)
qed

text \<open>A pinned request is sent to one answer of the resolver, and only when every answer is a public address. Its
  promise is settled at most once, whatever the order of the events, and a response it gives has a body of at
  most the allowed size and names the pinned address.\<close>

theorem pinned_request_confined:
  assumes "performPinnedRequest isIP resolver url maxResponseBytes events = Inr (selected, s)"
  shows "(\<exists>answers. resolver (url_hostname url) = Inr answers \<and> selected \<in> set answers
      \<and> list_all (\<lambda>entry. \<not> isForbiddenEgressAddress isIP (la_address entry)) answers)
    \<and> length (ps_settled s) \<le> 1
    \<and> list_all (response_ok maxResponseBytes selected) (ps_settled s)"
proof -
  obtain answers addresses where a: "resolver (url_hostname url) = Inr answers" "assertPublicDnsAnswers isIP answers = Inr addresses"
      and sel: "(case addresses of [] \<Rightarrow> Inl (Plain_Error ''EGRESS_DNS_EMPTY'')
         | selected # _ \<Rightarrow> Inr (selected, foldl (pinned_event maxResponseBytes selected) pinned_start events)) = Inr (selected, s)"
    using assms unfolding performPinnedRequest_def resolvePublicAddresses_def bindE_Inr_iff by blast
  from sel have s: "s = foldl (pinned_event maxResponseBytes selected) pinned_start events" and "selected \<in> set addresses"
    by (auto split: list.split_asm)
  have "pinned_ok maxResponseBytes selected s" unfolding s by (rule pinned_run_ok)
  with a \<open>selected \<in> set addresses\<close> dns_answers_public [OF a(2)] show ?thesis by (auto simp: pinned_ok_def)
qed

section \<open>Sample targets\<close>

definition sample_isIP :: "string \<Rightarrow> ip_address option" where
  "sample_isIP s = (if s = ''1.1.1.1'' then Some (IPv4 (octets 1 1 1 1)) else None)"

definition sample_url :: "string \<Rightarrow> js_url" where
  "sample_url path = \<lparr>url_protocol = ''https:'', url_username = [], url_password = [], url_hash = [], url_origin = ''https://h'', url_hostname = ''h'', url_pathname = path\<rparr>"

definition sample_policy :: egress_policy where
  "sample_policy = \<lparr>ep_baseUrl = ''https://h/v1'', ep_allowedPaths = [''/v1''], ep_allowedMethods = [''GET''], ep_timeoutMs = 1000, ep_maxRequestBytes = 10, ep_maxResponseBytes = 10, ep_allowPlainHttp = False\<rparr>"

theorem authorized_target_confined_witness:
  "authorizeEgressUrl (\<lambda>_. Inr (sample_url ''/v1'')) (\<lambda>p _. Inr (sample_url p)) sample_policy ''/v1/x'' ''get'' = Inr (sample_url ''/v1/x'')
    \<and> url_origin (sample_url ''/v1/x'') = ''https://h''"
proof -
  have a: "authorizeEgressUrl (\<lambda>_. Inr (sample_url ''/v1'')) (\<lambda>p _. Inr (sample_url p)) sample_policy ''/v1/x'' ''get'' = Inr (sample_url ''/v1/x'')"
    by code_simp
  with authorized_target_confined [OF a] show ?thesis by (auto simp: sample_url_def)
qed

theorem pinned_request_confined_witness:
  "\<exists>selected s. performPinnedRequest sample_isIP (\<lambda>_. Inr [\<lparr>la_address = ''1.1.1.1'', la_family = 4\<rparr>]) (sample_url ''/'') 3
      [Response_Head 200 [], Response_Data [1, 2], Response_End, Request_Error (Plain_Error ''late'')] = Inr (selected, s)
    \<and> length (ps_settled s) \<le> 1"
proof -
  have public: "\<not> block_list_check (IPv4 (octets 1 1 1 1))"
    by (simp add: block_list_ipv4 reserved_v4_def in_range_v4_unat unat_octets)
  have quad: "mapped_text ''1.1.1.1'' = None" by code_simp
  obtain selected s where run: "performPinnedRequest sample_isIP (\<lambda>_. Inr [\<lparr>la_address = ''1.1.1.1'', la_family = 4\<rparr>]) (sample_url ''/'') 3
      [Response_Head 200 [], Response_Data [1, 2], Response_End, Request_Error (Plain_Error ''late'')] = Inr (selected, s)"
    using public quad by (simp add: performPinnedRequest_def resolvePublicAddresses_def assertPublicDnsAnswers_def isForbiddenEgressAddress_def sample_isIP_def jm_of_def)
  from pinned_request_confined [OF run] run show ?thesis by blast
qed

text \<open>IPv6 addresses that embed a private IPv4 address in another way than by mapping it pass: an IPv4-compatible
  loopback address and the NAT64 form of a private address.\<close>

lemma embedded_ipv4_not_blocked:
  "\<not> block_list_check (IPv6 0x7f000001)" "\<not> block_list_check (IPv6 (push_bit 96 0x0064ff9b OR 0x0a000001))"
  by (simp_all add: block_list_check_def forbiddenAddresses_def in_subnet_def ipv4_subnet_def ipv6_subnet_def octets_def mapped_prefix_def mask_eq_exp_minus_1)

end
