(* ===== verification/SecretManager.thy ===== *)
theory SecretManager
  imports OwnerCrypto CommandStore
begin

text \<open>
  Secrets and the owner's API key: \<^verbatim>\<open>SecretManager\<close> of \<^verbatim>\<open>packages/domain/src/secrets.ts\<close> and the consistency checks
  of \<^verbatim>\<open>packages/domain/src/secret-operations.ts\<close>, over the tables they read and write. Identifiers, nonces and
  tokens are arguments; the time stamps of a version are left out, those of a deletion, a retirement and a consumption
  are flags. The primary keys and unique columns of the tables reject an insertion with the code PostgreSQL gives;
  the partial index that allows one active version per secret is not part of the model, because the operations are shown
  never to need it.
\<close>

section \<open>State\<close>

record secret_record_row =
  sr_id :: string
  sr_stable_name :: string
  sr_display_name :: string
  sr_kind :: string
  sr_lifecycle :: string
  sr_active_version :: "string option"
  sr_activation_epoch :: int
  sr_metadata :: cjson
  sr_updated_at :: int
  sr_deleted :: bool
  sr_state_version :: int
  sr_incarnation :: string
  sr_deployment :: int

record secret_version_row =
  vr_id :: string
  vr_secret_id :: string
  vr_number :: int
  vr_ciphertext :: "byte list"
  vr_nonce :: "byte list"
  vr_auth_tag :: "byte list"
  vr_key_id :: string
  vr_fingerprint :: string
  vr_value_digest :: "byte list"
  vr_lifecycle :: string
  vr_created_by :: string
  vr_activation_operation :: "string option"

record credential_row =
  cr_id :: string
  cr_secret_id :: "string option"
  cr_secret_version_id :: "string option"
  cr_verifier_hash :: "byte list option"
  cr_fingerprint :: "string option"
  cr_version :: int
  cr_activation_epoch :: int
  cr_last_rotate :: "string option"
  cr_last_outcome_digest :: "byte list option"
  cr_state_version :: int

record secret_binding_row =
  sb_id :: string
  sb_stable_key :: string
  sb_lifecycle :: string
  sb_secret_id :: string
  sb_source_kind :: string
  sb_source_id :: string
  sb_source_revision :: string
  sb_usage_purpose :: string
  sb_target_id :: "string option"
  sb_version_selector :: cjson
  sb_version_policy :: string
  sb_revision :: int
  sb_activation_set :: "string option"
  sb_expires_at :: "int option"
  sb_retired :: bool
  sb_deleted :: bool
  sb_activation_epoch :: string
  sb_incarnation :: string
  sb_deployment :: string

record binding_member_row =
  bm_revision_id :: string
  bm_kind :: string
  bm_operation :: string
  bm_purpose :: string
  bm_source_object :: "string option"
  bm_source_revision :: "string option"
  bm_target_binding :: "string option"
  bm_target_secret :: "string option"

record resolution_row =
  rn_id :: string
  rn_stable_key :: string
  rn_context :: string
  rn_secret_id :: string
  rn_binding_id :: string
  rn_binding_revision :: int
  rn_requested_name :: string
  rn_purpose :: string
  rn_target :: "string option"
  rn_version_id :: string
  rn_secret_epoch :: int
  rn_source_revision :: string
  rn_source_epoch :: string
  rn_fingerprint :: string
  rn_expires_at :: int

record access_row =
  ac_stable_key :: string
  ac_secret_id :: string
  ac_version_id :: string
  ac_context :: string
  ac_binding_id :: "string option"
  ac_purpose :: string
  ac_operation :: string

record secret_db =
  sd_recovery :: "recovery_row option"
  sd_records :: "secret_record_row list"
  sd_versions :: "secret_version_row list"
  sd_credential :: "credential_row option"
  sd_bindings :: "secret_binding_row list"
  sd_members :: "binding_member_row list"
  sd_resolutions :: "resolution_row list"
  sd_accesses :: "access_row list"
  sd_sequences :: sequence_table
  sd_outbox :: "outbox_row list"
  sd_audit :: "(string \<times> string \<times> cjson) list" \<comment> \<open>type, aggregate, payload\<close>

record secret_services =
  ss_sha256 :: "byte list \<Rightarrow> byte list"
  ss_gcm :: gcm
  ss_to_text :: "byte list \<Rightarrow> string"
  ss_cipher :: "byte list \<times> string"
  ss_collation :: collation

record secret_summary =
  su_id :: string
  su_stableName :: string
  su_displayName :: string
  su_kind :: string
  su_activeVersionId :: "string option"
  su_secretActivationEpoch :: int
  su_fingerprint :: "string option"
  su_stateVersion :: int
  su_updatedAt :: int

record runtime_secret_authority =
  rs_executionId :: string
  rs_sourceObjectKind :: string
  rs_sourceObjectId :: string
  rs_sourceRevisionId :: string
  rs_bindingSetRevisionId :: string
  rs_activationSetId :: "string option"
  rs_activationEpoch :: string
  rs_platformIncarnationId :: string
  rs_applicationDeploymentEpoch :: string

record revealed =
  rv_value :: string
  rv_fingerprint :: string
  rv_versionId :: string

definition secret_not_found :: js_error where
  "secret_not_found = Domain_Error ''KCIP_TARGET_NOT_FOUND''"

definition secret_conflict :: js_error where
  "secret_conflict = Domain_Error ''STATE_VERSION_CONFLICT''"

definition OWNER_API_KEY :: string where
  "OWNER_API_KEY = ''KCML_OWNER_API_KEY''"

section \<open>The statements the operations share\<close>

definition insert_record :: "secret_record_row \<Rightarrow> secret_db \<Rightarrow> secret_db outcome" where
  "insert_record r db = (if list_ex (\<lambda>x. sr_id x = sr_id r \<or> sr_stable_name x = sr_stable_name r) (sd_records db) then Inl (Pg_Error ''23505'')
     else Inr (db\<lparr>sd_records := sd_records db @ [r]\<rparr>))"

definition insert_version :: "secret_version_row \<Rightarrow> secret_db \<Rightarrow> secret_db outcome" where
  "insert_version v db = (if list_ex (\<lambda>x. vr_id x = vr_id v \<or> vr_secret_id x = vr_secret_id v \<and> vr_number x = vr_number v) (sd_versions db)
     then Inl (Pg_Error ''23505'') else Inr (db\<lparr>sd_versions := sd_versions db @ [v]\<rparr>))"

definition activate_version :: "string \<Rightarrow> string \<Rightarrow> secret_db \<Rightarrow> secret_db" where
  "activate_version vid logicalOperationId db = db\<lparr>sd_versions := sql_update (\<lambda>v. vr_id v = vid \<and> vr_lifecycle v = ''CREATED'')
     (\<lambda>v. v\<lparr>vr_lifecycle := ''ACTIVE'', vr_activation_operation := Some logicalOperationId\<rparr>) (sd_versions db)\<rparr>"

definition retire_version :: "string option \<Rightarrow> secret_db \<Rightarrow> secret_db" where
  "retire_version vid db = (case vid of None \<Rightarrow> db
   | Some i \<Rightarrow> db\<lparr>sd_versions := sql_update (\<lambda>v. vr_id v = i \<and> vr_lifecycle v = ''ACTIVE'') (\<lambda>v. v\<lparr>vr_lifecycle := ''RETIRED''\<rparr>) (sd_versions db)\<rparr>)"

definition set_record :: "string \<Rightarrow> (secret_record_row \<Rightarrow> secret_record_row) \<Rightarrow> secret_db \<Rightarrow> secret_db" where
  "set_record i f db = db\<lparr>sd_records := sql_update (\<lambda>r. sr_id r = i) f (sd_records db)\<rparr>"

definition allocate :: "string \<Rightarrow> string \<Rightarrow> string \<Rightarrow> secret_db \<Rightarrow> (secret_db \<times> int) outcome" where
  "allocate ns parent kind db = (case allocateContiguousSequence ns parent kind (sd_sequences db) of
     (t, r) \<Rightarrow> bindE r (\<lambda>n. Inr (db\<lparr>sd_sequences := t\<rparr>, n)))"

definition append_audit :: "string \<Rightarrow> string \<Rightarrow> cjson \<Rightarrow> secret_db \<Rightarrow> secret_db" where
  "append_audit event aggregate payload db = db\<lparr>sd_audit := sd_audit db @ [(event, aggregate, payload)]\<rparr>"

definition appendSecretOutbox :: "string \<Rightarrow> string \<Rightarrow> cjson \<Rightarrow> secret_db \<Rightarrow> secret_db outcome" where
  "appendSecretOutbox secretId eventType payload db =
     bindE (allocate ''TRANSACTIONAL_OUTBOX'' secretId ''SECRET_EVENT'' db) (\<lambda>(db1, n).
       Inr (db1\<lparr>sd_outbox := sd_outbox db1 @ [\<lparr>ob_stream_key = ''secret:'' @ secretId, ob_stream_sequence = n, ob_event_type = eventType,
         ob_aggregate_id = Some secretId, ob_payload = payload\<rparr>]\<rparr>))"

definition secret_aad :: "string \<Rightarrow> string \<Rightarrow> string \<Rightarrow> string" where
  "secret_aad secretId versionId stableName = secretId @ '':'' @ versionId @ '':'' @ stableName"

definition sealed_version ::
  "secret_services \<Rightarrow> byte list \<Rightarrow> string \<Rightarrow> string \<Rightarrow> string \<Rightarrow> int \<Rightarrow> string \<Rightarrow> string \<Rightarrow> secret_version_row" where
  "sealed_version sv nonce actorId secretId versionId n stableName value =
     (let e = encrypt (ss_gcm sv) (ss_sha256 sv) (ss_cipher sv) nonce value (secret_aad secretId versionId stableName) in
      \<lparr>vr_id = versionId, vr_secret_id = secretId, vr_number = n, vr_ciphertext = ce_ciphertext e, vr_nonce = ce_nonce e,
       vr_auth_tag = ce_authTag e, vr_key_id = ce_keyId e, vr_fingerprint = ce_fingerprint e, vr_value_digest = ce_valueDigest e,
       vr_lifecycle = ''CREATED'', vr_created_by = actorId, vr_activation_operation = None\<rparr>)"

definition open_version :: "secret_services \<Rightarrow> string \<Rightarrow> string \<Rightarrow> secret_version_row \<Rightarrow> string outcome" where
  "open_version sv secretId stableName v = decrypt (ss_gcm sv) (ss_to_text sv) (ss_cipher sv) (vr_ciphertext v) (vr_nonce v) (vr_auth_tag v)
     (secret_aad secretId (vr_id v) stableName)"

definition append_version ::
  "secret_services \<Rightarrow> byte list \<Rightarrow> string \<Rightarrow> string \<Rightarrow> string \<Rightarrow> string \<Rightarrow> string \<Rightarrow> secret_db \<Rightarrow> (secret_db \<times> secret_version_row) outcome" where
  "append_version sv nonce actorId secretId versionId stableName value db =
     bindE (allocate ''SECRET_VERSION'' secretId ''VERSION_NUMBER'' db) (\<lambda>(db1, n).
       let v = sealed_version sv nonce actorId secretId versionId n stableName value in
       bindE (insert_version v db1) (\<lambda>db2. Inr (db2, v)))"

text \<open>The end of a transaction: the event goes to the outbox and to the audit log.\<close>

definition publish :: "string \<Rightarrow> string \<Rightarrow> string \<Rightarrow> cjson \<Rightarrow> 'a \<Rightarrow> secret_db \<Rightarrow> (secret_db \<times> 'a) outcome" where
  "publish secretId aggregate event payload result db =
     bindE (appendSecretOutbox secretId event payload db) (\<lambda>db1. Inr (append_audit event aggregate payload db1, result))"

section \<open>Creating and changing secrets\<close>

record secret_input =
  si_stableName :: string
  si_displayName :: string
  si_kind :: string
  si_value :: string
  si_metadata :: cjson

text \<open>\<^verbatim>\<open>/^[A-Z][A-Z0-9_]{1,127}$/u\<close>\<close>

definition is_stable_name :: "string \<Rightarrow> bool" where
  "is_stable_name s = (case s of [] \<Rightarrow> False
     | c # cs \<Rightarrow> is_upper c \<and> 1 \<le> length cs \<and> length cs \<le> 127 \<and> list_all (\<lambda>x. is_upper x \<or> is_digit x \<or> x = CHR ''_'') cs)"

definition secret_kinds :: "string list" where
  "secret_kinds = [''PASSWORD'', ''API_KEY'', ''TOKEN'', ''TOTP'', ''CERTIFICATE'', ''PRIVATE_KEY'', ''OPAQUE'']"

definition secretInputSchema :: "cjson \<Rightarrow> secret_input outcome" where
  "secretInputSchema v = (case v of CObj es \<Rightarrow>
     if list_all (\<lambda>(k, _). k \<in> set [''stableName'', ''displayName'', ''kind'', ''value'', ''metadata'']) es then
       (case (map_of es ''stableName'', map_of es ''displayName'', map_of es ''kind'', map_of es ''value'', map_of es ''metadata'') of
          (Some (CStr n), Some (CStr d), Some (CStr k), Some (CStr x), m) \<Rightarrow>
            let metadata = (case m of None \<Rightarrow> Some [] | Some (CObj ms) \<Rightarrow> Some ms | _ \<Rightarrow> None) in
            (case metadata of None \<Rightarrow> Inl Zod_Error
             | Some ms \<Rightarrow> if is_stable_name n \<and> 1 \<le> length d \<and> length d \<le> 200 \<and> k \<in> set secret_kinds \<and> 1 \<le> length x \<and> length x \<le> 1048576
                 then Inr \<lparr>si_stableName = n, si_displayName = d, si_kind = k, si_value = x, si_metadata = CObj ms\<rparr> else Inl Zod_Error)
        | _ \<Rightarrow> Inl Zod_Error)
     else Inl Zod_Error
   | _ \<Rightarrow> Inl Zod_Error)"

definition new_secret_row :: "string \<Rightarrow> string \<Rightarrow> string \<Rightarrow> string \<Rightarrow> cjson \<Rightarrow> int \<Rightarrow> authority_head \<Rightarrow> secret_record_row" where
  "new_secret_row i stableName displayName kind metadata now recovery = \<lparr>sr_id = i, sr_stable_name = stableName, sr_display_name = displayName,
     sr_kind = kind, sr_lifecycle = ''ACTIVE'', sr_active_version = None, sr_activation_epoch = 0, sr_metadata = metadata, sr_updated_at = now,
     sr_deleted = False, sr_state_version = 1, sr_incarnation = ln_incarnation (ah_lineage recovery), sr_deployment = ln_deployment (ah_lineage recovery)\<rparr>"

text \<open>Both ways to create a secret activate its first version.\<close>

definition first_activation :: "string \<Rightarrow> string \<Rightarrow> string \<Rightarrow> int \<Rightarrow> secret_db \<Rightarrow> secret_db" where
  "first_activation i versionId logicalOperationId now db =
     set_record i (\<lambda>r. r\<lparr>sr_active_version := Some versionId, sr_activation_epoch := 1, sr_state_version := sr_state_version r + 1, sr_updated_at := now\<rparr>)
       (activate_version versionId logicalOperationId db)"

definition create_tx ::
  "secret_services \<Rightarrow> string \<Rightarrow> string \<Rightarrow> byte list \<Rightarrow> int \<Rightarrow> string \<Rightarrow> string \<Rightarrow> secret_input \<Rightarrow> secret_db \<Rightarrow> (secret_db \<times> unit) outcome" where
  "create_tx sv i versionId nonce now actorId logicalOperationId input db =
     bindE (lockAndVerifyPlatformRecovery (sd_recovery db)) (\<lambda>recovery.
     bindE (insert_record (new_secret_row i (si_stableName input) (si_displayName input) (si_kind input) (si_metadata input) now recovery) db) (\<lambda>db1.
     bindE (append_version sv nonce actorId i versionId (si_stableName input) (si_value input) db1) (\<lambda>(db2, v).
     let payload = CObj [(''stableName'', CStr (si_stableName input)), (''versionId'', CStr versionId), (''versionNumber'', CStr (int_text (vr_number v))),
           (''fingerprint'', CStr (vr_fingerprint v)), (''logicalOperationId'', CStr logicalOperationId)] in
     publish i i ''secret.created'' payload () (first_activation i versionId logicalOperationId now db2))))"

definition get_secret :: "string \<Rightarrow> secret_db \<Rightarrow> secret_summary outcome" where
  "get_secret i db = (case sql_first (\<lambda>r. sr_id r = i \<and> \<not> sr_deleted r) (sd_records db) of
     None \<Rightarrow> Inl secret_not_found
   | Some r \<Rightarrow> Inr \<lparr>su_id = sr_id r, su_stableName = sr_stable_name r, su_displayName = sr_display_name r, su_kind = sr_kind r,
       su_activeVersionId = sr_active_version r, su_secretActivationEpoch = sr_activation_epoch r,
       su_fingerprint = map_option vr_fingerprint (sql_first (\<lambda>v. Some (vr_id v) = sr_active_version r) (sd_versions db)),
       su_stateVersion = sr_state_version r, su_updatedAt = sr_updated_at r\<rparr>)"

text \<open>An operation that is one transaction keeps the state when it throws; the result of the read after it is separate.\<close>

definition committed :: "secret_db \<Rightarrow> (secret_db \<times> 'a) outcome \<Rightarrow> secret_db \<times> 'a outcome" where
  "committed db r = (case r of Inl e \<Rightarrow> (db, Inl e) | Inr (db', v) \<Rightarrow> (db', Inr v))"

definition create_secret ::
  "secret_services \<Rightarrow> string \<Rightarrow> string \<Rightarrow> byte list \<Rightarrow> int \<Rightarrow> string \<Rightarrow> string \<Rightarrow> cjson \<Rightarrow> secret_db \<Rightarrow> secret_db \<times> secret_summary outcome" where
  "create_secret sv i versionId nonce now actorId logicalOperationId inputValue db =
     (case secretInputSchema inputValue of
        Inl e \<Rightarrow> (db, Inl e)
      | Inr input \<Rightarrow> (case committed db (create_tx sv i versionId nonce now actorId logicalOperationId input db) of
          (db1, Inl e) \<Rightarrow> (db1, Inl e)
        | (db1, Inr _) \<Rightarrow> (db1, get_secret i db1)))"

definition locked_secret :: "string \<Rightarrow> int \<Rightarrow> secret_db \<Rightarrow> secret_record_row outcome" where
  "locked_secret i expectedStateVersion db = (case sql_first (\<lambda>r. sr_id r = i \<and> \<not> sr_deleted r) (sd_records db) of
     None \<Rightarrow> Inl secret_not_found
   | Some r \<Rightarrow> if sr_state_version r \<noteq> expectedStateVersion then Inl secret_conflict else Inr r)"

definition addVersion_tx ::
  "secret_services \<Rightarrow> string \<Rightarrow> byte list \<Rightarrow> int \<Rightarrow> string \<Rightarrow> string \<Rightarrow> string \<Rightarrow> string \<Rightarrow> int \<Rightarrow> bool \<Rightarrow> secret_db
   \<Rightarrow> (secret_db \<times> secret_summary) outcome" where
  "addVersion_tx sv versionId nonce now actorId logicalOperationId secretId value expectedStateVersion activate db =
     bindE (lockAndVerifyPlatformRecovery (sd_recovery db)) (\<lambda>recovery.
     bindE (locked_secret secretId expectedStateVersion db) (\<lambda>row.
     bindE (append_version sv nonce actorId secretId versionId (sr_stable_name row) value db) (\<lambda>(db2, v).
     let db3 = (if activate
           then set_record secretId (\<lambda>r. r\<lparr>sr_active_version := Some versionId, sr_activation_epoch := sr_activation_epoch r + 1,
               sr_state_version := sr_state_version r + 1, sr_updated_at := now\<rparr>)
             (activate_version versionId logicalOperationId (retire_version (sr_active_version row) db2))
           else db2);
         payload = CObj [(''secretId'', CStr secretId), (''versionId'', CStr versionId), (''versionNumber'', CStr (int_text (vr_number v))),
           (''activate'', CBool activate), (''fingerprint'', CStr (vr_fingerprint v)), (''logicalOperationId'', CStr logicalOperationId)];
         db4 = set_record secretId (\<lambda>r. r\<lparr>sr_incarnation := ln_incarnation (ah_lineage recovery), sr_deployment := ln_deployment (ah_lineage recovery)\<rparr>) db3;
         event = (if activate then ''secret.version.activated'' else ''secret.version.created'') in
     publish secretId secretId event payload
         \<lparr>su_id = secretId, su_stableName = sr_stable_name row, su_displayName = sr_display_name row, su_kind = sr_kind row,
          su_activeVersionId = (if activate then Some versionId else sr_active_version row),
          su_secretActivationEpoch = sr_activation_epoch row + (if activate then 1 else 0),
          su_fingerprint = (if activate then Some (vr_fingerprint v) else None),
          su_stateVersion = (if activate then sr_state_version row + 1 else sr_state_version row), su_updatedAt = now\<rparr> db4)))"

definition as_object :: "cjson \<Rightarrow> json_object" where
  "as_object v = (case v of CObj es \<Rightarrow> es | _ \<Rightarrow> [])"

definition update_tx ::
  "int \<Rightarrow> string \<Rightarrow> string \<Rightarrow> cjson \<Rightarrow> int \<Rightarrow> secret_db \<Rightarrow> (secret_db \<times> secret_summary) outcome" where
  "update_tx now logicalOperationId i input expectedStateVersion db =
     bindE (lockAndVerifyPlatformRecovery (sd_recovery db)) (\<lambda>recovery.
     bindE (locked_secret i expectedStateVersion db) (\<lambda>current.
     let body = as_object input;
         displayName = (case map_of body ''displayName'' of Some (CStr s) \<Rightarrow> s | _ \<Rightarrow> sr_display_name current);
         metadata = (case map_of body ''metadata'' of Some (CObj es) \<Rightarrow> CObj es | _ \<Rightarrow> sr_metadata current);
         db1 = set_record i (\<lambda>r. r\<lparr>sr_display_name := displayName, sr_metadata := metadata, sr_incarnation := ln_incarnation (ah_lineage recovery),
           sr_deployment := ln_deployment (ah_lineage recovery), sr_state_version := sr_state_version r + 1, sr_updated_at := now\<rparr>) db;
         payload = CObj [(''id'', CStr i), (''displayName'', CStr displayName), (''logicalOperationId'', CStr logicalOperationId)] in
     publish i i ''secret.updated'' payload
         \<lparr>su_id = i, su_stableName = sr_stable_name current, su_displayName = displayName, su_kind = sr_kind current,
          su_activeVersionId = sr_active_version current, su_secretActivationEpoch = sr_activation_epoch current, su_fingerprint = None,
          su_stateVersion = expectedStateVersion + 1, su_updatedAt = now\<rparr> db1))"

definition softDelete_tx :: "int \<Rightarrow> string \<Rightarrow> string \<Rightarrow> int \<Rightarrow> secret_db \<Rightarrow> (secret_db \<times> int) outcome" where
  "softDelete_tx now logicalOperationId i expectedStateVersion db =
     bindE (lockAndVerifyPlatformRecovery (sd_recovery db)) (\<lambda>recovery.
     let sel = (\<lambda>r. sr_id r = i \<and> \<not> sr_deleted r \<and> sr_state_version r = expectedStateVersion);
         db1 = db\<lparr>sd_records := sql_update sel (\<lambda>r. r\<lparr>sr_lifecycle := ''CLOSED'', sr_deleted := True, sr_incarnation := ln_incarnation (ah_lineage recovery),
           sr_deployment := ln_deployment (ah_lineage recovery), sr_state_version := sr_state_version r + 1, sr_updated_at := now\<rparr>) (sd_records db)\<rparr> in
     if sql_count sel (sd_records db) \<noteq> 1 then Inl secret_conflict
     else let payload = CObj [(''id'', CStr i), (''deleted'', CBool True), (''logicalOperationId'', CStr logicalOperationId)] in
       publish i i ''secret.deleted'' payload (expectedStateVersion + 1) db1)"

section \<open>Revealing a value\<close>

definition insert_access :: "access_row \<Rightarrow> secret_db \<Rightarrow> secret_db outcome" where
  "insert_access a db = (if list_ex (\<lambda>x. ac_stable_key x = ac_stable_key a) (sd_accesses db) then Inl (Pg_Error ''23505'')
     else Inr (db\<lparr>sd_accesses := sd_accesses db @ [a]\<rparr>))"

definition active_version_of :: "secret_record_row \<Rightarrow> secret_db \<Rightarrow> secret_version_row option" where
  "active_version_of r db = sql_first (\<lambda>v. Some (vr_id v) = sr_active_version r \<and> vr_lifecycle v = ''ACTIVE'') (sd_versions db)"

definition reveal_tx ::
  "secret_services \<Rightarrow> string \<Rightarrow> string \<Rightarrow> string \<Rightarrow> string \<Rightarrow> secret_db \<Rightarrow> (secret_db \<times> revealed) outcome" where
  "reveal_tx sv actorId logicalOperationId correlationId secretId db =
     bindE (lockAndVerifyPlatformRecovery (sd_recovery db)) (\<lambda>recovery.
     case sql_first (\<lambda>r. sr_id r = secretId \<and> \<not> sr_deleted r \<and> active_version_of r db \<noteq> None) (sd_records db) of
       None \<Rightarrow> Inl secret_not_found
     | Some r \<Rightarrow> (case active_version_of r db of
         None \<Rightarrow> Inl secret_not_found
       | Some v \<Rightarrow>
           let payload = CObj [(''secretId'', CStr secretId), (''versionId'', CStr (vr_id v)), (''fingerprint'', CStr (vr_fingerprint v)),
                 (''actorId'', CStr actorId), (''logicalOperationId'', CStr logicalOperationId)] in
           bindE (insert_access \<lparr>ac_stable_key = secretId @ '':'' @ vr_id v @ '':'' @ correlationId, ac_secret_id = secretId, ac_version_id = vr_id v,
               ac_context = logicalOperationId, ac_binding_id = None, ac_purpose = ''OWNER_REVEAL'', ac_operation = ''secret.reveal''\<rparr> db) (\<lambda>db1.
           bindE (open_version sv secretId (sr_stable_name r) v) (\<lambda>value.
             Inr (append_audit ''secret.revealed'' secretId payload db1,
               \<lparr>rv_value = value, rv_fingerprint = vr_fingerprint v, rv_versionId = vr_id v\<rparr>)))))"

text \<open>\<^verbatim>\<open>/^[A-Za-z0-9][A-Za-z0-9._:/-]{0,127}$/u\<close>\<close>

definition is_binding_alias :: "string \<Rightarrow> bool" where
  "is_binding_alias s = (let word = (\<lambda>c. is_upper c \<or> is_lower c \<or> is_digit c) in
     case s of [] \<Rightarrow> False | c # cs \<Rightarrow> word c \<and> length cs \<le> 127 \<and> list_all (\<lambda>x. word x \<or> x \<in> set ''._:/-'') cs)"

text \<open>The rows of the join: the binding the alias names, its live secret, the secret's active version and the member of
  the binding set that authorizes the use.\<close>

definition usable_binding :: "int \<Rightarrow> runtime_secret_authority \<Rightarrow> string \<Rightarrow> string \<Rightarrow> secret_binding_row \<Rightarrow> bool" where
  "usable_binding now a bindingAlias purpose b = (sb_stable_key b = bindingAlias \<and> sb_lifecycle b = ''ACTIVE'' \<and> \<not> sb_deleted b \<and> \<not> sb_retired b
     \<and> sb_source_kind b = rs_sourceObjectKind a \<and> sb_source_id b = rs_sourceObjectId a \<and> sb_source_revision b = rs_sourceRevisionId a
     \<and> sb_usage_purpose b = purpose \<and> (case sb_expires_at b of None \<Rightarrow> True | Some t \<Rightarrow> now < t)
     \<and> sb_activation_epoch b = rs_activationEpoch a \<and> sb_incarnation b = rs_platformIncarnationId a
     \<and> sb_deployment b = rs_applicationDeploymentEpoch a \<and> sb_activation_set b = rs_activationSetId a)"

definition authorizing_member :: "runtime_secret_authority \<Rightarrow> string \<Rightarrow> string \<Rightarrow> secret_binding_row \<Rightarrow> binding_member_row \<Rightarrow> bool" where
  "authorizing_member a operation purpose b m = (bm_revision_id m = rs_bindingSetRevisionId a \<and> bm_kind m = ''SECRET'' \<and> bm_operation m = operation
     \<and> bm_purpose m = purpose \<and> bm_source_object m = Some (rs_sourceObjectId a) \<and> bm_source_revision m = Some (rs_sourceRevisionId a)
     \<and> (bm_target_binding m = Some (sb_id b) \<or> bm_target_secret m = Some (sb_secret_id b)))"

definition binding_rows ::
  "int \<Rightarrow> runtime_secret_authority \<Rightarrow> string \<Rightarrow> string \<Rightarrow> string \<Rightarrow> secret_db \<Rightarrow> (secret_binding_row \<times> secret_record_row \<times> secret_version_row) list" where
  "binding_rows now a bindingAlias purpose operation db =
     [(b, r, v). b \<leftarrow> sd_bindings db, usable_binding now a bindingAlias purpose b,
        r \<leftarrow> sd_records db, sr_id r = sb_secret_id b \<and> \<not> sr_deleted r,
        v \<leftarrow> sd_versions db, Some (vr_id v) = sr_active_version r \<and> vr_lifecycle v = ''ACTIVE'',
        m \<leftarrow> sd_members db, authorizing_member a operation purpose b m]"

text \<open>\<^verbatim>\<open>selector?.versionId ?? selector?.version_id\<close>, where null and an absent property are alike.\<close>

definition pinned_version :: "cjson \<Rightarrow> cjson" where
  "pinned_version selector = (case map_of (as_object selector) ''versionId'' of
     Some v \<Rightarrow> if v \<noteq> CNull then v else (case map_of (as_object selector) ''version_id'' of Some w \<Rightarrow> w | None \<Rightarrow> CNull)
   | None \<Rightarrow> (case map_of (as_object selector) ''version_id'' of Some w \<Rightarrow> w | None \<Rightarrow> CNull))"

fun truthy_json :: "cjson \<Rightarrow> bool" where
  "truthy_json CNull = False"
| "truthy_json (CBool b) = b"
| "truthy_json (CStr s) = (s \<noteq> [])"
| "truthy_json (CNum n) = (n \<noteq> JInt 0)"
| "truthy_json (CArr _) = True"
| "truthy_json (CObj _) = True"

definition insert_resolution :: "resolution_row \<Rightarrow> secret_db \<Rightarrow> secret_db outcome" where
  "insert_resolution x db = (if list_ex (\<lambda>y. rn_id y = rn_id x \<or> rn_stable_key y = rn_stable_key x) (sd_resolutions db) then Inl (Pg_Error ''23505'')
     else Inr (db\<lparr>sd_resolutions := sd_resolutions db @ [x]\<rparr>))"

definition binding_tx ::
  "secret_services \<Rightarrow> int \<Rightarrow> string \<Rightarrow> string \<Rightarrow> runtime_secret_authority \<Rightarrow> string \<Rightarrow> string \<Rightarrow> string \<Rightarrow> secret_db
   \<Rightarrow> (secret_db \<times> (revealed \<times> string)) outcome" where
  "binding_tx sv now resolutionId correlationId a bindingAlias purpose operation db =
     bindE (lockAndVerifyPlatformRecovery (sd_recovery db)) (\<lambda>recovery.
     if ln_incarnation (ah_lineage recovery) \<noteq> rs_platformIncarnationId a \<or> int_text (ln_deployment (ah_lineage recovery)) \<noteq> rs_applicationDeploymentEpoch a
     then Inl (Plain_Error ''RUNTIME_EXECUTION_AUTHORITY_STALE'')
     else (case binding_rows now a bindingAlias purpose operation db of
       [(b, r, v)] \<Rightarrow>
         let pinned = pinned_version (sb_version_selector b) in
         if sb_version_policy b \<notin> {''PINNED_VERSION'', ''CURRENT_ACTIVE''} then Inl (Plain_Error ''SECRET_BINDING_VERSION_POLICY_INVALID'')
         else if sb_version_policy b = ''PINNED_VERSION'' \<and> \<not> truthy_json pinned then Inl (Plain_Error ''SECRET_BINDING_VERSION_POLICY_INVALID'')
         else if truthy_json pinned \<and> js_string pinned \<noteq> vr_id v then Inl (Plain_Error ''SECRET_BINDING_VERSION_STALE'')
         else let evidence = CObj [(''executionId'', CStr (rs_executionId a)), (''bindingId'', CStr (sb_id b)), (''bindingRevision'', CStr (int_text (sb_revision b))),
               (''bindingSetRevisionId'', CStr (rs_bindingSetRevisionId a)), (''purpose'', CStr purpose), (''operation'', CStr operation),
               (''secretId'', CStr (sb_secret_id b)), (''versionId'', CStr (vr_id v)), (''fingerprint'', CStr (vr_fingerprint v)),
               (''activationEpoch'', CStr (rs_activationEpoch a))] in
           bindE (insert_resolution \<lparr>rn_id = resolutionId, rn_stable_key = rs_executionId a @ '':'' @ bindingAlias @ '':'' @ correlationId,
               rn_context = rs_executionId a, rn_secret_id = sb_secret_id b, rn_binding_id = sb_id b, rn_binding_revision = sb_revision b,
               rn_requested_name = bindingAlias, rn_purpose = purpose, rn_target = sb_target_id b, rn_version_id = vr_id v,
               rn_secret_epoch = sr_activation_epoch r, rn_source_revision = rs_sourceRevisionId a, rn_source_epoch = rs_activationEpoch a,
               rn_fingerprint = vr_fingerprint v,
               rn_expires_at = (case sb_expires_at b of None \<Rightarrow> now + 300000 | Some t \<Rightarrow> min t (now + 300000))\<rparr> db) (\<lambda>db1.
           bindE (insert_access \<lparr>ac_stable_key = resolutionId @ '':access'', ac_secret_id = sb_secret_id b, ac_version_id = vr_id v,
               ac_context = rs_executionId a, ac_binding_id = Some (sb_id b), ac_purpose = purpose, ac_operation = operation\<rparr> db1) (\<lambda>db2.
           bindE (open_version sv (sb_secret_id b) (sr_stable_name r) v) (\<lambda>value.
             Inr (append_audit ''secret.used'' resolutionId evidence db2,
               (\<lparr>rv_value = value, rv_fingerprint = vr_fingerprint v, rv_versionId = vr_id v\<rparr>, sb_id b)))))
     | _ \<Rightarrow> Inl (Plain_Error ''SECRET_BINDING_NOT_AUTHORIZED'')))"

definition revealForRuntimeBinding ::
  "secret_services \<Rightarrow> int \<Rightarrow> string \<Rightarrow> string \<Rightarrow> runtime_secret_authority \<Rightarrow> string \<Rightarrow> string \<Rightarrow> string \<Rightarrow> secret_db
   \<Rightarrow> (secret_db \<times> (revealed \<times> string)) outcome" where
  "revealForRuntimeBinding sv now resolutionId correlationId a bindingAlias purpose operation db =
     (if \<not> is_binding_alias bindingAlias then Inl (Plain_Error ''SECRET_BINDING_ALIAS_INVALID'')
      else if purpose = [] \<or> length purpose > 256 then Inl (Plain_Error ''SECRET_PURPOSE_INVALID'')
      else binding_tx sv now resolutionId correlationId a bindingAlias purpose operation db)"

text \<open>The export reveals one secret after the other, each in a transaction of its own; the identifiers of the
  transactions are given by the number of secrets left. The order of the names is the database's.\<close>

record exported =
  ex_stableName :: string
  ex_displayName :: string
  ex_kind :: string
  ex_metadata :: cjson
  ex_value :: string
  ex_fingerprint :: string

fun export_all ::
  "secret_services \<Rightarrow> string \<Rightarrow> (nat \<Rightarrow> string \<times> string) \<Rightarrow> secret_record_row list \<Rightarrow> secret_db \<Rightarrow> secret_db \<times> exported list outcome" where
  "export_all sv actorId fresh [] db = (db, Inr [])"
| "export_all sv actorId fresh (r # rs) db = (case committed db (reveal_tx sv actorId (fst (fresh (length rs))) (snd (fresh (length rs))) (sr_id r) db) of
     (db1, Inl e) \<Rightarrow> (db1, Inl e)
   | (db1, Inr v) \<Rightarrow> (case export_all sv actorId fresh rs db1 of
       (db2, Inl e) \<Rightarrow> (db2, Inl e)
     | (db2, Inr out) \<Rightarrow> (db2, Inr (\<lparr>ex_stableName = sr_stable_name r, ex_displayName = sr_display_name r, ex_kind = sr_kind r,
         ex_metadata = sr_metadata r, ex_value = rv_value v, ex_fingerprint = rv_fingerprint v\<rparr> # out))))"

definition exportActive :: "secret_services \<Rightarrow> string \<Rightarrow> (nat \<Rightarrow> string \<times> string) \<Rightarrow> secret_db \<Rightarrow> secret_db \<times> exported list outcome" where
  "exportActive sv actorId fresh db =
     export_all sv actorId fresh (js_sort (\<lambda>r s. ss_collation sv (sr_stable_name r) (sr_stable_name s)) (filter (\<lambda>r. \<not> sr_deleted r) (sd_records db))) db"

section \<open>The owner's API key\<close>

definition present :: "string option \<Rightarrow> bool" where
  "present x = (x \<noteq> None \<and> x \<noteq> Some [])"

definition api_key_value :: "string \<Rightarrow> string" where
  "api_key_value token = ''kcml_live_'' @ token"

definition ensure_tx ::
  "secret_services \<Rightarrow> string \<Rightarrow> string \<Rightarrow> byte list \<Rightarrow> string \<Rightarrow> int \<Rightarrow> string \<Rightarrow> string \<Rightarrow> secret_db
   \<Rightarrow> (secret_db \<times> (bool \<times> string option \<times> string)) outcome" where
  "ensure_tx sv secretId versionId nonce token now actorId logicalOperationId db =
     bindE (lockAndVerifyPlatformRecovery (sd_recovery db)) (\<lambda>recovery.
     case sd_credential db of
       None \<Rightarrow> Inl (Plain_Error ''TypeError'')
     | Some c \<Rightarrow>
         if present (cr_secret_id c) \<and> present (cr_secret_version_id c) \<and> present (cr_fingerprint c)
         then Inr (db, (False, None, the (cr_fingerprint c)))
         else let value = api_key_value token; fp = fingerprint (ss_sha256 sv) value in
           bindE (insert_record (new_secret_row secretId OWNER_API_KEY ''OWNER API key'' ''API_KEY'' (CObj []) now recovery) db) (\<lambda>db1.
           bindE (append_version sv nonce actorId secretId versionId OWNER_API_KEY value db1) (\<lambda>(db2, v).
           let db3 = (first_activation secretId versionId logicalOperationId now db2)\<lparr>sd_credential := Some (c\<lparr>cr_secret_id := Some secretId, cr_secret_version_id := Some versionId,
                 cr_verifier_hash := Some (tokenDigest (ss_sha256 sv) value), cr_fingerprint := Some fp, cr_version := 1, cr_activation_epoch := 1,
                 cr_last_rotate := Some logicalOperationId, cr_state_version := cr_state_version c + 1\<rparr>)\<rparr>;
               payload = CObj [(''secretId'', CStr secretId), (''versionId'', CStr versionId), (''fingerprint'', CStr fp),
                 (''logicalOperationId'', CStr logicalOperationId)] in
           publish secretId (cr_id c) ''owner.api_key.initialized'' payload (True, Some value, fp) db3)))"

record rotation_outcome =
  ro_fingerprint :: "string option"
  ro_credentialVersion :: int
  ro_stateVersion :: int

definition rotation_digest :: "secret_services \<Rightarrow> rotation_outcome \<Rightarrow> byte list" where
  "rotation_digest sv x = tokenDigest (ss_sha256 sv) (canonicalJson (ss_collation sv) (CObj [(''fingerprint'', opt_text (ro_fingerprint x)),
     (''credentialVersion'', CStr (int_text (ro_credentialVersion x))), (''stateVersion'', CStr (int_text (ro_stateVersion x)))]))"

definition rotate_tx ::
  "secret_services \<Rightarrow> string \<Rightarrow> byte list \<Rightarrow> string \<Rightarrow> int \<Rightarrow> int \<Rightarrow> string \<Rightarrow> string \<Rightarrow> secret_db \<Rightarrow> (secret_db \<times> rotation_outcome) outcome" where
  "rotate_tx sv versionId nonce token now expectedStateVersion actorId logicalOperationId db =
     bindE (lockAndVerifyPlatformRecovery (sd_recovery db)) (\<lambda>recovery.
     case sd_credential db of
       None \<Rightarrow> Inl (Domain_Error ''AGENTIC_OPERATION_CONTEXT_INVALID'')
     | Some c \<Rightarrow>
         if \<not> present (cr_secret_id c) then Inl (Domain_Error ''AGENTIC_OPERATION_CONTEXT_INVALID'')
         else if cr_state_version c \<noteq> expectedStateVersion then Inl secret_conflict
         else if cr_last_rotate c = Some logicalOperationId \<and> cr_last_outcome_digest c \<noteq> None
         then Inr (db, \<lparr>ro_fingerprint = cr_fingerprint c, ro_credentialVersion = cr_version c,
           ro_stateVersion = cr_state_version c\<rparr>)
         else (case sql_first (\<lambda>r. Some (sr_id r) = cr_secret_id c) (sd_records db) of
           None \<Rightarrow> Inl (Domain_Error ''AGENTIC_OWNER_INTENT_MISSING'')
         | Some secret \<Rightarrow>
             let value = api_key_value token; secretId = sr_id secret in
             bindE (append_version sv nonce actorId secretId versionId OWNER_API_KEY value db) (\<lambda>(db2, v).
             let db3 = activate_version versionId logicalOperationId (retire_version (sr_active_version secret) db2);
                 db4 = set_record secretId (\<lambda>r. r\<lparr>sr_active_version := Some versionId, sr_activation_epoch := sr_activation_epoch r + 1,
                   sr_incarnation := ln_incarnation (ah_lineage recovery), sr_deployment := ln_deployment (ah_lineage recovery),
                   sr_state_version := sr_state_version r + 1, sr_updated_at := now\<rparr>) db3;
                 result = \<lparr>ro_fingerprint = Some (fingerprint (ss_sha256 sv) value), ro_credentialVersion = cr_version c + 1, ro_stateVersion = cr_state_version c + 1\<rparr>;
                 db5 = db4\<lparr>sd_credential := Some (c\<lparr>cr_secret_version_id := Some versionId, cr_verifier_hash := Some (tokenDigest (ss_sha256 sv) value),
                   cr_fingerprint := ro_fingerprint result, cr_version := ro_credentialVersion result,
                   cr_activation_epoch := cr_activation_epoch c + 1, cr_last_rotate := Some logicalOperationId,
                   cr_last_outcome_digest := Some (rotation_digest sv result), cr_state_version := cr_state_version c + 1\<rparr>)\<rparr>;
                 payload = CObj [(''logicalOperationId'', CStr logicalOperationId), (''fingerprint'', opt_text (ro_fingerprint result)),
                   (''credentialVersion'', CStr (int_text (ro_credentialVersion result))), (''secretVersionId'', CStr versionId)] in
             publish secretId (cr_id c) ''owner.api_key.rotated'' payload result db5)))"

section \<open>What the read operations report\<close>

text \<open>\<^verbatim>\<open>name.replace(/([a-z0-9])([A-Z])/gu,'$1_$2').toUpperCase()\<close>\<close>

fun snake_case :: "string \<Rightarrow> string" where
  "snake_case [] = []"
| "snake_case [c] = [c]"
| "snake_case (c # d # cs) = (if (is_lower c \<or> is_digit c) \<and> is_upper d then c # CHR ''_'' # snake_case (d # cs) else c # snake_case (d # cs))"

definition issue_names :: "string \<Rightarrow> (string \<times> bool) list \<Rightarrow> string list" where
  "issue_names prefix checks = map (\<lambda>(name, _). prefix @ upper_text (snake_case name)) (filter (\<lambda>(_, passed). \<not> passed) checks)"

definition recovery_ready :: "recovery_row \<Rightarrow> bool" where
  "recovery_ready r = (rr_state r = ''READY'' \<and> rr_database_start_identity r = rr_current_database_identity r
     \<and> ln_incarnation (rr_lineage r) = rr_current_incarnation r \<and> ln_deployment (rr_lineage r) = rr_current_epoch r)"

text \<open>The checks in the order of the keys of a \<^verbatim>\<open>jsonb\<close> object: by length, then by bytes.\<close>

definition usage_checks :: "recovery_row \<Rightarrow> secret_record_row \<Rightarrow> secret_db \<Rightarrow> (string \<times> bool) list" where
  "usage_checks h r db = (let active_versions = sql_count (\<lambda>v. vr_secret_id v = sr_id r \<and> vr_lifecycle v = ''ACTIVE'') (sd_versions db);
       active = sql_first (\<lambda>v. Some (vr_id v) = sr_active_version r \<and> vr_secret_id v = sr_id r) (sd_versions db) in
     [(''recoveryReady'', recovery_ready h),
      (''recordLineageCurrent'', sr_incarnation r = rr_current_incarnation h \<and> sr_deployment r = rr_current_epoch h),
      (''activePointerConsistent'', sr_active_version r = None \<and> active_versions = 0
         \<or> (case active of None \<Rightarrow> False | Some v \<Rightarrow> vr_lifecycle v = ''ACTIVE'' \<and> active_versions = 1)),
      (''activationEpochConsistent'', sr_active_version r = None \<and> sr_activation_epoch r \<ge> 0
         \<or> sr_active_version r \<noteq> None \<and> sr_activation_epoch r > 0),
      (''activeLifecycleConsistent'', sr_lifecycle r = ''ACTIVE'' \<and> \<not> sr_deleted r \<or> sr_lifecycle r = ''CLOSED'' \<and> sr_deleted r)])"

definition report_limit :: "cjson option \<Rightarrow> int \<Rightarrow> int outcome" where
  "report_limit value defaultValue = (case value of
     None \<Rightarrow> Inr defaultValue
   | Some (CNum (JInt n)) \<Rightarrow> if 1 \<le> n \<and> n \<le> 500 then Inr n else Inl schema_invalid
   | _ \<Rightarrow> Inl schema_invalid)"

definition reportSecretUsage :: "string option \<Rightarrow> json_object \<Rightarrow> secret_db \<Rightarrow> ((string \<times> bool) list \<times> string list) outcome" where
  "reportSecretUsage targetId args db = (case targetId of
     None \<Rightarrow> Inl schema_invalid
   | Some i \<Rightarrow> if \<not> is_uuid_text i then Inl schema_invalid
       else bindE (report_limit (map_of args ''accessLimit'') 100) (\<lambda>_. bindE (report_limit (map_of args ''resolutionLimit'') 100) (\<lambda>_.
         case (sql_first (\<lambda>r. sr_id r = lower_text i) (sd_records db), sd_recovery db) of
           (Some r, Some h) \<Rightarrow> Inr (usage_checks h r db, issue_names ''SECRET_USAGE_'' (usage_checks h r db))
         | _ \<Rightarrow> Inl secret_not_found)))"

text \<open>The table constrains the stable name of the credential to the reserved name, so that check is always met.\<close>

definition owner_key_checks :: "recovery_row \<Rightarrow> credential_row \<Rightarrow> secret_db \<Rightarrow> (string \<times> bool) list" where
  "owner_key_checks h c db = (let initialized = (present (cr_secret_id c) \<and> present (cr_secret_version_id c) \<and> present (cr_fingerprint c));
       record = sql_first (\<lambda>r. Some (sr_id r) = cr_secret_id c) (sd_records db);
       version = sql_first (\<lambda>v. Some (vr_id v) = cr_secret_version_id c \<and> Some (vr_secret_id v) = cr_secret_id c) (sd_versions db) in
     [(''recoveryReady'', recovery_ready h),
      (''singletonStableName'', True),
      (''initializationAtomic'', if initialized
         then (case (record, version) of (Some r, Some _) \<Rightarrow> sr_stable_name r = OWNER_API_KEY \<and> sr_lifecycle r = ''ACTIVE'' \<and> \<not> sr_deleted r | _ \<Rightarrow> False)
         else cr_secret_id c = None \<and> cr_secret_version_id c = None \<and> cr_fingerprint c = None \<and> cr_version c = 0 \<and> cr_activation_epoch c = 0),
      (''activePointerConsistent'', if initialized
         then (case (record, version) of (Some r, Some v) \<Rightarrow> sr_active_version r = cr_secret_version_id c \<and> vr_lifecycle v = ''ACTIVE'' | _ \<Rightarrow> False)
         else (case record of None \<Rightarrow> True | Some r \<Rightarrow> sr_active_version r = None)),
      (''fingerprintConsistent'', if initialized then cr_fingerprint c = map_option vr_fingerprint version else version = None),
      (''epochConsistent'', if initialized
         then cr_version c > 0 \<and> cr_activation_epoch c > 0 \<and> (case record of Some r \<Rightarrow> sr_activation_epoch r > 0 | None \<Rightarrow> False) else True)])"

definition readOwnerApiKey :: "string option \<Rightarrow> secret_db \<Rightarrow> (bool \<times> (string \<times> bool) list \<times> string list) outcome" where
  "readOwnerApiKey targetId db =
     (if (case targetId of None \<Rightarrow> False | Some i \<Rightarrow> \<not> is_uuid_text i) then Inl (Domain_Error ''AGENTIC_OPERATION_CONTEXT_INVALID'')
      else case (sd_credential db, sd_recovery db) of
        (Some c, Some h) \<Rightarrow>
          if targetId \<noteq> None \<and> map_option lower_text targetId \<noteq> Some (cr_id c) then Inl (Domain_Error ''AGENTIC_OWNER_INTENT_MISSING'')
          else Inr (present (cr_secret_id c) \<and> present (cr_secret_version_id c) \<and> present (cr_fingerprint c), owner_key_checks h c db,
            issue_names ''OWNER_API_KEY_'' (owner_key_checks h c db))
      | _ \<Rightarrow> Inl (Domain_Error ''AGENTIC_OWNER_INTENT_MISSING''))"

section \<open>Steps\<close>

datatype secret_action =
    Create_Secret
  | Add_Version string bool
  | Update_Secret
  | Soft_Delete string
  | Reveal_Secret
  | Use_Binding
  | Ensure_Key
  | Rotate_Key

inductive secret_step :: "secret_services \<Rightarrow> secret_db \<Rightarrow> secret_action \<Rightarrow> secret_db \<Rightarrow> bool" for sv where
  step_create: "create_tx sv i vid nonce now actor lo input db = Inr (db', u) \<Longrightarrow> secret_step sv db Create_Secret db'"
| step_add: "addVersion_tx sv vid nonce now actor lo i value expected active db = Inr (db', s) \<Longrightarrow> secret_step sv db (Add_Version i active) db'"
| step_update: "update_tx now lo i input expected db = Inr (db', s) \<Longrightarrow> secret_step sv db Update_Secret db'"
| step_delete: "softDelete_tx now lo i expected db = Inr (db', n) \<Longrightarrow> secret_step sv db (Soft_Delete i) db'"
| step_reveal: "reveal_tx sv actor lo corr i db = Inr (db', v) \<Longrightarrow> secret_step sv db Reveal_Secret db'"
| step_use: "binding_tx sv now rid corr a alias purpose operation db = Inr (db', v) \<Longrightarrow> secret_step sv db Use_Binding db'"
| step_ensure: "ensure_tx sv i vid nonce token now actor lo db = Inr (db', k) \<Longrightarrow> i \<noteq> [] \<Longrightarrow> vid \<noteq> [] \<Longrightarrow> secret_step sv db Ensure_Key db'"
| step_rotate: "rotate_tx sv vid nonce token now expected actor lo db = Inr (db', x) \<Longrightarrow> vid \<noteq> [] \<Longrightarrow> secret_step sv db Rotate_Key db'"

inductive_cases secret_step_cases: "secret_step sv db a db'"

definition fresh_credential :: "credential_row \<Rightarrow> bool" where
  "fresh_credential c = (cr_secret_id c = None \<and> cr_secret_version_id c = None \<and> cr_verifier_hash c = None \<and> cr_fingerprint c = None
     \<and> cr_version c = 0 \<and> cr_activation_epoch c = 0 \<and> cr_last_rotate c = None \<and> cr_last_outcome_digest c = None)"

definition fresh_secrets :: "secret_db \<Rightarrow> bool" where
  "fresh_secrets db = (sd_records db = [] \<and> sd_versions db = [] \<and> (case sd_credential db of None \<Rightarrow> False | Some c \<Rightarrow> fresh_credential c))"

interpretation secrets: transition_system fresh_secrets "\<lambda>db db'. \<exists>a. secret_step sv db a db'" for sv .

text \<open>The operations of the reserved secret: its version is not switched and it is not deleted by the general ones.\<close>

definition reserved_respected :: "secret_db \<Rightarrow> secret_action \<Rightarrow> bool" where
  "reserved_respected db a = (case (a, sd_credential db) of
     (Add_Version i active, Some c) \<Rightarrow> \<not> (active \<and> cr_secret_id c = Some i)
   | (Soft_Delete i, Some c) \<Rightarrow> cr_secret_id c \<noteq> Some i
   | _ \<Rightarrow> True)"

interpretation reserved: transition_system fresh_secrets "\<lambda>db db'. \<exists>a. secret_step sv db a db' \<and> reserved_respected db a" for sv .

section \<open>Consistency of secrets\<close>

text \<open>AES-GCM opens what it sealed under the same key, nonce and associated data, and UTF-8 decodes what it encoded.\<close>

definition cipher_law :: "secret_services \<Rightarrow> bool" where
  "cipher_law sv = ((\<forall>k n a p. gcm_open (ss_gcm sv) k n a (gcm_seal (ss_gcm sv) k n a p) = Some p) \<and> (\<forall>s. ss_to_text sv (utf8 s) = s))"

definition holds_value :: "secret_services \<Rightarrow> secret_record_row \<Rightarrow> secret_version_row \<Rightarrow> string \<Rightarrow> bool" where
  "holds_value sv r v value = (open_version sv (sr_id r) (sr_stable_name r) v = Inr value
     \<and> vr_fingerprint v = fingerprint (ss_sha256 sv) value \<and> vr_value_digest v = tokenDigest (ss_sha256 sv) value)"

definition record_ok :: "secret_version_row list \<Rightarrow> secret_record_row \<Rightarrow> bool" where
  "record_ok vs r = (sr_activation_epoch r > 0 \<and> sr_lifecycle r = (if sr_deleted r then ''CLOSED'' else ''ACTIVE'')
     \<and> (\<exists>v \<in> set vs. vr_secret_id v = sr_id r \<and> sr_active_version r = Some (vr_id v)))"

definition version_ok :: "secret_services \<Rightarrow> secret_record_row list \<Rightarrow> secret_version_row \<Rightarrow> bool" where
  "version_ok sv rs v = (\<exists>r \<in> set rs. sr_id r = vr_secret_id v \<and> (vr_lifecycle v = ''ACTIVE'' \<longleftrightarrow> sr_active_version r = Some (vr_id v))
     \<and> (\<exists>value. holds_value sv r v value))"

definition store_ok :: "secret_services \<Rightarrow> secret_record_row list \<Rightarrow> secret_version_row list \<Rightarrow> bool" where
  "store_ok sv rs vs = (distinct (map sr_id rs) \<and> distinct (map sr_stable_name rs) \<and> distinct (map vr_id vs)
     \<and> list_all (record_ok vs) rs \<and> list_all (version_ok sv rs) vs)"

lemma store_okD:
  assumes "store_ok sv rs vs"
  shows "distinct (map sr_id rs)" "distinct (map sr_stable_name rs)" "distinct (map vr_id vs)"
    "r \<in> set rs \<Longrightarrow> record_ok vs r" "v \<in> set vs \<Longrightarrow> version_ok sv rs v"
  using assms by (auto simp: store_ok_def list_all_iff)

lemma store_record_eq: "store_ok sv rs vs \<Longrightarrow> r \<in> set rs \<Longrightarrow> r' \<in> set rs \<Longrightarrow> sr_id r = sr_id r' \<Longrightarrow> r = r'"
  by (auto simp: store_ok_def dest: distinct_map_eq)

lemma store_version_eq: "store_ok sv rs vs \<Longrightarrow> v \<in> set vs \<Longrightarrow> v' \<in> set vs \<Longrightarrow> vr_id v = vr_id v' \<Longrightarrow> v = v'"
  by (auto simp: store_ok_def dest: distinct_map_eq)

lemma sealed_holds_value:
  assumes "cipher_law sv" and "sr_id r = i" and "sr_stable_name r = name"
  shows "holds_value sv r (sealed_version sv nonce actor i vid n name value) value"
proof -
  obtain c g where seal: "gcm_seal (ss_gcm sv) (fst (ss_cipher sv)) nonce (utf8 (secret_aad i vid name)) (utf8 value) = (c, g)" by fastforce
  with assms(1) have "gcm_open (ss_gcm sv) (fst (ss_cipher sv)) nonce (utf8 (secret_aad i vid name)) (c, g) = Some (utf8 value)"
    unfolding cipher_law_def by metis
  with assms seal show ?thesis
    by (simp add: holds_value_def sealed_version_def open_version_def encrypt_def decrypt_def fingerprint_def tokenDigest_def cipher_law_def Let_def)
qed

lemma record_ok_append: "record_ok vs r \<Longrightarrow> record_ok (vs @ ws) r"
  by (auto simp: record_ok_def)

lemma record_ok_map: "record_ok vs r \<Longrightarrow> (\<And>v. vr_id (g v) = vr_id v \<and> vr_secret_id (g v) = vr_secret_id v) \<Longrightarrow> record_ok (map g vs) r"
  by (auto simp: record_ok_def)

lemma store_ok_new:
  assumes ok: "store_ok sv rs vs" and new: "sr_id r \<notin> sr_id ` set rs" "sr_stable_name r \<notin> sr_stable_name ` set rs" "vr_id v \<notin> vr_id ` set vs"
    and r: "sr_activation_epoch r > 0" "sr_lifecycle r = ''ACTIVE''" "\<not> sr_deleted r" "sr_active_version r = Some (vr_id v)"
    and v: "vr_secret_id v = sr_id r" "vr_lifecycle v = ''ACTIVE''" "holds_value sv r v value"
  shows "store_ok sv (rs @ [r]) (vs @ [v])"
proof -
  have "record_ok (vs @ [v]) x" if "x \<in> set (rs @ [r])" for x
  proof (cases "x \<in> set rs")
    case True
    then show ?thesis by (intro record_ok_append store_okD(4) [OF ok])
  next
    case False
    with that r v show ?thesis by (simp add: record_ok_def)
  qed
  moreover have "version_ok sv (rs @ [r]) x" if "x \<in> set (vs @ [v])" for x
  proof (cases "x \<in> set vs")
    case True
    then show ?thesis using store_okD(5) [OF ok, of x] by (auto simp: version_ok_def)
  next
    case False
    with that r v show ?thesis by (auto simp: version_ok_def)
  qed
  ultimately show ?thesis using new store_okD(1-3) [OF ok] by (simp add: store_ok_def list_all_iff)
qed

lemma store_ok_insert:
  assumes ok: "store_ok sv rs vs" and r: "r \<in> set rs" and v: "vr_secret_id v = sr_id r" "vr_id v \<notin> vr_id ` set vs" "vr_lifecycle v \<noteq> ''ACTIVE''"
    "holds_value sv r v value"
  shows "store_ok sv rs (vs @ [v])"
proof -
  have "sr_active_version r \<noteq> Some (vr_id v)" using store_okD(4) [OF ok r] v(2) by (auto simp: record_ok_def)
  then have "version_ok sv rs v" using r v by (auto simp: version_ok_def)
  moreover have "record_ok (vs @ [v]) x" if "x \<in> set rs" for x by (intro record_ok_append store_okD(4) [OF ok] that)
  ultimately show ?thesis using v(2) store_okD [OF ok] by (simp add: store_ok_def list_all_iff)
qed

lemma store_ok_touch:
  assumes ok: "store_ok sv rs vs"
    and f: "\<And>r. sr_id (f r) = sr_id r \<and> sr_stable_name (f r) = sr_stable_name r \<and> sr_active_version (f r) = sr_active_version r
      \<and> sr_activation_epoch (f r) = sr_activation_epoch r"
    and life: "\<And>r. P r \<Longrightarrow> sr_lifecycle r = (if sr_deleted r then ''CLOSED'' else ''ACTIVE'') \<Longrightarrow> sr_lifecycle (f r) = (if sr_deleted (f r) then ''CLOSED'' else ''ACTIVE'')"
  shows "store_ok sv (sql_update P f rs) vs"
proof -
  have "record_ok vs x" if "x \<in> set (sql_update P f rs)" for x
    using that store_okD(4) [OF ok] life by (auto simp: set_sql_update record_ok_def f)
  moreover have "version_ok sv (sql_update P f rs) v" if v: "v \<in> set vs" for v
  proof -
    from store_okD(5) [OF ok v] obtain r x0 where r: "r \<in> set rs" "sr_id r = vr_secret_id v" "vr_lifecycle v = ''ACTIVE'' \<longleftrightarrow> sr_active_version r = Some (vr_id v)"
      "holds_value sv r v x0" by (auto simp: version_ok_def)
    then have "(if P r then f r else r) \<in> set (sql_update P f rs)" by (auto simp: sql_update_def)
    with r f show ?thesis unfolding version_ok_def by (intro bexI [of _ "if P r then f r else r"] conjI exI [of _ x0]) (auto simp: holds_value_def)
  qed
  moreover have "map sr_id (sql_update P f rs) = map sr_id rs" "map sr_stable_name (sql_update P f rs) = map sr_stable_name rs"
    using f by (auto intro: map_sql_update)
  ultimately show ?thesis using store_okD(1-3) [OF ok] by (simp add: store_ok_def list_all_iff)
qed

text \<open>Switching the active version: the old one is retired, the new one activated and the pointer moved.\<close>

definition switched_version :: "string option \<Rightarrow> string \<Rightarrow> string \<Rightarrow> secret_version_row \<Rightarrow> secret_version_row" where
  "switched_version old vid lo v = (if vr_id v = vid \<and> vr_lifecycle v = ''CREATED'' then v\<lparr>vr_lifecycle := ''ACTIVE'', vr_activation_operation := Some lo\<rparr>
     else if Some (vr_id v) = old \<and> vr_lifecycle v = ''ACTIVE'' then v\<lparr>vr_lifecycle := ''RETIRED''\<rparr> else v)"

lemma switched_versions:
  "sd_versions (activate_version vid lo (retire_version old db)) = map (switched_version old vid lo) (sd_versions db)"
  by (cases old) (auto simp: activate_version_def retire_version_def sql_update_def switched_version_def)

lemma switched_version_keeps [simp]: "vr_id (switched_version old vid lo v) = vr_id v" "vr_secret_id (switched_version old vid lo v) = vr_secret_id v"
  by (simp_all add: switched_version_def)

lemma switched_holds_value [simp]: "holds_value sv r (switched_version old vid lo v) value = holds_value sv r v value"
  by (simp add: holds_value_def open_version_def switched_version_def)

lemma holds_value_cong: "sr_id r = sr_id r' \<Longrightarrow> sr_stable_name r = sr_stable_name r' \<Longrightarrow> holds_value sv r v value = holds_value sv r' v value"
  by (simp add: holds_value_def)

lemma store_ok_switch:
  assumes ok: "store_ok sv rs vs" and r: "r \<in> set rs" and v: "v \<in> set vs" "vr_secret_id v = sr_id r" "vr_lifecycle v = ''CREATED''"
    and f: "\<And>x. sr_id (f x) = sr_id x \<and> sr_stable_name (f x) = sr_stable_name x \<and> sr_active_version (f x) = Some (vr_id v)
      \<and> sr_lifecycle (f x) = sr_lifecycle x \<and> sr_deleted (f x) = sr_deleted x"
    and epoch: "sr_activation_epoch (f r) > 0"
  shows "store_ok sv (sql_update (\<lambda>x. sr_id x = sr_id r) f rs) (map (switched_version (sr_active_version r) (vr_id v) lo) vs)"
proof -
  let ?rs = "sql_update (\<lambda>x. sr_id x = sr_id r) f rs" and ?g = "switched_version (sr_active_version r) (vr_id v) lo"
  have "record_ok (map ?g vs) x" if x: "x \<in> set ?rs" for x
  proof -
    from x consider "x = f r" | "x \<in> set rs" "sr_id x \<noteq> sr_id r"
      using store_record_eq [OF ok _ r] by (auto simp: set_sql_update)
    then show ?thesis
    proof cases
      case 1
      with store_okD(4) [OF ok r] f epoch v show ?thesis by (auto simp: record_ok_def intro!: bexI [of _ v])
    next
      case 2
      then show ?thesis by (auto intro: record_ok_map store_okD(4) [OF ok])
    qed
  qed
  moreover have "version_ok sv ?rs (?g w)" if w: "w \<in> set vs" for w
  proof -
    from store_okD(5) [OF ok w] obtain q x0 where q: "q \<in> set rs" "sr_id q = vr_secret_id w" "vr_lifecycle w = ''ACTIVE'' \<longleftrightarrow> sr_active_version q = Some (vr_id w)"
      "holds_value sv q w x0" by (auto simp: version_ok_def)
    show ?thesis
    proof (cases "sr_id q = sr_id r")
      case True
      then have qr: "q = r" using store_record_eq [OF ok] q r by blast
      then have mem: "f r \<in> set ?rs" using r by (auto simp: sql_update_def)
      have "vr_lifecycle (?g w) = ''ACTIVE'' \<longleftrightarrow> vr_id w = vr_id v"
      proof (cases "w = v")
        case True
        with v show ?thesis by (simp add: switched_version_def)
      next
        case False
        then have "vr_id w \<noteq> vr_id v" using store_version_eq [OF ok w v(1)] by blast
        with q(3) qr show ?thesis by (simp add: switched_version_def)
      qed
      with mem q qr f show ?thesis unfolding version_ok_def
        by (intro bexI [of _ "f r"] conjI exI [of _ x0]) (auto simp: holds_value_cong [of "f r" r])
    next
      case False
      then have mem: "q \<in> set ?rs" using q(1) by (auto simp: sql_update_def)
      have "vr_secret_id w \<noteq> vr_secret_id v" using False q(2) v(2) by simp
      then have "w \<noteq> v" by auto
      then have wv: "vr_id w \<noteq> vr_id v" using store_version_eq [OF ok w v(1)] by blast
      have "Some (vr_id w) \<noteq> sr_active_version r"
      proof
        assume a: "Some (vr_id w) = sr_active_version r"
        from store_okD(4) [OF ok r] obtain u where "u \<in> set vs" "vr_secret_id u = sr_id r" "sr_active_version r = Some (vr_id u)"
          by (auto simp: record_ok_def)
        with a store_version_eq [OF ok w, of u] False q(2) show False by auto
      qed
      with wv have "?g w = w" by (simp add: switched_version_def)
      with mem q show ?thesis by (auto simp: version_ok_def)
    qed
  qed
  moreover have "map sr_id ?rs = map sr_id rs" "map sr_stable_name ?rs = map sr_stable_name rs" using f by (auto intro: map_sql_update)
  ultimately show ?thesis using store_okD(1-3) [OF ok] by (auto simp: store_ok_def list_all_iff comp_def)
qed

section \<open>The operations keep the consistency\<close>

definition core :: "secret_db \<Rightarrow> secret_record_row list \<times> secret_version_row list \<times> credential_row option \<times> recovery_row option" where
  "core db = (sd_records db, sd_versions db, sd_credential db, sd_recovery db)"

lemma core_eq: "core db' = core db \<longleftrightarrow> sd_records db' = sd_records db \<and> sd_versions db' = sd_versions db \<and> sd_credential db' = sd_credential db
    \<and> sd_recovery db' = sd_recovery db"
  by (auto simp: core_def)

lemma allocate_core: "allocate ns parent kind db = Inr (db', n) \<Longrightarrow> core db' = core db"
  by (auto simp: allocate_def bindE_Inr_iff core_def split: prod.splits)

lemma outbox_core: "appendSecretOutbox i event payload db = Inr db' \<Longrightarrow> core db' = core db"
  by (auto simp: appendSecretOutbox_def bindE_Inr_iff core_def dest!: allocate_core split: prod.splits)

lemma audit_core [simp]: "core (append_audit event i payload db) = core db"
  by (simp add: append_audit_def core_def)

lemma access_core: "insert_access a db = Inr db' \<Longrightarrow> core db' = core db"
  by (auto simp: insert_access_def core_def split: if_splits)

lemma resolution_core: "insert_resolution a db = Inr db' \<Longrightarrow> core db' = core db"
  by (auto simp: insert_resolution_def core_def split: if_splits)

lemma sealed_fields [simp]:
  "vr_id (sealed_version sv nonce actor i vid n name value) = vid" "vr_secret_id (sealed_version sv nonce actor i vid n name value) = i"
  "vr_lifecycle (sealed_version sv nonce actor i vid n name value) = ''CREATED''" "vr_number (sealed_version sv nonce actor i vid n name value) = n"
  by (simp_all add: sealed_version_def Let_def)

lemma insert_record_Inr: "insert_record r db = Inr db' \<Longrightarrow> sr_id r \<notin> sr_id ` set (sd_records db) \<and> sr_stable_name r \<notin> sr_stable_name ` set (sd_records db)
    \<and> db' = db\<lparr>sd_records := sd_records db @ [r]\<rparr>"
  by (auto simp: insert_record_def list_ex_iff split: if_splits)

lemma insert_version_Inr: "insert_version v db = Inr db' \<Longrightarrow> vr_id v \<notin> vr_id ` set (sd_versions db) \<and> db' = db\<lparr>sd_versions := sd_versions db @ [v]\<rparr>"
  by (auto simp: insert_version_def list_ex_iff split: if_splits)

text \<open>The stored rows after each operation.\<close>

lemma publish_core: "publish i agg event payload x db = Inr (db', x') \<Longrightarrow> core db' = core db \<and> x' = x"
  by (auto simp: publish_def bindE_Inr_iff dest: outbox_core)

lemma append_version_core:
  assumes "append_version sv nonce actor i vid name val db = Inr (db', v)"
  shows "(\<exists>n. v = sealed_version sv nonce actor i vid n name val) \<and> vid \<notin> vr_id ` set (sd_versions db)
    \<and> core db' = (sd_records db, sd_versions db @ [v], sd_credential db, sd_recovery db)"
proof -
  from assms obtain db1 n where a: "allocate ''SECRET_VERSION'' i ''VERSION_NUMBER'' db = Inr (db1, n)"
    "insert_version (sealed_version sv nonce actor i vid n name val) db1 = Inr db'" "v = sealed_version sv nonce actor i vid n name val"
    by (auto simp: append_version_def bindE_Inr_iff Let_def)
  from allocate_core [OF a(1), unfolded core_eq] insert_version_Inr [OF a(2)] a(3) show ?thesis by (auto simp: core_def)
qed

lemma first_activation_core:
  assumes "insert_record r0 db = Inr db1" and "append_version sv nonce actor (sr_id r0) vid name val db1 = Inr (db2, v)"
  shows "sr_id r0 \<notin> sr_id ` set (sd_records db) \<and> sr_stable_name r0 \<notin> sr_stable_name ` set (sd_records db) \<and> vid \<notin> vr_id ` set (sd_versions db)
    \<and> (\<exists>n. v = sealed_version sv nonce actor (sr_id r0) vid n name val)
    \<and> core (first_activation (sr_id r0) vid lo now db2) =
        (sd_records db @ [r0\<lparr>sr_active_version := Some vid, sr_activation_epoch := 1, sr_state_version := sr_state_version r0 + 1, sr_updated_at := now\<rparr>],
         sd_versions db @ [v\<lparr>vr_lifecycle := ''ACTIVE'', vr_activation_operation := Some lo\<rparr>], sd_credential db, sd_recovery db)"
proof -
  note i1 = insert_record_Inr [OF assms(1)]
  note a2 = append_version_core [OF assms(2)]
  have vs: "vid \<notin> vr_id ` set (sd_versions db)" using a2 i1 by simp
  have "sql_update (\<lambda>r. sr_id r = sr_id r0) f (sd_records db) = sd_records db" for f by (intro sql_update_none) (metis i1 image_eqI)
  moreover have "sql_update (\<lambda>v. vr_id v = vid \<and> vr_lifecycle v = ''CREATED'') f (sd_versions db) = sd_versions db" for f
    by (intro sql_update_none) (metis vs image_eqI)
  ultimately show ?thesis
    using i1 a2 vs by (auto simp: core_def first_activation_def set_record_def activate_version_def sql_update_append) (auto simp: sql_update_def)
qed

lemma new_secret_rows:
  assumes "insert_record (new_secret_row i name displayName kind metadata now rec) db = Inr db1" and "append_version sv nonce actor i vid name' val db1 = Inr (db2, v)"
  shows "i \<notin> sr_id ` set (sd_records db) \<and> name \<notin> sr_stable_name ` set (sd_records db) \<and> vid \<notin> vr_id ` set (sd_versions db)
    \<and> (\<exists>n. v = sealed_version sv nonce actor i vid n name' val)
    \<and> core (first_activation i vid lo now db2) =
        (sd_records db @ [(new_secret_row i name displayName kind metadata now rec)\<lparr>sr_active_version := Some vid, sr_activation_epoch := 1, sr_state_version := 2\<rparr>],
         sd_versions db @ [v\<lparr>vr_lifecycle := ''ACTIVE'', vr_activation_operation := Some lo\<rparr>], sd_credential db, sd_recovery db)"
proof -
  have i: "sr_id (new_secret_row i name displayName kind metadata now rec) = i" by (simp add: new_secret_row_def)
  from first_activation_core [OF assms(1), unfolded i, OF assms(2), of lo now] show ?thesis by (simp add: new_secret_row_def)
qed

lemma create_core:
  assumes "create_tx sv i vid nonce now actor lo input db = Inr (db', u)"
  obtains rec db1 db2 v where
    "insert_record (new_secret_row i (si_stableName input) (si_displayName input) (si_kind input) (si_metadata input) now rec) db = Inr db1"
    "append_version sv nonce actor i vid (si_stableName input) (si_value input) db1 = Inr (db2, v)"
    "core db' = core (first_activation i vid lo now db2)"
  using assms by (auto simp: create_tx_def bindE_Inr_iff Let_def dest!: publish_core)

lemma ensure_core:
  assumes "ensure_tx sv i vid nonce token now actor lo db = Inr (db', k)"
  obtains "db' = db" | c rec db1 db2 v where "sd_credential db = Some c"
    "insert_record (new_secret_row i OWNER_API_KEY ''OWNER API key'' ''API_KEY'' (CObj []) now rec) db = Inr db1"
    "append_version sv nonce actor i vid OWNER_API_KEY (api_key_value token) db1 = Inr (db2, v)"
    "core db' = core ((first_activation i vid lo now db2)\<lparr>sd_credential := Some (c\<lparr>cr_secret_id := Some i, cr_secret_version_id := Some vid,
       cr_verifier_hash := Some (tokenDigest (ss_sha256 sv) (api_key_value token)), cr_fingerprint := Some (fingerprint (ss_sha256 sv) (api_key_value token)),
       cr_version := 1, cr_activation_epoch := 1, cr_last_rotate := Some lo, cr_state_version := cr_state_version c + 1\<rparr>)\<rparr>)"
  using assms by (auto simp: ensure_tx_def bindE_Inr_iff Let_def dest!: publish_core split: option.splits if_splits)

lemma switch_core: "core (set_record i f (activate_version vid lo (retire_version old db))) =
    (sql_update (\<lambda>r. sr_id r = i) f (sd_records db), map (switched_version old vid lo) (sd_versions db), sd_credential db, sd_recovery db)"
proof -
  have "sd_records (activate_version vid lo (retire_version old db)) = sd_records db" "sd_credential (activate_version vid lo (retire_version old db)) = sd_credential db"
    "sd_recovery (activate_version vid lo (retire_version old db)) = sd_recovery db"
    by (cases old; simp add: activate_version_def retire_version_def)+
  then show ?thesis by (simp add: core_def set_record_def switched_versions)
qed

lemma locked_secret_Inr: "locked_secret i n db = Inr r \<Longrightarrow> r \<in> set (sd_records db) \<and> sr_id r = i \<and> \<not> sr_deleted r \<and> sr_state_version r = n"
  by (auto simp: locked_secret_def split: option.splits if_splits dest!: sql_first_Some)

lemma add_core:
  assumes "addVersion_tx sv vid nonce now actor lo i val expected active db = Inr (db', s)"
  obtains row db2 v and rec :: authority_head where "locked_secret i expected db = Inr row"
    "append_version sv nonce actor i vid (sr_stable_name row) val db = Inr (db2, v)"
    "core db' = core (set_record i (\<lambda>r. r\<lparr>sr_incarnation := ln_incarnation (ah_lineage rec), sr_deployment := ln_deployment (ah_lineage rec)\<rparr>)
      (if active then set_record i (\<lambda>r. r\<lparr>sr_active_version := Some vid, sr_activation_epoch := sr_activation_epoch r + 1,
           sr_state_version := sr_state_version r + 1, sr_updated_at := now\<rparr>) (activate_version vid lo (retire_version (sr_active_version row) db2))
       else db2))"
proof -
  from assms obtain rec row db2 v where a: "lockAndVerifyPlatformRecovery (sd_recovery db) = Inr rec" "locked_secret i expected db = Inr row"
    "append_version sv nonce actor i vid (sr_stable_name row) val db = Inr (db2, v)"
    by (auto simp: addVersion_tx_def bindE_Inr_iff)
  show ?thesis
    by (rule that [OF a(2,3), of rec], rule publish_core [THEN conjunct1],
      rule assms [unfolded addVersion_tx_def Let_def a bindE_simps prod.case])
qed

lemma rotate_core:
  assumes "rotate_tx sv vid nonce token now expected actor lo db = Inr (db', x)"
  obtains "db' = db" | c secret db2 v and rec :: authority_head where "sd_credential db = Some c" "cr_secret_id c = Some (sr_id secret)" "secret \<in> set (sd_records db)"
    "append_version sv nonce actor (sr_id secret) vid OWNER_API_KEY (api_key_value token) db = Inr (db2, v)"
    "core db' = core ((set_record (sr_id secret) (\<lambda>r. r\<lparr>sr_active_version := Some vid, sr_activation_epoch := sr_activation_epoch r + 1,
         sr_incarnation := ln_incarnation (ah_lineage rec), sr_deployment := ln_deployment (ah_lineage rec),
         sr_state_version := sr_state_version r + 1, sr_updated_at := now\<rparr>) (activate_version vid lo (retire_version (sr_active_version secret) db2)))
       \<lparr>sd_credential := Some (c\<lparr>cr_secret_version_id := Some vid, cr_verifier_hash := Some (tokenDigest (ss_sha256 sv) (api_key_value token)),
         cr_fingerprint := Some (fingerprint (ss_sha256 sv) (api_key_value token)), cr_version := cr_version c + 1,
         cr_activation_epoch := cr_activation_epoch c + 1, cr_last_rotate := Some lo,
         cr_last_outcome_digest := Some (rotation_digest sv x), cr_state_version := cr_state_version c + 1\<rparr>)\<rparr>)"
proof (cases "db' = db")
  case False
  obtain rec where rec: "lockAndVerifyPlatformRecovery (sd_recovery db) = Inr rec" using assms by (auto simp: rotate_tx_def bindE_Inr_iff)
  obtain c where c: "sd_credential db = Some c" using assms rec by (cases "sd_credential db") (auto simp: rotate_tx_def)
  note run = assms [unfolded rotate_tx_def rec c bindE_simps option.case]
  have p1: "\<not> \<not> present (cr_secret_id c)" by (rule notI) (use run in simp)
  have p2: "\<not> cr_state_version c \<noteq> expected" by (rule notI) (use run p1 in simp)
  have p3: "\<not> (cr_last_rotate c = Some lo \<and> cr_last_outcome_digest c \<noteq> None)" by (rule notI) (use run False p1 p2 in simp)
  note run = run [unfolded if_not_P [OF p1] if_not_P [OF p2] if_not_P [OF p3]]
  obtain secret where secret: "sql_first (\<lambda>r. Some (sr_id r) = cr_secret_id c) (sd_records db) = Some secret"
    using run by (cases "sql_first (\<lambda>r. Some (sr_id r) = cr_secret_id c) (sd_records db)") auto
  note run = run [unfolded secret option.case Let_def]
  obtain db2 v where v: "append_version sv nonce actor (sr_id secret) vid OWNER_API_KEY (api_key_value token) db = Inr (db2, v)"
    using run by (auto simp: bindE_Inr_iff)
  note run = publish_core [OF run [unfolded v bindE_simps prod.case]]
  from sql_first_Some [OF secret] have s: "secret \<in> set (sd_records db)" "cr_secret_id c = Some (sr_id secret)" by simp_all
  show ?thesis by (rule that(2) [OF c s(2,1) v, of rec]) (use run in simp)
qed

definition key_linked :: "secret_record_row list \<Rightarrow> credential_row \<Rightarrow> bool" where
  "key_linked rs c = (cr_secret_id c = None \<or> (\<exists>r \<in> set rs. cr_secret_id c = Some (sr_id r) \<and> sr_stable_name r = OWNER_API_KEY))"

definition secrets_ok :: "secret_services \<Rightarrow> secret_db \<Rightarrow> bool" where
  "secrets_ok sv db = (store_ok sv (sd_records db) (sd_versions db) \<and> (case sd_credential db of None \<Rightarrow> True | Some c \<Rightarrow> key_linked (sd_records db) c))"

lemma secrets_ok_core: "core db' = core db \<Longrightarrow> secrets_ok sv db' = secrets_ok sv db"
  by (simp add: core_eq secrets_ok_def cong: option.case_cong)

lemma secrets_ok_coreI:
  "core db' = (rs, vs, k, rec) \<Longrightarrow> store_ok sv rs vs \<Longrightarrow> (\<And>c. k = Some c \<Longrightarrow> key_linked rs c) \<Longrightarrow> secrets_ok sv db'"
  by (auto simp: core_def secrets_ok_def split: option.split)

lemma key_linked_append: "key_linked rs c \<Longrightarrow> key_linked (rs @ qs) c"
  by (auto simp: key_linked_def)

lemma key_linked_update: "key_linked rs c \<Longrightarrow> (\<And>r. sr_id (f r) = sr_id r \<and> sr_stable_name (f r) = sr_stable_name r) \<Longrightarrow> key_linked (sql_update P f rs) c"
proof (unfold key_linked_def, elim disjE bexE conjE)
  fix r
  assume f: "\<And>r. sr_id (f r) = sr_id r \<and> sr_stable_name (f r) = sr_stable_name r"
    and r: "r \<in> set rs" "cr_secret_id c = Some (sr_id r)" "sr_stable_name r = OWNER_API_KEY"
  have "(if P r then f r else r) \<in> set (sql_update P f rs)" using r(1) by (auto simp: sql_update_def)
  then show "cr_secret_id c = None \<or> (\<exists>r \<in> set (sql_update P f rs). cr_secret_id c = Some (sr_id r) \<and> sr_stable_name r = OWNER_API_KEY)"
    using f r by (intro disjI2 bexI [of _ "if P r then f r else r"]) auto
qed simp

lemma new_secret_ok:
  assumes ok: "secrets_ok sv db" and law: "cipher_law sv"
    and new: "insert_record (new_secret_row i name displayName kind metadata now rec) db = Inr db1" "append_version sv nonce actor i vid name val db1 = Inr (db2, v)"
    and core': "core db' = core ((first_activation i vid lo now db2)\<lparr>sd_credential := k\<rparr>)"
    and k: "k = sd_credential db \<or> (\<exists>c. k = Some c \<and> cr_secret_id c = Some i) \<and> name = OWNER_API_KEY"
  shows "secrets_ok sv db'"
proof -
  let ?r = "(new_secret_row i name displayName kind metadata now rec)\<lparr>sr_active_version := Some vid, sr_activation_epoch := 1,
    sr_state_version := 2\<rparr>"
  let ?v = "v\<lparr>vr_lifecycle := ''ACTIVE'', vr_activation_operation := Some lo\<rparr>"
  note f = new_secret_rows [OF new, of lo]
  from f obtain n where v: "v = sealed_version sv nonce actor i vid n name val" by blast
  have c: "core db' = (sd_records db @ [?r], sd_versions db @ [?v], k, sd_recovery db)"
    using f core' by (simp add: core_def)
  have h: "holds_value sv ?r ?v val" using sealed_holds_value [OF law, of ?r i name nonce actor vid n val]
    by (simp add: v holds_value_def open_version_def new_secret_row_def)
  have "store_ok sv (sd_records db @ [?r]) (sd_versions db @ [?v])"
    by (rule store_ok_new [OF _ _ _ _ _ _ _ _ _ _ h]) (use ok f in \<open>auto simp: secrets_ok_def new_secret_row_def v\<close>)
  then show ?thesis
  proof (rule secrets_ok_coreI [OF c])
    fix c0
    assume c0: "k = Some c0"
    from k show "key_linked (sd_records db @ [?r]) c0"
    proof
      assume "k = sd_credential db"
      with ok c0 show ?thesis by (auto simp: secrets_ok_def intro: key_linked_append)
    next
      assume "(\<exists>c. k = Some c \<and> cr_secret_id c = Some i) \<and> name = OWNER_API_KEY"
      with c0 show ?thesis by (auto simp: key_linked_def new_secret_row_def)
    qed
  qed
qed

lemma create_ok: "create_tx sv i vid nonce now actor lo input db = Inr (db', u) \<Longrightarrow> secrets_ok sv db \<Longrightarrow> cipher_law sv \<Longrightarrow> secrets_ok sv db'"
proof (erule create_core)
  fix rec db1 db2 v
  assume ok: "secrets_ok sv db" and law: "cipher_law sv"
    and new: "insert_record (new_secret_row i (si_stableName input) (si_displayName input) (si_kind input) (si_metadata input) now rec) db = Inr db1"
      "append_version sv nonce actor i vid (si_stableName input) (si_value input) db1 = Inr (db2, v)"
    and c: "core db' = core (first_activation i vid lo now db2)"
  have "core db' = core ((first_activation i vid lo now db2)\<lparr>sd_credential := sd_credential db\<rparr>)"
    using c new_secret_rows [OF new, of lo] by (simp add: core_def)
  then show "secrets_ok sv db'" by (rule new_secret_ok [OF ok law new]) simp
qed

lemma ensure_ok: "ensure_tx sv i vid nonce token now actor lo db = Inr (db', k) \<Longrightarrow> secrets_ok sv db \<Longrightarrow> cipher_law sv \<Longrightarrow> secrets_ok sv db'"
  by (erule ensure_core) (auto intro: new_secret_ok)

lemma touch_ok:
  assumes "secrets_ok sv db" and "core db' = (sql_update P f (sd_records db), sd_versions db, sd_credential db, sd_recovery db)"
    and "\<And>r. sr_id (f r) = sr_id r \<and> sr_stable_name (f r) = sr_stable_name r \<and> sr_active_version (f r) = sr_active_version r
      \<and> sr_activation_epoch (f r) = sr_activation_epoch r"
    and "\<And>r. P r \<Longrightarrow> sr_lifecycle r = (if sr_deleted r then ''CLOSED'' else ''ACTIVE'') \<Longrightarrow> sr_lifecycle (f r) = (if sr_deleted (f r) then ''CLOSED'' else ''ACTIVE'')"
  shows "secrets_ok sv db'"
proof (rule secrets_ok_coreI [OF assms(2)])
  show "store_ok sv (sql_update P f (sd_records db)) (sd_versions db)"
    by (rule store_ok_touch) (use assms(1,3,4) in \<open>auto simp: secrets_ok_def\<close>)
  show "key_linked (sql_update P f (sd_records db)) c" if "sd_credential db = Some c" for c
    using assms(1,3) that by (auto simp: secrets_ok_def intro: key_linked_update)
qed

lemma update_core:
  assumes "update_tx now lo i input expected db = Inr (db', s)"
  obtains f where "core db' = (sql_update (\<lambda>r. sr_id r = i) f (sd_records db), sd_versions db, sd_credential db, sd_recovery db)"
    "\<And>r. sr_id (f r) = sr_id r \<and> sr_stable_name (f r) = sr_stable_name r \<and> sr_active_version (f r) = sr_active_version r
      \<and> sr_activation_epoch (f r) = sr_activation_epoch r \<and> sr_lifecycle (f r) = sr_lifecycle r \<and> sr_deleted (f r) = sr_deleted r"
proof -
  from assms obtain payload summary dn md and rec :: authority_head where
    "publish i i ''secret.updated'' payload summary (set_record i (\<lambda>r. r\<lparr>sr_display_name := dn, sr_metadata := md, sr_incarnation := ln_incarnation (ah_lineage rec),
       sr_deployment := ln_deployment (ah_lineage rec), sr_state_version := sr_state_version r + 1, sr_updated_at := now\<rparr>) db) = Inr (db', s)"
    unfolding update_tx_def bindE_Inr_iff Let_def by blast
  from publish_core [OF this] have "core db' = (sql_update (\<lambda>r. sr_id r = i) (\<lambda>r. r\<lparr>sr_display_name := dn, sr_metadata := md,
      sr_incarnation := ln_incarnation (ah_lineage rec), sr_deployment := ln_deployment (ah_lineage rec), sr_state_version := sr_state_version r + 1,
      sr_updated_at := now\<rparr>) (sd_records db), sd_versions db, sd_credential db, sd_recovery db)"
    by (simp add: core_def set_record_def)
  then show thesis by (rule that) simp
qed

lemma update_ok: "update_tx now lo i input expected db = Inr (db', s) \<Longrightarrow> secrets_ok sv db \<Longrightarrow> secrets_ok sv db'"
  by (erule update_core, erule touch_ok, assumption) auto

lemma delete_core:
  assumes "softDelete_tx now lo i expected db = Inr (db', n)"
  obtains P f where "core db' = (sql_update P f (sd_records db), sd_versions db, sd_credential db, sd_recovery db)"
    "\<And>r. sr_id (f r) = sr_id r \<and> sr_stable_name (f r) = sr_stable_name r \<and> sr_active_version (f r) = sr_active_version r
      \<and> sr_activation_epoch (f r) = sr_activation_epoch r \<and> sr_lifecycle (f r) = ''CLOSED'' \<and> sr_deleted (f r)"
    "\<And>r. P r \<Longrightarrow> sr_id r = i" "\<exists>r \<in> set (sd_records db). P r"
proof -
  let ?P = "\<lambda>r. sr_id r = i \<and> \<not> sr_deleted r \<and> sr_state_version r = expected"
  from assms have count: "sql_count ?P (sd_records db) = 1" by (auto simp: softDelete_tx_def bindE_Inr_iff Let_def split: if_split_asm)
  then have "\<exists>r \<in> set (sd_records db). ?P r" by (auto simp: sql_count_def length_Suc_conv filter_eq_Cons_iff)
  with assms that [of ?P] show thesis by (auto simp: softDelete_tx_def bindE_Inr_iff Let_def core_def split: if_split_asm dest!: publish_core)
qed

lemma delete_ok: "softDelete_tx now lo i expected db = Inr (db', n) \<Longrightarrow> secrets_ok sv db \<Longrightarrow> secrets_ok sv db'"
  by (erule delete_core, erule touch_ok, assumption) auto

lemma reveal_core: "reveal_tx sv actor lo corr i db = Inr (db', v) \<Longrightarrow> core db' = core db"
  by (auto simp: reveal_tx_def bindE_Inr_iff Let_def dest!: access_core split: option.split_asm)

lemma binding_core: "binding_tx sv now rid corr a alias purpose operation db = Inr (db', v) \<Longrightarrow> core db' = core db"
  by (auto simp: binding_tx_def bindE_Inr_iff Let_def dest!: access_core resolution_core split: list.split_asm if_split_asm prod.split_asm)

lemma switch_ok:
  assumes ok: "secrets_ok sv db" and law: "cipher_law sv" and r: "r \<in> set (sd_records db)" "sr_id r = i"
    and app: "append_version sv nonce actor i vid (sr_stable_name r) val db = Inr (db2, v)"
    and f: "\<And>x. sr_id (f x) = sr_id x \<and> sr_stable_name (f x) = sr_stable_name x \<and> sr_active_version (f x) = Some vid
      \<and> sr_lifecycle (f x) = sr_lifecycle x \<and> sr_deleted (f x) = sr_deleted x \<and> sr_activation_epoch (f x) = sr_activation_epoch x + 1"
    and core': "core db' = (sql_update (\<lambda>x. sr_id x = i) f (sd_records db2), map (switched_version (sr_active_version r) vid lo) (sd_versions db2), k, rec)"
    and k: "k = sd_credential db \<or> (\<exists>c c0. k = Some c \<and> sd_credential db = Some c0 \<and> cr_secret_id c = cr_secret_id c0)"
  shows "secrets_ok sv db'"
proof -
  from append_version_core [OF app] obtain n where v: "v = sealed_version sv nonce actor i vid n (sr_stable_name r) val" and fresh: "vid \<notin> vr_id ` set (sd_versions db)"
    and c2: "sd_records db2 = sd_records db" "sd_versions db2 = sd_versions db @ [v]" by (auto simp: core_def)
  have st: "store_ok sv (sd_records db) (sd_versions db)" using ok by (simp add: secrets_ok_def)
  have "holds_value sv r v val" unfolding v by (rule sealed_holds_value [OF law r(2) refl])
  then have ins: "store_ok sv (sd_records db) (sd_versions db2)"
    unfolding c2 by (intro store_ok_insert [OF st r(1)]) (use fresh r(2) v in auto)
  have epoch: "sr_activation_epoch r > 0" using store_okD(4) [OF st r(1)] by (simp add: record_ok_def)
  have "store_ok sv (sql_update (\<lambda>x. sr_id x = sr_id r) f (sd_records db)) (map (switched_version (sr_active_version r) (vr_id v) lo) (sd_versions db2))"
    by (rule store_ok_switch [OF ins r(1)]) (use f epoch r(2) v c2 in auto)
  with r(2) v c2(1) have "store_ok sv (sql_update (\<lambda>x. sr_id x = i) f (sd_records db2)) (map (switched_version (sr_active_version r) vid lo) (sd_versions db2))" by simp
  then show ?thesis
  proof (rule secrets_ok_coreI [OF core'])
    fix c
    assume "k = Some c"
    with k obtain c0 where c0: "sd_credential db = Some c0" "cr_secret_id c = cr_secret_id c0" by (metis option.inject)
    then have "key_linked (sd_records db2) c" using ok c2(1) by (simp add: secrets_ok_def key_linked_def)
    then show "key_linked (sql_update (\<lambda>x. sr_id x = i) f (sd_records db2)) c" using f by (intro key_linked_update) auto
  qed
qed

lemma set_record_twice: "(\<And>r. sr_id (h r) = sr_id r) \<Longrightarrow> set_record i g (set_record i h db) = set_record i (\<lambda>r. g (h r)) db"
  by (simp add: set_record_def sql_update_def)

lemma add_active_core:
  assumes "addVersion_tx sv vid nonce now actor lo i val expected True db = Inr (db', s)"
  obtains row db2 v f where "row \<in> set (sd_records db)" "sr_id row = i" "\<not> sr_deleted row"
    "append_version sv nonce actor i vid (sr_stable_name row) val db = Inr (db2, v)"
    "\<And>x. sr_id (f x) = sr_id x \<and> sr_stable_name (f x) = sr_stable_name x \<and> sr_active_version (f x) = Some vid
      \<and> sr_lifecycle (f x) = sr_lifecycle x \<and> sr_deleted (f x) = sr_deleted x \<and> sr_activation_epoch (f x) = sr_activation_epoch x + 1"
    "core db' = (sql_update (\<lambda>x. sr_id x = i) f (sd_records db2), map (switched_version (sr_active_version row) vid lo) (sd_versions db2),
       sd_credential db, sd_recovery db)"
  using assms
proof (rule add_core)
  fix row db2 v and rec :: authority_head
  assume row: "locked_secret i expected db = Inr row" and app: "append_version sv nonce actor i vid (sr_stable_name row) val db = Inr (db2, v)"
    and core': "core db' = core (set_record i (\<lambda>r. r\<lparr>sr_incarnation := ln_incarnation (ah_lineage rec), sr_deployment := ln_deployment (ah_lineage rec)\<rparr>)
      (if True then set_record i (\<lambda>r. r\<lparr>sr_active_version := Some vid, sr_activation_epoch := sr_activation_epoch r + 1,
           sr_state_version := sr_state_version r + 1, sr_updated_at := now\<rparr>) (activate_version vid lo (retire_version (sr_active_version row) db2))
       else db2))"
  have "sd_credential db2 = sd_credential db" "sd_recovery db2 = sd_recovery db" using append_version_core [OF app] by (auto simp: core_def)
  with core' have "core db' = (sql_update (\<lambda>x. sr_id x = i) (\<lambda>r. r\<lparr>sr_active_version := Some vid, sr_activation_epoch := sr_activation_epoch r + 1,
         sr_state_version := sr_state_version r + 1, sr_updated_at := now, sr_incarnation := ln_incarnation (ah_lineage rec), sr_deployment := ln_deployment (ah_lineage rec)\<rparr>)
       (sd_records db2), map (switched_version (sr_active_version row) vid lo) (sd_versions db2), sd_credential db, sd_recovery db)"
    by (simp add: set_record_twice switch_core)
  from that [OF _ _ _ app _ this] locked_secret_Inr [OF row] show thesis by simp
qed

lemma add_ok:
  assumes add: "addVersion_tx sv vid nonce now actor lo i val expected active db = Inr (db', s)" and ok: "secrets_ok sv db" and law: "cipher_law sv"
  shows "secrets_ok sv db'"
proof (cases active)
  case True
  with add have "addVersion_tx sv vid nonce now actor lo i val expected True db = Inr (db', s)" by simp
  then show ?thesis
  proof (rule add_active_core)
    fix row db2 v f
    assume "row \<in> set (sd_records db)" "sr_id row = i" "append_version sv nonce actor i vid (sr_stable_name row) val db = Inr (db2, v)"
      "\<And>x. sr_id (f x) = sr_id x \<and> sr_stable_name (f x) = sr_stable_name x \<and> sr_active_version (f x) = Some vid
        \<and> sr_lifecycle (f x) = sr_lifecycle x \<and> sr_deleted (f x) = sr_deleted x \<and> sr_activation_epoch (f x) = sr_activation_epoch x + 1"
      "core db' = (sql_update (\<lambda>x. sr_id x = i) f (sd_records db2), map (switched_version (sr_active_version row) vid lo) (sd_versions db2),
         sd_credential db, sd_recovery db)"
    from switch_ok [OF ok law this] show ?thesis by simp
  qed
next
  case False
  from add show ?thesis
  proof (rule add_core)
    fix row db2 v and rec :: authority_head
    assume row: "locked_secret i expected db = Inr row" and app: "append_version sv nonce actor i vid (sr_stable_name row) val db = Inr (db2, v)"
      and core': "core db' = core (set_record i (\<lambda>r. r\<lparr>sr_incarnation := ln_incarnation (ah_lineage rec), sr_deployment := ln_deployment (ah_lineage rec)\<rparr>)
        (if active then set_record i (\<lambda>r. r\<lparr>sr_active_version := Some vid, sr_activation_epoch := sr_activation_epoch r + 1,
             sr_state_version := sr_state_version r + 1, sr_updated_at := now\<rparr>) (activate_version vid lo (retire_version (sr_active_version row) db2))
         else db2))"
    note row = locked_secret_Inr [OF row]
    from append_version_core [OF app] obtain n where v: "v = sealed_version sv nonce actor i vid n (sr_stable_name row) val"
      and fresh: "vid \<notin> vr_id ` set (sd_versions db)"
      and c2: "core db2 = (sd_records db, sd_versions db @ [v], sd_credential db, sd_recovery db)" by auto
    have "holds_value sv row v val" unfolding v by (rule sealed_holds_value [OF law]) (use row in auto)
    then have "store_ok sv (sd_records db) (sd_versions db @ [v])"
      by (intro store_ok_insert [where r = row]) (use ok row fresh v in \<open>auto simp: secrets_ok_def\<close>)
    then have "secrets_ok sv db2" using ok by (intro secrets_ok_coreI [OF c2]) (auto simp: secrets_ok_def)
    moreover from core' False have "core db' = (sql_update (\<lambda>r. sr_id r = i) (\<lambda>r. r\<lparr>sr_incarnation := ln_incarnation (ah_lineage rec),
        sr_deployment := ln_deployment (ah_lineage rec)\<rparr>) (sd_records db2), sd_versions db2, sd_credential db2, sd_recovery db2)"
      by (simp add: core_def set_record_def)
    ultimately show ?thesis by (rule touch_ok) simp_all
  qed
qed

text \<open>A rotation that is not a replay, with the stored rows after it.\<close>

lemma rotate_rows:
  assumes "rotate_tx sv vid nonce token now expected actor lo db = Inr (db', x)"
  obtains "db' = db" | c secret db2 v f rec where "sd_credential db = Some c" "cr_secret_id c = Some (sr_id secret)" "secret \<in> set (sd_records db)"
    "append_version sv nonce actor (sr_id secret) vid OWNER_API_KEY (api_key_value token) db = Inr (db2, v)"
    "\<And>x. sr_id (f x) = sr_id x \<and> sr_stable_name (f x) = sr_stable_name x \<and> sr_active_version (f x) = Some vid
      \<and> sr_lifecycle (f x) = sr_lifecycle x \<and> sr_deleted (f x) = sr_deleted x \<and> sr_activation_epoch (f x) = sr_activation_epoch x + 1"
    "core db' = (sql_update (\<lambda>x. sr_id x = sr_id secret) f (sd_records db2), map (switched_version (sr_active_version secret) vid lo) (sd_versions db2),
       Some (c\<lparr>cr_secret_version_id := Some vid, cr_verifier_hash := Some (tokenDigest (ss_sha256 sv) (api_key_value token)),
         cr_fingerprint := Some (fingerprint (ss_sha256 sv) (api_key_value token)), cr_version := cr_version c + 1,
         cr_activation_epoch := cr_activation_epoch c + 1, cr_last_rotate := Some lo,
         cr_last_outcome_digest := Some (rotation_digest sv x), cr_state_version := cr_state_version c + 1\<rparr>), rec)"
  using assms
proof (rule rotate_core)
  assume "db' = db"
  then show thesis by (rule that(1))
next
  fix c :: credential_row and secret db2 v and rec :: authority_head
  let ?f = "\<lambda>r. r\<lparr>sr_active_version := Some vid, sr_activation_epoch := sr_activation_epoch r + 1,
         sr_incarnation := ln_incarnation (ah_lineage rec), sr_deployment := ln_deployment (ah_lineage rec),
         sr_state_version := sr_state_version r + 1, sr_updated_at := now\<rparr>"
  let ?c = "c\<lparr>cr_secret_version_id := Some vid, cr_verifier_hash := Some (tokenDigest (ss_sha256 sv) (api_key_value token)),
         cr_fingerprint := Some (fingerprint (ss_sha256 sv) (api_key_value token)), cr_version := cr_version c + 1,
         cr_activation_epoch := cr_activation_epoch c + 1, cr_last_rotate := Some lo,
         cr_last_outcome_digest := Some (rotation_digest sv x), cr_state_version := cr_state_version c + 1\<rparr>"
  assume c: "sd_credential db = Some c" "cr_secret_id c = Some (sr_id secret)" "secret \<in> set (sd_records db)"
    "append_version sv nonce actor (sr_id secret) vid OWNER_API_KEY (api_key_value token) db = Inr (db2, v)"
    and core': "core db' = core ((set_record (sr_id secret) ?f (activate_version vid lo (retire_version (sr_active_version secret) db2)))\<lparr>sd_credential := Some ?c\<rparr>)"
  have sw: "core (d\<lparr>sd_credential := q\<rparr>) = (sd_records d, sd_versions d, q, sd_recovery d)" for d q by (simp add: core_def)
  have "core db' = (sql_update (\<lambda>x. sr_id x = sr_id secret) ?f (sd_records db2), map (switched_version (sr_active_version secret) vid lo) (sd_versions db2), Some ?c, sd_recovery db2)"
    using switch_core [of "sr_id secret" ?f vid lo "sr_active_version secret" db2] unfolding core' sw by (simp add: core_def)
  from that(2) [OF c _ this] show thesis by simp
qed

lemma rotate_ok:
  assumes rot: "rotate_tx sv vid nonce token now expected actor lo db = Inr (db', x)" and ok: "secrets_ok sv db" and law: "cipher_law sv"
  shows "secrets_ok sv db'"
  using rot
proof (rule rotate_rows)
  fix c secret db2 v f rec
  assume c: "sd_credential db = Some c" "cr_secret_id c = Some (sr_id secret)" and secret: "secret \<in> set (sd_records db)"
    and app: "append_version sv nonce actor (sr_id secret) vid OWNER_API_KEY (api_key_value token) db = Inr (db2, v)"
    and f: "\<And>x. sr_id (f x) = sr_id x \<and> sr_stable_name (f x) = sr_stable_name x \<and> sr_active_version (f x) = Some vid
      \<and> sr_lifecycle (f x) = sr_lifecycle x \<and> sr_deleted (f x) = sr_deleted x \<and> sr_activation_epoch (f x) = sr_activation_epoch x + 1"
    and core': "core db' = (sql_update (\<lambda>x. sr_id x = sr_id secret) f (sd_records db2), map (switched_version (sr_active_version secret) vid lo) (sd_versions db2),
       Some (c\<lparr>cr_secret_version_id := Some vid, cr_verifier_hash := Some (tokenDigest (ss_sha256 sv) (api_key_value token)),
         cr_fingerprint := Some (fingerprint (ss_sha256 sv) (api_key_value token)), cr_version := cr_version c + 1,
         cr_activation_epoch := cr_activation_epoch c + 1, cr_last_rotate := Some lo,
         cr_last_outcome_digest := Some (rotation_digest sv x), cr_state_version := cr_state_version c + 1\<rparr>), rec)"
  have st: "store_ok sv (sd_records db) (sd_versions db)" using ok by (simp add: secrets_ok_def)
  have "key_linked (sd_records db) c" using ok c(1) by (simp add: secrets_ok_def)
  then have name: "sr_stable_name secret = OWNER_API_KEY" using c(2) store_record_eq [OF st secret] by (auto simp: key_linked_def)
  from switch_ok [OF ok law secret refl app [folded name] f core'] c show ?thesis by simp
qed (simp add: ok)

lemma secret_step_ok: "secret_step sv db a db' \<Longrightarrow> cipher_law sv \<Longrightarrow> secrets_ok sv db \<Longrightarrow> secrets_ok sv db'"
  by (erule secret_step_cases)
    (blast intro: create_ok add_ok update_ok delete_ok ensure_ok rotate_ok, blast intro: add_ok, blast intro: update_ok, blast intro: delete_ok,
     simp add: secrets_ok_core [OF reveal_core], simp add: secrets_ok_core [OF binding_core], blast intro: ensure_ok, blast intro: rotate_ok)

lemma fresh_secrets_ok: "fresh_secrets db \<Longrightarrow> secrets_ok sv db"
  by (auto simp: fresh_secrets_def secrets_ok_def store_ok_def key_linked_def fresh_credential_def split: option.splits)

lemma reachable_secrets_ok: "secrets.reach sv db \<Longrightarrow> cipher_law sv \<Longrightarrow> secrets_ok sv db"
  by (rule secrets.invariant_rule [of "secrets_ok sv" sv]) (auto intro: fresh_secrets_ok secret_step_ok)

section \<open>What the invariant gives\<close>

lemma active_versions_exact:
  assumes ok: "store_ok sv (sd_records db) (sd_versions db)" and r: "r \<in> set (sd_records db)"
  obtains v where "filter (\<lambda>v. vr_secret_id v = sr_id r \<and> vr_lifecycle v = ''ACTIVE'') (sd_versions db) = [v]" "sr_active_version r = Some (vr_id v)"
    "v \<in> set (sd_versions db)" "vr_secret_id v = sr_id r" "vr_lifecycle v = ''ACTIVE''" "active_version_of r db = Some v"
proof -
  have active: "vr_lifecycle w = ''ACTIVE'' \<longleftrightarrow> sr_active_version r = Some (vr_id w)" if "w \<in> set (sd_versions db)" "vr_secret_id w = sr_id r" for w
    using store_okD(5) [OF ok that(1)] store_record_eq [OF ok _ r] that(2) by (auto simp: version_ok_def)
  from store_okD(4) [OF ok r] obtain v where v: "v \<in> set (sd_versions db)" "vr_secret_id v = sr_id r" "sr_active_version r = Some (vr_id v)"
    by (auto simp: record_ok_def)
  have "filter (\<lambda>w. vr_secret_id w = sr_id r \<and> vr_lifecycle w = ''ACTIVE'') (sd_versions db) = filter (\<lambda>w. vr_id w = vr_id v) (sd_versions db)"
  proof (intro filter_cong refl iffI conjI)
    fix w
    assume w: "w \<in> set (sd_versions db)"
    show "vr_id w = vr_id v" if "vr_secret_id w = sr_id r \<and> vr_lifecycle w = ''ACTIVE''" using active [OF w] that v(3) by simp
    assume "vr_id w = vr_id v"
    then have "w = v" using store_version_eq [OF ok w v(1)] by simp
    with active [OF v(1,2)] v show "vr_secret_id w = sr_id r" "vr_lifecycle w = ''ACTIVE''" by simp_all
  qed
  also have "\<dots> = [v]" using v(1) store_okD(3) [OF ok] by (intro filter_key_unique)
  finally have f: "filter (\<lambda>w. vr_secret_id w = sr_id r \<and> vr_lifecycle w = ''ACTIVE'') (sd_versions db) = [v]" .
  have "sql_first (\<lambda>w. vr_id w = vr_id v \<and> vr_lifecycle w = ''ACTIVE'') (sd_versions db) = Some v"
  proof (cases "sql_first (\<lambda>w. vr_id w = vr_id v \<and> vr_lifecycle w = ''ACTIVE'') (sd_versions db)")
    case None
    then show ?thesis using v active by (auto simp: sql_first_None)
  next
    case (Some w)
    then show ?thesis using store_version_eq [OF ok _ v(1), of w] sql_first_Some [OF Some] by auto
  qed
  then have "active_version_of r db = Some v" by (simp add: active_version_of_def v(3))
  with f v active that show thesis by blast
qed

lemma usage_checks_pass:
  assumes ok: "store_ok sv (sd_records db) (sd_versions db)" and r: "r \<in> set (sd_records db)"
  shows "usage_checks h r db = [(''recoveryReady'', recovery_ready h),
    (''recordLineageCurrent'', sr_incarnation r = rr_current_incarnation h \<and> sr_deployment r = rr_current_epoch h),
    (''activePointerConsistent'', True), (''activationEpochConsistent'', True), (''activeLifecycleConsistent'', True)]"
proof (rule active_versions_exact [OF ok r])
  fix v
  assume v: "filter (\<lambda>v. vr_secret_id v = sr_id r \<and> vr_lifecycle v = ''ACTIVE'') (sd_versions db) = [v]" "sr_active_version r = Some (vr_id v)"
    "v \<in> set (sd_versions db)" "vr_secret_id v = sr_id r" "vr_lifecycle v = ''ACTIVE''"
  have "sql_first (\<lambda>w. Some (vr_id w) = sr_active_version r \<and> vr_secret_id w = sr_id r) (sd_versions db) = Some v"
  proof (cases "sql_first (\<lambda>w. Some (vr_id w) = sr_active_version r \<and> vr_secret_id w = sr_id r) (sd_versions db)")
    case None
    then show ?thesis using v by (auto simp: sql_first_None)
  next
    case (Some w)
    then show ?thesis using store_version_eq [OF ok _ v(3), of w] sql_first_Some [OF Some] v(2) by auto
  qed
  with v store_okD(4) [OF ok r] show ?thesis by (auto simp: usage_checks_def sql_count_def record_ok_def Let_def)
qed


section \<open>The value a secret holds\<close>

text \<open>Runs whose steps satisfy a predicate of the state and the action.\<close>

inductive secret_run :: "secret_services \<Rightarrow> (secret_db \<Rightarrow> secret_action \<Rightarrow> bool) \<Rightarrow> secret_db \<Rightarrow> secret_db \<Rightarrow> bool" for sv P where
  run_none: "secret_run sv P db db"
| run_more: "secret_run sv P db db1 \<Longrightarrow> secret_step sv db1 a db2 \<Longrightarrow> P db1 a \<Longrightarrow> secret_run sv P db db2"

definition keeps_version :: "string \<Rightarrow> secret_db \<Rightarrow> secret_action \<Rightarrow> bool" where
  "keeps_version i db a = (a \<noteq> Add_Version i True \<and> a \<noteq> Soft_Delete i
     \<and> (a = Rotate_Key \<longrightarrow> (case sd_credential db of None \<Rightarrow> True | Some c \<Rightarrow> cr_secret_id c \<noteq> Some i)))"

definition current_value :: "secret_services \<Rightarrow> string \<Rightarrow> string \<Rightarrow> string \<Rightarrow> string \<Rightarrow> secret_db \<Rightarrow> bool" where
  "current_value sv i name vid val db = (\<exists>r \<in> set (sd_records db). \<exists>v \<in> set (sd_versions db). sr_id r = i \<and> sr_stable_name r = name \<and> \<not> sr_deleted r
     \<and> sr_active_version r = Some vid \<and> vr_id v = vid \<and> holds_value sv r v val)"

text \<open>A step leaves a secret alone when its record keeps name, deletion and pointer and every version stays openable.\<close>

definition leaves :: "secret_services \<Rightarrow> string \<Rightarrow> secret_db \<Rightarrow> secret_db \<Rightarrow> bool" where
  "leaves sv i db db' = ((\<forall>r \<in> set (sd_records db). sr_id r = i \<longrightarrow> (\<exists>r' \<in> set (sd_records db'). sr_id r' = i \<and> sr_stable_name r' = sr_stable_name r
       \<and> sr_deleted r' = sr_deleted r \<and> sr_active_version r' = sr_active_version r))
     \<and> (\<forall>v \<in> set (sd_versions db). \<exists>v' \<in> set (sd_versions db'). vr_id v' = vr_id v \<and> (\<forall>q x. holds_value sv q v x \<longrightarrow> holds_value sv q v' x)))"

lemma current_value_keep:
  assumes cur: "current_value sv i name vid val db" and l: "leaves sv i db db'"
  shows "current_value sv i name vid val db'"
proof -
  from cur obtain q w where q: "q \<in> set (sd_records db)" "w \<in> set (sd_versions db)" "sr_id q = i" "sr_stable_name q = name" "\<not> sr_deleted q"
      "sr_active_version q = Some vid" "vr_id w = vid" "holds_value sv q w val"
    by (auto simp: current_value_def)
  with l obtain q' where q': "q' \<in> set (sd_records db')" "sr_id q' = i" "sr_stable_name q' = name" "\<not> sr_deleted q'" "sr_active_version q' = Some vid"
    unfolding leaves_def by metis
  from l q obtain w' where w': "w' \<in> set (sd_versions db')" "vr_id w' = vid" "holds_value sv q w' val" unfolding leaves_def by metis
  then have "holds_value sv q' w' val" using q q' by (metis holds_value_cong)
  with q' w' show ?thesis unfolding current_value_def by (intro bexI [of _ q'] bexI [of _ w']) auto
qed

lemma leaves_core: "core db' = core db \<Longrightarrow> leaves sv i db db'"
  by (auto simp: leaves_def core_eq)

lemma leaves_append: "core db' = (sd_records db @ rs, sd_versions db @ vs, k, rec) \<Longrightarrow> leaves sv i db db'"
  unfolding leaves_def core_def by auto

lemma leaves_update:
  assumes "core db' = (sql_update P f (sd_records db), map g (sd_versions db @ ws), k, rec)"
    and "\<And>r. P r \<Longrightarrow> sr_id r = i \<Longrightarrow> sr_id (f r) = sr_id r \<and> sr_stable_name (f r) = sr_stable_name r \<and> sr_deleted (f r) = sr_deleted r \<and> sr_active_version (f r) = sr_active_version r"
    and "\<And>v. vr_id (g v) = vr_id v \<and> (\<forall>q x. holds_value sv q (g v) x = holds_value sv q v x)"
  shows "leaves sv i db db'"
  unfolding leaves_def
proof (intro conjI ballI impI)
  fix r
  assume r: "r \<in> set (sd_records db)" "sr_id r = i"
  then have "(if P r then f r else r) \<in> set (sd_records db')" using assms(1) by (auto simp: core_def sql_update_def)
  with r assms(2) show "\<exists>r' \<in> set (sd_records db'). sr_id r' = i \<and> sr_stable_name r' = sr_stable_name r \<and> sr_deleted r' = sr_deleted r \<and> sr_active_version r' = sr_active_version r"
    by (intro bexI [of _ "if P r then f r else r"]) auto
next
  fix v
  assume "v \<in> set (sd_versions db)"
  then have "g v \<in> set (sd_versions db')" using assms(1) by (auto simp: core_def)
  with assms(3) show "\<exists>v' \<in> set (sd_versions db'). vr_id v' = vr_id v \<and> (\<forall>q x. holds_value sv q v x \<longrightarrow> holds_value sv q v' x)" by (intro bexI [of _ "g v"]) auto
qed

lemma leaves_touch:
  assumes "core db' = (sql_update P f (sd_records db), sd_versions db, k, rec)"
    and "\<And>r. P r \<Longrightarrow> sr_id r = i \<Longrightarrow> sr_id (f r) = sr_id r \<and> sr_stable_name (f r) = sr_stable_name r \<and> sr_deleted (f r) = sr_deleted r \<and> sr_active_version (f r) = sr_active_version r"
  shows "leaves sv i db db'"
  by (rule leaves_update [where g = id and ws = "[]" and f = f and P = P]) (use assms in auto)

lemma first_activation_leaves:
  assumes "insert_record (new_secret_row j name displayName kind metadata now rec) db = Inr db1" "append_version sv nonce actor j vid name' val db1 = Inr (db2, v)"
    and "core db' = core ((first_activation j vid lo now db2)\<lparr>sd_credential := k\<rparr>)"
  shows "leaves sv i db db'"
proof -
  from new_secret_rows [OF assms(1,2), of lo] assms(3)
  obtain r w where "core db' = (sd_records db @ [r], sd_versions db @ [w], k, sd_recovery db)" by (auto simp: core_def)
  then show ?thesis by (rule leaves_append)
qed

lemma create_leaves: "create_tx sv j vid nonce now actor lo input db = Inr (db', u) \<Longrightarrow> leaves sv i db db'"
  by (erule create_core, erule (1) first_activation_leaves) (simp add: core_def)

lemma ensure_leaves: "ensure_tx sv j vid nonce token now actor lo db = Inr (db', k) \<Longrightarrow> leaves sv i db db'"
  by (erule ensure_core) (simp_all add: leaves_core first_activation_leaves)

lemma update_leaves: "update_tx now lo j input expected db = Inr (db', s) \<Longrightarrow> leaves sv i db db'"
  by (erule update_core, erule leaves_touch) auto

lemma delete_leaves: "softDelete_tx now lo j expected db = Inr (db', n) \<Longrightarrow> j \<noteq> i \<Longrightarrow> leaves sv i db db'"
  by (erule delete_core, erule leaves_touch) auto

lemma switched_leaves:
  assumes "append_version sv nonce actor j vid name val db = Inr (db2, v)"
    and "core db' = (sql_update (\<lambda>x. sr_id x = j) f (sd_records db2), map (switched_version old vid lo) (sd_versions db2), k, rec)" and "j \<noteq> i"
  shows "leaves sv i db db'"
proof -
  have "sd_records db2 = sd_records db" "sd_versions db2 = sd_versions db @ [v]" using append_version_core [OF assms(1)] by (auto simp: core_def)
  with assms(2) have "core db' = (sql_update (\<lambda>x. sr_id x = j) f (sd_records db), map (switched_version old vid lo) (sd_versions db @ [v]), k, rec)" by simp
  then show ?thesis by (rule leaves_update) (use assms(3) in auto)
qed

lemma add_leaves:
  assumes add: "addVersion_tx sv vid nonce now actor lo j val expected active db = Inr (db', s)" and keep: "j \<noteq> i \<or> \<not> active"
  shows "leaves sv i db db'"
proof (cases active)
  case True
  with add have "addVersion_tx sv vid nonce now actor lo j val expected True db = Inr (db', s)" by simp
  then show ?thesis by (rule add_active_core) (rule switched_leaves, use keep True in auto)
next
  case False
  from add show ?thesis
  proof (rule add_core)
    fix row db2 v and rec :: authority_head
    assume app: "append_version sv nonce actor j vid (sr_stable_name row) val db = Inr (db2, v)"
      and c: "core db' = core (set_record j (\<lambda>r. r\<lparr>sr_incarnation := ln_incarnation (ah_lineage rec), sr_deployment := ln_deployment (ah_lineage rec)\<rparr>)
        (if active then set_record j (\<lambda>r. r\<lparr>sr_active_version := Some vid, sr_activation_epoch := sr_activation_epoch r + 1,
             sr_state_version := sr_state_version r + 1, sr_updated_at := now\<rparr>) (activate_version vid lo (retire_version (sr_active_version row) db2))
         else db2))"
    have "sd_records db2 = sd_records db" "sd_versions db2 = sd_versions db @ [v]" using append_version_core [OF app] by (auto simp: core_def)
    with c False have "core db' = (sql_update (\<lambda>x. sr_id x = j) (\<lambda>r. r\<lparr>sr_incarnation := ln_incarnation (ah_lineage rec), sr_deployment := ln_deployment (ah_lineage rec)\<rparr>)
        (sd_records db), map id (sd_versions db @ [v]), sd_credential db2, sd_recovery db2)" by (simp add: core_def set_record_def)
    then show ?thesis by (rule leaves_update) auto
  qed
qed

lemma rotate_leaves:
  assumes "rotate_tx sv vid nonce token now expected actor lo db = Inr (db', x)" and "\<And>c. sd_credential db = Some c \<Longrightarrow> cr_secret_id c \<noteq> Some i"
  shows "leaves sv i db db'"
  using assms(1) by (rule rotate_rows) (simp add: leaves_core, rule switched_leaves, use assms(2) in auto)

lemma kept_current_value:
  assumes "secret_step sv db a db'" and keep: "keeps_version i db a" and cur: "current_value sv i name vid val db"
  shows "current_value sv i name vid val db'"
  by (rule current_value_keep [OF cur], use assms(1) in \<open>cases rule: secret_step.cases\<close>)
    (use keep in \<open>auto simp: keeps_version_def leaves_core reveal_core binding_core
       intro: create_leaves ensure_leaves update_leaves delete_leaves add_leaves rotate_leaves\<close>)

lemma run_keeps_value:
  assumes "secret_run sv (keeps_version i) db db'" and "cipher_law sv" and "secrets_ok sv db" and "current_value sv i name vid val db"
  shows "secrets_ok sv db' \<and> current_value sv i name vid val db'"
  using assms by (induction rule: secret_run.induct) (auto intro: secret_step_ok kept_current_value)

lemma reveal_current:
  assumes ok: "secrets_ok sv db" and cur: "current_value sv i name vid val db"
    and lock: "lockAndVerifyPlatformRecovery (sd_recovery db) = Inr h"
    and fresh: "i @ '':'' @ vid @ '':'' @ corr \<notin> ac_stable_key ` set (sd_accesses db)"
  shows "\<exists>db'. reveal_tx sv actor lo corr i db = Inr (db', \<lparr>rv_value = val, rv_fingerprint = fingerprint (ss_sha256 sv) val, rv_versionId = vid\<rparr>)"
proof -
  have st: "store_ok sv (sd_records db) (sd_versions db)" using ok by (simp add: secrets_ok_def)
  from cur obtain r v where r: "r \<in> set (sd_records db)" "sr_id r = i" "sr_stable_name r = name" "\<not> sr_deleted r" "sr_active_version r = Some vid"
    and v: "v \<in> set (sd_versions db)" "vr_id v = vid" "holds_value sv r v val" by (auto simp: current_value_def)
  obtain w where w: "w \<in> set (sd_versions db)" "sr_active_version r = Some (vr_id w)" "active_version_of r db = Some w"
    by (rule active_versions_exact [OF st r(1)])
  have act: "active_version_of r db = Some v" using store_version_eq [OF st w(1) v(1)] w r(5) v(2) by simp
  have first: "sql_first (\<lambda>r. sr_id r = i \<and> \<not> sr_deleted r \<and> active_version_of r db \<noteq> None) (sd_records db) = Some r"
  proof (cases "sql_first (\<lambda>r. sr_id r = i \<and> \<not> sr_deleted r \<and> active_version_of r db \<noteq> None) (sd_records db)")
    case None
    then show ?thesis using r act by (auto simp: sql_first_None)
  next
    case (Some q)
    from sql_first_Some [OF this] Some store_record_eq [OF st _ r(1), of q] r(2) show ?thesis by auto
  qed
  have "list_ex (\<lambda>x. ac_stable_key x = i @ '':'' @ vid @ '':'' @ corr) (sd_accesses db) = False" using fresh by (auto simp: list_ex_iff image_iff)
  with lock first act v r show ?thesis by (simp add: reveal_tx_def insert_access_def holds_value_def Let_def)
qed

lemma add_current:
  assumes "addVersion_tx sv vid nonce now actor lo i val expected True db = Inr (db', s)" and law: "cipher_law sv"
  shows "\<exists>name. current_value sv i name vid val db'"
  using assms(1)
proof (rule add_active_core)
  fix row db2 v f
  assume row: "row \<in> set (sd_records db)" "sr_id row = i" "\<not> sr_deleted row" and app: "append_version sv nonce actor i vid (sr_stable_name row) val db = Inr (db2, v)"
    and f: "\<And>x. sr_id (f x) = sr_id x \<and> sr_stable_name (f x) = sr_stable_name x \<and> sr_active_version (f x) = Some vid
      \<and> sr_lifecycle (f x) = sr_lifecycle x \<and> sr_deleted (f x) = sr_deleted x \<and> sr_activation_epoch (f x) = sr_activation_epoch x + 1"
    and c: "core db' = (sql_update (\<lambda>x. sr_id x = i) f (sd_records db2), map (switched_version (sr_active_version row) vid lo) (sd_versions db2),
       sd_credential db, sd_recovery db)"
  from append_version_core [OF app] obtain n where v: "v = sealed_version sv nonce actor i vid n (sr_stable_name row) val"
    and c2: "sd_records db2 = sd_records db" "sd_versions db2 = sd_versions db @ [v]" by (auto simp: core_def)
  have "holds_value sv (f row) v val" unfolding v by (rule sealed_holds_value [OF law]) (use f row in auto)
  moreover have "f row \<in> set (sd_records db')" using c c2 row by (auto simp: core_def sql_update_def)
  moreover have "switched_version (sr_active_version row) vid lo v \<in> set (sd_versions db')" using c c2 by (simp add: core_def)
  ultimately show ?thesis using f row v unfolding current_value_def
    by (intro exI [of _ "sr_stable_name row"] bexI [of _ "f row"] bexI [of _ "switched_version (sr_active_version row) vid lo v"]) auto
qed

text \<open>C18. After a version is added and activated, and for as long as the secret is neither deleted nor switched to another version,
  revealing the secret gives exactly the value that was stored and its fingerprint, whatever other operations run in between.\<close>

theorem revealed_value_is_latest:
  assumes "secrets.reach sv db" and "cipher_law sv"
    and "addVersion_tx sv vid nonce now actor lo i val expected True db = Inr (db1, s)" and "secret_run sv (keeps_version i) db1 db2"
    and "lockAndVerifyPlatformRecovery (sd_recovery db2) = Inr h" and "i @ '':'' @ vid @ '':'' @ corr \<notin> ac_stable_key ` set (sd_accesses db2)"
  shows "\<exists>db3. reveal_tx sv actor' lo' corr i db2 = Inr (db3, \<lparr>rv_value = val, rv_fingerprint = fingerprint (ss_sha256 sv) val, rv_versionId = vid\<rparr>)"
proof -
  have "secrets_ok sv db1" using add_ok [OF assms(3)] reachable_secrets_ok [OF assms(1,2)] assms(2) by simp
  moreover obtain name where "current_value sv i name vid val db1" using add_current [OF assms(3,2)] by blast
  ultimately show ?thesis using run_keeps_value [OF assms(4,2)] reveal_current [OF _ _ assms(5,6)] by blast
qed

section \<open>The reserved secret\<close>

definition key_state :: "secret_services \<Rightarrow> credential_row \<Rightarrow> string \<Rightarrow> string \<Rightarrow> string \<Rightarrow> bool" where
  "key_state sv c i vid val = (cr_secret_id c = Some i \<and> i \<noteq> [] \<and> cr_secret_version_id c = Some vid \<and> vid \<noteq> []
     \<and> cr_fingerprint c = Some (fingerprint (ss_sha256 sv) val) \<and> cr_verifier_hash c = Some (tokenDigest (ss_sha256 sv) val)
     \<and> cr_version c > 0 \<and> cr_activation_epoch c > 0)"

definition key_consistent :: "secret_services \<Rightarrow> secret_db \<Rightarrow> bool" where
  "key_consistent sv db = (case sd_credential db of None \<Rightarrow> False
     | Some c \<Rightarrow> cr_secret_id c = None \<and> cr_secret_version_id c = None \<and> cr_fingerprint c = None \<and> cr_version c = 0 \<and> cr_activation_epoch c = 0
         \<or> (\<exists>i vid val. key_state sv c i vid val \<and> current_value sv i OWNER_API_KEY vid val db))"

lemma key_consistent_kept:
  assumes k: "key_consistent sv db" and same: "sd_credential db' = sd_credential db"
    and step: "secret_step sv db a db'" and a: "reserved_respected db a" "a \<noteq> Rotate_Key"
  shows "key_consistent sv db'"
proof -
  have "current_value sv i OWNER_API_KEY vid val db'" if "sd_credential db = Some c" "key_state sv c i vid val" "current_value sv i OWNER_API_KEY vid val db" for c i vid val
    by (rule kept_current_value [OF step _ that(3)]) (use a that in \<open>auto simp: keeps_version_def reserved_respected_def key_state_def split: secret_action.splits\<close>)
  moreover obtain c where "sd_credential db = Some c" using k by (auto simp: key_consistent_def split: option.splits)
  ultimately show ?thesis using k same unfolding key_consistent_def by simp blast
qed

lemma key_consistentI:
  "sd_credential db = Some c \<Longrightarrow> key_state sv c i vid val \<Longrightarrow> current_value sv i OWNER_API_KEY vid val db \<Longrightarrow> key_consistent sv db"
  by (auto simp: key_consistent_def)

lemma ensure_consistent:
  assumes "ensure_tx sv i vid nonce token now actor lo db = Inr (db', k)" and law: "cipher_law sv" and ids: "i \<noteq> []" "vid \<noteq> []" and k: "key_consistent sv db"
  shows "key_consistent sv db'"
  using assms(1)
proof (rule ensure_core)
  fix c rec db1 db2 v
  assume new: "insert_record (new_secret_row i OWNER_API_KEY ''OWNER API key'' ''API_KEY'' (CObj []) now rec) db = Inr db1"
      "append_version sv nonce actor i vid OWNER_API_KEY (api_key_value token) db1 = Inr (db2, v)"
    and core': "core db' = core ((first_activation i vid lo now db2)\<lparr>sd_credential := Some (c\<lparr>cr_secret_id := Some i, cr_secret_version_id := Some vid,
       cr_verifier_hash := Some (tokenDigest (ss_sha256 sv) (api_key_value token)), cr_fingerprint := Some (fingerprint (ss_sha256 sv) (api_key_value token)),
       cr_version := 1, cr_activation_epoch := 1, cr_last_rotate := Some lo, cr_state_version := cr_state_version c + 1\<rparr>)\<rparr>)"
  let ?r = "(new_secret_row i OWNER_API_KEY ''OWNER API key'' ''API_KEY'' (CObj []) now rec)\<lparr>sr_active_version := Some vid, sr_activation_epoch := 1, sr_state_version := 2\<rparr>"
  let ?v = "v\<lparr>vr_lifecycle := ''ACTIVE'', vr_activation_operation := Some lo\<rparr>"
  note f = new_secret_rows [OF new, of lo]
  from f obtain n where v: "v = sealed_version sv nonce actor i vid n OWNER_API_KEY (api_key_value token)" by blast
  have "holds_value sv ?r v (api_key_value token)" unfolding v by (rule sealed_holds_value [OF law]) (simp_all add: new_secret_row_def)
  then have h: "holds_value sv ?r ?v (api_key_value token)" by (simp add: holds_value_def open_version_def)
  have "sd_records db' = sd_records db @ [?r]" "sd_versions db' = sd_versions db @ [?v]" using f core' by (auto simp: core_def)
  then have "current_value sv i OWNER_API_KEY vid (api_key_value token) db'" using h v unfolding current_value_def
    by (intro bexI [of _ ?r] bexI [of _ ?v]) (auto simp: new_secret_row_def)
  with core' ids show ?thesis by (auto simp: core_def key_state_def intro!: key_consistentI)
qed (simp add: k)

lemma rotate_consistent:
  assumes "rotate_tx sv vid nonce token now expected actor lo db = Inr (db', x)" and law: "cipher_law sv" and vid: "vid \<noteq> []"
    and k: "key_consistent sv db" and ok: "secrets_ok sv db"
  shows "key_consistent sv db'"
  using assms(1)
proof (rule rotate_rows)
  fix c :: credential_row and secret db2 v f rec
  let ?c = "c\<lparr>cr_secret_version_id := Some vid, cr_verifier_hash := Some (tokenDigest (ss_sha256 sv) (api_key_value token)),
         cr_fingerprint := Some (fingerprint (ss_sha256 sv) (api_key_value token)), cr_version := cr_version c + 1,
         cr_activation_epoch := cr_activation_epoch c + 1, cr_last_rotate := Some lo,
         cr_last_outcome_digest := Some (rotation_digest sv x), cr_state_version := cr_state_version c + 1\<rparr>"
  assume c: "sd_credential db = Some c" "cr_secret_id c = Some (sr_id secret)" and secret: "secret \<in> set (sd_records db)"
    and app: "append_version sv nonce actor (sr_id secret) vid OWNER_API_KEY (api_key_value token) db = Inr (db2, v)"
    and f: "\<And>x. sr_id (f x) = sr_id x \<and> sr_stable_name (f x) = sr_stable_name x \<and> sr_active_version (f x) = Some vid
      \<and> sr_lifecycle (f x) = sr_lifecycle x \<and> sr_deleted (f x) = sr_deleted x \<and> sr_activation_epoch (f x) = sr_activation_epoch x + 1"
    and core': "core db' = (sql_update (\<lambda>x. sr_id x = sr_id secret) f (sd_records db2), map (switched_version (sr_active_version secret) vid lo) (sd_versions db2), Some ?c, rec)"
  have st: "store_ok sv (sd_records db) (sd_versions db)" using ok by (simp add: secrets_ok_def)
  from k c obtain i old val where ks: "key_state sv c i old val" "current_value sv i OWNER_API_KEY old val db" by (auto simp: key_consistent_def)
  then obtain q where q: "q \<in> set (sd_records db)" "sr_id q = i" "sr_stable_name q = OWNER_API_KEY" "\<not> sr_deleted q" by (auto simp: current_value_def)
  have i: "sr_id secret = i" using ks(1) c(2) by (simp add: key_state_def)
  then have "secret = q" using store_record_eq [OF st secret q(1)] q(2) by simp
  with q i have s: "sr_id secret = i" "sr_stable_name secret = OWNER_API_KEY" "\<not> sr_deleted secret" by simp_all
  from append_version_core [OF app] obtain n where v: "v = sealed_version sv nonce actor (sr_id secret) vid n OWNER_API_KEY (api_key_value token)"
    and c2: "sd_records db2 = sd_records db" "sd_versions db2 = sd_versions db @ [v]" by (auto simp: core_def)
  let ?v = "switched_version (sr_active_version secret) vid lo v"
  have h: "holds_value sv (f secret) v (api_key_value token)" unfolding v by (rule sealed_holds_value [OF law]) (use f s in auto)
  have m: "f secret \<in> set (sd_records db')" "?v \<in> set (sd_versions db')" using core' c2 secret by (auto simp: core_def sql_update_def)
  have "current_value sv i OWNER_API_KEY vid (api_key_value token) db'" unfolding current_value_def
    by (intro bexI [OF _ m(1)] bexI [OF _ m(2)]) (use f h s v in auto)
  moreover have "sd_credential db' = Some ?c" using core' by (simp add: core_def)
  moreover have "key_state sv ?c i vid (api_key_value token)" using ks(1) vid by (auto simp: key_state_def)
  ultimately show ?thesis by (intro key_consistentI)
qed (simp add: k)

lemma other_steps_keep_credential:
  "secret_step sv db a db' \<Longrightarrow> a \<noteq> Ensure_Key \<Longrightarrow> a \<noteq> Rotate_Key \<Longrightarrow> sd_credential db' = sd_credential db"
proof (erule secret_step_cases)
  fix i vid nonce now actor lo input u
  assume "create_tx sv i vid nonce now actor lo input db = Inr (db', u)"
  then show ?thesis
  proof (rule create_core)
    fix rec db1 db2 v
    assume new: "insert_record (new_secret_row i (si_stableName input) (si_displayName input) (si_kind input) (si_metadata input) now rec) db = Inr db1"
        "append_version sv nonce actor i vid (si_stableName input) (si_value input) db1 = Inr (db2, v)"
      and c: "core db' = core (first_activation i vid lo now db2)"
    from new_secret_rows [OF new, of lo] c show ?thesis by (auto simp: core_def)
  qed
next
  fix vid nonce now actor lo i val expected active s
  assume add: "addVersion_tx sv vid nonce now actor lo i val expected active db = Inr (db', s)"
  show ?thesis
  proof (cases active)
    case True
    with add have "addVersion_tx sv vid nonce now actor lo i val expected True db = Inr (db', s)" by simp
    then show ?thesis by (rule add_active_core) (simp add: core_def)
  next
    case False
    from add show ?thesis by (rule add_core) (use False in \<open>auto simp: core_def set_record_def dest!: append_version_core\<close>)
  qed
qed (auto elim!: update_core delete_core simp: core_def dest!: reveal_core binding_core)

lemma reserved_consistent:
  assumes "reserved.reach sv db" and "cipher_law sv"
  shows "secrets_ok sv db \<and> key_consistent sv db"
  using assms(1)
proof (rule reserved.invariant_rule [of "\<lambda>db. secrets_ok sv db \<and> key_consistent sv db", rotated -1])
  fix s t
  assume ok: "secrets_ok sv s \<and> key_consistent sv s" and "\<exists>a. secret_step sv s a t \<and> reserved_respected s a"
  then obtain a where step: "secret_step sv s a t" and a: "reserved_respected s a" by blast
  have "key_consistent sv t"
  proof (cases "a = Ensure_Key \<or> a = Rotate_Key")
    case True
    with step ok assms(2) show ?thesis by (auto elim!: secret_step_cases intro: ensure_consistent rotate_consistent)
  next
    case False
    with ok other_steps_keep_credential [OF step] key_consistent_kept [OF _ _ step a] show ?thesis by blast
  qed
  with secret_step_ok [OF step assms(2)] ok show "secrets_ok sv t \<and> key_consistent sv t" by blast
qed (auto simp: fresh_secrets_ok key_consistent_def fresh_secrets_def fresh_credential_def split: option.splits)

lemma reveal_gives:
  assumes ok: "secrets_ok sv db" and cur: "current_value sv i name vid val db" and reveal: "reveal_tx sv actor lo corr i db = Inr (db', v)"
  shows "rv_value v = val \<and> rv_versionId v = vid"
proof -
  from reveal obtain h where lock: "lockAndVerifyPlatformRecovery (sd_recovery db) = Inr h" by (auto simp: reveal_tx_def bindE_Inr_iff)
  have st: "store_ok sv (sd_records db) (sd_versions db)" using ok by (simp add: secrets_ok_def)
  from reveal obtain r w where r: "r \<in> set (sd_records db)" "sr_id r = i" "active_version_of r db = Some w" and open_w: "open_version sv i (sr_stable_name r) w = Inr (rv_value v)"
      and w: "rv_versionId v = vr_id w"
    by (auto simp: reveal_tx_def bindE_Inr_iff Let_def split: option.split_asm dest!: sql_first_Some)
  from cur obtain q u where q: "q \<in> set (sd_records db)" "sr_id q = i" "sr_active_version q = Some vid" and u: "u \<in> set (sd_versions db)" "vr_id u = vid" "holds_value sv q u val"
    by (auto simp: current_value_def)
  have "r = q" using store_record_eq [OF st r(1) q(1)] r(2) q(2) by simp
  moreover have "w \<in> set (sd_versions db)" "Some (vr_id w) = sr_active_version r" using r(3) by (auto simp: active_version_of_def dest!: sql_first_Some)
  ultimately have "w = u" using store_version_eq [OF st _ u(1), of w] q(3) u(2) by simp
  with \<open>r = q\<close> open_w u(2,3) w q(2) show ?thesis by (simp add: holds_value_def)
qed

lemma fingerprint_present: "(\<And>b. length (ss_sha256 sv b) = 32) \<Longrightarrow> present (Some (fingerprint (ss_sha256 sv) val))"
proof -
  assume "\<And>b. length (ss_sha256 sv b) = 32"
  then have "tokenDigest (ss_sha256 sv) val \<noteq> []" unfolding tokenDigest_def by (metis length_0_conv zero_neq_numeral)
  then show ?thesis by (cases "tokenDigest (ss_sha256 sv) val") (auto simp: present_def fingerprint_def hex_text_def)
qed

lemma sql_first_never: "sql_first (\<lambda>_. False) rows = None"
  by (simp add: sql_first_None)

lemma owner_key_checks_pass:
  assumes ok: "secrets_ok sv db" and k: "key_consistent sv db" and c: "sd_credential db = Some c" and len: "\<And>b. length (ss_sha256 sv b) = 32"
  shows "list_all (\<lambda>(name, passed). passed \<or> name = ''recoveryReady'') (owner_key_checks h c db)"
proof -
  have st: "store_ok sv (sd_records db) (sd_versions db)" using ok by (simp add: secrets_ok_def)
  from k c consider (new) "cr_secret_id c = None" "cr_secret_version_id c = None" "cr_fingerprint c = None" "cr_version c = 0" "cr_activation_epoch c = 0"
    | (key) i vid val where "key_state sv c i vid val" "current_value sv i OWNER_API_KEY vid val db" by (auto simp: key_consistent_def)
  then show ?thesis
  proof cases
    case new
    then show ?thesis by (simp add: owner_key_checks_def present_def Let_def sql_first_never)
  next
    case key
    then obtain r v where r: "r \<in> set (sd_records db)" "sr_id r = i" "sr_stable_name r = OWNER_API_KEY" "\<not> sr_deleted r" "sr_active_version r = Some vid"
      and v: "v \<in> set (sd_versions db)" "vr_id v = vid" "holds_value sv r v val" by (auto simp: current_value_def)
    have rok: "sr_activation_epoch r > 0" "sr_lifecycle r = ''ACTIVE''" using store_okD(4) [OF st r(1)] r(4) by (auto simp: record_ok_def)
    obtain w where w: "w \<in> set (sd_versions db)" "sr_active_version r = Some (vr_id w)" "vr_secret_id w = sr_id r" "vr_lifecycle w = ''ACTIVE''"
      by (rule active_versions_exact [OF st r(1)])
    have wv: "w = v" using store_version_eq [OF st w(1) v(1)] w(2) r(5) v(2) by simp
    have "sql_first (\<lambda>x. sr_id x = sr_id r) (sd_records db) = Some r" by (rule sql_first_unique [OF store_okD(1) [OF st] r(1)])
    then have rec: "sql_first (\<lambda>x. Some (sr_id x) = cr_secret_id c) (sd_records db) = Some r" using key(1) r(2) by (simp add: key_state_def)
    have ver: "sql_first (\<lambda>x. Some (vr_id x) = cr_secret_version_id c \<and> Some (vr_secret_id x) = cr_secret_id c) (sd_versions db) = Some v"
    proof (cases "sql_first (\<lambda>x. Some (vr_id x) = cr_secret_version_id c \<and> Some (vr_secret_id x) = cr_secret_id c) (sd_versions db)")
      case None
      then show ?thesis using v(1,2) w(3) wv r(2) key(1) by (auto simp: sql_first_None key_state_def)
    next
      case (Some u)
      then show ?thesis using sql_first_Some [OF Some] store_version_eq [OF st _ v(1), of u] v(2) key(1) by (auto simp: key_state_def)
    qed
    have "present (cr_secret_id c)" "present (cr_secret_version_id c)" "present (cr_fingerprint c)" "vr_fingerprint v = fingerprint (ss_sha256 sv) val"
      using key(1) v(3) fingerprint_present [OF len] by (auto simp: key_state_def holds_value_def present_def)
    with rec ver key(1) r rok w wv show ?thesis by (simp add: owner_key_checks_def key_state_def)
  qed
qed


section \<open>Use by a runtime\<close>

lemma binding_rows_member:
  "(b, r, v) \<in> set (binding_rows now a alias purpose operation db) \<Longrightarrow> b \<in> set (sd_bindings db) \<and> usable_binding now a alias purpose b
     \<and> r \<in> set (sd_records db) \<and> sr_id r = sb_secret_id b \<and> \<not> sr_deleted r \<and> v \<in> set (sd_versions db) \<and> sr_active_version r = Some (vr_id v)
     \<and> vr_lifecycle v = ''ACTIVE'' \<and> (\<exists>m \<in> set (sd_members db). authorizing_member a operation purpose b m)"
  by (auto simp: binding_rows_def split: if_split_asm)

lemma binding_tx_row:
  assumes "binding_tx sv now rid corr a alias purpose operation db = Inr (db', (x, bid))"
  obtains b r v h where "binding_rows now a alias purpose operation db = [(b, r, v)]" "sb_id b = bid" "rv_versionId x = vr_id v"
    "open_version sv (sb_secret_id b) (sr_stable_name r) v = Inr (rv_value x)" "lockAndVerifyPlatformRecovery (sd_recovery db) = Inr h"
    "ln_incarnation (ah_lineage h) = rs_platformIncarnationId a" "sb_version_policy b \<in> {''PINNED_VERSION'', ''CURRENT_ACTIVE''}"
    "sb_version_policy b = ''PINNED_VERSION'' \<longrightarrow> js_string (pinned_version (sb_version_selector b)) = vr_id v"
    "\<exists>n \<in> set (sd_resolutions db'). rn_id n = rid \<and> rn_version_id n = vr_id v \<and> rn_binding_id n = bid \<and> rn_expires_at n \<le> now + 300000
       \<and> (\<forall>t. sb_expires_at b = Some t \<longrightarrow> rn_expires_at n \<le> t)"
proof -
  from assms obtain h where h: "lockAndVerifyPlatformRecovery (sd_recovery db) = Inr h" by (auto simp: binding_tx_def bindE_Inr_iff)
  note run = assms [unfolded binding_tx_def h bindE_simps]
  from run have inc: "ln_incarnation (ah_lineage h) = rs_platformIncarnationId a" by (auto split: if_split_asm)
  from run obtain b r v where rows: "binding_rows now a alias purpose operation db = [(b, r, v)]"
    by (auto split: if_split_asm list.split_asm prod.split_asm)
  note run = run [unfolded rows list.case prod.case]
  from run have policy: "sb_version_policy b \<in> {''PINNED_VERSION'', ''CURRENT_ACTIVE''}" by (auto simp: Let_def split: if_split_asm)
  from run have pinned: "sb_version_policy b = ''PINNED_VERSION'' \<longrightarrow> js_string (pinned_version (sb_version_selector b)) = vr_id v"
    by (auto simp: Let_def split: if_split_asm)
  from run have "sb_id b = bid" "rv_versionId x = vr_id v" "open_version sv (sb_secret_id b) (sr_stable_name r) v = Inr (rv_value x)"
    and "\<exists>n \<in> set (sd_resolutions db'). rn_id n = rid \<and> rn_version_id n = vr_id v \<and> rn_binding_id n = bid \<and> rn_expires_at n \<le> now + 300000
       \<and> (\<forall>t. sb_expires_at b = Some t \<longrightarrow> rn_expires_at n \<le> t)"
    by (auto simp: Let_def bindE_Inr_iff insert_resolution_def insert_access_def append_audit_def split: if_split_asm option.split)
  with that [OF rows _ _ _ h inc policy pinned] show thesis by simp
qed


section \<open>What the reserved secret is not protected from\<close>

text \<open>The general deletion accepts the reserved secret; afterwards its value cannot be revealed, and a rotation, which
  returns a fingerprint only, does not bring it back.\<close>

lemma deleted_secret_not_revealed:
  assumes "softDelete_tx now lo i expected db = Inr (db', n)" and "secrets_ok sv db"
  shows "reveal_tx sv actor lo' corr i db' = Inl secret_not_found \<or> \<not> is_ok (lockAndVerifyPlatformRecovery (sd_recovery db'))"
  using assms(1)
proof (rule delete_core)
  fix P f
  assume c: "core db' = (sql_update P f (sd_records db), sd_versions db, sd_credential db, sd_recovery db)"
    and f: "\<And>r. sr_id (f r) = sr_id r \<and> sr_stable_name (f r) = sr_stable_name r \<and> sr_active_version (f r) = sr_active_version r
      \<and> sr_activation_epoch (f r) = sr_activation_epoch r \<and> sr_lifecycle (f r) = ''CLOSED'' \<and> sr_deleted (f r)"
    and P: "\<And>r. P r \<Longrightarrow> sr_id r = i" "\<exists>r \<in> set (sd_records db). P r"
  have st: "store_ok sv (sd_records db) (sd_versions db)" using assms(2) by (simp add: secrets_ok_def)
  from P obtain r where r: "r \<in> set (sd_records db)" "P r" "sr_id r = i" by blast
  have "sr_deleted q" if q: "q \<in> set (sd_records db')" "sr_id q = i" for q
  proof -
    from q(1) c have "q \<in> set (sql_update P f (sd_records db))" by (simp add: core_def)
    then consider q0 where "P q0" "q = f q0" | "q \<in> set (sd_records db)" "\<not> P q" unfolding set_sql_update by blast
    then show ?thesis
    proof cases
      case 1
      then show ?thesis using f by simp
    next
      case 2
      then have "q = r" using store_record_eq [OF st _ r(1), of q] q(2) r(3) by simp
      with 2 r(2) show ?thesis by simp
    qed
  qed
  then have none: "sql_first (\<lambda>r. sr_id r = i \<and> \<not> sr_deleted r \<and> active_version_of r db' \<noteq> None) (sd_records db') = None" by (auto simp: sql_first_None)
  show ?thesis
  proof (cases "lockAndVerifyPlatformRecovery (sd_recovery db')")
    case (Inr h)
    then show ?thesis unfolding reveal_tx_def Inr bindE_simps none by simp
  qed (simp add: is_ok_def)
qed

text \<open>The same rotation sent again is refused: the state version is compared before the recorded outcome.\<close>

lemma repeated_rotation_conflicts:
  assumes "rotate_tx sv vid nonce token now expected actor lo db = Inr (db', x)" and "db' \<noteq> db"
    and "sd_credential db = Some c" and "cr_state_version c = expected" and "lockAndVerifyPlatformRecovery (sd_recovery db') = Inr h"
  shows "rotate_tx sv vid' nonce' token' now' expected actor lo db' = Inl secret_conflict \<or> rotate_tx sv vid' nonce' token' now' expected actor lo db' = Inl (Domain_Error ''AGENTIC_OPERATION_CONTEXT_INVALID'')"
  using assms(1)
proof (rule rotate_rows)
  fix d secret db2 v f rec
  assume "sd_credential db = Some d" and "core db' = (sql_update (\<lambda>x. sr_id x = sr_id secret) f (sd_records db2), map (switched_version (sr_active_version secret) vid lo) (sd_versions db2),
       Some (d\<lparr>cr_secret_version_id := Some vid, cr_verifier_hash := Some (tokenDigest (ss_sha256 sv) (api_key_value token)),
         cr_fingerprint := Some (fingerprint (ss_sha256 sv) (api_key_value token)), cr_version := cr_version d + 1,
         cr_activation_epoch := cr_activation_epoch d + 1, cr_last_rotate := Some lo,
         cr_last_outcome_digest := Some (rotation_digest sv x), cr_state_version := cr_state_version d + 1\<rparr>), rec)"
  with assms(3,4) obtain e where e: "sd_credential db' = Some e" "cr_state_version e = expected + 1" by (auto simp: core_def)
  then show ?thesis using assms(5) by (simp add: rotate_tx_def)
qed (use assms(2) in simp)

section \<open>Sample secrets\<close>

fun utf8_text :: "byte list \<Rightarrow> string" where
  "utf8_text [] = []"
| "utf8_text [b] = [char_of (unat b)]"
| "utf8_text (b # d # bs) = (if unat b < 128 then char_of (unat b) # utf8_text (d # bs)
     else char_of ((unat b - 192) * 64 + (unat d - 128)) # utf8_text bs)"

lemma utf8_text_char: "utf8_text (utf8_char c @ bs) = c # utf8_text bs"
proof (cases "(of_char c :: nat) < 128")
  case True
  then have "unat (of_nat (of_char c) :: byte) = (of_char c :: nat)" by (simp add: unsigned_of_nat take_bit_nat_eq_self)
  with True show ?thesis by (cases bs) (simp_all add: utf8_char_def)
next
  case False
  let ?n = "of_char c :: nat"
  have n: "?n < 256" by (rule nat_of_char_less_256)
  then have "?n div 64 < 4" by (intro less_mult_imp_div_less) simp
  then have "192 + ?n div 64 < 2 ^ 8" "128 + ?n mod 64 < 2 ^ 8" by simp_all
  then have "unat (of_nat (192 + ?n div 64) :: byte) = 192 + ?n div 64" "unat (of_nat (128 + ?n mod 64) :: byte) = 128 + ?n mod 64"
    unfolding unsigned_of_nat of_nat_id by (simp_all add: take_bit_nat_eq_self del: of_nat_add)
  moreover have "?n div 64 * 64 + ?n mod 64 = ?n" by (rule div_mult_mod_eq)
  ultimately show ?thesis using False by (simp add: utf8_char_def Let_def)
qed

lemma utf8_text_utf8: "utf8_text (utf8 s) = s"
  by (induction s) (simp_all add: utf8_def utf8_text_char)

definition sample_secrets :: secret_services where
  "sample_secrets = \<lparr>ss_sha256 = (\<lambda>_. replicate 32 7), ss_gcm = \<lparr>gcm_seal = (\<lambda>_ _ _ p. (p, [])), gcm_open = (\<lambda>_ _ _ c. Some (fst c))\<rparr>,
     ss_to_text = utf8_text, ss_cipher = (replicate 32 0, ''k''), ss_collation = (\<lambda>_ _. True)\<rparr>"

lemma sample_cipher_law: "cipher_law sample_secrets"
  by (simp add: cipher_law_def sample_secrets_def utf8_text_utf8)

definition sample_credential :: credential_row where
  "sample_credential = \<lparr>cr_id = ''c'', cr_secret_id = None, cr_secret_version_id = None, cr_verifier_hash = None, cr_fingerprint = None, cr_version = 0,
     cr_activation_epoch = 0, cr_last_rotate = None, cr_last_outcome_digest = None, cr_state_version = 1\<rparr>"

definition sample_secret_recovery :: recovery_row where
  "sample_secret_recovery = \<lparr>rr_database_start_identity = [], rr_lineage = \<lparr>ln_incarnation = ''p'', ln_deployment = 0, ln_recovery = 1\<rparr>,
     rr_fencing_token = 1, rr_state = ''READY'', rr_current_incarnation = ''p'', rr_current_epoch = 0, rr_current_database_identity = []\<rparr>"

definition sample_binding :: secret_binding_row where
  "sample_binding = \<lparr>sb_id = ''b'', sb_stable_key = ''alias'', sb_lifecycle = ''ACTIVE'', sb_secret_id = ''s'', sb_source_kind = ''COMPONENT'', sb_source_id = ''o'',
     sb_source_revision = ''r'', sb_usage_purpose = ''use'', sb_target_id = None, sb_version_selector = CObj [], sb_version_policy = ''CURRENT_ACTIVE'',
     sb_revision = 1, sb_activation_set = None, sb_expires_at = None, sb_retired = False, sb_deleted = False, sb_activation_epoch = ''7'',
     sb_incarnation = ''p'', sb_deployment = ''0''\<rparr>"

definition sample_member :: binding_member_row where
  "sample_member = \<lparr>bm_revision_id = ''set'', bm_kind = ''SECRET'', bm_operation = ''op'', bm_purpose = ''use'', bm_source_object = Some ''o'',
     bm_source_revision = Some ''r'', bm_target_binding = Some ''b'', bm_target_secret = None\<rparr>"

definition sample_authority :: runtime_secret_authority where
  "sample_authority = \<lparr>rs_executionId = ''e'', rs_sourceObjectKind = ''COMPONENT'', rs_sourceObjectId = ''o'', rs_sourceRevisionId = ''r'',
     rs_bindingSetRevisionId = ''set'', rs_activationSetId = None, rs_activationEpoch = ''7'', rs_platformIncarnationId = ''p'',
     rs_applicationDeploymentEpoch = ''0''\<rparr>"

definition sample_vault :: secret_db where
  "sample_vault = \<lparr>sd_recovery = Some sample_secret_recovery, sd_records = [], sd_versions = [], sd_credential = Some sample_credential,
     sd_bindings = [sample_binding], sd_members = [sample_member], sd_resolutions = [], sd_accesses = [], sd_sequences = [], sd_outbox = [], sd_audit = []\<rparr>"

definition sample_input :: secret_input where
  "sample_input = \<lparr>si_stableName = ''DB_PASSWORD'', si_displayName = ''Database'', si_kind = ''PASSWORD'', si_value = ''one'', si_metadata = CObj []\<rparr>"

lemma sample_fresh: "fresh_secrets sample_vault"
  by (simp add: fresh_secrets_def sample_vault_def fresh_credential_def sample_credential_def)

lemmas sample_secret_defs = sample_vault_def sample_secret_recovery_def sample_input_def sample_credential_def lockAndVerifyPlatformRecovery_def
  insert_record_def new_secret_row_def append_version_def allocate_def allocateContiguousSequence_def jm_has_def jm_get_def insert_version_def
  first_activation_def set_record_def activate_version_def retire_version_def publish_def appendSecretOutbox_def append_audit_def sql_update_def
  sql_first_def sealed_version_def encrypt_def Let_def

lemma sample_created:
  "\<exists>db1. create_tx sample_secrets ''s'' ''v'' [] 0 ''owner'' ''lo'' sample_input sample_vault = Inr (db1, ())
    \<and> sd_recovery db1 = Some sample_secret_recovery \<and> sd_accesses db1 = [] \<and> sd_bindings db1 = [sample_binding] \<and> sd_members db1 = [sample_member]
    \<and> sd_resolutions db1 = [] \<and> map sr_id (sd_records db1) = [''s''] \<and> map sr_state_version (sd_records db1) = [2]
    \<and> map sr_active_version (sd_records db1) = [Some ''v''] \<and> map sr_deleted (sd_records db1) = [False] \<and> map vr_id (sd_versions db1) = [''v'']
    \<and> map vr_lifecycle (sd_versions db1) = [''ACTIVE''] \<and> map vr_number (sd_versions db1) = [1]
    \<and> last_sequence (sd_sequences db1) (''SECRET_VERSION'', ''s'', ''VERSION_NUMBER'') = 1"
  by (simp add: create_tx_def sample_secrets_def sample_secret_defs last_sequence_def)

lemma sample_created_reach:
  assumes "create_tx sample_secrets ''s'' ''v'' [] 0 ''owner'' ''lo'' sample_input sample_vault = Inr (db1, ())"
  shows "secrets.reach sample_secrets db1"
  using secrets.reach_step [OF secrets.reach_init [OF sample_fresh]] step_create [OF assms] by blast


lemma allocate_total: "\<exists>t'. allocateContiguousSequence ns parent kind t = (t', Inr (last_sequence t (ns, parent, kind) + 1))"
proof -
  obtain t' m where a: "allocateContiguousSequence ns parent kind t = (t', m)" by (cases "allocateContiguousSequence ns parent kind t")
  have "m = Inr (last_sequence t (ns, parent, kind) + 1)" by (rule conjunct1 [OF allocate_step [OF a]])
  with a show ?thesis by blast
qed

lemma publish_total:
  assumes "sd_recovery db = rec" and "sd_accesses db = as"
  shows "\<exists>db' y. publish i agg event payload x db = Inr (db', y) \<and> sd_recovery db' = rec \<and> sd_accesses db' = as"
proof -
  obtain t' where "allocateContiguousSequence ''TRANSACTIONAL_OUTBOX'' i ''SECRET_EVENT'' (sd_sequences db)
      = (t', Inr (last_sequence (sd_sequences db) (''TRANSACTIONAL_OUTBOX'', i, ''SECRET_EVENT'') + 1))"
    using allocate_total by blast
  then show ?thesis using assms by (simp add: publish_def appendSecretOutbox_def allocate_def append_audit_def)
qed

lemma sample_added:
  "\<exists>db1 db2 s. create_tx sample_secrets ''s'' ''v'' [] 0 ''owner'' ''lo'' sample_input sample_vault = Inr (db1, ())
    \<and> addVersion_tx sample_secrets ''w'' [] 1 ''owner'' ''lo2'' ''s'' ''two'' 2 True db1 = Inr (db2, s)
    \<and> sd_recovery db2 = Some sample_secret_recovery \<and> sd_accesses db2 = []"
proof -
  obtain db1 where c: "create_tx sample_secrets ''s'' ''v'' [] 0 ''owner'' ''lo'' sample_input sample_vault = Inr (db1, ())"
    and d: "sd_recovery db1 = Some sample_secret_recovery" "sd_accesses db1 = []" "map sr_id (sd_records db1) = [''s'']" "map sr_state_version (sd_records db1) = [2]"
      "map sr_deleted (sd_records db1) = [False]" "map vr_id (sd_versions db1) = [''v'']" "map vr_number (sd_versions db1) = [1]"
      "last_sequence (sd_sequences db1) (''SECRET_VERSION'', ''s'', ''VERSION_NUMBER'') = 1"
    using sample_created by (elim exE conjE) (rule that)
  from d obtain r v where rv: "sd_records db1 = [r]" "sd_versions db1 = [v]" "sr_id r = ''s''" "sr_state_version r = 2" "\<not> sr_deleted r" "vr_id v = ''v''" "vr_number v = 1"
    by (auto simp: map_eq_Cons_conv)
  obtain t' where a: "allocateContiguousSequence ''SECRET_VERSION'' ''s'' ''VERSION_NUMBER'' (sd_sequences db1) = (t', Inr 2)"
    using allocate_total [of "''SECRET_VERSION''" "''s''" "''VERSION_NUMBER''" "sd_sequences db1"] d(8) by auto
  obtain h where h: "lockAndVerifyPlatformRecovery (sd_recovery db1) = Inr h" using d(1) by (simp add: lockAndVerifyPlatformRecovery_def sample_secret_recovery_def Let_def)
  have l: "locked_secret ''s'' 2 db1 = Inr r" using rv by (simp add: locked_secret_def sql_first_def)
  have "\<exists>db2 w. append_version sample_secrets [] ''owner'' ''s'' ''w'' (sr_stable_name r) ''two'' db1 = Inr (db2, w)
      \<and> sd_recovery db2 = sd_recovery db1 \<and> sd_accesses db2 = sd_accesses db1"
    using rv by (simp add: append_version_def allocate_def a insert_version_def Let_def)
  then obtain db2 w where p: "append_version sample_secrets [] ''owner'' ''s'' ''w'' (sr_stable_name r) ''two'' db1 = Inr (db2, w)"
    "sd_recovery db2 = sd_recovery db1" "sd_accesses db2 = sd_accesses db1" by blast
  have frame: "sd_recovery (activate_version i lo (retire_version old db)) = sd_recovery db" "sd_accesses (activate_version i lo (retire_version old db)) = sd_accesses db" for i lo old db
    by (cases old; simp add: activate_version_def retire_version_def)+
  have "\<exists>db3 s. addVersion_tx sample_secrets ''w'' [] 1 ''owner'' ''lo2'' ''s'' ''two'' 2 True db1 = Inr (db3, s) \<and> sd_recovery db3 = sd_recovery db1 \<and> sd_accesses db3 = sd_accesses db1"
    unfolding addVersion_tx_def h l p(1) bindE_simps prod.case Let_def if_True
    by (rule publish_total) (use p(2,3) frame in \<open>simp_all add: set_record_def\<close>)
  then obtain db3 s where "addVersion_tx sample_secrets ''w'' [] 1 ''owner'' ''lo2'' ''s'' ''two'' 2 True db1 = Inr (db3, s)" "sd_recovery db3 = sd_recovery db1"
    "sd_accesses db3 = sd_accesses db1" by (elim exE conjE) (rule that)
  with c d(1,2) show ?thesis by (intro exI [of _ db1] exI [of _ db3] exI [of _ s]) simp
qed

theorem revealed_value_is_latest_witness:
  "\<exists>db1 db2 db3 s. addVersion_tx sample_secrets ''w'' [] 1 ''owner'' ''lo2'' ''s'' ''two'' 2 True db1 = Inr (db2, s)
    \<and> reveal_tx sample_secrets ''owner'' ''lo3'' ''corr'' ''s'' db2
      = Inr (db3, \<lparr>rv_value = ''two'', rv_fingerprint = fingerprint (ss_sha256 sample_secrets) ''two'', rv_versionId = ''w''\<rparr>)"
proof -
  obtain db1 db2 s where c: "create_tx sample_secrets ''s'' ''v'' [] 0 ''owner'' ''lo'' sample_input sample_vault = Inr (db1, ())"
    and a: "addVersion_tx sample_secrets ''w'' [] 1 ''owner'' ''lo2'' ''s'' ''two'' 2 True db1 = Inr (db2, s)"
    and d: "sd_recovery db2 = Some sample_secret_recovery" "sd_accesses db2 = []" using sample_added by blast
  obtain h where h: "lockAndVerifyPlatformRecovery (sd_recovery db2) = Inr h"
    using d(1) by (simp add: lockAndVerifyPlatformRecovery_def sample_secret_recovery_def Let_def)
  from revealed_value_is_latest [OF sample_created_reach [OF c] sample_cipher_law a run_none h, of "''corr''" "''owner''" "''lo3''"] d(2) a
  show ?thesis by auto
qed



end
