(* ===== verification/OutboxDelivery.thy ===== *)
theory OutboxDelivery
  imports OwnerCrypto CommandStore
begin

text \<open>
  Delivery of the transactional outbox: \<^verbatim>\<open>TransactionalOutboxDeliveryWorker\<close> of \<^verbatim>\<open>packages/worker-runtime/src/index.ts\<close>
  and the step of \<^verbatim>\<open>packages/domain/src/platform-recovery.ts\<close> that hands an undelivered row to the next recovery
  epoch. Any number of relays claim rows, lose their lease, deliver and fail while producers append rows. The
  query of the recovery head is kept with the columns it names, because PostgreSQL rejects a statement that
  names a column the table lacks. Payloads are the values canonical conversion gives; the rows a concurrent transaction
  holds locked are an argument of the claim, as \<^verbatim>\<open>SKIP LOCKED\<close> passes over them.
\<close>

section \<open>State\<close>

datatype sql_value = Sql_Int int | Sql_Text string | Sql_Bool bool | Sql_Null

record head_table =
  ht_columns :: "string list"
  ht_row :: "(string \<times> sql_value) list option"

record delivery_row =
  dr_id :: string
  dr_stream_key :: string
  dr_stream_sequence :: int
  dr_purpose :: string
  dr_event_type :: string
  dr_aggregate_id :: "string option"
  dr_payload :: cjson
  dr_payload_digest :: "byte list"
  dr_recovery_epoch :: int
  dr_status :: string
  dr_available_at :: int
  dr_delivery_owner :: "string option"
  dr_fencing_token :: int
  dr_lease_expires :: "int option"

record inbox_row =
  in_consumer :: string
  in_event :: string
  in_stream_key :: string
  in_stream_sequence :: int
  in_payload_digest :: "byte list"

record phase_run_row =
  pr_id :: string
  pr_job_id :: string
  pr_phase :: string
  pr_state :: string

record generation_job_row =
  gj_id :: string
  gj_active_phase_run :: "string option"
  gj_lifecycle :: string
  gj_current_phase :: "string option"

record delivery_db =
  dd_head :: head_table
  dd_outbox :: "delivery_row list"
  dd_inbox :: "inbox_row list"
  dd_phase_runs :: "phase_run_row list"
  dd_jobs :: "generation_job_row list"
  dd_audit :: "(string \<times> cjson) list" \<comment> \<open>aggregate and payload of each delivery event\<close>

record relay =
  rl_sha256 :: "byte list \<Rightarrow> byte list"
  rl_collation :: collation \<comment> \<open>of property names\<close>
  rl_text_order :: collation \<comment> \<open>of the text and uuid columns\<close>
  rl_workerId :: string
  rl_leaseSeconds :: "int option"

section \<open>The recovery head\<close>

definition select_columns :: "string list \<Rightarrow> head_table \<Rightarrow> (string \<times> sql_value) list option outcome" where
  "select_columns names t = (if list_all (\<lambda>c. c \<in> set (ht_columns t)) names then Inr (ht_row t) else Inl (Pg_Error ''42703''))"

definition delivery_columns :: "string list" where
  "delivery_columns = [''recovery_epoch'', ''state'', ''database_identity_current'', ''recovery_lineage_current'']"

definition head_ready :: "(string \<times> sql_value) list \<Rightarrow> bool" where
  "head_ready r = (map_of r ''state'' = Some (Sql_Text ''READY'') \<and> map_of r ''database_identity_current'' = Some (Sql_Bool True)
     \<and> map_of r ''recovery_lineage_current'' = Some (Sql_Bool True))"

text \<open>The columns the baseline gives the table.\<close>

definition platform_recovery_head_columns :: "string list" where
  "platform_recovery_head_columns = [''singleton_key'', ''database_start_identity'', ''platform_incarnation_id'',
     ''application_deployment_epoch'', ''recovery_epoch'', ''state'', ''state_version'', ''current_attempt_id'',
     ''current_fencing_token'', ''ready_evidence_digest'', ''updated_at'']"

section \<open>Claiming a row\<close>

definition lease_seconds :: "relay \<Rightarrow> int" where
  "lease_seconds w = max 5 (min (case rl_leaseSeconds w of None \<Rightarrow> 30 | Some n \<Rightarrow> n) 300)"

definition terminal_delivery :: "string \<Rightarrow> bool" where
  "terminal_delivery status = (status \<in> {''DELIVERED'', ''FAILED_FINAL''})"

definition release_expired :: "int \<Rightarrow> delivery_row list \<Rightarrow> delivery_row list" where
  "release_expired now = sql_update (\<lambda>r. dr_status r = ''CLAIMED'' \<and> (case dr_lease_expires r of None \<Rightarrow> False | Some t \<Rightarrow> t < now))
     (\<lambda>r. r\<lparr>dr_status := ''PENDING'', dr_delivery_owner := None, dr_lease_expires := None\<rparr>)"

definition predecessors_done :: "delivery_row \<Rightarrow> delivery_row list \<Rightarrow> bool" where
  "predecessors_done r rows = list_all (\<lambda>p. dr_stream_key p = dr_stream_key r \<longrightarrow> dr_stream_sequence p < dr_stream_sequence r
     \<longrightarrow> terminal_delivery (dr_status p)) rows"

definition deliverable :: "int \<Rightarrow> int \<Rightarrow> delivery_row list \<Rightarrow> delivery_row \<Rightarrow> bool" where
  "deliverable now epoch rows r = (dr_status r = ''PENDING'' \<and> dr_available_at r \<le> now \<and> dr_recovery_epoch r = epoch
     \<and> dr_purpose r \<in> {''DOMAIN_EVENT'', ''GENERATION_PHASE_SUCCESSOR''} \<and> predecessors_done r rows)"

definition delivery_order :: "collation \<Rightarrow> delivery_row \<Rightarrow> delivery_row \<Rightarrow> bool" where
  "delivery_order le r s = (dr_available_at r < dr_available_at s \<or> dr_available_at r = dr_available_at s
     \<and> (\<not> le (dr_stream_key s) (dr_stream_key r) \<or> le (dr_stream_key r) (dr_stream_key s)
       \<and> (dr_stream_sequence r < dr_stream_sequence s \<or> dr_stream_sequence r = dr_stream_sequence s \<and> le (dr_id r) (dr_id s))))"

definition next_row :: "relay \<Rightarrow> int \<Rightarrow> string set \<Rightarrow> int \<Rightarrow> delivery_row list \<Rightarrow> delivery_row option" where
  "next_row w now locked epoch rows = (case js_sort (delivery_order (rl_text_order w))
       (filter (\<lambda>r. dr_id r \<notin> locked \<and> deliverable now epoch rows r) rows) of [] \<Rightarrow> None | r # _ \<Rightarrow> Some r)"

definition claimed_row :: "relay \<Rightarrow> int \<Rightarrow> delivery_row \<Rightarrow> delivery_row" where
  "claimed_row w now r = r\<lparr>dr_status := ''CLAIMED'', dr_delivery_owner := Some (rl_workerId w),
     dr_fencing_token := dr_fencing_token r + 1, dr_lease_expires := Some (now + lease_seconds w)\<rparr>"

definition grant_row :: "relay \<Rightarrow> int \<Rightarrow> string set \<Rightarrow> int \<Rightarrow> delivery_db \<Rightarrow> delivery_db \<times> delivery_row option" where
  "grant_row w now locked epoch db = (case next_row w now locked epoch (dd_outbox db) of
     None \<Rightarrow> (db, None)
   | Some r \<Rightarrow> (db\<lparr>dd_outbox := sql_update (\<lambda>x. dr_id x = dr_id r \<and> dr_status x = ''PENDING'') (claimed_row w now) (dd_outbox db)\<rparr>,
       Some (claimed_row w now r)))"

definition claim_tx :: "relay \<Rightarrow> int \<Rightarrow> string set \<Rightarrow> delivery_db \<Rightarrow> (delivery_db \<times> delivery_row option) outcome" where
  "claim_tx w now locked db = bindE (select_columns delivery_columns (dd_head db)) (\<lambda>recovery. case recovery of
     None \<Rightarrow> Inr (db, None)
   | Some head \<Rightarrow>
       if \<not> head_ready head then Inr (db, None)
       else let db1 = db\<lparr>dd_outbox := release_expired now (dd_outbox db)\<rparr> in
         case map_of head ''recovery_epoch'' of
           Some (Sql_Int epoch) \<Rightarrow> Inr (grant_row w now locked epoch db1)
         | _ \<Rightarrow> Inr (db1, None))"

section \<open>Delivering a claimed row\<close>

definition digestPayload :: "relay \<Rightarrow> cjson \<Rightarrow> byte list" where
  "digestPayload w v = rl_sha256 w (utf8 (canonicalJson (rl_collation w) v))"

text \<open>The primary key of the inbox absorbs a repetition; its other unique key rejects an insertion.\<close>

definition insert_inbox :: "inbox_row \<Rightarrow> delivery_db \<Rightarrow> delivery_db outcome" where
  "insert_inbox i db = (if list_ex (\<lambda>x. in_consumer x = in_consumer i \<and> in_event x = in_event i) (dd_inbox db) then Inr db
     else if list_ex (\<lambda>x. in_consumer x = in_consumer i \<and> in_stream_key x = in_stream_key i \<and> in_stream_sequence x = in_stream_sequence i) (dd_inbox db)
     then Inl (Pg_Error ''23505'')
     else Inr (db\<lparr>dd_inbox := dd_inbox db @ [i]\<rparr>))"

definition appendDeliveryAudit :: "delivery_row \<Rightarrow> string \<Rightarrow> string \<Rightarrow> delivery_db \<Rightarrow> delivery_db" where
  "appendDeliveryAudit r consumerId result db = db\<lparr>dd_audit := dd_audit db @ [(dr_id r,
     CObj [(''outboxId'', CStr (dr_id r)), (''streamKey'', CStr (dr_stream_key r)), (''streamSequence'', CStr (int_text (dr_stream_sequence r))),
       (''purpose'', CStr (dr_purpose r)), (''eventType'', CStr (dr_event_type r)), (''consumerId'', CStr consumerId), (''outcome'', CStr result)])]\<rparr>"

definition inbox_entry :: "string \<Rightarrow> delivery_row \<Rightarrow> inbox_row" where
  "inbox_entry consumerId r = \<lparr>in_consumer = consumerId, in_event = dr_id r, in_stream_key = dr_stream_key r,
     in_stream_sequence = dr_stream_sequence r, in_payload_digest = dr_payload_digest r\<rparr>"

definition deliverDomainEvent :: "delivery_row \<Rightarrow> delivery_db \<Rightarrow> delivery_db outcome" where
  "deliverDomainEvent r db = bindE (insert_inbox (inbox_entry ''kcml-domain-event-ledger'' r) db) (\<lambda>db1.
     Inr (appendDeliveryAudit r ''kcml-domain-event-ledger'' ''DURABLY_CONSUMED'' db1))"

definition payload_text :: "cjson \<Rightarrow> string \<Rightarrow> string option" where
  "payload_text v k = (case v of CObj ps \<Rightarrow> (case map_of ps k of Some (CStr s) \<Rightarrow> Some s | _ \<Rightarrow> None) | _ \<Rightarrow> None)"

definition text_or_null :: "string option \<Rightarrow> string" where
  "text_or_null s = (case s of None \<Rightarrow> ''null'' | Some t \<Rightarrow> t)"

definition deliverGenerationSuccessor :: "delivery_row \<Rightarrow> delivery_db \<Rightarrow> delivery_db outcome" where
  "deliverGenerationSuccessor r db = (case (payload_text (dr_payload r) ''phaseRunId'', payload_text (dr_payload r) ''phase'', dr_aggregate_id r) of
     (Some phaseRunId, Some phase, Some aggregate) \<Rightarrow>
       if phaseRunId = [] \<or> phase = [] \<or> aggregate = [] then Inl (Plain_Error ''OUTBOX_GENERATION_SUCCESSOR_PAYLOAD_INVALID'')
       else (case (sql_first (\<lambda>p. pr_id p = phaseRunId \<and> pr_job_id p = aggregate) (dd_phase_runs db), sql_first (\<lambda>j. gj_id j = aggregate) (dd_jobs db)) of
           (Some p, Some j) \<Rightarrow>
             if pr_phase p \<noteq> phase \<or> pr_state p \<noteq> ''QUEUED'' \<or> text_or_null (gj_active_phase_run j) \<noteq> phaseRunId
               \<or> gj_lifecycle j \<noteq> phase \<or> text_or_null (gj_current_phase j) \<noteq> phase
             then Inl (Plain_Error ''OUTBOX_GENERATION_SUCCESSOR_STATE_MISMATCH'')
             else bindE (insert_inbox (inbox_entry ''kcml-generation-phase-scheduler'' r) db) (\<lambda>db1.
               Inr (appendDeliveryAudit r ''kcml-generation-phase-scheduler'' ''SUCCESSOR_READY'' db1))
         | _ \<Rightarrow> Inl (Plain_Error ''OUTBOX_GENERATION_SUCCESSOR_NOT_FOUND''))
   | _ \<Rightarrow> Inl (Plain_Error ''OUTBOX_GENERATION_SUCCESSOR_PAYLOAD_INVALID''))"

definition consume :: "delivery_row \<Rightarrow> delivery_db \<Rightarrow> delivery_db outcome" where
  "consume r db = (if dr_purpose r = ''DOMAIN_EVENT'' then deliverDomainEvent r db
     else if dr_purpose r = ''GENERATION_PHASE_SUCCESSOR'' then deliverGenerationSuccessor r db
     else Inl (Plain_Error ''OUTBOX_PURPOSE_UNSUPPORTED''))"

definition held_by :: "relay \<Rightarrow> string \<Rightarrow> int \<Rightarrow> delivery_row \<Rightarrow> bool" where
  "held_by w i token x = (dr_id x = i \<and> dr_status x = ''CLAIMED'' \<and> dr_delivery_owner x = Some (rl_workerId w) \<and> dr_fencing_token x = token)"

definition mark_delivered :: "relay \<Rightarrow> delivery_row \<Rightarrow> delivery_db \<Rightarrow> delivery_db outcome" where
  "mark_delivered w r db = (if sql_count (held_by w (dr_id r) (dr_fencing_token r)) (dd_outbox db) \<noteq> 1
     then Inl (Plain_Error ''OUTBOX_DELIVERY_FENCE_STALE'')
     else Inr (db\<lparr>dd_outbox := sql_update (held_by w (dr_id r) (dr_fencing_token r))
       (\<lambda>x. x\<lparr>dr_status := ''DELIVERED'', dr_delivery_owner := None, dr_lease_expires := None\<rparr>) (dd_outbox db)\<rparr>))"

definition epoch_current :: "(string \<times> sql_value) list option \<Rightarrow> delivery_row \<Rightarrow> bool" where
  "epoch_current recovery r = (case recovery of None \<Rightarrow> False
     | Some head \<Rightarrow> head_ready head \<and> map_of head ''recovery_epoch'' = Some (Sql_Int (dr_recovery_epoch r)))"

definition deliver_tx :: "relay \<Rightarrow> delivery_row \<Rightarrow> delivery_db \<Rightarrow> delivery_db outcome" where
  "deliver_tx w claim db = (case sql_first (\<lambda>x. dr_id x = dr_id claim) (dd_outbox db) of
     None \<Rightarrow> Inr db
   | Some r \<Rightarrow>
       if dr_status r \<noteq> ''CLAIMED'' then Inr db
       else if text_or_null (dr_delivery_owner r) \<noteq> rl_workerId w \<or> dr_fencing_token r \<noteq> dr_fencing_token claim
       then Inl (Plain_Error ''OUTBOX_DELIVERY_FENCE_STALE'')
       else bindE (select_columns delivery_columns (dd_head db)) (\<lambda>recovery.
         if \<not> epoch_current recovery r then Inl (Plain_Error ''OUTBOX_RECOVERY_EPOCH_STALE'')
         else if dr_payload_digest r \<noteq> digestPayload w (dr_payload r) then Inl (Plain_Error ''OUTBOX_PAYLOAD_DIGEST_MISMATCH'')
         else bindE (consume r db) (mark_delivered w r)))"

definition deterministic_failures :: "string list" where
  "deterministic_failures = [''OUTBOX_GENERATION_SUCCESSOR_PAYLOAD_INVALID'', ''OUTBOX_GENERATION_SUCCESSOR_NOT_FOUND'',
     ''OUTBOX_GENERATION_SUCCESSOR_STATE_MISMATCH'', ''OUTBOX_PAYLOAD_DIGEST_MISMATCH'', ''OUTBOX_PURPOSE_UNSUPPORTED'']"

definition deterministic_failure :: "js_error \<Rightarrow> bool" where
  "deterministic_failure e = (case e of Plain_Error m \<Rightarrow> m \<in> set deterministic_failures | _ \<Rightarrow> False)"

definition fail_tx :: "relay \<Rightarrow> int \<Rightarrow> delivery_row \<Rightarrow> bool \<Rightarrow> delivery_db \<Rightarrow> delivery_db" where
  "fail_tx w now claim deterministic db = db\<lparr>dd_outbox := sql_update (held_by w (dr_id claim) (dr_fencing_token claim))
     (\<lambda>x. x\<lparr>dr_status := if deterministic then ''FAILED_FINAL'' else ''PENDING'',
       dr_available_at := if deterministic then dr_available_at x else now + 5, dr_delivery_owner := None, dr_lease_expires := None\<rparr>) (dd_outbox db)\<rparr>"

definition runOnce_delivery :: "relay \<Rightarrow> int \<Rightarrow> int \<Rightarrow> string set \<Rightarrow> delivery_db \<Rightarrow> delivery_db \<times> bool outcome" where
  "runOnce_delivery w now later locked db = (case claim_tx w now locked db of
     Inl e \<Rightarrow> (db, Inl e)
   | Inr (db1, None) \<Rightarrow> (db1, Inr False)
   | Inr (db1, Some claim) \<Rightarrow>
       (case deliver_tx w claim db1 of
          Inr db2 \<Rightarrow> (db2, Inr True)
        | Inl e \<Rightarrow> (fail_tx w later claim (deterministic_failure e) db1, if deterministic_failure e then Inr True else Inl e)))"

section \<open>Interleavings\<close>

text \<open>The appending of a row: \<^verbatim>\<open>allocateContiguousSequence\<close> gives numbers above all those of the stream.\<close>

definition produce_row :: "delivery_row \<Rightarrow> delivery_db \<Rightarrow> delivery_db outcome" where
  "produce_row r db = (if list_ex (\<lambda>x. dr_id x = dr_id r) (dd_outbox db)
       \<or> list_ex (\<lambda>x. dr_stream_key x = dr_stream_key r \<and> dr_stream_sequence x \<ge> dr_stream_sequence r) (dd_outbox db)
     then Inl (Pg_Error ''23505'')
     else Inr (db\<lparr>dd_outbox := dd_outbox db @ [r\<lparr>dr_status := ''PENDING'', dr_delivery_owner := None, dr_fencing_token := 0, dr_lease_expires := None\<rparr>]\<rparr>))"

definition resume_row :: "string \<Rightarrow> int \<Rightarrow> delivery_db \<Rightarrow> delivery_db" where
  "resume_row i epoch db = db\<lparr>dd_outbox := sql_update (\<lambda>r. dr_id r = i \<and> dr_status r \<in> {''PENDING'', ''CLAIMED''})
     (\<lambda>r. r\<lparr>dr_status := ''PENDING'', dr_delivery_owner := None, dr_lease_expires := None, dr_recovery_epoch := epoch\<rparr>) (dd_outbox db)\<rparr>"

text \<open>
  A relay may deliver or fail with any row it was ever given, however late, also after its lease has passed on. The recovery
  head and the generation tables change in any way.
\<close>

record delivery_world =
  dw_db :: delivery_db
  dw_claims :: "(string \<times> delivery_row) list" \<comment> \<open>relay and row of every claim ever granted\<close>

inductive delivery_step :: "delivery_world \<Rightarrow> delivery_world \<Rightarrow> bool" where
  step_produce: "produce_row r (dw_db s) = Inr db \<Longrightarrow> delivery_step s (s\<lparr>dw_db := db\<rparr>)"
| step_claim: "claim_tx w now locked (dw_db s) = Inr (db, Some c) \<Longrightarrow> delivery_step s (s\<lparr>dw_db := db, dw_claims := (rl_workerId w, c) # dw_claims s\<rparr>)"
| step_no_claim: "claim_tx w now locked (dw_db s) = Inr (db, None) \<Longrightarrow> delivery_step s (s\<lparr>dw_db := db\<rparr>)"
| step_deliver: "(rl_workerId w, c) \<in> set (dw_claims s) \<Longrightarrow> deliver_tx w c (dw_db s) = Inr db \<Longrightarrow> delivery_step s (s\<lparr>dw_db := db\<rparr>)"
| step_fail: "(rl_workerId w, c) \<in> set (dw_claims s) \<Longrightarrow> delivery_step s (s\<lparr>dw_db := fail_tx w now c deterministic (dw_db s)\<rparr>)"
| step_resume: "delivery_step s (s\<lparr>dw_db := resume_row i epoch (dw_db s)\<rparr>)"
| step_tables: "dd_outbox db = dd_outbox (dw_db s) \<Longrightarrow> dd_inbox db = dd_inbox (dw_db s) \<Longrightarrow> dd_audit db = dd_audit (dw_db s)
    \<Longrightarrow> delivery_step s (s\<lparr>dw_db := db\<rparr>)"

definition empty_delivery :: "delivery_world \<Rightarrow> bool" where
  "empty_delivery s = (dd_outbox (dw_db s) = [] \<and> dd_inbox (dw_db s) = [] \<and> dw_claims s = [])"

interpretation delivery: transition_system empty_delivery delivery_step .

section \<open>The invariant\<close>

text \<open>
  Ids and positions are unique, a row is claimed or delivered only when everything before it in its stream is
  finished, and the inbox holds exactly the delivered rows, each stream in its order.
\<close>

definition inbox_matches :: "delivery_row list \<Rightarrow> inbox_row list \<Rightarrow> bool" where
  "inbox_matches rows inbox = (distinct (map in_event inbox)
     \<and> set (map in_event inbox) = dr_id ` {r \<in> set rows. dr_status r = ''DELIVERED''}
     \<and> (\<forall>i \<in> set inbox. \<forall>r \<in> set rows. dr_id r = in_event i \<longrightarrow> in_stream_key i = dr_stream_key r \<and> in_stream_sequence i = dr_stream_sequence r
        \<and> in_payload_digest i = dr_payload_digest r)
     \<and> (\<forall>k. sorted_wrt (<) (map in_stream_sequence (filter (\<lambda>i. in_stream_key i = k) inbox))))"

definition outbox_ok :: "delivery_row list \<Rightarrow> bool" where
  "outbox_ok rows = (distinct (map dr_id rows)
     \<and> (\<forall>r \<in> set rows. \<forall>p \<in> set rows. dr_stream_key p = dr_stream_key r \<longrightarrow> dr_stream_sequence p = dr_stream_sequence r \<longrightarrow> p = r)
     \<and> (\<forall>r \<in> set rows. dr_status r \<in> {''CLAIMED'', ''DELIVERED''} \<longrightarrow> predecessors_done r rows))"

text \<open>What every statement keeps of a row, and the statuses it may give it.\<close>

definition same_place :: "delivery_row \<Rightarrow> delivery_row \<Rightarrow> bool" where
  "same_place r r' = (dr_id r' = dr_id r \<and> dr_stream_key r' = dr_stream_key r \<and> dr_stream_sequence r' = dr_stream_sequence r
     \<and> dr_payload_digest r' = dr_payload_digest r \<and> (terminal_delivery (dr_status r) \<longrightarrow> r' = r))"

lemma outbox_okD:
  assumes "outbox_ok rows"
  shows "distinct (map dr_id rows)"
    and "r \<in> set rows \<Longrightarrow> p \<in> set rows \<Longrightarrow> dr_stream_key p = dr_stream_key r \<Longrightarrow> dr_stream_sequence p = dr_stream_sequence r \<Longrightarrow> p = r"
    and "r \<in> set rows \<Longrightarrow> dr_status r \<in> {''CLAIMED'', ''DELIVERED''} \<Longrightarrow> predecessors_done r rows"
  using assms by (auto simp: outbox_ok_def)

lemma predecessors_done_iff:
  "predecessors_done r rows \<longleftrightarrow> (\<forall>p \<in> set rows. dr_stream_key p = dr_stream_key r \<longrightarrow> dr_stream_sequence p < dr_stream_sequence r
     \<longrightarrow> terminal_delivery (dr_status p))"
  by (simp add: predecessors_done_def list_all_iff)

lemma predecessors_done_map:
  assumes "\<And>r. same_place r (f r)" and "predecessors_done r rows"
  shows "predecessors_done (f r) (map f rows)"
proof -
  have "terminal_delivery (dr_status (f p))" if "terminal_delivery (dr_status p)" for p using assms(1) [of p] that by (auto simp: same_place_def)
  then show ?thesis using assms by (auto simp: predecessors_done_iff same_place_def)
qed

text \<open>A statement that keeps the places keeps the outbox, provided that what it claims was ready.\<close>

lemma outbox_ok_map:
  assumes ok: "outbox_ok rows" and f: "\<And>r. same_place r (f r)"
    and claims: "\<And>r. r \<in> set rows \<Longrightarrow> dr_status (f r) \<in> {''CLAIMED'', ''DELIVERED''} \<Longrightarrow> dr_status r \<notin> {''CLAIMED'', ''DELIVERED''} \<Longrightarrow> predecessors_done r rows"
  shows "outbox_ok (map f rows)"
proof -
  have ids: "map dr_id (map f rows) = map dr_id rows" using f by (auto simp: same_place_def)
  have one: "f p = f r" if "r \<in> set rows" "p \<in> set rows" "dr_stream_key (f p) = dr_stream_key (f r)" "dr_stream_sequence (f p) = dr_stream_sequence (f r)" for r p
    using outbox_okD(2) [OF ok that(1,2)] that f [of p] f [of r] by (auto simp: same_place_def)
  have pre: "predecessors_done (f r) (map f rows)" if "r \<in> set rows" "dr_status (f r) \<in> {''CLAIMED'', ''DELIVERED''}" for r
    using outbox_okD(3) [OF ok that(1)] claims [OF that] by (intro predecessors_done_map f) blast
  show ?thesis unfolding outbox_ok_def ids
  proof (intro conjI ballI impI)
    show "distinct (map dr_id rows)" by (rule outbox_okD(1) [OF ok])
  next
    fix r p
    assume "r \<in> set (map f rows)" "p \<in> set (map f rows)" and eq: "dr_stream_key p = dr_stream_key r" "dr_stream_sequence p = dr_stream_sequence r"
    then obtain r0 p0 where "r = f r0" "p = f p0" "r0 \<in> set rows" "p0 \<in> set rows" by auto
    with one [of r0 p0] eq show "p = r" by simp
  next
    fix r
    assume "r \<in> set (map f rows)" "dr_status r \<in> {''CLAIMED'', ''DELIVERED''}"
    then show "predecessors_done r (map f rows)" using pre by auto
  qed
qed

lemma inbox_matches_map:
  assumes "inbox_matches rows inbox" and f: "\<And>r. same_place r (f r)" and "\<And>r. r \<in> set rows \<Longrightarrow> dr_status (f r) = ''DELIVERED'' \<longleftrightarrow> dr_status r = ''DELIVERED''"
  shows "inbox_matches (map f rows) inbox"
proof -
  have fixed: "f r = r" if "dr_status r = ''DELIVERED''" for r using f [of r] that by (simp add: same_place_def terminal_delivery_def)
  have "{r \<in> set (map f rows). dr_status r = ''DELIVERED''} = {r \<in> set rows. dr_status r = ''DELIVERED''}"
    using assms(3) fixed by (auto simp: image_iff) (metis fixed)
  then show ?thesis using assms(1) f by (auto simp: inbox_matches_def same_place_def)
qed

section \<open>Preservation\<close>

lemma release_expired_map:
  "release_expired now rows = map (\<lambda>r. if dr_status r = ''CLAIMED'' \<and> (case dr_lease_expires r of None \<Rightarrow> False | Some t \<Rightarrow> t < now)
     then r\<lparr>dr_status := ''PENDING'', dr_delivery_owner := None, dr_lease_expires := None\<rparr> else r) rows"
  by (simp add: release_expired_def sql_update_def)

lemma release_expired_ok: "outbox_ok rows \<Longrightarrow> outbox_ok (release_expired now rows)"
  unfolding release_expired_map by (rule outbox_ok_map) (auto simp: same_place_def terminal_delivery_def split: if_split_asm)

lemma release_expired_inbox: "inbox_matches rows inbox \<Longrightarrow> inbox_matches (release_expired now rows) inbox"
  unfolding release_expired_map by (rule inbox_matches_map) (auto simp: same_place_def terminal_delivery_def)

lemma next_row_deliverable:
  assumes "next_row w now locked epoch rows = Some r"
  shows "r \<in> set rows \<and> deliverable now epoch rows r"
proof -
  let ?rows = "js_sort (delivery_order (rl_text_order w)) (filter (\<lambda>r. dr_id r \<notin> locked \<and> deliverable now epoch rows r) rows)"
  obtain rs where "?rows = r # rs" using assms by (auto simp: next_row_def split: list.split_asm)
  then have "r \<in> set ?rows" using list.set_intros(1) by metis
  then show ?thesis by simp
qed

lemma claim_place: "dr_status r = ''PENDING'' \<Longrightarrow> same_place r (claimed_row w now r)"
  by (simp add: same_place_def claimed_row_def terminal_delivery_def)

lemma claim_update_map:
  "sql_update (\<lambda>x. dr_id x = i \<and> dr_status x = ''PENDING'') (claimed_row w now) rows
   = map (\<lambda>x. if dr_id x = i \<and> dr_status x = ''PENDING'' then claimed_row w now x else x) rows"
  by (simp add: sql_update_def)

lemma claim_keeps:
  assumes "outbox_ok rows" "inbox_matches rows inbox" and "r \<in> set rows" "predecessors_done r rows"
  shows "outbox_ok (sql_update (\<lambda>x. dr_id x = dr_id r \<and> dr_status x = ''PENDING'') (claimed_row w now) rows)"
    and "inbox_matches (sql_update (\<lambda>x. dr_id x = dr_id r \<and> dr_status x = ''PENDING'') (claimed_row w now) rows) inbox"
proof -
  have place: "same_place x (if dr_id x = dr_id r \<and> dr_status x = ''PENDING'' then claimed_row w now x else x)" for x
    using claim_place by (simp add: same_place_def)
  show "outbox_ok (sql_update (\<lambda>x. dr_id x = dr_id r \<and> dr_status x = ''PENDING'') (claimed_row w now) rows)"
    unfolding claim_update_map
  proof (rule outbox_ok_map [OF assms(1) place])
    fix x
    assume x: "x \<in> set rows" "dr_status x \<notin> {''CLAIMED'', ''DELIVERED''}"
      and "dr_status (if dr_id x = dr_id r \<and> dr_status x = ''PENDING'' then claimed_row w now x else x) \<in> {''CLAIMED'', ''DELIVERED''}"
    then have "dr_id x = dr_id r" by (auto split: if_split_asm)
    then have "x = r" using x(1) assms(3) outbox_okD(1) [OF assms(1)] by (auto dest: distinct_map_eq)
    then show "predecessors_done x rows" using assms(4) by simp
  qed
  show "inbox_matches (sql_update (\<lambda>x. dr_id x = dr_id r \<and> dr_status x = ''PENDING'') (claimed_row w now) rows) inbox"
    unfolding claim_update_map by (rule inbox_matches_map [OF assms(2) place]) (simp add: claimed_row_def)
qed

definition delivery_ok :: "delivery_db \<Rightarrow> bool" where
  "delivery_ok db = (outbox_ok (dd_outbox db) \<and> inbox_matches (dd_outbox db) (dd_inbox db))"

lemma grant_row_cases:
  assumes "grant_row w now locked epoch db = (db', c)"
  obtains "c = None" "db' = db"
  | r where "next_row w now locked epoch (dd_outbox db) = Some r" "c = Some (claimed_row w now r)"
      "db' = db\<lparr>dd_outbox := sql_update (\<lambda>x. dr_id x = dr_id r \<and> dr_status x = ''PENDING'') (claimed_row w now) (dd_outbox db)\<rparr>"
  using assms by (auto simp: grant_row_def split: option.split_asm)

lemma claim_tx_cases:
  assumes "claim_tx w now locked db = Inr (db', c)"
  obtains "c = None" "db' = db \<or> db' = db\<lparr>dd_outbox := release_expired now (dd_outbox db)\<rparr>"
  | epoch where "grant_row w now locked epoch (db\<lparr>dd_outbox := release_expired now (dd_outbox db)\<rparr>) = (db', c)"
  using assms by (cases "select_columns delivery_columns (dd_head db)") (auto simp: claim_tx_def Let_def split: option.split_asm if_split_asm sql_value.split_asm)

lemma grant_row_ok: "grant_row w now locked epoch db = (db', c) \<Longrightarrow> delivery_ok db \<Longrightarrow> delivery_ok db'"
  by (erule grant_row_cases) (auto simp: delivery_ok_def deliverable_def claim_keeps dest: next_row_deliverable)

lemma release_ok: "delivery_ok db \<Longrightarrow> delivery_ok (db\<lparr>dd_outbox := release_expired now (dd_outbox db)\<rparr>)"
  by (simp add: delivery_ok_def release_expired_ok release_expired_inbox)

lemma claim_tx_ok: "claim_tx w now locked db = Inr (db', c) \<Longrightarrow> delivery_ok db \<Longrightarrow> delivery_ok db'"
  by (erule claim_tx_cases) (auto dest: grant_row_ok intro: release_ok)

lemma fail_tx_ok: "delivery_ok db \<Longrightarrow> delivery_ok (fail_tx w now c deterministic db)"
  unfolding delivery_ok_def fail_tx_def sql_update_def
  by (auto intro!: outbox_ok_map inbox_matches_map simp: same_place_def terminal_delivery_def held_by_def split: if_split_asm)

lemma resume_row_ok: "delivery_ok db \<Longrightarrow> delivery_ok (resume_row i epoch db)"
  unfolding delivery_ok_def resume_row_def sql_update_def
  by (auto intro!: outbox_ok_map inbox_matches_map simp: same_place_def terminal_delivery_def split: if_split_asm)

lemma produce_row_ok:
  assumes "produce_row r db = Inr db'" and "delivery_ok db"
  shows "delivery_ok db'"
proof -
  define r' where "r' = r\<lparr>dr_status := ''PENDING'', dr_delivery_owner := None, dr_fencing_token := 0, dr_lease_expires := None\<rparr>"
  from assms(1) have db': "db' = db\<lparr>dd_outbox := dd_outbox db @ [r']\<rparr>" and new: "\<forall>x \<in> set (dd_outbox db). dr_id x \<noteq> dr_id r'"
      "\<forall>x \<in> set (dd_outbox db). dr_stream_key x = dr_stream_key r' \<longrightarrow> dr_stream_sequence x < dr_stream_sequence r'"
    by (auto simp: produce_row_def list_ex_iff r'_def not_le split: if_split_asm)
  have pending: "dr_status r' = ''PENDING''" by (simp add: r'_def)
  have ids: "dr_id r' \<notin> set (map in_event (dd_inbox db))" using assms(2) new(1) by (auto simp: delivery_ok_def inbox_matches_def)
  have "outbox_ok (dd_outbox db @ [r'])"
    using assms(2) new pending by (auto simp: delivery_ok_def outbox_ok_def predecessors_done_iff)
  moreover have "inbox_matches (dd_outbox db @ [r']) (dd_inbox db)"
  proof -
    have "{x \<in> set (dd_outbox db @ [r']). dr_status x = ''DELIVERED''} = {x \<in> set (dd_outbox db). dr_status x = ''DELIVERED''}" using pending by auto
    then show ?thesis using assms(2) ids by (auto simp: delivery_ok_def inbox_matches_def)
  qed
  ultimately show ?thesis by (simp add: db' delivery_ok_def)
qed

lemma consume_result:
  assumes "consume r db = Inr db1"
  obtains consumer where "insert_inbox (inbox_entry consumer r) db = Inr (db\<lparr>dd_inbox := dd_inbox db1\<rparr>)" "dd_outbox db1 = dd_outbox db"
proof -
  have inbox: "db0 = db\<lparr>dd_inbox := dd_inbox db0\<rparr>" if "insert_inbox i db = Inr db0" for i db0
    using that by (auto simp: insert_inbox_def split: if_split_asm)
  have "\<exists>consumer event db0. insert_inbox (inbox_entry consumer r) db = Inr db0 \<and> db1 = appendDeliveryAudit r consumer event db0"
    using assms by (auto simp: consume_def deliverDomainEvent_def deliverGenerationSuccessor_def bindE_Inr_iff split: if_split_asm option.split_asm)
  then obtain consumer event db0 where ins: "insert_inbox (inbox_entry consumer r) db = Inr db0" and db1: "db1 = appendDeliveryAudit r consumer event db0"
    by blast
  have "dd_inbox db1 = dd_inbox db0" "dd_outbox db1 = dd_outbox db0" by (simp_all add: db1 appendDeliveryAudit_def)
  moreover have "dd_outbox db0 = dd_outbox db" using arg_cong [OF inbox [OF ins], of dd_outbox] by simp
  ultimately show thesis using that [of consumer] ins inbox [OF ins] by simp
qed

lemma inbox_row:
  assumes "delivery_ok db" and "i \<in> set (dd_inbox db)"
  obtains x where "x \<in> set (dd_outbox db)" "dr_status x = ''DELIVERED''" "dr_id x = in_event i"
proof -
  have "in_event ` set (dd_inbox db) = dr_id ` {x \<in> set (dd_outbox db). dr_status x = ''DELIVERED''}"
    using assms(1) by (simp add: delivery_ok_def inbox_matches_def)
  then have "in_event i \<in> dr_id ` {x \<in> set (dd_outbox db). dr_status x = ''DELIVERED''}" using assms(2) by blast
  then show thesis using that by auto
qed

lemma delivered_row_new:
  assumes "delivery_ok db" and "r \<in> set (dd_outbox db)" and "dr_status r \<noteq> ''DELIVERED''" and "i \<in> set (dd_inbox db)"
  shows "in_event i \<noteq> dr_id r"
proof
  assume "in_event i = dr_id r"
  then obtain x where x: "x \<in> set (dd_outbox db)" "dr_status x = ''DELIVERED''" "dr_id x = dr_id r" using inbox_row [OF assms(1,4)] by metis
  then have "x = r" using assms(1,2) distinct_map_eq [of dr_id "dd_outbox db" x r] by (auto simp: delivery_ok_def outbox_ok_def)
  then show False using x assms(3) by simp
qed

lemma inbox_before:
  assumes ok: "delivery_ok db" and r: "r \<in> set (dd_outbox db)" "\<not> terminal_delivery (dr_status r)"
    and i: "i \<in> set (dd_inbox db)" "in_stream_key i = dr_stream_key r"
  shows "in_stream_sequence i < dr_stream_sequence r"
proof -
  obtain x where x: "x \<in> set (dd_outbox db)" "dr_status x = ''DELIVERED''" "dr_id x = in_event i" by (rule inbox_row [OF ok i(1)])
  then have at: "in_stream_key i = dr_stream_key x" "in_stream_sequence i = dr_stream_sequence x"
    using ok i(1) by (auto simp: delivery_ok_def inbox_matches_def)
  have box: "outbox_ok (dd_outbox db)" using ok by (simp add: delivery_ok_def)
  have "dr_stream_sequence x \<noteq> dr_stream_sequence r"
    using outbox_okD(2) [OF box r(1) x(1)] x(2) r(2) at i(2) by (auto simp: terminal_delivery_def)
  moreover have "\<not> dr_stream_sequence r < dr_stream_sequence x"
    using outbox_okD(3) [OF box x(1)] x(2) r at i(2) by (auto simp: predecessors_done_iff)
  ultimately show ?thesis using at by simp
qed

lemma inbox_append:
  assumes ok: "delivery_ok db" and r: "r \<in> set (dd_outbox db)" "\<not> terminal_delivery (dr_status r)"
    and f: "\<And>x. same_place x (f x)" "dr_status (f r) = ''DELIVERED''" "\<And>x. x \<in> set (dd_outbox db) \<Longrightarrow> x \<noteq> r \<Longrightarrow> f x = x"
  shows "inbox_matches (map f (dd_outbox db)) (dd_inbox db @ [inbox_entry consumer r])"
proof -
  have fr: "dr_id (f r) = dr_id r" using f(1) [of r] by (simp add: same_place_def)
  have fixed: "f x = x" if "dr_status x = ''DELIVERED''" for x using f(1) [of x] that by (simp add: same_place_def terminal_delivery_def)
  have "{x \<in> set (map f (dd_outbox db)). dr_status x = ''DELIVERED''} = insert (f r) {x \<in> set (dd_outbox db). dr_status x = ''DELIVERED''}"
    (is "?L = ?R")
  proof (intro set_eqI iffI)
    fix y assume "y \<in> ?L"
    then obtain x where "x \<in> set (dd_outbox db)" "y = f x" "dr_status y = ''DELIVERED''" by auto
    then show "y \<in> ?R" using f(3) [of x] by (cases "x = r") auto
  next
    fix y assume "y \<in> ?R"
    then show "y \<in> ?L" using r(1) f(2) fixed by (auto simp: image_iff) (metis fixed)
  qed
  then have set_new: "dr_id ` {x \<in> set (map f (dd_outbox db)). dr_status x = ''DELIVERED''}
      = insert (dr_id r) (dr_id ` {x \<in> set (dd_outbox db). dr_status x = ''DELIVERED''})" using fr by simp
  have "dr_status r \<noteq> ''DELIVERED''" using r(2) by (auto simp: terminal_delivery_def)
  then have new: "dr_id r \<notin> in_event ` set (dd_inbox db)" using delivered_row_new [OF ok r(1)] by fastforce
  have place: "dr_id (f x) = dr_id x \<and> dr_stream_key (f x) = dr_stream_key x \<and> dr_stream_sequence (f x) = dr_stream_sequence x
      \<and> dr_payload_digest (f x) = dr_payload_digest x" for x using f(1) [of x] by (simp add: same_place_def)
  have old: "inbox_matches (dd_outbox db) (dd_inbox db)" and ids: "distinct (map dr_id (dd_outbox db))" using ok by (auto simp: delivery_ok_def outbox_ok_def)
  have entry: "x \<in> set (dd_outbox db) \<Longrightarrow> dr_id x = dr_id r \<Longrightarrow> x = r" for x
    using distinct_map_eq [OF ids] r(1) by auto
  show ?thesis unfolding inbox_matches_def set_new
  proof (intro conjI ballI allI impI)
    show "distinct (map in_event (dd_inbox db @ [inbox_entry consumer r]))" using old new by (simp add: inbox_matches_def inbox_entry_def)
    show "set (map in_event (dd_inbox db @ [inbox_entry consumer r])) = insert (dr_id r) (dr_id ` {x \<in> set (dd_outbox db). dr_status x = ''DELIVERED''})"
      using old by (simp add: inbox_matches_def inbox_entry_def)
  next
    fix i y
    assume "i \<in> set (dd_inbox db @ [inbox_entry consumer r])" "y \<in> set (map f (dd_outbox db))" "dr_id y = in_event i"
    then obtain x where x: "y = f x" "x \<in> set (dd_outbox db)" "dr_id x = in_event i" and i: "i \<in> set (dd_inbox db) \<or> i = inbox_entry consumer r"
      using place by auto
    from i show "in_stream_key i = dr_stream_key y" "in_stream_sequence i = dr_stream_sequence y" "in_payload_digest i = dr_payload_digest y"
      using old x place entry [OF x(2)] by (auto simp: inbox_matches_def inbox_entry_def)
  next
    fix k
    show "sorted_wrt (<) (map in_stream_sequence (filter (\<lambda>i. in_stream_key i = k) (dd_inbox db @ [inbox_entry consumer r])))"
      using old inbox_before [OF ok r] by (auto simp: inbox_matches_def inbox_entry_def sorted_wrt_append)
  qed
qed

lemma deliver_tx_result:
  assumes "deliver_tx w c db = Inr db'"
  obtains "db' = db"
  | r db1 where "r \<in> set (dd_outbox db)" "dr_id r = dr_id c" "dr_status r = ''CLAIMED''" "dr_fencing_token r = dr_fencing_token c"
      "dr_payload_digest r = digestPayload w (dr_payload r)" "consume r db = Inr db1" "mark_delivered w r db1 = Inr db'"
  using assms unfolding deliver_tx_def
  by (auto simp: bindE_Inr_iff split: option.split_asm if_split_asm dest: sql_first_Some)

lemma deliver_tx_ok:
  assumes "deliver_tx w c db = Inr db'" and ok: "delivery_ok db"
  shows "delivery_ok db'"
  using assms(1)
proof (cases rule: deliver_tx_result)
  case (2 r db1)
  obtain consumer where ins: "insert_inbox (inbox_entry consumer r) db = Inr (db\<lparr>dd_inbox := dd_inbox db1\<rparr>)" and out: "dd_outbox db1 = dd_outbox db"
    using consume_result [OF 2(6)] by blast
  have "dr_status r \<noteq> ''DELIVERED''" using 2(3) by simp
  then have "\<not> list_ex (\<lambda>x. in_consumer x = consumer \<and> in_event x = dr_id r) (dd_inbox db)"
    using delivered_row_new [OF ok 2(1)] by (auto simp: list_ex_iff)
  then have inbox: "dd_inbox db1 = dd_inbox db @ [inbox_entry consumer r]"
    using ins by (auto simp: insert_inbox_def inbox_entry_def split: if_split_asm dest: arg_cong [of _ _ dd_inbox])
  define f where "f = (\<lambda>x. if held_by w (dr_id r) (dr_fencing_token r) x then x\<lparr>dr_status := ''DELIVERED'', dr_delivery_owner := None, dr_lease_expires := None\<rparr> else x)"
  have db': "db' = db1\<lparr>dd_outbox := map f (dd_outbox db)\<rparr>" and one: "sql_count (held_by w (dr_id r) (dr_fencing_token r)) (dd_outbox db) = 1"
    using 2(7) out by (auto simp: mark_delivered_def f_def sql_update_def split: if_split_asm)
  have ids: "distinct (map dr_id (dd_outbox db))" using ok by (simp add: delivery_ok_def outbox_ok_def)
  have only: "x = r" if "x \<in> set (dd_outbox db)" "held_by w (dr_id r) (dr_fencing_token r) x" for x
    using distinct_map_eq [OF ids that(1) 2(1)] that(2) by (simp add: held_by_def)
  have "filter (held_by w (dr_id r) (dr_fencing_token r)) (dd_outbox db) \<noteq> []" using one by (auto simp: sql_count_def)
  then have held: "held_by w (dr_id r) (dr_fencing_token r) r" using only by (auto simp: filter_empty_conv)
  have place: "same_place x (f x)" for x by (auto simp: f_def same_place_def held_by_def terminal_delivery_def)
  have "outbox_ok (map f (dd_outbox db))"
    using ok place by (intro outbox_ok_map) (auto simp: delivery_ok_def f_def held_by_def split: if_split_asm)
  moreover have "inbox_matches (map f (dd_outbox db)) (dd_inbox db @ [inbox_entry consumer r])"
    using 2(1,3) place held only by (intro inbox_append [OF ok]) (auto simp: f_def terminal_delivery_def)
  ultimately show ?thesis by (simp add: db' delivery_ok_def inbox)
qed (use ok in simp)

section \<open>Order and fencing\<close>

text \<open>Rows stay, with their fencing tokens only growing.\<close>

definition tokens_grow :: "delivery_row list \<Rightarrow> delivery_row list \<Rightarrow> bool" where
  "tokens_grow rows rows' = (\<forall>r \<in> set rows. \<exists>r' \<in> set rows'. dr_id r' = dr_id r \<and> dr_fencing_token r \<le> dr_fencing_token r')"

lemma tokens_grow_refl: "tokens_grow rows rows"
  by (auto simp: tokens_grow_def)

lemma tokens_grow_append: "tokens_grow rows (rows @ rs)"
  by (auto simp: tokens_grow_def)

lemma tokens_grow_trans:
  assumes "tokens_grow a b" "tokens_grow b c"
  shows "tokens_grow a c"
  unfolding tokens_grow_def
proof
  fix r
  assume "r \<in> set a"
  then obtain s where "s \<in> set b" "dr_id s = dr_id r" "dr_fencing_token r \<le> dr_fencing_token s" using assms(1) unfolding tokens_grow_def by blast
  moreover then obtain u where "u \<in> set c" "dr_id u = dr_id s" "dr_fencing_token s \<le> dr_fencing_token u" using assms(2) unfolding tokens_grow_def by blast
  ultimately show "\<exists>r' \<in> set c. dr_id r' = dr_id r \<and> dr_fencing_token r \<le> dr_fencing_token r'" by (intro bexI [of _ u]) auto
qed

lemma tokens_grow_update: "(\<And>r. dr_id (f r) = dr_id r \<and> dr_fencing_token r \<le> dr_fencing_token (f r)) \<Longrightarrow> tokens_grow rows (sql_update P f rows)"
  by (auto simp: tokens_grow_def sql_update_def)

lemma release_grows: "tokens_grow rows (release_expired now rows)"
  unfolding release_expired_def by (rule tokens_grow_update) simp

lemma claim_grows: "tokens_grow rows (sql_update P (claimed_row w now) rows)"
  by (rule tokens_grow_update) (simp add: claimed_row_def)

lemma deliver_grows: "deliver_tx w c db = Inr db' \<Longrightarrow> tokens_grow (dd_outbox db) (dd_outbox db')"
proof (erule deliver_tx_result)
  fix r db1
  assume "consume r db = Inr db1" "mark_delivered w r db1 = Inr db'"
  moreover from this(1) have "dd_outbox db1 = dd_outbox db" by (rule consume_result)
  ultimately show ?thesis by (auto simp: mark_delivered_def split: if_split_asm) (rule tokens_grow_update, simp)
qed (simp add: tokens_grow_refl)

text \<open>Every claim has its own token, and none is above the token of its row.\<close>

definition claims_ok :: "delivery_world \<Rightarrow> bool" where
  "claims_ok s = (distinct (map (\<lambda>(v, c). (dr_id c, dr_fencing_token c)) (dw_claims s))
     \<and> (\<forall>(v, c) \<in> set (dw_claims s). \<exists>r \<in> set (dd_outbox (dw_db s)). dr_id r = dr_id c \<and> dr_fencing_token c \<le> dr_fencing_token r))"

lemma claims_okD:
  assumes "claims_ok s" and "(v, c) \<in> set (dw_claims s)"
  obtains r where "r \<in> set (dd_outbox (dw_db s))" "dr_id r = dr_id c" "dr_fencing_token c \<le> dr_fencing_token r"
  using assms unfolding claims_ok_def by blast

lemma claims_ok_grow:
  assumes "claims_ok s" and "tokens_grow (dd_outbox (dw_db s)) (dd_outbox db)"
  shows "claims_ok (s\<lparr>dw_db := db\<rparr>)"
  unfolding claims_ok_def
proof (intro conjI ballI, goal_cases)
  case 1
  then show ?case using assms(1) by (simp add: claims_ok_def)
next
  case (2 x)
  then obtain v c r where x: "x = (v, c)" and r: "r \<in> set (dd_outbox (dw_db s))" "dr_id r = dr_id c" "dr_fencing_token c \<le> dr_fencing_token r"
    using assms(1) by (cases x) (auto simp: claims_ok_def)
  then obtain u where "u \<in> set (dd_outbox db)" "dr_id u = dr_id r" "dr_fencing_token r \<le> dr_fencing_token u" using assms(2) by (auto simp: tokens_grow_def)
  then show ?case using r by (auto simp: x intro!: bexI [of _ u])
qed

lemma claims_ok_claim:
  assumes ok: "claims_ok s" and tx: "claim_tx w now locked (dw_db s) = Inr (db, Some c)" and db: "delivery_ok (dw_db s)"
  shows "claims_ok (s\<lparr>dw_db := db, dw_claims := (v, c) # dw_claims s\<rparr>)"
proof -
  let ?rows = "release_expired now (dd_outbox (dw_db s))"
  from tx obtain r epoch where next_r: "next_row w now locked epoch ?rows = Some r" and c: "c = claimed_row w now r"
    and db': "dd_outbox db = sql_update (\<lambda>x. dr_id x = dr_id r \<and> dr_status x = ''PENDING'') (claimed_row w now) ?rows"
    by (auto elim!: claim_tx_cases grant_row_cases)
  have r: "r \<in> set ?rows" "dr_status r = ''PENDING''" using next_row_deliverable [OF next_r] by (auto simp: deliverable_def)
  have grow: "tokens_grow (dd_outbox (dw_db s)) ?rows" by (rule release_grows)
  have "distinct (map dr_id ?rows)" using release_expired_ok [of "dd_outbox (dw_db s)" now] db by (auto simp: delivery_ok_def outbox_ok_def)
  then have only: "x = r" if "x \<in> set ?rows" "dr_id x = dr_id r" for x using distinct_map_eq that r(1) by metis
  have below: "dr_fencing_token c0 < dr_fencing_token c" if "(v0, c0) \<in> set (dw_claims s)" "dr_id c0 = dr_id c" for v0 c0
  proof -
    have g: "claims_ok (s\<lparr>dw_db := (dw_db s)\<lparr>dd_outbox := ?rows\<rparr>\<rparr>)" using claims_ok_grow [OF ok] grow by simp
    have claim: "(v0, c0) \<in> set (dw_claims (s\<lparr>dw_db := (dw_db s)\<lparr>dd_outbox := ?rows\<rparr>\<rparr>))" using that(1) by simp
    obtain x where x: "x \<in> set ?rows" "dr_id x = dr_id c0" "dr_fencing_token c0 \<le> dr_fencing_token x"
      by (rule claims_okD [OF g claim]) simp
    then show ?thesis using only [of x] that(2) by (simp add: c claimed_row_def)
  qed
  have "claimed_row w now r \<in> set (dd_outbox db)" using r by (auto simp: db' sql_update_def image_iff intro!: bexI [of _ r])
  moreover have "claims_ok (s\<lparr>dw_db := db\<rparr>)"
    by (rule claims_ok_grow [OF ok]) (unfold db', rule tokens_grow_trans [OF grow claim_grows])
  ultimately show ?thesis using below by (fastforce simp: claims_ok_def c)
qed

definition world_ok :: "delivery_world \<Rightarrow> bool" where
  "world_ok s = (delivery_ok (dw_db s) \<and> claims_ok s)"

lemma delivery_step_ok:
  assumes "delivery_step s t" and "world_ok s"
  shows "world_ok t"
  using assms
proof cases
  case (step_produce r db)
  then show ?thesis using assms(2)
    by (auto simp: world_ok_def produce_row_ok produce_row_def tokens_grow_append intro!: claims_ok_grow dest: produce_row_ok split: if_split_asm)
next
  case (step_claim w now locked db c)
  then show ?thesis using assms(2) by (auto simp: world_ok_def dest: claim_tx_ok intro: claims_ok_claim)
next
  case (step_no_claim w now locked db)
  then have "tokens_grow (dd_outbox (dw_db s)) (dd_outbox db)"
    by (auto elim!: claim_tx_cases grant_row_cases intro: tokens_grow_refl release_grows)
  then show ?thesis using step_no_claim assms(2) by (auto simp: world_ok_def dest: claim_tx_ok intro: claims_ok_grow)
next
  case (step_deliver w c db)
  then show ?thesis using assms(2) by (auto simp: world_ok_def dest: deliver_tx_ok deliver_grows intro: claims_ok_grow)
next
  case (step_fail w c now deterministic)
  then show ?thesis using assms(2) by (auto simp: world_ok_def fail_tx_ok intro!: claims_ok_grow) (simp add: fail_tx_def tokens_grow_update)
next
  case (step_resume i epoch)
  then show ?thesis using assms(2) by (auto simp: world_ok_def resume_row_ok intro!: claims_ok_grow) (simp add: resume_row_def tokens_grow_update)
next
  case (step_tables db)
  then show ?thesis using assms(2) by (auto simp: world_ok_def delivery_ok_def tokens_grow_refl intro!: claims_ok_grow)
qed

lemma reachable_world_ok: "delivery.reach s \<Longrightarrow> world_ok s"
proof (erule delivery.invariant_rule [rotated 2])
  show "empty_delivery s \<Longrightarrow> world_ok s" for s
    by (auto simp: empty_delivery_def world_ok_def delivery_ok_def outbox_ok_def inbox_matches_def claims_ok_def)
qed (rule delivery_step_ok)

lemma stale_claim_inert:
  assumes "distinct (map dr_id (dd_outbox db))" "r \<in> set (dd_outbox db)" "dr_id r = dr_id c" "dr_fencing_token c < dr_fencing_token r"
  shows "deliver_tx w c db = Inr db' \<Longrightarrow> db' = db" and "fail_tx w now c deterministic db = db"
proof -
  have only: "x = r" if "x \<in> set (dd_outbox db)" "dr_id x = dr_id c" for x
    using distinct_map_eq [OF assms(1) that(1) assms(2)] that(2) assms(3) by simp
  show "db' = db" if "deliver_tx w c db = Inr db'" using that
    by (rule deliver_tx_result) (use only assms(4) in auto)
  have "sql_update (held_by w (dr_id c) (dr_fencing_token c)) f (dd_outbox db) = dd_outbox db" for f
    using only assms(4) by (intro sql_update_none) (auto simp: held_by_def)
  then show "fail_tx w now c deterministic db = db" by (simp add: fail_tx_def)
qed

section \<open>Progress\<close>

primrec relay_runs :: "relay \<Rightarrow> int \<Rightarrow> nat \<Rightarrow> delivery_db \<Rightarrow> delivery_db" where
  "relay_runs w now 0 db = db"
| "relay_runs w now (Suc n) db = relay_runs w now n (fst (runOnce_delivery w now now {} db))"

text \<open>The rows a relay can deliver now: nothing claimed, every pending row available, of the current epoch and intact.\<close>

definition deliverable_outbox :: "relay \<Rightarrow> int \<Rightarrow> delivery_db \<Rightarrow> bool" where
  "deliverable_outbox w now db = (case ht_row (dd_head db) of None \<Rightarrow> False | Some head \<Rightarrow>
     set delivery_columns \<subseteq> set (ht_columns (dd_head db)) \<and> head_ready head
     \<and> (\<forall>r \<in> set (dd_outbox db). dr_status r = ''PENDING'' \<and> dr_available_at r \<le> now \<and> map_of head ''recovery_epoch'' = Some (Sql_Int (dr_recovery_epoch r))
          \<and> dr_purpose r = ''DOMAIN_EVENT'' \<and> dr_payload_digest r = digestPayload w (dr_payload r)
        \<or> terminal_delivery (dr_status r)))"

definition delivered_row :: "relay \<Rightarrow> int \<Rightarrow> delivery_row \<Rightarrow> delivery_row" where
  "delivered_row w now r = (claimed_row w now r)\<lparr>dr_status := ''DELIVERED'', dr_delivery_owner := None, dr_lease_expires := None\<rparr>"

lemma least_pending:
  assumes "\<exists>r \<in> set rows. dr_status r = ''PENDING''"
  obtains r where "r \<in> set rows" "dr_status r = ''PENDING''" "\<And>p. p \<in> set rows \<Longrightarrow> dr_status p = ''PENDING'' \<Longrightarrow> dr_stream_sequence r \<le> dr_stream_sequence p"
proof -
  let ?S = "{r \<in> set rows. dr_status r = ''PENDING''}"
  have "finite ?S" "?S \<noteq> {}" using assms by auto
  then have "Min (dr_stream_sequence ` ?S) \<in> dr_stream_sequence ` ?S" by (intro Min_in) auto
  then obtain r where "r \<in> ?S" "dr_stream_sequence r = Min (dr_stream_sequence ` ?S)" by auto
  moreover have "Min (dr_stream_sequence ` ?S) \<le> dr_stream_sequence p" if "p \<in> ?S" for p using that by (intro Min_le) auto
  ultimately show thesis using that by auto
qed

lemma next_row_exists:
  assumes "r \<in> set rows" "deliverable now epoch rows r"
  obtains r' where "next_row w now {} epoch rows = Some r'"
proof -
  let ?L = "filter (\<lambda>r. dr_id r \<notin> {} \<and> deliverable now epoch rows r) rows"
  have "?L \<noteq> []" using assms by (auto simp: filter_empty_conv)
  then have "js_sort (delivery_order (rl_text_order w)) ?L \<noteq> []" using length_js_sort by (metis length_0_conv)
  then obtain r' rs where "js_sort (delivery_order (rl_text_order w)) ?L = r' # rs" by (meson neq_Nil_conv)
  then show thesis using that [of r'] by (simp add: next_row_def)
qed

lemma deliver_claimed:
  assumes ok: "delivery_ok db" and r: "r \<in> set (dd_outbox db)" "dr_status r = ''PENDING''" "dr_purpose r = ''DOMAIN_EVENT''"
      "dr_payload_digest r = digestPayload w (dr_payload r)"
    and head: "select_columns delivery_columns (dd_head db) = Inr (Some head)" "head_ready head" "map_of head ''recovery_epoch'' = Some (Sql_Int (dr_recovery_epoch r))"
    and db1: "db1 = db\<lparr>dd_outbox := map (\<lambda>x. if x = r then claimed_row w now x else x) (dd_outbox db)\<rparr>"
  shows "\<exists>db2. deliver_tx w (claimed_row w now r) db1 = Inr db2 \<and> dd_head db2 = dd_head db
     \<and> dd_outbox db2 = map (\<lambda>x. if x = r then delivered_row w now x else x) (dd_outbox db)"
proof -
  let ?c = "claimed_row w now r"
  have c: "dr_id ?c = dr_id r" "dr_status ?c = ''CLAIMED''" "dr_delivery_owner ?c = Some (rl_workerId w)" "dr_purpose ?c = dr_purpose r"
      "dr_payload_digest ?c = dr_payload_digest r" "dr_payload ?c = dr_payload r" "dr_recovery_epoch ?c = dr_recovery_epoch r"
    by (simp_all add: claimed_row_def)
  have ids: "distinct (map dr_id (dd_outbox db))" using ok by (simp add: delivery_ok_def outbox_ok_def)
  have only: "x = r" if "x \<in> set (dd_outbox db)" "dr_id x = dr_id r" for x using distinct_map_eq [OF ids that(1) r(1) that(2)] .
  have held: "held_by w (dr_id ?c) (dr_fencing_token ?c) (if x = r then claimed_row w now x else x) \<longleftrightarrow> x = r" if "x \<in> set (dd_outbox db)" for x
    using only [OF that] c by (auto simp: held_by_def)
  have first: "sql_first (\<lambda>x. dr_id x = dr_id ?c) (dd_outbox db1) = Some ?c"
  proof -
    have "?c \<in> set (dd_outbox db1)" using r(1) by (auto simp: db1 image_iff intro!: bexI [of _ r])
    then obtain x where x: "sql_first (\<lambda>x. dr_id x = dr_id ?c) (dd_outbox db1) = Some x" by (cases "sql_first (\<lambda>x. dr_id x = dr_id ?c) (dd_outbox db1)") (auto simp: sql_first_def find_None_iff)
    then have "x \<in> set (dd_outbox db1)" "dr_id x = dr_id r" using c(1) by (auto dest: sql_first_Some)
    then have "x = ?c" using only by (auto simp: db1 split: if_split_asm)
    then show ?thesis using x by simp
  qed
  have "dr_status r \<noteq> ''DELIVERED''" using r(2) by simp
  then have "\<not> list_ex (\<lambda>x. in_consumer x = k \<and> in_event x = dr_id r) (dd_inbox db)" for k
    using delivered_row_new [OF ok r(1)] by (auto simp: list_ex_iff)
  moreover have "\<not> list_ex (\<lambda>x. in_consumer x = k \<and> in_stream_key x = dr_stream_key r \<and> in_stream_sequence x = dr_stream_sequence r) (dd_inbox db)" for k
    using inbox_before [OF ok r(1)] r(2) by (fastforce simp: list_ex_iff terminal_delivery_def)
  ultimately obtain db3 where consumed: "consume ?c db1 = Inr db3" "dd_outbox db3 = dd_outbox db1" "dd_head db3 = dd_head db"
    using r(3) by (simp add: consume_def deliverDomainEvent_def insert_inbox_def inbox_entry_def c db1 appendDeliveryAudit_def claimed_row_def)
  have "filter (\<lambda>x. x = r) (dd_outbox db) = [r]"
    using filter_key_unique [OF ids r(1)] only by (metis (mono_tags, lifting) filter_cong)
  then have count: "sql_count (held_by w (dr_id ?c) (dr_fencing_token ?c)) (dd_outbox db1) = 1"
    using held by (simp add: sql_count_def db1 filter_map comp_def cong: filter_cong)
  have "sql_update (held_by w (dr_id ?c) (dr_fencing_token ?c)) (\<lambda>x. x\<lparr>dr_status := ''DELIVERED'', dr_delivery_owner := None, dr_lease_expires := None\<rparr>) (dd_outbox db1)
      = map (\<lambda>x. if x = r then delivered_row w now x else x) (dd_outbox db)"
    using held by (auto simp: sql_update_def db1 delivered_row_def)
  then show ?thesis
    using first c r(4) head consumed count by (simp add: deliver_tx_def text_or_null_def epoch_current_def mark_delivered_def db1)
qed

lemma runOnce_delivers:
  assumes ok: "delivery_ok db" and d: "deliverable_outbox w now db" and p: "\<exists>r \<in> set (dd_outbox db). dr_status r = ''PENDING''"
  obtains r db2 where "r \<in> set (dd_outbox db)" "dr_status r = ''PENDING''" "runOnce_delivery w now now {} db = (db2, Inr True)" "dd_head db2 = dd_head db"
    "dd_outbox db2 = map (\<lambda>x. if x = r then delivered_row w now x else x) (dd_outbox db)" "delivery_ok db2"
proof -
  from d obtain head where row: "ht_row (dd_head db) = Some head" and cols: "set delivery_columns \<subseteq> set (ht_columns (dd_head db))" and ready: "head_ready head"
    and good: "\<And>r. r \<in> set (dd_outbox db) \<Longrightarrow> dr_status r = ''PENDING'' \<and> dr_available_at r \<le> now \<and> map_of head ''recovery_epoch'' = Some (Sql_Int (dr_recovery_epoch r))
          \<and> dr_purpose r = ''DOMAIN_EVENT'' \<and> dr_payload_digest r = digestPayload w (dr_payload r) \<or> terminal_delivery (dr_status r)"
    by (auto simp: deliverable_outbox_def split: option.split_asm)
  have head: "select_columns delivery_columns (dd_head db) = Inr (Some head)" using cols by (auto simp: select_columns_def row list_all_iff)
  have pending: "dr_available_at r \<le> now \<and> map_of head ''recovery_epoch'' = Some (Sql_Int (dr_recovery_epoch r)) \<and> dr_purpose r = ''DOMAIN_EVENT''
      \<and> dr_payload_digest r = digestPayload w (dr_payload r)" if "r \<in> set (dd_outbox db)" "dr_status r = ''PENDING''" for r
    using good [OF that(1)] that(2) by (auto simp: terminal_delivery_def)
  have "dr_status r \<noteq> ''CLAIMED''" if "r \<in> set (dd_outbox db)" for r using good [OF that] by (auto simp: terminal_delivery_def)
  then have quiet: "release_expired now (dd_outbox db) = dd_outbox db" unfolding release_expired_def by (intro sql_update_none) auto
  obtain r0 where r0: "r0 \<in> set (dd_outbox db)" "dr_status r0 = ''PENDING''"
      "\<And>p. p \<in> set (dd_outbox db) \<Longrightarrow> dr_status p = ''PENDING'' \<Longrightarrow> dr_stream_sequence r0 \<le> dr_stream_sequence p" by (rule least_pending [OF p]) blast
  let ?e = "dr_recovery_epoch r0"
  have "terminal_delivery (dr_status p)" if "p \<in> set (dd_outbox db)" "dr_stream_sequence p < dr_stream_sequence r0" for p
    using r0(3) [OF that(1)] good [OF that(1)] that(2) by auto
  then have "deliverable now ?e (dd_outbox db) r0" using r0 pending [OF r0(1,2)] by (auto simp: deliverable_def predecessors_done_iff)
  then obtain r where next_r: "next_row w now {} ?e (dd_outbox db) = Some r" by (rule next_row_exists [OF r0(1)])
  then have r: "r \<in> set (dd_outbox db)" "dr_status r = ''PENDING''" using next_row_deliverable by (auto simp: deliverable_def)
  have ids: "distinct (map dr_id (dd_outbox db))" using ok by (simp add: delivery_ok_def outbox_ok_def)
  let ?db1 = "db\<lparr>dd_outbox := map (\<lambda>x. if x = r then claimed_row w now x else x) (dd_outbox db)\<rparr>"
  have "sql_update (\<lambda>x. dr_id x = dr_id r \<and> dr_status x = ''PENDING'') (claimed_row w now) (dd_outbox db) = dd_outbox ?db1"
    using distinct_map_eq [OF ids _ r(1)] r(2) by (auto simp: sql_update_def)
  then have claim: "claim_tx w now {} db = Inr (?db1, Some (claimed_row w now r))"
    using head ready pending [OF r0(1,2)] next_r by (simp add: claim_tx_def quiet grant_row_def)
  obtain db2 where db2: "deliver_tx w (claimed_row w now r) ?db1 = Inr db2" "dd_head db2 = dd_head db"
      "dd_outbox db2 = map (\<lambda>x. if x = r then delivered_row w now x else x) (dd_outbox db)"
    using deliver_claimed [OF ok r _ _ head ready _ refl] pending [OF r] by blast
  show thesis
    using that [OF r _ db2(2,3)] deliver_tx_ok [OF db2(1) claim_tx_ok [OF claim ok]] claim db2(1) by (simp add: runOnce_delivery_def)
qed

lemma pending_after:
  "filter (\<lambda>r. dr_status r = ''PENDING'') (map (\<lambda>x. if x = q then delivered_row w now x else x) rows)
   = filter (\<lambda>r. r \<noteq> q) (filter (\<lambda>r. dr_status r = ''PENDING'') rows)"
  by (induction rows) (auto simp: delivered_row_def)

lemma delivered_rows_still_deliverable:
  assumes "deliverable_outbox w now db" and "dd_head db2 = dd_head db"
    and "dd_outbox db2 = map (\<lambda>x. if x = r then delivered_row w now x else x) (dd_outbox db)"
  shows "deliverable_outbox w now db2"
  using assms by (auto simp: deliverable_outbox_def delivered_row_def terminal_delivery_def split: option.splits)

lemma runOnce_idle:
  assumes "deliverable_outbox w now db" and "\<forall>r \<in> set (dd_outbox db). dr_status r \<noteq> ''PENDING''"
  shows "fst (runOnce_delivery w now now {} db) = db"
proof -
  have status: "terminal_delivery (dr_status r)" if "r \<in> set (dd_outbox db)" for r
    using assms that by (auto simp: deliverable_outbox_def split: option.split_asm)
  then have quiet: "release_expired now (dd_outbox db) = dd_outbox db"
    unfolding release_expired_def by (intro sql_update_none) (fastforce simp: terminal_delivery_def)
  have "next_row w now {} e (dd_outbox db) = None" for e
    using assms(2) by (cases "next_row w now {} e (dd_outbox db)") (auto dest!: next_row_deliverable simp: deliverable_def)
  then have "grant_row w now {} e db = (db, None)" for e by (simp add: grant_row_def)
  then show ?thesis
    by (cases "select_columns delivery_columns (dd_head db)")
      (auto simp: runOnce_delivery_def claim_tx_def quiet split: option.split sql_value.split)
qed


section \<open>Claims\<close>

text \<open>
  C7. However relays, producers and recovery interleave, every event is consumed at most once and only when its row is
  marked delivered; the events of a stream are consumed in the order of their sequence numbers, and a row is
  delivered only after everything before it in its stream was delivered or failed for good.
\<close>

theorem outbox_delivered_once_in_order:
  assumes "delivery.reach s"
  shows "distinct (map in_event (dd_inbox (dw_db s)))
    \<and> in_event ` set (dd_inbox (dw_db s)) = dr_id ` {r \<in> set (dd_outbox (dw_db s)). dr_status r = ''DELIVERED''}
    \<and> (\<forall>k. sorted_wrt (<) (map in_stream_sequence (filter (\<lambda>i. in_stream_key i = k) (dd_inbox (dw_db s)))))
    \<and> (\<forall>r \<in> set (dd_outbox (dw_db s)). \<forall>p \<in> set (dd_outbox (dw_db s)). dr_status r = ''DELIVERED'' \<longrightarrow> dr_stream_key p = dr_stream_key r
        \<longrightarrow> dr_stream_sequence p < dr_stream_sequence r \<longrightarrow> dr_status p \<in> {''DELIVERED'', ''FAILED_FINAL''})"
proof -
  have ok: "outbox_ok (dd_outbox (dw_db s))" "inbox_matches (dd_outbox (dw_db s)) (dd_inbox (dw_db s))"
    using reachable_world_ok [OF assms] by (simp_all add: world_ok_def delivery_ok_def)
  then show ?thesis by (auto simp: inbox_matches_def outbox_ok_def predecessors_done_iff terminal_delivery_def)
qed

text \<open>
  C8. Two different claims of a row never carry the same fencing token, and as soon as a row has been claimed again the
  relay that held the older claim can neither deliver nor fail the row.
\<close>

theorem superseded_relay_is_fenced:
  assumes "delivery.reach s" and "(v, c) \<in> set (dw_claims s)" and "(v', c') \<in> set (dw_claims s)" and "dr_id c = dr_id c'"
  shows "(dr_fencing_token c = dr_fencing_token c' \<longrightarrow> (v, c) = (v', c'))
    \<and> (dr_fencing_token c < dr_fencing_token c' \<longrightarrow> (\<forall>w db. deliver_tx w c (dw_db s) = Inr db \<longrightarrow> db = dw_db s)
        \<and> (\<forall>w now deterministic. fail_tx w now c deterministic (dw_db s) = dw_db s))"
proof (intro conjI impI allI)
  note ok = reachable_world_ok [OF assms(1), unfolded world_ok_def]
  show "(v, c) = (v', c')" if "dr_fencing_token c = dr_fencing_token c'"
    using distinct_map_eq [of "\<lambda>(v, c). (dr_id c, dr_fencing_token c)" "dw_claims s" "(v, c)" "(v', c')"] ok assms(2-4) that
    by (simp add: claims_ok_def)
  assume less: "dr_fencing_token c < dr_fencing_token c'"
  have ids: "distinct (map dr_id (dd_outbox (dw_db s)))" using ok by (simp add: delivery_ok_def outbox_ok_def)
  obtain r where r: "r \<in> set (dd_outbox (dw_db s))" "dr_id r = dr_id c'" "dr_fencing_token c' \<le> dr_fencing_token r"
    using claims_okD [OF _ assms(3)] ok by blast
  have "dr_id r = dr_id c" "dr_fencing_token c < dr_fencing_token r" using r assms(4) less by simp_all
  note inert = stale_claim_inert [OF ids r(1) this]
  show "db = dw_db s" if "deliver_tx w c (dw_db s) = Inr db" for w db by (rule inert(1) [OF that])
  show "fail_tx w now c deterministic (dw_db s) = dw_db s" for w now deterministic by (rule inert(2))
qed

text \<open>
  C39. With the recovery head as the baseline declares it the relay never delivers anything: its first query names two columns the
  table does not have, so every run ends with the error of an undefined column and leaves the database as it was.
\<close>

theorem baseline_outbox_never_delivered:
  "runOnce_delivery w now later locked (db\<lparr>dd_head := \<lparr>ht_columns = platform_recovery_head_columns, ht_row = row\<rparr>\<rparr>)
   = (db\<lparr>dd_head := \<lparr>ht_columns = platform_recovery_head_columns, ht_row = row\<rparr>\<rparr>, Inl (Pg_Error ''42703''))"
proof -
  have "\<not> list_all (\<lambda>c. c \<in> set platform_recovery_head_columns) delivery_columns"
    by (simp add: platform_recovery_head_columns_def delivery_columns_def)
  then show ?thesis by (simp add: runOnce_delivery_def claim_tx_def select_columns_def)
qed

section \<open>Witnesses\<close>

definition sample_relay :: relay where
  "sample_relay = \<lparr>rl_sha256 = (\<lambda>b. b), rl_collation = (\<lambda>_ _. True), rl_text_order = (\<lambda>_ _. True), rl_workerId = ''relay-1'', rl_leaseSeconds = None\<rparr>"

definition sample_event :: delivery_row where
  "sample_event = \<lparr>dr_id = ''event-1'', dr_stream_key = ''secret:1'', dr_stream_sequence = 1, dr_purpose = ''DOMAIN_EVENT'', dr_event_type = ''secret.created'',
     dr_aggregate_id = None, dr_payload = CNull, dr_payload_digest = utf8 ''null'', dr_recovery_epoch = 1, dr_status = ''PENDING'', dr_available_at = 0,
     dr_delivery_owner = None, dr_fencing_token = 0, dr_lease_expires = None\<rparr>"

definition sample_delivery_db :: "delivery_row list \<Rightarrow> delivery_db" where
  "sample_delivery_db rows = \<lparr>dd_head = \<lparr>ht_columns = delivery_columns, ht_row = Some [(''recovery_epoch'', Sql_Int 1), (''state'', Sql_Text ''READY''),
       (''database_identity_current'', Sql_Bool True), (''recovery_lineage_current'', Sql_Bool True)]\<rparr>,
     dd_outbox = rows, dd_inbox = [], dd_phase_runs = [], dd_jobs = [], dd_audit = []\<rparr>"

definition sample_claim :: delivery_row where
  "sample_claim = claimed_row sample_relay 1 sample_event"

lemma sample_produced: "produce_row sample_event (sample_delivery_db []) = Inr (sample_delivery_db [sample_event])"
  by (simp add: produce_row_def sample_delivery_db_def sample_event_def)

lemma sample_head: "select_columns delivery_columns (dd_head (sample_delivery_db rows)) = Inr (ht_row (dd_head (sample_delivery_db rows)))"
  by (simp add: select_columns_def sample_delivery_db_def list_all_iff)

lemma sample_next: "next_row sample_relay 1 {} 1 [sample_event] = Some sample_event"
  by (simp add: next_row_def deliverable_def predecessors_done_def sample_event_def js_sort_def)

lemma sample_claimed: "claim_tx sample_relay 1 {} (sample_delivery_db [sample_event]) = Inr (sample_delivery_db [sample_claim], Some sample_claim)"
proof -
  have "release_expired 1 [sample_event] = [sample_event]" by (simp add: release_expired_def sql_update_def sample_event_def)
  then show ?thesis
    using sample_next unfolding claim_tx_def sample_head
    by (simp add: sample_delivery_db_def head_ready_def grant_row_def sql_update_def sample_claim_def) (simp add: sample_event_def)
qed

definition sample_world :: delivery_world where
  "sample_world = \<lparr>dw_db = sample_delivery_db [sample_claim], dw_claims = [(''relay-1'', sample_claim)]\<rparr>"

lemma sample_claim_reached: "delivery.reach sample_world"
proof -
  let ?s0 = "\<lparr>dw_db = sample_delivery_db [], dw_claims = []\<rparr>" and ?s1 = "\<lparr>dw_db = sample_delivery_db [sample_event], dw_claims = []\<rparr>"
  have "delivery.reach ?s0" by (rule delivery.reach_init) (simp add: empty_delivery_def sample_delivery_db_def)
  moreover have "delivery_step ?s0 ?s1" using step_produce [of sample_event ?s0] sample_produced by simp
  moreover have "delivery_step ?s1 sample_world" using step_claim [of sample_relay 1 "{}" ?s1] sample_claimed by (simp add: sample_world_def sample_relay_def)
  ultimately show ?thesis by (blast intro: delivery.reach_step)
qed

lemma sample_deliverable: "deliverable_outbox sample_relay 1 (sample_delivery_db [sample_event])" "delivery_ok (sample_delivery_db [sample_event])"
proof -
  have "digestPayload sample_relay CNull = utf8 ''null''" by (simp add: digestPayload_def sample_relay_def)
  then show "deliverable_outbox sample_relay 1 (sample_delivery_db [sample_event])"
    by (simp add: deliverable_outbox_def sample_delivery_db_def head_ready_def sample_event_def)
  show "delivery_ok (sample_delivery_db [sample_event])"
    by (simp add: delivery_ok_def outbox_ok_def inbox_matches_def sample_delivery_db_def) (simp add: sample_event_def predecessors_done_def)
qed

lemma sample_delivered:
  obtains db where "delivery.reach \<lparr>dw_db = db, dw_claims = [(''relay-1'', sample_claim)]\<rparr>" "\<exists>r \<in> set (dd_outbox db). dr_status r = ''DELIVERED''"
proof -
  have head: "map_of (the (ht_row (dd_head (sample_delivery_db rows)))) ''recovery_epoch'' = Some (Sql_Int 1)" "head_ready (the (ht_row (dd_head (sample_delivery_db rows))))" for rows
    by (simp_all add: sample_delivery_db_def head_ready_def)
  have "dr_payload_digest sample_event = digestPayload sample_relay (dr_payload sample_event)" by (simp add: digestPayload_def sample_relay_def sample_event_def)
  then obtain db where "deliver_tx sample_relay sample_claim (sample_delivery_db [sample_claim]) = Inr db" "dd_outbox db = [delivered_row sample_relay 1 sample_event]"
    using deliver_claimed [OF sample_deliverable(2), of sample_event sample_relay _ "sample_delivery_db [sample_claim]" 1] sample_head head
    by (auto simp: sample_claim_def) (auto simp: sample_delivery_db_def sample_event_def)
  moreover from this have "delivery_step sample_world \<lparr>dw_db = db, dw_claims = [(''relay-1'', sample_claim)]\<rparr>"
    using step_deliver [of sample_relay sample_claim sample_world db] by (simp add: sample_world_def sample_relay_def)
  ultimately show thesis using that [OF delivery.reach_step [OF sample_claim_reached]] by (simp add: delivered_row_def)
qed

theorem outbox_delivered_once_in_order_witness:
  "\<exists>s. delivery.reach s \<and> distinct (map in_event (dd_inbox (dw_db s))) \<and> dd_inbox (dw_db s) \<noteq> []"
proof -
  obtain db where db: "delivery.reach \<lparr>dw_db = db, dw_claims = [(''relay-1'', sample_claim)]\<rparr>" "\<exists>r \<in> set (dd_outbox db). dr_status r = ''DELIVERED''"
    by (rule sample_delivered)
  from outbox_delivered_once_in_order [OF db(1)] have "distinct (map in_event (dd_inbox db))"
    and "in_event ` set (dd_inbox db) = dr_id ` {r \<in> set (dd_outbox db). dr_status r = ''DELIVERED''}" by simp_all
  moreover from this(2) db(2) have "dd_inbox db \<noteq> []" by auto
  ultimately show ?thesis using db(1) by (intro exI [of _ "\<lparr>dw_db = db, dw_claims = [(''relay-1'', sample_claim)]\<rparr>"]) simp
qed


text \<open>The row claimed again after the lease of the first claim ran out.\<close>

definition second_claim :: delivery_row where
  "second_claim = claimed_row sample_relay 100 (sample_event\<lparr>dr_fencing_token := 1\<rparr>)"

lemma sample_reclaimed:
  "claim_tx sample_relay 100 {} (sample_delivery_db [sample_claim]) = Inr (sample_delivery_db [second_claim], Some second_claim)"
proof -
  have free: "release_expired 100 [sample_claim] = [sample_event\<lparr>dr_fencing_token := 1\<rparr>]"
    by (simp add: release_expired_def sql_update_def sample_claim_def claimed_row_def lease_seconds_def sample_event_def sample_relay_def)
  have "next_row sample_relay 100 {} 1 [sample_event\<lparr>dr_fencing_token := 1\<rparr>] = Some (sample_event\<lparr>dr_fencing_token := 1\<rparr>)"
    by (simp add: next_row_def deliverable_def predecessors_done_def sample_event_def js_sort_def)
  with free show ?thesis unfolding claim_tx_def sample_head
    by (simp add: sample_delivery_db_def head_ready_def grant_row_def sql_update_def second_claim_def) (simp add: sample_event_def)
qed

theorem superseded_relay_is_fenced_witness:
  "fail_tx sample_relay 100 sample_claim True (sample_delivery_db [second_claim]) = sample_delivery_db [second_claim]"
proof -
  let ?s = "\<lparr>dw_db = sample_delivery_db [second_claim], dw_claims = [(''relay-1'', second_claim), (''relay-1'', sample_claim)]\<rparr>"
  have "delivery_step sample_world ?s"
    using step_claim [of sample_relay 100 "{}" sample_world] sample_reclaimed by (simp add: sample_world_def sample_relay_def)
  then have "delivery.reach ?s" by (rule delivery.reach_step [OF sample_claim_reached])
  moreover have "dr_id sample_claim = dr_id second_claim" "dr_fencing_token sample_claim < dr_fencing_token second_claim"
    by (simp_all add: sample_claim_def second_claim_def claimed_row_def sample_event_def)
  ultimately show ?thesis using superseded_relay_is_fenced [of ?s "''relay-1''" sample_claim "''relay-1''" second_claim] by simp
qed

end
