(* ===== verification/StateBroker.thy ===== *)
theory StateBroker
  imports SecretManager
begin

text \<open>
  The state a runtime keeps through the broker: the execution lineage of \<^verbatim>\<open>packages/worker-runtime/src/broker-authority.ts\<close>
  and the operations \<^verbatim>\<open>stateRead\<close> and \<^verbatim>\<open>stateWrite\<close> of \<^verbatim>\<open>packages/worker-runtime/src/index.ts\<close>. A namespace is
  the document of one row, found by the digest of the lineage; an entry keeps its version when it is deleted. The JavaScript
  object that holds the entries inherits the properties of every object, and a lookup sees those too. Stored values are
  the values canonical conversion gives; the SHA-256, the conversion of text to numbers and the clock are parameters.
\<close>

section \<open>Execution lineage\<close>

record execution_row =
  xe_id :: string
  xe_kind :: string
  xe_source_kind :: string
  xe_source_id :: string
  xe_source_revision :: string
  xe_binding_revision :: string
  xe_activation_epoch :: int
  xe_incarnation :: string
  xe_deployment :: int
  xe_declared_generation :: "string option" \<comment> \<open>of \<^verbatim>\<open>systemd_identity\<close>, None when absent or empty\<close>
  xe_lifecycle :: string
  xe_state :: string
  xe_completed :: bool
  xe_deleted :: bool

record binding_revision_row =
  xb_id :: string
  xb_binding_set :: string
  xb_number :: int

record binding_set_row =
  xs_id :: string
  xs_current_revision :: "string option"

record ready_instance_row =
  xi_id :: string
  xi_component :: string
  xi_source_revision :: string
  xi_binding_revision :: string
  xi_activation_epoch :: int
  xi_incarnation :: string
  xi_deployment :: int
  xi_generation :: int
  xi_desired :: string
  xi_effective :: string

record component_row =
  xc_id :: string
  xc_lifecycle :: string
  xc_activation_state :: string
  xc_enabled :: bool
  xc_active_revision :: "string option"
  xc_active_binding_revision :: "string option"
  xc_activation_epoch :: int

record state_entry =
  se_value :: cjson
  se_valueDigest :: string
  se_schemaVersion :: int
  se_stateVersion :: int
  se_deleted :: bool
  se_updatedAt :: string
  se_lineageDigest :: string

record target_row =
  tg_id :: string
  tg_stable_key :: string
  tg_lifecycle :: string
  tg_deleted :: bool
  tg_lineageDigest :: string
  tg_values :: "(string \<times> state_entry) list"
  tg_state_version :: int
  tg_activation_epoch :: int
  tg_deployment :: int

record broker_db =
  br_incarnation :: "string option"
  br_deployment :: "int option"
  br_activation :: "(int \<times> string option) option" \<comment> \<open>epoch and current activation set\<close>
  br_executions :: "execution_row list"
  br_revisions :: "binding_revision_row list"
  br_sets :: "binding_set_row list"
  br_instances :: "ready_instance_row list"
  br_components :: "component_row list"
  br_targets :: "target_row list"
  br_audit :: "(string \<times> string \<times> cjson) list"

record broker_services =
  bv_sha256 :: "byte list \<Rightarrow> byte list"
  bv_collation :: collation
  bv_conversions :: js_conversions

record execution_lineage =
  el_executionId :: string
  el_executionKind :: string
  el_sourceObjectKind :: string
  el_sourceObjectId :: string
  el_sourceRevisionId :: string
  el_bindingSetRevisionId :: string
  el_bindingSetRevisionNumber :: string
  el_activationEpoch :: string
  el_activationSetId :: "string option"
  el_runtimeInstanceId :: "string option"
  el_runtimeGeneration :: string
  el_platformIncarnationId :: string
  el_applicationDeploymentEpoch :: string
  el_lineageDigest :: string

definition json_digest :: "broker_services \<Rightarrow> cjson \<Rightarrow> string" where
  "json_digest sv v = hex_text (bv_sha256 sv (utf8 (canonicalJson (bv_collation sv) v)))"

definition runtimeLineageDigest :: "broker_services \<Rightarrow> cjson \<Rightarrow> string" where
  "runtimeLineageDigest sv v = ''sha256:'' @ json_digest sv v"

definition runtimeStateNamespace :: "execution_lineage \<Rightarrow> string" where
  "runtimeStateNamespace l = ''runtime-state:'' @ drop (length ''sha256:'') (el_lineageDigest l)"

definition js_option_text :: "cjson option \<Rightarrow> string" where
  "js_option_text v = (case v of None \<Rightarrow> [] | Some CNull \<Rightarrow> [] | Some x \<Rightarrow> js_string x)"

definition assertRuntimeLocalStateKey :: "cjson option \<Rightarrow> string outcome" where
  "assertRuntimeLocalStateKey v = (if is_binding_alias (js_option_text v) then Inr (js_option_text v) else Inl (Plain_Error ''RUNTIME_STATE_KEY_INVALID''))"

definition left_join :: "('r \<Rightarrow> bool) \<Rightarrow> 'r list \<Rightarrow> 'r option list" where
  "left_join P rows = (if filter P rows = [] then [None] else map Some (filter P rows))"

definition live_execution :: "string \<Rightarrow> execution_row \<Rightarrow> bool" where
  "live_execution i e = (xe_id e = i \<and> xe_lifecycle e = ''ACTIVE'' \<and> xe_state e = ''ACTIVE'' \<and> \<not> xe_completed e \<and> \<not> xe_deleted e)"

definition heads_match :: "broker_db \<Rightarrow> execution_row \<Rightarrow> bool" where
  "heads_match db e = (br_incarnation db = Some (xe_incarnation e) \<and> br_deployment db = Some (xe_deployment e)
     \<and> map_option fst (br_activation db) = Some (xe_activation_epoch e))"

definition instance_of :: "execution_row \<Rightarrow> ready_instance_row \<Rightarrow> bool" where
  "instance_of e r = (xe_kind e = ''COMPONENT'' \<and> xi_component r = xe_source_id e \<and> xi_source_revision r = xe_source_revision e
     \<and> xi_binding_revision r = xe_binding_revision e \<and> xi_activation_epoch r = xe_activation_epoch e \<and> xi_incarnation r = xe_incarnation e
     \<and> xi_deployment r = xe_deployment e \<and> xi_desired r = ''READY'' \<and> xi_effective r = ''READY'')"

definition component_active :: "execution_row \<Rightarrow> component_row option \<Rightarrow> bool" where
  "component_active e c = (xe_kind e \<noteq> ''COMPONENT'' \<or> (case c of None \<Rightarrow> False | Some c \<Rightarrow>
     xc_lifecycle c = ''ACTIVE'' \<and> xc_activation_state c = ''ACTIVE'' \<and> xc_enabled c \<and> xc_active_revision c = Some (xe_source_revision e)
     \<and> xc_active_binding_revision c = Some (xe_binding_revision e) \<and> xc_activation_epoch c = xe_activation_epoch e))"

definition lineage_rows :: "string \<Rightarrow> broker_db \<Rightarrow> (execution_row \<times> binding_revision_row \<times> ready_instance_row option) list" where
  "lineage_rows executionId db = concat (map (\<lambda>e. concat (map (\<lambda>b. concat (map (\<lambda>s.
       concat (map (\<lambda>r. map (\<lambda>c. (e, b, r)) (filter (component_active e) (left_join (\<lambda>c. xe_kind e = ''COMPONENT'' \<and> xc_id c = xe_source_id e) (br_components db))))
         (left_join (instance_of e) (br_instances db))))
     (filter (\<lambda>s. xs_id s = xb_binding_set b \<and> xs_current_revision s = Some (xb_id b)) (br_sets db))))
     (filter (\<lambda>b. xb_id b = xe_binding_revision e) (br_revisions db))))
     (filter (\<lambda>e. live_execution executionId e \<and> heads_match db e) (br_executions db)))"

definition generation_text :: "execution_row \<Rightarrow> ready_instance_row option \<Rightarrow> string option" where
  "generation_text e r = (case r of Some i \<Rightarrow> Some (int_text (xi_generation i)) | None \<Rightarrow> xe_declared_generation e)"

definition opt_str :: "string option \<Rightarrow> cjson" where
  "opt_str s = (case s of None \<Rightarrow> CNull | Some t \<Rightarrow> CStr t)"

text \<open>The fields of the lineage that its digest covers.\<close>

definition lineage_json :: "execution_lineage \<Rightarrow> cjson" where
  "lineage_json l = CObj [(''executionId'', CStr (el_executionId l)), (''executionKind'', CStr (el_executionKind l)),
     (''sourceObjectKind'', CStr (el_sourceObjectKind l)), (''sourceObjectId'', CStr (el_sourceObjectId l)),
     (''sourceRevisionId'', CStr (el_sourceRevisionId l)), (''bindingSetRevisionId'', CStr (el_bindingSetRevisionId l)),
     (''bindingSetRevisionNumber'', CStr (el_bindingSetRevisionNumber l)), (''activationEpoch'', CStr (el_activationEpoch l)),
     (''activationSetId'', opt_str (el_activationSetId l)), (''runtimeInstanceId'', opt_str (el_runtimeInstanceId l)),
     (''runtimeGeneration'', CStr (el_runtimeGeneration l)), (''platformIncarnationId'', CStr (el_platformIncarnationId l)),
     (''applicationDeploymentEpoch'', CStr (el_applicationDeploymentEpoch l))]"

definition raw_lineage :: "broker_db \<Rightarrow> execution_row \<Rightarrow> binding_revision_row \<Rightarrow> ready_instance_row option \<Rightarrow> string \<Rightarrow> execution_lineage" where
  "raw_lineage db e b r generation = \<lparr>el_executionId = xe_id e, el_executionKind = xe_kind e, el_sourceObjectKind = xe_source_kind e,
     el_sourceObjectId = xe_source_id e, el_sourceRevisionId = xe_source_revision e, el_bindingSetRevisionId = xe_binding_revision e,
     el_bindingSetRevisionNumber = int_text (xb_number b), el_activationEpoch = int_text (xe_activation_epoch e),
     el_activationSetId = (case br_activation db of Some (_, s) \<Rightarrow> s | None \<Rightarrow> None), el_runtimeInstanceId = map_option xi_id r,
     el_runtimeGeneration = generation, el_platformIncarnationId = xe_incarnation e,
     el_applicationDeploymentEpoch = int_text (xe_deployment e), el_lineageDigest = []\<rparr>"

definition loadRuntimeExecutionLineage :: "broker_services \<Rightarrow> string \<Rightarrow> broker_db \<Rightarrow> execution_lineage outcome" where
  "loadRuntimeExecutionLineage sv executionId db = (case lineage_rows executionId db of
     [(e, b, r)] \<Rightarrow>
       (case generation_text e r of
          None \<Rightarrow> Inl (Plain_Error ''RUNTIME_GENERATION_AUTHORITY_MISSING'')
        | Some g \<Rightarrow>
            (case jc_bigint_of_text (bv_conversions sv) g of
               None \<Rightarrow> Inl (Plain_Error ''SyntaxError'')
             | Some n \<Rightarrow> if n < 1 then Inl (Plain_Error ''RUNTIME_GENERATION_AUTHORITY_MISSING'')
                 else (let raw = raw_lineage db e b r g in Inr (raw\<lparr>el_lineageDigest := runtimeLineageDigest sv (lineage_json raw)\<rparr>))))
   | _ \<Rightarrow> Inl (Plain_Error ''RUNTIME_EXECUTION_AUTHORITY_STALE''))"

section \<open>Entries\<close>

text \<open>The names every object inherits that a key can spell.\<close>

definition inherited_names :: "string list" where
  "inherited_names = [''constructor'', ''hasOwnProperty'', ''isPrototypeOf'', ''propertyIsEnumerable'', ''toLocaleString'', ''toString'', ''valueOf'']"

datatype state_lookup = Absent | Inherited | Own state_entry

definition lookup_entry :: "(string \<times> state_entry) list \<Rightarrow> string \<Rightarrow> state_lookup" where
  "lookup_entry entries key = (case jm_get entries key of Some r \<Rightarrow> Own r | None \<Rightarrow> if key \<in> set inherited_names then Inherited else Absent)"

definition entry_json :: "state_entry \<Rightarrow> cjson" where
  "entry_json r = CObj [(''value'', se_value r), (''valueDigest'', CStr (se_valueDigest r)), (''schemaVersion'', CNum (JInt (se_schemaVersion r))),
     (''stateVersion'', CStr (int_text (se_stateVersion r))), (''deleted'', CBool (se_deleted r)), (''updatedAt'', CStr (se_updatedAt r)),
     (''lineageDigest'', CStr (se_lineageDigest r))]"

definition json_bytes :: "broker_services \<Rightarrow> cjson \<Rightarrow> nat" where
  "json_bytes sv v = length (utf8 (canonicalJson (bv_collation sv) v))"

definition values_json :: "(string \<times> state_entry) list \<Rightarrow> cjson" where
  "values_json entries = CObj (map (\<lambda>(k, r). (k, entry_json r)) entries)"

definition assertStateDocumentWithinLimits :: "broker_services \<Rightarrow> (string \<times> state_entry) list \<Rightarrow> unit outcome" where
  "assertStateDocumentWithinLimits sv entries =
     (if length entries > 256 \<or> json_bytes sv (values_json entries) > 1024 * 1024 then Inl (Plain_Error ''RUNTIME_STATE_NAMESPACE_QUOTA_EXCEEDED'') else Inr ())"

definition assertStateValueWithinLimits :: "broker_services \<Rightarrow> cjson option \<Rightarrow> unit outcome" where
  "assertStateValueWithinLimits sv v = (case v of
     None \<Rightarrow> Inl (Json_Conversion_Error ''$'' ''undefined'')
   | Some x \<Rightarrow> if json_bytes sv x > 64 * 1024 then Inl (Plain_Error ''RUNTIME_STATE_VALUE_TOO_LARGE'') else Inr ())"

section \<open>Reading and writing\<close>

record state_view =
  sw_value :: cjson
  sw_valueDigest :: "string option"
  sw_schemaVersion :: int
  sw_stateVersion :: "int option"
  sw_namespaceVersion :: int

definition stateRead :: "execution_lineage \<Rightarrow> json_object \<Rightarrow> broker_db \<Rightarrow> state_view option outcome" where
  "stateRead l payload db = bindE (assertRuntimeLocalStateKey (map_of payload ''key'')) (\<lambda>key.
     case sql_first (\<lambda>t. tg_stable_key t = runtimeStateNamespace l \<and> tg_lifecycle t = ''ACTIVE'' \<and> \<not> tg_deleted t) (br_targets db) of
       None \<Rightarrow> Inr None
     | Some t \<Rightarrow>
         if tg_lineageDigest t \<noteq> el_lineageDigest l then Inl (Plain_Error ''RUNTIME_STATE_LINEAGE_MISMATCH'')
         else (case lookup_entry (tg_values t) key of
             Absent \<Rightarrow> Inr None
           | Inherited \<Rightarrow> Inr (Some \<lparr>sw_value = CNull, sw_valueDigest = None, sw_schemaVersion = 1, sw_stateVersion = None, sw_namespaceVersion = tg_state_version t\<rparr>)
           | Own r \<Rightarrow> if se_deleted r then Inr None
               else Inr (Some \<lparr>sw_value = se_value r, sw_valueDigest = Some (se_valueDigest r), sw_schemaVersion = se_schemaVersion r,
                 sw_stateVersion = Some (se_stateVersion r), sw_namespaceVersion = tg_state_version t\<rparr>)))"

record write_request =
  wq_operation :: string
  wq_key :: string
  wq_schemaVersion :: int
  wq_value :: cjson \<comment> \<open>null for a deletion\<close>
  wq_expected :: "int option"

definition safe_integer :: "js_number \<Rightarrow> int option" where
  "safe_integer n = (case n of JInt i \<Rightarrow> if \<bar>i\<bar> \<le> 9007199254740991 then Some i else None | JNegZero \<Rightarrow> Some 0 | _ \<Rightarrow> None)"

definition requested :: "json_object \<Rightarrow> string \<Rightarrow> cjson option" where
  "requested payload name = (case map_of payload name of Some CNull \<Rightarrow> None | v \<Rightarrow> v)"

definition write_operation :: "json_object \<Rightarrow> string outcome" where
  "write_operation payload = (let operation = lower_text (case requested payload ''operation'' of None \<Rightarrow> ''put'' | Some v \<Rightarrow> js_string v) in
     if operation \<in> {''put'', ''create'', ''delete''} then Inr operation else Inl (Plain_Error ''RUNTIME_STATE_OPERATION_UNSUPPORTED''))"

definition schema_version :: "broker_services \<Rightarrow> json_object \<Rightarrow> int outcome" where
  "schema_version sv payload = (case safe_integer (case requested payload ''schemaVersion'' of None \<Rightarrow> JInt 1 | Some v \<Rightarrow> js_to_number (bv_conversions sv) v) of
     None \<Rightarrow> Inl (Plain_Error ''RUNTIME_STATE_SCHEMA_VERSION_INVALID'')
   | Some n \<Rightarrow> if n < 1 then Inl (Plain_Error ''RUNTIME_STATE_SCHEMA_VERSION_INVALID'') else Inr n)"

definition expected_version :: "broker_services \<Rightarrow> json_object \<Rightarrow> int option outcome" where
  "expected_version sv payload = (case requested payload ''expectedStateVersion'' of None \<Rightarrow> Inr None
     | Some v \<Rightarrow> (case jc_bigint_of_text (bv_conversions sv) (js_string v) of None \<Rightarrow> Inl (Plain_Error ''SyntaxError'') | Some n \<Rightarrow> Inr (Some n)))"

definition parse_write :: "broker_services \<Rightarrow> json_object \<Rightarrow> write_request outcome" where
  "parse_write sv payload = bindE (write_operation payload) (\<lambda>operation.
     bindE (assertRuntimeLocalStateKey (map_of payload ''key'')) (\<lambda>key.
     bindE (schema_version sv payload) (\<lambda>schemaVersion.
     bindE (if operation = ''delete'' then Inr () else assertStateValueWithinLimits sv (map_of payload ''value'')) (\<lambda>_.
     bindE (expected_version sv payload) (\<lambda>expected.
       Inr \<lparr>wq_operation = operation, wq_key = key, wq_schemaVersion = schemaVersion,
         wq_value = (if operation = ''delete'' then CNull else the (map_of payload ''value'')), wq_expected = expected\<rparr>)))))"

definition find_target :: "string \<Rightarrow> target_row list \<Rightarrow> target_row option" where
  "find_target key = sql_first (\<lambda>t. tg_stable_key t = key)"

text \<open>The heads are those the lineage was just read under, so they are present.\<close>

definition new_target :: "string \<Rightarrow> execution_lineage \<Rightarrow> broker_db \<Rightarrow> target_row" where
  "new_target i l db = \<lparr>tg_id = i, tg_stable_key = runtimeStateNamespace l, tg_lifecycle = ''ACTIVE'', tg_deleted = False,
     tg_lineageDigest = el_lineageDigest l, tg_values = [], tg_state_version = 1,
     tg_activation_epoch = (case br_activation db of Some (n, _) \<Rightarrow> n | None \<Rightarrow> 0), tg_deployment = (case br_deployment db of Some n \<Rightarrow> n | None \<Rightarrow> 0)\<rparr>"

definition open_target :: "string \<Rightarrow> execution_lineage \<Rightarrow> write_request \<Rightarrow> broker_db \<Rightarrow> (broker_db \<times> target_row) outcome" where
  "open_target i l q db = (case find_target (runtimeStateNamespace l) (br_targets db) of
     Some t \<Rightarrow> Inr (db, t)
   | None \<Rightarrow> if wq_operation q \<notin> {''create'', ''put''} then Inl (Plain_Error ''RUNTIME_STATE_NOT_FOUND'')
       else if list_ex (\<lambda>t. tg_id t = i) (br_targets db) then Inl (Pg_Error ''23505'')
       else Inr (db\<lparr>br_targets := br_targets db @ [new_target i l db]\<rparr>, new_target i l db))"

definition next_version :: "write_request \<Rightarrow> state_lookup \<Rightarrow> int outcome" where
  "next_version q current = (let currentVersion = (case current of Own r \<Rightarrow> se_stateVersion r | _ \<Rightarrow> 0) in
     if wq_operation q = ''create'' \<and> (case current of Absent \<Rightarrow> False | Inherited \<Rightarrow> True | Own r \<Rightarrow> \<not> se_deleted r)
       then Inl (Plain_Error ''RUNTIME_STATE_ALREADY_EXISTS'')
     else if wq_operation q \<noteq> ''create'' \<and> wq_expected q = None then Inl (Plain_Error ''STATE_VERSION_REQUIRED'')
     else if (case wq_expected q of None \<Rightarrow> False | Some n \<Rightarrow> currentVersion \<noteq> n) then Inl (Plain_Error ''STATE_VERSION_CONFLICT'')
     else Inr (currentVersion + 1))"

definition written_entry :: "broker_services \<Rightarrow> string \<Rightarrow> execution_lineage \<Rightarrow> write_request \<Rightarrow> int \<Rightarrow> state_entry" where
  "written_entry sv now l q n = \<lparr>se_value = wq_value q, se_valueDigest = json_digest sv (wq_value q), se_schemaVersion = wq_schemaVersion q,
     se_stateVersion = n, se_deleted = (wq_operation q = ''delete''), se_updatedAt = now, se_lineageDigest = el_lineageDigest l\<rparr>"

definition stored_target :: "(string \<times> state_entry) list \<Rightarrow> broker_db \<Rightarrow> target_row \<Rightarrow> target_row" where
  "stored_target entries db t = t\<lparr>tg_values := entries, tg_state_version := tg_state_version t + 1,
     tg_activation_epoch := (case br_activation db of Some (n, _) \<Rightarrow> n | None \<Rightarrow> 0), tg_deployment := (case br_deployment db of Some n \<Rightarrow> n | None \<Rightarrow> 0)\<rparr>"

definition write_tx :: "broker_services \<Rightarrow> string \<Rightarrow> string \<Rightarrow> execution_lineage \<Rightarrow> write_request \<Rightarrow> broker_db \<Rightarrow> (broker_db \<times> int) outcome" where
  "write_tx sv now freshId lineage q db = bindE (loadRuntimeExecutionLineage sv (el_executionId lineage) db) (\<lambda>l.
     if el_lineageDigest l \<noteq> el_lineageDigest lineage then Inl (Plain_Error ''RUNTIME_STATE_FENCING_TOKEN_STALE'')
     else bindE (open_target freshId l q db) (\<lambda>(db1, t).
       if tg_lineageDigest t \<noteq> el_lineageDigest l then Inl (Plain_Error ''RUNTIME_STATE_LINEAGE_MISMATCH'')
       else bindE (next_version q (lookup_entry (tg_values t) (wq_key q))) (\<lambda>n.
         let entries = jm_set (wq_key q) (written_entry sv now l q n) (tg_values t) in
         bindE (assertStateDocumentWithinLimits sv entries) (\<lambda>_.
           Inr (db1\<lparr>br_targets := sql_update (\<lambda>x. tg_id x = tg_id t) (stored_target entries db1) (br_targets db1),
             br_audit := br_audit db1 @ [(''runtime.state.'' @ wq_operation q, tg_id t, CObj [(''key'', CStr (wq_key q)), (''stateVersion'', CStr (int_text n)),
               (''valueDigest'', CStr (json_digest sv (wq_value q))), (''lineageDigest'', CStr (el_lineageDigest l))])]\<rparr>, n)))))"

definition stateWrite :: "broker_services \<Rightarrow> string \<Rightarrow> string \<Rightarrow> execution_lineage \<Rightarrow> json_object \<Rightarrow> broker_db \<Rightarrow> (broker_db \<times> int) outcome" where
  "stateWrite sv now freshId lineage payload db = bindE (parse_write sv payload) (\<lambda>q. write_tx sv now freshId lineage q db)"

section \<open>Steps\<close>

text \<open>A step writes one key of one namespace, or changes anything but the stored documents.\<close>

inductive broker_step :: "broker_services \<Rightarrow> broker_db \<Rightarrow> (string \<times> string) option \<Rightarrow> broker_db \<Rightarrow> bool" for sv where
  step_write: "stateWrite sv now i l payload db = Inr (db', n) \<Longrightarrow> parse_write sv payload = Inr q
    \<Longrightarrow> broker_step sv db (Some (runtimeStateNamespace l, wq_key q)) db'"
| step_authority: "br_targets db' = br_targets db \<Longrightarrow> broker_step sv db None db'"

inductive broker_run :: "broker_services \<Rightarrow> ((string \<times> string) option \<Rightarrow> bool) \<Rightarrow> broker_db \<Rightarrow> broker_db \<Rightarrow> bool" for sv P where
  run_none: "broker_run sv P db db"
| run_more: "broker_run sv P db db1 \<Longrightarrow> broker_step sv db1 a db2 \<Longrightarrow> P a \<Longrightarrow> broker_run sv P db db2"

definition no_targets :: "broker_db \<Rightarrow> bool" where
  "no_targets db = (br_targets db = [])"

interpretation state_broker: transition_system no_targets "\<lambda>db db'. \<exists>a. broker_step sv db a db'" for sv .

section \<open>Documents\<close>

definition target_ok :: "broker_services \<Rightarrow> target_row \<Rightarrow> bool" where
  "target_ok sv t = ((\<exists>d. tg_lineageDigest t = ''sha256:'' @ d \<and> tg_stable_key t = ''runtime-state:'' @ d)
     \<and> tg_lifecycle t = ''ACTIVE'' \<and> \<not> tg_deleted t \<and> length (tg_values t) \<le> 256 \<and> json_bytes sv (values_json (tg_values t)) \<le> 1024 * 1024
     \<and> (\<forall>(k, r) \<in> set (tg_values t). json_bytes sv (se_value r) \<le> 64 * 1024 \<and> is_binding_alias k))"

definition targets_ok :: "broker_services \<Rightarrow> target_row list \<Rightarrow> bool" where
  "targets_ok sv ts = (distinct (map tg_id ts) \<and> distinct (map tg_stable_key ts) \<and> (\<forall>t \<in> set ts. target_ok sv t))"

text \<open>The abstract store: the entries of a namespace.\<close>

definition namespace_entries :: "broker_db \<Rightarrow> string \<Rightarrow> (string \<times> state_entry) list" where
  "namespace_entries db ns = (case find_target ns (br_targets db) of None \<Rightarrow> [] | Some t \<Rightarrow> tg_values t)"

lemma stored_target_key [simp]: "tg_stable_key (stored_target es db t) = tg_stable_key t" "tg_id (stored_target es db t) = tg_id t" "tg_values (stored_target es db t) = es"
  by (simp_all add: stored_target_def)

lemma find_target_Some: "find_target ns ts = Some t \<Longrightarrow> t \<in> set ts \<and> tg_stable_key t = ns"
  by (auto simp: find_target_def dest: sql_first_Some)

lemma find_target_None: "find_target ns ts = None \<longleftrightarrow> (\<forall>t \<in> set ts. tg_stable_key t \<noteq> ns)"
  by (auto simp: find_target_def sql_first_def find_None_iff)

lemma find_target_append:
  "find_target ns (ts @ [t]) = (case find_target ns ts of None \<Rightarrow> if tg_stable_key t = ns then Some t else None | Some x \<Rightarrow> Some x)"
  by (induction ts) (simp_all add: find_target_def sql_first_def)

lemma find_target_unique: "distinct (map tg_stable_key ts) \<Longrightarrow> t \<in> set ts \<Longrightarrow> find_target (tg_stable_key t) ts = Some t"
  by (cases "find_target (tg_stable_key t) ts") (auto simp: find_target_None dest: find_target_Some distinct_map_eq)

lemma lineage_digest_prefix:
  assumes "loadRuntimeExecutionLineage sv i db = Inr l"
  obtains d where "el_lineageDigest l = ''sha256:'' @ d"
  using assms by (auto simp: loadRuntimeExecutionLineage_def runtimeLineageDigest_def Let_def split: list.split_asm prod.split_asm option.split_asm if_split_asm)

text \<open>A write, with the document it opens and the entries it leaves.\<close>

lemma write_tx_result:
  assumes "write_tx sv now i l0 q db = Inr (db', n)"
  obtains l t base where "loadRuntimeExecutionLineage sv (el_executionId l0) db = Inr l" "el_lineageDigest l = el_lineageDigest l0"
    "find_target (runtimeStateNamespace l) (br_targets db) = Some t \<and> base = br_targets db
      \<or> find_target (runtimeStateNamespace l) (br_targets db) = None \<and> base = br_targets db @ [t] \<and> t = new_target i l db \<and> (\<forall>x \<in> set (br_targets db). tg_id x \<noteq> i)"
    "tg_lineageDigest t = el_lineageDigest l" "next_version q (lookup_entry (tg_values t) (wq_key q)) = Inr n"
    "assertStateDocumentWithinLimits sv (jm_set (wq_key q) (written_entry sv now l q n) (tg_values t)) = Inr ()"
    "br_targets db' = sql_update (\<lambda>x. tg_id x = tg_id t) (stored_target (jm_set (wq_key q) (written_entry sv now l q n) (tg_values t)) db) base"
proof -
  from assms obtain l where l: "loadRuntimeExecutionLineage sv (el_executionId l0) db = Inr l" "el_lineageDigest l = el_lineageDigest l0"
    by (auto simp: write_tx_def bindE_Inr_iff split: if_split_asm)
  note tx = assms [unfolded write_tx_def l(1) bindE_simps, simplified l(2), simplified]
  obtain db1 t where ot: "open_target i l q db = Inr (db1, t)" using tx by (auto simp: bindE_Inr_iff)
  have opened: "find_target (runtimeStateNamespace l) (br_targets db) = Some t \<and> db1 = db
      \<or> find_target (runtimeStateNamespace l) (br_targets db) = None \<and> db1 = db\<lparr>br_targets := br_targets db @ [t]\<rparr> \<and> t = new_target i l db
        \<and> (\<forall>x \<in> set (br_targets db). tg_id x \<noteq> i)"
    using ot by (auto simp: open_target_def list_ex_iff split: option.split_asm if_split_asm)
  have same: "stored_target e db1 = stored_target e db" for e using opened by (auto simp: stored_target_def fun_eq_iff)
  show thesis
    by (rule that [OF l, of t "br_targets db1"])
      (use tx ot opened l(2) in \<open>auto simp: bindE_Inr_iff Let_def same split: if_split_asm\<close>)
qed

lemma parse_write_result:
  assumes "parse_write sv payload = Inr q"
  shows "json_bytes sv (wq_value q) \<le> 64 * 1024" and "is_binding_alias (wq_key q)"
    and "assertRuntimeLocalStateKey (map_of payload ''key'') = Inr (wq_key q)" and "wq_operation q \<in> {''put'', ''create'', ''delete''}"
proof -
  have null: "json_bytes sv CNull \<le> 64 * 1024" by (simp add: json_bytes_def utf8_def utf8_char_def)
  obtain operation key n e where op: "write_operation payload = Inr operation" and key: "assertRuntimeLocalStateKey (map_of payload ''key'') = Inr key"
    and limit: "(if operation = ''delete'' then Inr () else assertStateValueWithinLimits sv (map_of payload ''value'')) = Inr ()"
    and q: "q = \<lparr>wq_operation = operation, wq_key = key, wq_schemaVersion = n, wq_value = (if operation = ''delete'' then CNull else the (map_of payload ''value'')), wq_expected = e\<rparr>"
    using assms by (auto simp: parse_write_def bindE_Inr_iff)
  show "assertRuntimeLocalStateKey (map_of payload ''key'') = Inr (wq_key q)" using key by (simp add: q)
  show "wq_operation q \<in> {''put'', ''create'', ''delete''}" using op by (simp add: q write_operation_def Let_def split: if_split_asm)
  show "is_binding_alias (wq_key q)" using key by (auto simp: q assertRuntimeLocalStateKey_def split: if_split_asm)
  show "json_bytes sv (wq_value q) \<le> 64 * 1024"
    using limit null by (auto simp: q assertStateValueWithinLimits_def split: option.split_asm if_split_asm)
qed

lemma new_target_ok: "loadRuntimeExecutionLineage sv e db = Inr l \<Longrightarrow> target_ok sv (new_target i l db)"
  by (erule lineage_digest_prefix) (simp add: target_ok_def new_target_def runtimeStateNamespace_def json_bytes_def values_json_def utf8_def utf8_char_def object_entries_def)

lemma stored_target_ok:
  assumes "target_ok sv t" and "assertStateDocumentWithinLimits sv (jm_set k r (tg_values t)) = Inr ()"
    and "json_bytes sv (se_value r) \<le> 64 * 1024" and "is_binding_alias k"
  shows "target_ok sv (stored_target (jm_set k r (tg_values t)) db t)"
proof -
  have "\<forall>(k', r') \<in> set (jm_set k r (tg_values t)). json_bytes sv (se_value r') \<le> 64 * 1024 \<and> is_binding_alias k'"
    using assms(1,3,4) set_jm_set_subset [of k r "tg_values t"] by (fastforce simp: target_ok_def)
  then show ?thesis using assms(1,2) by (auto simp: target_ok_def stored_target_def assertStateDocumentWithinLimits_def split: if_split_asm)
qed

lemma update_by_id:
  "distinct (map tg_id ts) \<Longrightarrow> t \<in> set ts \<Longrightarrow> sql_update (\<lambda>x. tg_id x = tg_id t) f ts = map (\<lambda>x. if x = t then f x else x) ts"
  by (auto simp: sql_update_def dest: distinct_map_eq)

lemma write_tx_cases:
  assumes ok: "targets_ok sv (br_targets db)" and tx: "write_tx sv now i l0 q db = Inr (db', n)"
  obtains t base where "distinct (map tg_id base)" "distinct (map tg_stable_key base)" "\<forall>x \<in> set base. target_ok sv x" "t \<in> set base"
    "tg_stable_key t = runtimeStateNamespace l0" "\<And>ns. (case find_target ns base of None \<Rightarrow> [] | Some x \<Rightarrow> tg_values x) = namespace_entries db ns"
    "next_version q (lookup_entry (tg_values t) (wq_key q)) = Inr n"
    "assertStateDocumentWithinLimits sv (jm_set (wq_key q) (written_entry sv now l0 q n) (tg_values t)) = Inr ()"
    "br_targets db' = map (\<lambda>x. if x = t then stored_target (jm_set (wq_key q) (written_entry sv now l0 q n) (tg_values t)) db x else x) base"
proof -
  obtain l t base where l: "loadRuntimeExecutionLineage sv (el_executionId l0) db = Inr l" "el_lineageDigest l = el_lineageDigest l0"
    and opened: "find_target (runtimeStateNamespace l) (br_targets db) = Some t \<and> base = br_targets db
      \<or> find_target (runtimeStateNamespace l) (br_targets db) = None \<and> base = br_targets db @ [t] \<and> t = new_target i l db \<and> (\<forall>x \<in> set (br_targets db). tg_id x \<noteq> i)"
    and rest: "tg_lineageDigest t = el_lineageDigest l" "next_version q (lookup_entry (tg_values t) (wq_key q)) = Inr n"
    "assertStateDocumentWithinLimits sv (jm_set (wq_key q) (written_entry sv now l q n) (tg_values t)) = Inr ()"
    "br_targets db' = sql_update (\<lambda>x. tg_id x = tg_id t) (stored_target (jm_set (wq_key q) (written_entry sv now l q n) (tg_values t)) db) base"
    by (rule write_tx_result [OF tx])
  have ns: "runtimeStateNamespace l = runtimeStateNamespace l0" by (simp add: runtimeStateNamespace_def l(2))
  have entry: "written_entry sv now l q n = written_entry sv now l0 q n" by (simp add: written_entry_def l(2))
  have base: "distinct (map tg_id base)" "distinct (map tg_stable_key base)" "\<forall>x \<in> set base. target_ok sv x" "t \<in> set base" "tg_stable_key t = runtimeStateNamespace l0"
    using opened
  proof -
    show "distinct (map tg_id base)" "\<forall>x \<in> set base. target_ok sv x" "t \<in> set base" "tg_stable_key t = runtimeStateNamespace l0"
      using opened ok new_target_ok [OF l(1)] by (auto simp: targets_ok_def ns new_target_def dest: find_target_Some)
    from opened show "distinct (map tg_stable_key base)"
    proof
      assume new: "find_target (runtimeStateNamespace l) (br_targets db) = None \<and> base = br_targets db @ [t] \<and> t = new_target i l db \<and> (\<forall>x \<in> set (br_targets db). tg_id x \<noteq> i)"
      then have "tg_stable_key t \<notin> tg_stable_key ` set (br_targets db)" by (auto simp: find_target_None new_target_def)
      then show ?thesis using new ok by (simp add: targets_ok_def)
    qed (use ok in \<open>simp add: targets_ok_def\<close>)
  qed
  have "(case find_target k base of None \<Rightarrow> [] | Some x \<Rightarrow> tg_values x) = namespace_entries db k" for k
    using opened
  proof
    assume new: "find_target (runtimeStateNamespace l) (br_targets db) = None \<and> base = br_targets db @ [t] \<and> t = new_target i l db \<and> (\<forall>x \<in> set (br_targets db). tg_id x \<noteq> i)"
    then have "tg_values t = []" by (simp add: new_target_def)
    moreover have "base = br_targets db @ [t]" using new by blast
    then have "find_target k base = (case find_target k (br_targets db) of None \<Rightarrow> if tg_stable_key t = k then Some t else None | Some x \<Rightarrow> Some x)"
      by (simp only: find_target_append)
    ultimately show ?thesis by (auto simp: namespace_entries_def split: option.split)
  qed (simp add: namespace_entries_def)
  then show thesis
    using that [OF base _ rest(2)] rest(3,4) update_by_id [OF base(1,4)] by (auto simp: entry)
qed

lemma write_tx_ok:
  assumes "targets_ok sv (br_targets db)" and "write_tx sv now i l0 q db = Inr (db', n)"
    and "json_bytes sv (wq_value q) \<le> 64 * 1024" "is_binding_alias (wq_key q)"
  shows "targets_ok sv (br_targets db')"
  using assms(1,2)
proof (rule write_tx_cases)
  fix t base
  assume base: "distinct (map tg_id base)" "distinct (map tg_stable_key base)" "\<forall>x \<in> set base. target_ok sv x" "t \<in> set base"
    and limits: "assertStateDocumentWithinLimits sv (jm_set (wq_key q) (written_entry sv now l0 q n) (tg_values t)) = Inr ()"
    and db': "br_targets db' = map (\<lambda>x. if x = t then stored_target (jm_set (wq_key q) (written_entry sv now l0 q n) (tg_values t)) db x else x) base"
  have "target_ok sv (stored_target (jm_set (wq_key q) (written_entry sv now l0 q n) (tg_values t)) db t)"
    using stored_target_ok [OF _ limits] base assms(3,4) by (simp add: written_entry_def)
  then have "\<forall>x \<in> set (br_targets db'). target_ok sv x" using base(3) by (auto simp: db')
  moreover have "map tg_id (br_targets db') = map tg_id base" "map tg_stable_key (br_targets db') = map tg_stable_key base"
    by (auto simp: db' stored_target_def)
  ultimately show ?thesis using base(1,2) by (simp add: targets_ok_def)
qed

text \<open>A write refines the update of one key of one namespace of the abstract store.\<close>

lemma write_refines_store:
  assumes "targets_ok sv (br_targets db)" and "write_tx sv now i l0 q db = Inr (db', n)"
  shows "namespace_entries db' = (namespace_entries db)(runtimeStateNamespace l0 :=
      jm_set (wq_key q) (written_entry sv now l0 q n) (namespace_entries db (runtimeStateNamespace l0)))"
    and "next_version q (lookup_entry (namespace_entries db (runtimeStateNamespace l0)) (wq_key q)) = Inr n"
proof -
  obtain t base where base: "distinct (map tg_stable_key base)" "t \<in> set base" "tg_stable_key t = runtimeStateNamespace l0"
    and entries: "\<And>ns. (case find_target ns base of None \<Rightarrow> [] | Some x \<Rightarrow> tg_values x) = namespace_entries db ns"
    and version: "next_version q (lookup_entry (tg_values t) (wq_key q)) = Inr n"
    and db': "br_targets db' = map (\<lambda>x. if x = t then stored_target (jm_set (wq_key q) (written_entry sv now l0 q n) (tg_values t)) db x else x) base"
    by (rule write_tx_cases [OF assms]) blast
  have t: "tg_values t = namespace_entries db (runtimeStateNamespace l0)"
    using entries [of "tg_stable_key t"] find_target_unique [OF base(1,2)] base(3) by simp
  then show "next_version q (lookup_entry (namespace_entries db (runtimeStateNamespace l0)) (wq_key q)) = Inr n" using version by simp
  have key: "tg_stable_key (if x = t then stored_target (jm_set (wq_key q) (written_entry sv now l0 q n) (tg_values t)) db x else x) = tg_stable_key x" for x
    by (simp add: stored_target_def)
  have "map tg_stable_key (br_targets db') = map tg_stable_key base" by (auto simp: db' stored_target_def)
  then have keys: "distinct (map tg_stable_key (br_targets db'))" using base(1) by simp
  show "namespace_entries db' = (namespace_entries db)(runtimeStateNamespace l0 :=
      jm_set (wq_key q) (written_entry sv now l0 q n) (namespace_entries db (runtimeStateNamespace l0)))"
  proof
    fix ns
    show "namespace_entries db' ns = ((namespace_entries db)(runtimeStateNamespace l0 :=
        jm_set (wq_key q) (written_entry sv now l0 q n) (namespace_entries db (runtimeStateNamespace l0)))) ns"
    proof (cases "find_target ns base")
      case None
      then have "find_target ns (br_targets db') = None" unfolding find_target_None db' using key by auto
      moreover have "ns \<noteq> runtimeStateNamespace l0" using None base by (auto simp: find_target_None)
      ultimately show ?thesis using None entries [of ns] by (simp add: namespace_entries_def)
    next
      case (Some x)
      then have x: "x \<in> set base" "tg_stable_key x = ns" by (auto dest: find_target_Some)
      let ?y = "if x = t then stored_target (jm_set (wq_key q) (written_entry sv now l0 q n) (tg_values t)) db x else x"
      have "?y \<in> set (br_targets db')" using x(1) by (auto simp: db')
      then have "find_target ns (br_targets db') = Some ?y" using find_target_unique [OF keys] key [of x] x(2) by metis
      moreover have "x = t \<longleftrightarrow> ns = runtimeStateNamespace l0" using distinct_map_eq [OF base(1) x(1) base(2)] x(2) base(3) by auto
      ultimately show ?thesis using Some entries [of ns] t by (auto simp: namespace_entries_def stored_target_def)
    qed
  qed
qed

lemma stateWrite_parts:
  assumes "stateWrite sv now i l payload db = Inr (db', n)"
  obtains q where "parse_write sv payload = Inr q" "write_tx sv now i l q db = Inr (db', n)"
  using assms by (auto simp: stateWrite_def bindE_Inr_iff)

lemma broker_step_ok:
  assumes "broker_step sv db a db'" and "targets_ok sv (br_targets db)"
  shows "targets_ok sv (br_targets db')"
  using assms(1)
proof cases
  case (step_write now i l payload n q)
  then show ?thesis
    using write_tx_ok [OF assms(2)] parse_write_result [OF step_write(3)] by (auto elim!: stateWrite_parts)
qed (use assms(2) in simp)

lemma broker_run_ok: "broker_run sv P db db' \<Longrightarrow> targets_ok sv (br_targets db) \<Longrightarrow> targets_ok sv (br_targets db')"
  by (induction rule: broker_run.induct) (auto intro: broker_step_ok)

lemma reachable_targets_ok: "state_broker.reach sv db \<Longrightarrow> targets_ok sv (br_targets db)"
proof (erule state_broker.invariant_rule [rotated 2])
  show "no_targets db \<Longrightarrow> targets_ok sv (br_targets db)" for db by (simp add: no_targets_def targets_ok_def)
qed (auto intro: broker_step_ok)

section \<open>Reading back\<close>

lemma jm_get_set: "jm_get (jm_set k v m) k' = (if k' = k then Some v else jm_get m k')"
  by (simp add: jm_get_def map_of_jm_set)

text \<open>Steps on other keys leave an entry, and steps on a key only raise its version.\<close>

lemma step_keeps_entry:
  assumes "broker_step sv db a db'" and "targets_ok sv (br_targets db)" and "a \<noteq> Some (ns, key)"
  shows "jm_get (namespace_entries db' ns) key = jm_get (namespace_entries db ns) key"
  using assms(1)
proof cases
  case (step_write now i l payload n q)
  then obtain tx: "write_tx sv now i l q db = Inr (db', n)" by (auto elim!: stateWrite_parts)
  show ?thesis using assms(3) step_write(1) unfolding write_refines_store(1) [OF assms(2) tx] by (auto simp: jm_get_set)
qed (simp add: namespace_entries_def)

lemma run_keeps_entry:
  assumes "broker_run sv (\<lambda>a. a \<noteq> Some (ns, key)) db db'" and "targets_ok sv (br_targets db)"
  shows "jm_get (namespace_entries db' ns) key = jm_get (namespace_entries db ns) key"
  using assms by (induction rule: broker_run.induct) (auto dest: broker_run_ok step_keeps_entry)

definition version_at :: "broker_db \<Rightarrow> string \<Rightarrow> string \<Rightarrow> int" where
  "version_at db ns key = (case jm_get (namespace_entries db ns) key of None \<Rightarrow> 0 | Some r \<Rightarrow> se_stateVersion r)"

lemma write_version:
  assumes "targets_ok sv (br_targets db)" and "write_tx sv now i l q db = Inr (db', n)"
  shows "version_at db' (runtimeStateNamespace l) (wq_key q) = n" and "n = version_at db (runtimeStateNamespace l) (wq_key q) + 1"
    and "wq_expected q = Some e \<Longrightarrow> e = version_at db (runtimeStateNamespace l) (wq_key q)"
proof -
  note refines = write_refines_store [OF assms]
  show "version_at db' (runtimeStateNamespace l) (wq_key q) = n" by (simp add: version_at_def refines(1) jm_get_set written_entry_def)
  show "n = version_at db (runtimeStateNamespace l) (wq_key q) + 1" and "wq_expected q = Some e \<Longrightarrow> e = version_at db (runtimeStateNamespace l) (wq_key q)"
    using refines(2) by (auto simp: version_at_def next_version_def lookup_entry_def Let_def split: if_split_asm option.split_asm)
qed

lemma step_version_grows:
  assumes "broker_step sv db a db'" and "targets_ok sv (br_targets db)"
  shows "version_at db ns key \<le> version_at db' ns key"
proof (cases "a = Some (ns, key)")
  case True
  from assms(1) show ?thesis
  proof cases
    case (step_write now i l payload n q)
    then obtain tx: "write_tx sv now i l q db = Inr (db', n)" by (auto elim!: stateWrite_parts)
    have "ns = runtimeStateNamespace l" "key = wq_key q" using True step_write(1) by simp_all
    then show ?thesis using write_version(1,2) [OF assms(2) tx] by simp
  qed (simp add: version_at_def namespace_entries_def)
next
  case False
  then show ?thesis using step_keeps_entry [OF assms] by (simp add: version_at_def)
qed

lemma run_version_grows:
  "broker_run sv P db db' \<Longrightarrow> targets_ok sv (br_targets db) \<Longrightarrow> version_at db ns key \<le> version_at db' ns key"
proof (induction rule: broker_run.induct)
  case (run_more db db1 a db2)
  then show ?case using step_version_grows broker_run_ok order_trans by metis
qed simp

lemma read_entry:
  assumes ok: "targets_ok sv (br_targets db)" and l: "el_lineageDigest l = ''sha256:'' @ d" and key: "assertRuntimeLocalStateKey (map_of payload ''key'') = Inr key"
    and entry: "jm_get (namespace_entries db (runtimeStateNamespace l)) key = Some r"
  obtains v where "stateRead l payload db = Inr (if se_deleted r then None else Some \<lparr>sw_value = se_value r, sw_valueDigest = Some (se_valueDigest r),
    sw_schemaVersion = se_schemaVersion r, sw_stateVersion = Some (se_stateVersion r), sw_namespaceVersion = v\<rparr>)"
proof -
  from entry obtain t where t: "find_target (runtimeStateNamespace l) (br_targets db) = Some t" "jm_get (tg_values t) key = Some r"
    by (auto simp: namespace_entries_def jm_get_def split: option.split_asm)
  then have tok: "t \<in> set (br_targets db)" "tg_stable_key t = runtimeStateNamespace l" "target_ok sv t"
    using ok find_target_Some [OF t(1)] by (auto simp: targets_ok_def)
  have live: "tg_lifecycle x = ''ACTIVE'' \<and> \<not> tg_deleted x" if "x \<in> set (br_targets db)" for x using ok that by (auto simp: targets_ok_def target_ok_def)
  have "sql_first (\<lambda>t. tg_stable_key t = runtimeStateNamespace l \<and> tg_lifecycle t = ''ACTIVE'' \<and> \<not> tg_deleted t) (br_targets db)
      = find_target (runtimeStateNamespace l) (br_targets db)"
    using live unfolding find_target_def sql_first_def by (intro find_cong refl) auto
  moreover have "tg_lineageDigest t = el_lineageDigest l" using tok(2,3) l by (auto simp: target_ok_def runtimeStateNamespace_def)
  ultimately show thesis
    using t by (intro that [of "tg_state_version t"]) (simp add: stateRead_def key lookup_entry_def)
qed

lemma written_by_live_lineage:
  assumes "stateWrite sv now i l payload db = Inr (db', n)"
  shows "\<exists>current. loadRuntimeExecutionLineage sv (el_executionId l) db = Inr current \<and> el_lineageDigest current = el_lineageDigest l"
  using assms by (elim stateWrite_parts write_tx_result) blast

lemma loaded_lineage_live:
  assumes "loadRuntimeExecutionLineage sv i db = Inr l"
  obtains e where "e \<in> set (br_executions db)" "live_execution i e" "heads_match db e" "el_executionId l = i"
    "el_platformIncarnationId l = xe_incarnation e" "el_applicationDeploymentEpoch l = int_text (xe_deployment e)"
proof -
  obtain e b r where rows: "lineage_rows i db = [(e, b, r)]" and l: "\<exists>g. l = (raw_lineage db e b r g)\<lparr>el_lineageDigest := runtimeLineageDigest sv (lineage_json (raw_lineage db e b r g))\<rparr>"
    using assms by (auto simp: loadRuntimeExecutionLineage_def Let_def split: list.split_asm prod.split_asm option.split_asm if_split_asm)
  have "(e, b, r) \<in> set (lineage_rows i db)" using rows by simp
  then have "e \<in> set (br_executions db)" "live_execution i e" "heads_match db e" by (auto simp: lineage_rows_def)
  then show thesis using that [of e] l by (auto simp: raw_lineage_def live_execution_def)
qed

section \<open>Claims\<close>

text \<open>
  C22. What a runtime wrote it reads back: after a successful write, and whatever other keys, namespaces and
  authorities change in between, reading the key under the same lineage gives the written value with its digest, schema and state
  version, and nothing after a deletion.
\<close>

theorem state_read_returns_last_write:
  assumes reach: "state_broker.reach sv db" and wrote: "stateWrite sv now i l payload db = Inr (db1, n)" and parsed: "parse_write sv payload = Inr q"
    and run: "broker_run sv (\<lambda>a. a \<noteq> Some (runtimeStateNamespace l, wq_key q)) db1 db2" and key: "map_of payload2 ''key'' = map_of payload ''key''"
  shows "if wq_operation q = ''delete'' then stateRead l payload2 db2 = Inr None
    else (\<exists>v. stateRead l payload2 db2 = Inr (Some v) \<and> sw_value v = wq_value q \<and> sw_valueDigest v = Some (json_digest sv (wq_value q))
      \<and> sw_schemaVersion v = wq_schemaVersion q \<and> sw_stateVersion v = Some n)"
proof -
  note ok = reachable_targets_ok [OF reach]
  obtain current where current: "loadRuntimeExecutionLineage sv (el_executionId l) db = Inr current" "el_lineageDigest current = el_lineageDigest l"
    using written_by_live_lineage [OF wrote] by blast
  then obtain d where d: "el_lineageDigest l = ''sha256:'' @ d" by (metis lineage_digest_prefix)
  have tx: "write_tx sv now i l q db = Inr (db1, n)" using wrote parsed by (auto simp: stateWrite_def)
  have ok1: "targets_ok sv (br_targets db1)" using write_tx_ok [OF ok tx] parse_write_result [OF parsed] by blast
  have "jm_get (namespace_entries db2 (runtimeStateNamespace l)) (wq_key q) = Some (written_entry sv now l q n)"
    using run_keeps_entry [OF run ok1] write_refines_store(1) [OF ok tx] by (simp add: jm_get_set)
  with read_entry [OF broker_run_ok [OF run ok1] d] parse_write_result(3) [OF parsed] key
  obtain v where "stateRead l payload2 db2 = Inr (if se_deleted (written_entry sv now l q n) then None else Some \<lparr>sw_value = se_value (written_entry sv now l q n),
      sw_valueDigest = Some (se_valueDigest (written_entry sv now l q n)), sw_schemaVersion = se_schemaVersion (written_entry sv now l q n),
      sw_stateVersion = Some (se_stateVersion (written_entry sv now l q n)), sw_namespaceVersion = v\<rparr>)" by metis
  then show ?thesis by (simp add: written_entry_def)
qed

text \<open>
  C23. No write is lost: among the successful writes of a key each has a higher state version than those before it, also
  across deletions, and a write that names an expected version succeeds only if it knew the last one.
\<close>

theorem state_writes_serialized:
  assumes reach: "state_broker.reach sv db" and first: "stateWrite sv now i l payload db = Inr (db1, n)" "parse_write sv payload = Inr q"
    and run: "broker_run sv (\<lambda>_. True) db1 db2"
    and second: "stateWrite sv now' i' l' payload' db2 = Inr (db3, m)" "parse_write sv payload' = Inr q'"
    and same: "runtimeStateNamespace l' = runtimeStateNamespace l" "wq_key q' = wq_key q"
  shows "n < m \<and> (\<forall>e. wq_expected q' = Some e \<longrightarrow> n \<le> e)"
proof -
  note ok = reachable_targets_ok [OF reach]
  have tx: "write_tx sv now i l q db = Inr (db1, n)" and tx': "write_tx sv now' i' l' q' db2 = Inr (db3, m)"
    using first second by (auto simp: stateWrite_def)
  have ok1: "targets_ok sv (br_targets db1)" using write_tx_ok [OF ok tx] parse_write_result [OF first(2)] by blast
  note ok2 = broker_run_ok [OF run ok1]
  have "n \<le> version_at db2 (runtimeStateNamespace l) (wq_key q)"
    using run_version_grows [OF run ok1] write_version(1) [OF ok tx] by metis
  then show ?thesis using write_version(2,3) [OF ok2 tx'] same by auto
qed

text \<open>
  C24. Whatever runtimes write, a namespace never holds more than 256 keys or a canonical document above one mebibyte, no
  stored value exceeds 64 kibibytes, and every key has the form of a local key.
\<close>

theorem state_namespace_bounded:
  assumes "state_broker.reach sv db" and "t \<in> set (br_targets db)"
  shows "length (tg_values t) \<le> 256 \<and> json_bytes sv (values_json (tg_values t)) \<le> 1048576
    \<and> (\<forall>(k, r) \<in> set (tg_values t). json_bytes sv (se_value r) \<le> 65536 \<and> is_binding_alias k)"
  using reachable_targets_ok [OF assms(1)] assms(2) by (auto simp: targets_ok_def target_ok_def)

text \<open>
  A key that names an inherited property of every JavaScript object: once the namespace exists, a read before any write gives a
  record, and the key can never be created.
\<close>

lemma inherited_key_never_created:
  assumes "find_target (runtimeStateNamespace l) (br_targets db) = Some t" and "tg_lifecycle t = ''ACTIVE''" "\<not> tg_deleted t" "tg_lineageDigest t = el_lineageDigest l"
    and "jm_get (tg_values t) ''constructor'' = None" "targets_ok sv (br_targets db)"
  shows "\<exists>v. stateRead l [(''key'', CStr ''constructor'')] db = Inr (Some v) \<and> sw_value v = CNull"
    and "wq_operation q = ''create'' \<Longrightarrow> wq_key q = ''constructor'' \<Longrightarrow> next_version q (lookup_entry (tg_values t) ''constructor'') = Inl (Plain_Error ''RUNTIME_STATE_ALREADY_EXISTS'')"
proof -
  have live: "tg_lifecycle x = ''ACTIVE'' \<and> \<not> tg_deleted x" if "x \<in> set (br_targets db)" for x using assms(6) that by (auto simp: targets_ok_def target_ok_def)
  have first: "sql_first (\<lambda>t. tg_stable_key t = runtimeStateNamespace l \<and> tg_lifecycle t = ''ACTIVE'' \<and> \<not> tg_deleted t) (br_targets db)
      = find_target (runtimeStateNamespace l) (br_targets db)"
    using live unfolding find_target_def sql_first_def by (intro find_cong refl) auto
  have key: "assertRuntimeLocalStateKey (Some (CStr ''constructor'')) = Inr ''constructor''"
    by (simp add: assertRuntimeLocalStateKey_def js_option_text_def is_binding_alias_def is_upper_def is_lower_def is_digit_def in_range_def Let_def)
  show "\<exists>v. stateRead l [(''key'', CStr ''constructor'')] db = Inr (Some v) \<and> sw_value v = CNull"
    using assms by (simp add: stateRead_def key first lookup_entry_def inherited_names_def)
  show "wq_operation q = ''create'' \<Longrightarrow> wq_key q = ''constructor'' \<Longrightarrow> next_version q (lookup_entry (tg_values t) ''constructor'') = Inl (Plain_Error ''RUNTIME_STATE_ALREADY_EXISTS'')"
    using assms(5) by (simp add: next_version_def lookup_entry_def inherited_names_def Let_def)
qed

section \<open>Witnesses\<close>

definition sample_broker_services :: broker_services where
  "sample_broker_services = \<lparr>bv_sha256 = (\<lambda>_. []), bv_collation = (\<lambda>_ _. True),
     bv_conversions = \<lparr>jc_number_of_text = (\<lambda>_. JNaN), jc_date_ms = (\<lambda>_. None), jc_bigint_of_text = (\<lambda>s. if s = ''1'' then Some 1 else None)\<rparr>\<rparr>"

definition sample_execution :: execution_row where
  "sample_execution = \<lparr>xe_id = ''x'', xe_kind = ''AGENT'', xe_source_kind = ''AGENT'', xe_source_id = ''a'', xe_source_revision = ''r'', xe_binding_revision = ''b'',
     xe_activation_epoch = 1, xe_incarnation = ''p'', xe_deployment = 1, xe_declared_generation = Some ''1'', xe_lifecycle = ''ACTIVE'', xe_state = ''ACTIVE'',
     xe_completed = False, xe_deleted = False\<rparr>"

definition sample_broker_db :: broker_db where
  "sample_broker_db = \<lparr>br_incarnation = Some ''p'', br_deployment = Some 1, br_activation = Some (1, None), br_executions = [sample_execution],
     br_revisions = [\<lparr>xb_id = ''b'', xb_binding_set = ''s'', xb_number = 1\<rparr>], br_sets = [\<lparr>xs_id = ''s'', xs_current_revision = Some ''b''\<rparr>],
     br_instances = [], br_components = [], br_targets = [], br_audit = []\<rparr>"

definition sample_execution_lineage :: execution_lineage where
  "sample_execution_lineage = (raw_lineage sample_broker_db sample_execution \<lparr>xb_id = ''b'', xb_binding_set = ''s'', xb_number = 1\<rparr> None ''1'')\<lparr>el_lineageDigest := ''sha256:''\<rparr>"

lemma sample_execution_loaded: "br_executions db = br_executions sample_broker_db \<Longrightarrow> br_incarnation db = Some ''p'' \<Longrightarrow> br_deployment db = Some 1
  \<Longrightarrow> br_activation db = Some (1, None) \<Longrightarrow> br_revisions db = br_revisions sample_broker_db \<Longrightarrow> br_sets db = br_sets sample_broker_db \<Longrightarrow> br_instances db = []
  \<Longrightarrow> br_components db = [] \<Longrightarrow> loadRuntimeExecutionLineage sample_broker_services ''x'' db = Inr sample_execution_lineage"
  by (simp add: loadRuntimeExecutionLineage_def lineage_rows_def sample_broker_db_def live_execution_def heads_match_def sample_execution_def left_join_def
      component_active_def generation_text_def sample_broker_services_def runtimeLineageDigest_def json_digest_def hex_text_def sample_execution_lineage_def raw_lineage_def)

definition create_payload :: json_object where
  "create_payload = [(''operation'', CStr ''create''), (''key'', CStr ''k''), (''value'', CBool True)]"

definition put_payload :: json_object where
  "put_payload = [(''key'', CStr ''k''), (''value'', CBool False), (''expectedStateVersion'', CStr ''1'')]"

definition create_request :: write_request where
  "create_request = \<lparr>wq_operation = ''create'', wq_key = ''k'', wq_schemaVersion = 1, wq_value = CBool True, wq_expected = None\<rparr>"

definition put_request :: write_request where
  "put_request = \<lparr>wq_operation = ''put'', wq_key = ''k'', wq_schemaVersion = 1, wq_value = CBool False, wq_expected = Some 1\<rparr>"

lemmas parse_evaluate = parse_write_def write_operation_def schema_version_def expected_version_def requested_def safe_integer_def Let_def lower_text_def to_lower_def
  is_upper_def is_lower_def is_digit_def in_range_def assertRuntimeLocalStateKey_def js_option_text_def is_binding_alias_def assertStateValueWithinLimits_def
  json_bytes_def utf8_def utf8_char_def

lemma create_parsed: "parse_write sample_broker_services create_payload = Inr create_request"
  by (simp add: parse_evaluate create_payload_def create_request_def)

lemma put_parsed: "parse_write sample_broker_services put_payload = Inr put_request"
  by (simp add: parse_evaluate put_payload_def put_request_def sample_broker_services_def)

lemma sample_digest: "json_digest sample_broker_services v = []"
  by (simp add: json_digest_def sample_broker_services_def hex_text_def)

lemma sample_versions: "int_text 1 = ''1''" "int_text 2 = ''2''"
proof -
  have "digit_char 1 = CHR ''1''" "digit_char 2 = CHR ''2''" by code_simp+
  then show "int_text 1 = ''1''" "int_text 2 = ''2''" by (simp_all add: int_text_def nat_text.simps)
qed

lemma entry_names:
  "\<not> is_array_index ''value''" "\<not> is_array_index ''valueDigest''" "\<not> is_array_index ''schemaVersion''" "\<not> is_array_index ''stateVersion''" "\<not> is_array_index ''deleted''"
  "\<not> is_array_index ''updatedAt''" "\<not> is_array_index ''lineageDigest''" "\<not> is_array_index ''k''"
  by code_simp+

lemmas text_evaluate = object_entries_def js_sort_def entry_names sample_versions json_quote_def json_escape_def

lemma sample_entry_texts:
  \<open>canonicalJson (\<lambda>_ _. True) (entry_json (written_entry sample_broker_services [] sample_execution_lineage create_request 1))
    = ''{"value":true,"valueDigest":"","schemaVersion":1,"stateVersion":"1","deleted":false,"updatedAt":"","lineageDigest":"sha256:"}''\<close>
  \<open>canonicalJson (\<lambda>_ _. True) (entry_json (written_entry sample_broker_services [] sample_execution_lineage put_request 2))
    = ''{"value":false,"valueDigest":"","schemaVersion":1,"stateVersion":"2","deleted":false,"updatedAt":"","lineageDigest":"sha256:"}''\<close>
  by (simp_all add: written_entry_def sample_digest entry_json_def create_request_def put_request_def sample_execution_lineage_def text_evaluate)

lemma sample_limits:
  "assertStateDocumentWithinLimits sample_broker_services [(''k'', written_entry sample_broker_services [] sample_execution_lineage create_request 1)] = Inr ()"
  "assertStateDocumentWithinLimits sample_broker_services [(''k'', written_entry sample_broker_services [] sample_execution_lineage put_request 2)] = Inr ()"
proof -
  have collation: "bv_collation sample_broker_services = (\<lambda>_ _. True)" by (simp add: sample_broker_services_def)
  have ascii: "utf8 s = map (\<lambda>c. of_nat (of_char c)) s" if "list_all (\<lambda>c. (of_char c :: nat) < 128) s" for s
    using that by (induction s) (simp_all add: utf8_def utf8_char_def)
  show "assertStateDocumentWithinLimits sample_broker_services [(''k'', written_entry sample_broker_services [] sample_execution_lineage create_request 1)] = Inr ()"
    by (simp add: assertStateDocumentWithinLimits_def values_json_def json_bytes_def collation object_entries_def js_sort_def is_array_index_def sample_entry_texts
        json_quote_def json_escape_def ascii)
  show "assertStateDocumentWithinLimits sample_broker_services [(''k'', written_entry sample_broker_services [] sample_execution_lineage put_request 2)] = Inr ()"
    by (simp add: assertStateDocumentWithinLimits_def values_json_def json_bytes_def collation object_entries_def js_sort_def is_array_index_def sample_entry_texts
        json_quote_def json_escape_def ascii)
qed

definition created_db :: broker_db where
  "created_db = fst (projr (stateWrite sample_broker_services [] ''t'' sample_execution_lineage create_payload sample_broker_db))"

definition put_db :: broker_db where
  "put_db = fst (projr (stateWrite sample_broker_services [] ''t'' sample_execution_lineage put_payload created_db))"

lemma sample_open: "el_executionId sample_execution_lineage = ''x''" "el_lineageDigest sample_execution_lineage = ''sha256:''"
  by (simp_all add: sample_execution_lineage_def raw_lineage_def sample_execution_def)

definition sample_target :: "write_request \<Rightarrow> int \<Rightarrow> int \<Rightarrow> target_row" where
  "sample_target q n version = (new_target ''t'' sample_execution_lineage sample_broker_db)\<lparr>tg_values := [(''k'', written_entry sample_broker_services [] sample_execution_lineage q n)], tg_state_version := version\<rparr>"

lemma sample_create:
  "\<exists>db. stateWrite sample_broker_services [] ''t'' sample_execution_lineage create_payload sample_broker_db = Inr (db, 1)
    \<and> br_targets db = [sample_target create_request 1 2] \<and> db = sample_broker_db\<lparr>br_targets := br_targets db, br_audit := br_audit db\<rparr>"
  using sample_limits(1) sample_execution_loaded [of sample_broker_db]
  by (simp add: stateWrite_def create_parsed write_tx_def sample_open open_target_def find_target_def sql_first_def sample_broker_db_def new_target_def
      next_version_def lookup_entry_def inherited_names_def jm_get_def create_request_def sql_update_def stored_target_def sample_target_def)

lemma sample_put:
  assumes "br_targets db = [sample_target create_request 1 2]" "db = sample_broker_db\<lparr>br_targets := br_targets db, br_audit := br_audit db\<rparr>"
  shows "\<exists>db'. stateWrite sample_broker_services [] ''t'' sample_execution_lineage put_payload db = Inr (db', 2)"
proof -
  have tables: "br_executions db = br_executions sample_broker_db" "br_incarnation db = Some ''p''" "br_deployment db = Some 1" "br_activation db = Some (1, None)"
    "br_revisions db = br_revisions sample_broker_db" "br_sets db = br_sets sample_broker_db" "br_instances db = []" "br_components db = []"
    by (subst assms(2), simp add: sample_broker_db_def)+
  show ?thesis
    using sample_limits(2) sample_execution_loaded [OF tables]
    by (simp add: stateWrite_def put_parsed write_tx_def sample_open open_target_def find_target_def sql_first_def assms(1) sample_target_def new_target_def
        next_version_def lookup_entry_def jm_get_def put_request_def create_request_def written_entry_def [of _ _ _ "\<lparr>wq_operation = ''create'', wq_key = x, wq_schemaVersion = y, wq_value = z, wq_expected = e\<rparr>" for x y z e])
qed

lemma sample_broker_reach: "state_broker.reach sample_broker_services sample_broker_db"
  by (rule state_broker.reach_init) (simp add: no_targets_def sample_broker_db_def)

theorem state_read_returns_last_write_witness:
  "\<exists>db v. stateWrite sample_broker_services [] ''t'' sample_execution_lineage create_payload sample_broker_db = Inr (db, 1)
    \<and> stateRead sample_execution_lineage create_payload db = Inr (Some v) \<and> sw_value v = CBool True \<and> sw_stateVersion v = Some 1"
proof -
  obtain db where db: "stateWrite sample_broker_services [] ''t'' sample_execution_lineage create_payload sample_broker_db = Inr (db, 1)" using sample_create by blast
  from state_read_returns_last_write [OF sample_broker_reach db create_parsed run_none refl] db show ?thesis by (auto simp: create_request_def)
qed

theorem state_writes_serialized_witness:
  "\<exists>db1 db2 n m. stateWrite sample_broker_services [] ''t'' sample_execution_lineage create_payload sample_broker_db = Inr (db1, n)
    \<and> stateWrite sample_broker_services [] ''t'' sample_execution_lineage put_payload db1 = Inr (db2, m) \<and> n < m"
proof -
  obtain db1 where db1: "stateWrite sample_broker_services [] ''t'' sample_execution_lineage create_payload sample_broker_db = Inr (db1, 1)"
      "br_targets db1 = [sample_target create_request 1 2]" "db1 = sample_broker_db\<lparr>br_targets := br_targets db1, br_audit := br_audit db1\<rparr>"
    using sample_create by blast
  from sample_put [OF db1(2,3)] obtain db2 where db2: "stateWrite sample_broker_services [] ''t'' sample_execution_lineage put_payload db1 = Inr (db2, 2)" by blast
  have "(1::int) < 2 \<and> (\<forall>e. wq_expected put_request = Some e \<longrightarrow> 1 \<le> e)"
    by (rule state_writes_serialized [OF sample_broker_reach db1(1) create_parsed run_none db2 put_parsed]) (simp_all add: create_request_def put_request_def)
  with db1(1) db2 show ?thesis by blast
qed

theorem state_namespace_bounded_witness:
  "length (tg_values (sample_target create_request 1 2)) \<le> 256 \<and> json_bytes sample_broker_services (values_json (tg_values (sample_target create_request 1 2))) \<le> 1048576"
proof -
  obtain db where db: "stateWrite sample_broker_services [] ''t'' sample_execution_lineage create_payload sample_broker_db = Inr (db, 1)" "br_targets db = [sample_target create_request 1 2]"
    using sample_create by blast
  have "state_broker.reach sample_broker_services db"
    using state_broker.reach_step [OF sample_broker_reach] step_write [OF db(1) create_parsed] by blast
  from state_namespace_bounded [OF this] db(2) show ?thesis by simp
qed

end
