(* ===== verification/EgressBroker.thy ===== *)
theory EgressBroker
  imports StateBroker EgressPolicy CapabilityRequests
begin

text \<open>
  The requests a runtime sends through the egress broker and the dispatch of the three brokers: \<^verbatim>\<open>egressRequest\<close> and
  \<^verbatim>\<open>handleBrokerRequest\<close> of \<^verbatim>\<open>packages/worker-runtime/src/index.ts\<close>. The rate windows and the counters of running requests
  belong to the process; between the counting of a request and its release other requests run. What the resolver answers and
  what happens to each request on the wire are parameters, by the number of the hop; a request whose promise is
  never settled stays running.
\<close>

section \<open>State\<close>

record target_binding_row =
  tb_id :: string
  tb_stable_key :: string
  tb_lifecycle :: string
  tb_deleted :: bool
  tb_source_component :: string
  tb_source_revision :: string
  tb_target_id :: string
  tb_revision :: int
  tb_route :: string
  tb_method :: string
  tb_activation_set :: "string option"
  tb_activation_epoch :: string
  tb_incarnation :: string
  tb_deployment :: string

record external_target_row =
  xt_id :: string
  xt_base_url :: string
  xt_allowed_paths :: cjson
  xt_allowed_methods :: "string list"
  xt_timeout_ms :: int
  xt_rate_limit :: cjson
  xt_circuit_state :: string
  xt_auth_binding :: "string option"
  xt_monitoring :: cjson
  xt_lifecycle :: string
  xt_deleted :: bool
  xt_activation_epoch :: string
  xt_incarnation :: string
  xt_deployment :: string
  xt_state_version :: int

record egress_member_row =
  em_revision :: string
  em_kind :: string
  em_operation :: string
  em_source_object :: "string option"
  em_source_revision :: "string option"
  em_target_binding :: "string option"
  em_target :: "string option"

record request_event_row =
  re_target :: string
  re_binding :: string
  re_path :: string
  re_method :: string
  re_idempotency_key :: "string option"
  re_request_digest :: "byte list"
  re_response_digest :: "byte list"
  re_outcome :: string
  re_reconciliation :: string
  re_status :: int
  re_redirects :: nat

record egress_world =
  ew_bindings :: "target_binding_row list"
  ew_targets :: "external_target_row list"
  ew_members :: "egress_member_row list"
  ew_secrets :: secret_db
  ew_events :: "request_event_row list"
  ew_windows :: "(string \<times> int list) list" \<comment> \<open>\<^verbatim>\<open>egressRateWindows\<close>\<close>
  ew_inflight :: "(string \<times> nat) list" \<comment> \<open>\<^verbatim>\<open>egressInflight\<close>\<close>

record egress_env =
  ev_broker :: broker_services
  ev_secret :: secret_services
  ev_new_url :: "string \<Rightarrow> js_url outcome"
  ev_relative_url :: "string \<Rightarrow> js_url \<Rightarrow> js_url outcome"
  ev_redirect_url :: "string \<Rightarrow> js_url \<Rightarrow> (js_url \<times> string) outcome" \<comment> \<open>with the query\<close>
  ev_isIP :: "string \<Rightarrow> ip_address option"
  ev_wire :: "nat \<Rightarrow> js_url \<Rightarrow> lookup_address list outcome \<times> request_event list"
  ev_test :: bool \<comment> \<open>\<^verbatim>\<open>NODE_ENV === 'test'\<close>\<close>

section \<open>Authorization of a request\<close>

definition object_fields :: "cjson option \<Rightarrow> json_object" where
  "object_fields v = (case v of Some (CObj ps) \<Rightarrow> ps | _ \<Rightarrow> [])"

definition boundedInteger :: "js_conversions \<Rightarrow> cjson option \<Rightarrow> int \<Rightarrow> int \<Rightarrow> int \<Rightarrow> int" where
  "boundedInteger jc v fallback minimum maximum = (case v of None \<Rightarrow> fallback
     | Some x \<Rightarrow> (case safe_integer (js_to_number jc x) of None \<Rightarrow> fallback | Some n \<Rightarrow> max minimum (min n maximum)))"

definition usable_target :: "execution_lineage \<Rightarrow> string \<Rightarrow> target_binding_row \<Rightarrow> external_target_row \<Rightarrow> bool" where
  "usable_target l bindingAlias b t = (tb_stable_key b = bindingAlias \<and> tb_lifecycle b = ''ACTIVE'' \<and> \<not> tb_deleted b
     \<and> tb_source_component b = el_sourceObjectId l \<and> tb_source_revision b = el_sourceRevisionId l \<and> tb_activation_epoch b = el_activationEpoch l
     \<and> tb_incarnation b = el_platformIncarnationId l \<and> tb_deployment b = el_applicationDeploymentEpoch l \<and> tb_activation_set b = el_activationSetId l
     \<and> xt_lifecycle t = ''ACTIVE'' \<and> \<not> xt_deleted t \<and> xt_activation_epoch t = el_activationEpoch l
     \<and> xt_incarnation t = el_platformIncarnationId l \<and> xt_deployment t = el_applicationDeploymentEpoch l)"

definition egress_member :: "execution_lineage \<Rightarrow> string \<Rightarrow> target_binding_row \<Rightarrow> external_target_row \<Rightarrow> egress_member_row \<Rightarrow> bool" where
  "egress_member l operation b t m = (em_revision m = el_bindingSetRevisionId l \<and> em_kind m = ''EXTERNAL_TARGET'' \<and> em_operation m = operation
     \<and> em_source_object m = Some (el_sourceObjectId l) \<and> em_source_revision m = Some (el_sourceRevisionId l)
     \<and> (em_target_binding m = Some (tb_id b) \<or> em_target m = Some (xt_id t)))"

definition egress_rows :: "execution_lineage \<Rightarrow> string \<Rightarrow> string \<Rightarrow> egress_world
  \<Rightarrow> (target_binding_row \<times> external_target_row \<times> secret_binding_row option) list" where
  "egress_rows l operation bindingAlias w = concat (map (\<lambda>b. concat (map (\<lambda>t. concat (map (\<lambda>m.
       map (\<lambda>s. (b, t, s)) (left_join (\<lambda>s. xt_auth_binding t = Some (sb_id s)) (sd_bindings (ew_secrets w))))
     (filter (egress_member l operation b t) (ew_members w))))
     (filter (\<lambda>t. xt_id t = tb_target_id b \<and> usable_target l bindingAlias b t) (ew_targets w)))) (ew_bindings w))"

definition egress_policy_of :: "egress_env \<Rightarrow> external_target_row \<Rightarrow> egress_policy" where
  "egress_policy_of ev t = (let jc = bv_conversions (ev_broker ev); monitoring = object_fields (Some (xt_monitoring t)) in
     \<lparr>ep_baseUrl = xt_base_url t,
      ep_allowedPaths = (case xt_allowed_paths t of CArr vs \<Rightarrow> map js_string vs | _ \<Rightarrow> [''/'']),
      ep_allowedMethods = xt_allowed_methods t,
      ep_timeoutMs = boundedInteger jc (Some (CNum (JInt (xt_timeout_ms t)))) 30000 100 120000,
      ep_maxRequestBytes = nat (boundedInteger jc (map_of monitoring ''maxRequestBytes'') (256 * 1024) 0 (1024 * 1024)),
      ep_maxResponseBytes = nat (boundedInteger jc (map_of monitoring ''maxResponseBytes'') (2 * 1024 * 1024) 1 (8 * 1024 * 1024)),
      ep_allowPlainHttp = (map_of monitoring ''allowPlainHttp'' = Some (CBool True) \<and> ev_test ev)\<rparr>)"

definition on_route :: "target_binding_row \<Rightarrow> js_url \<Rightarrow> bool" where
  "on_route b url = path_allowed (url_pathname url) (tb_route b)"

definition authorized_url :: "egress_env \<Rightarrow> egress_policy \<Rightarrow> target_binding_row \<Rightarrow> string \<Rightarrow> string \<Rightarrow> js_url outcome" where
  "authorized_url ev policy b path http_method = bindE (authorizeEgressUrl (ev_new_url ev) (ev_relative_url ev) policy path http_method) (\<lambda>url.
     if on_route b url then Inr url else Inl (Plain_Error ''EGRESS_BINDING_ROUTE_MISMATCH''))"

definition credential_headers :: "string list" where
  "credential_headers = [''authorization'', ''proxy-authorization'', ''cookie'', ''set-cookie'', ''x-api-key'']"

definition caller_headers :: "string list" where
  "caller_headers = [''accept'', ''content-type'', ''idempotency-key'', ''x-request-id'']"

definition default_headers :: "(string \<times> string) list" where
  "default_headers = [(''accept'', ''application/json''), (''content-type'', ''application/json''),
     (''user-agent'', ''K'' @ [CHR 0xE1] @ ''jovoCML-NG/2026.8.30-8'')]"

definition add_header :: "(string \<times> string) list \<Rightarrow> string \<times> cjson \<Rightarrow> (string \<times> string) list outcome" where
  "add_header headers h = (case snd h of
     CStr v \<Rightarrow> if lower_text (fst h) \<notin> set caller_headers \<or> CHR 0x0D \<in> set v \<or> CHR 0x0A \<in> set v then Inl (Plain_Error ''EGRESS_HEADER_DENIED'')
       else Inr (jm_set (lower_text (fst h)) v headers)
   | _ \<Rightarrow> Inl (Plain_Error ''EGRESS_HEADER_DENIED''))"

definition request_headers :: "cjson option \<Rightarrow> (string \<times> string) list outcome" where
  "request_headers v = (let hs = object_entries (object_fields v) in
     if list_ex (\<lambda>h. lower_text (fst h) \<in> set credential_headers) hs then Inl (Plain_Error ''EGRESS_CALLER_CREDENTIAL_DENIED'')
     else forE add_header default_headers hs)"

definition request_body :: "egress_env \<Rightarrow> string \<Rightarrow> cjson option \<Rightarrow> byte list option" where
  "request_body ev http_method v = (if http_method \<in> {''GET'', ''HEAD''} then None
     else Some (utf8 (canonicalJson (bv_collation (ev_broker ev)) (case v of None \<Rightarrow> CNull | Some x \<Rightarrow> x))))"

definition secret_authority :: "execution_lineage \<Rightarrow> runtime_secret_authority" where
  "secret_authority l = \<lparr>rs_executionId = el_executionId l, rs_sourceObjectKind = el_sourceObjectKind l, rs_sourceObjectId = el_sourceObjectId l,
     rs_sourceRevisionId = el_sourceRevisionId l, rs_bindingSetRevisionId = el_bindingSetRevisionId l, rs_activationSetId = el_activationSetId l,
     rs_activationEpoch = el_activationEpoch l, rs_platformIncarnationId = el_platformIncarnationId l,
     rs_applicationDeploymentEpoch = el_applicationDeploymentEpoch l\<rparr>"

definition scheme_prefix :: "json_object \<Rightarrow> string" where
  "scheme_prefix injection = (case map_of injection ''scheme'' of Some (CStr scheme) \<Rightarrow> scheme @ '' '' | _ \<Rightarrow> [])"

text \<open>The credential of the target goes into one of two headers; its value comes from the secret manager.\<close>

definition inject_secret ::
  "egress_env \<Rightarrow> int \<Rightarrow> string \<times> string \<Rightarrow> execution_lineage \<Rightarrow> string \<Rightarrow> external_target_row \<Rightarrow> secret_binding_row option
   \<Rightarrow> (string \<times> string) list \<Rightarrow> secret_db \<Rightarrow> (secret_db \<times> (string \<times> string) list) outcome" where
  "inject_secret ev now ids l operation t s headers db = (case xt_auth_binding t of
     None \<Rightarrow> Inr (db, headers)
   | Some _ \<Rightarrow>
       (case s of None \<Rightarrow> Inl (Plain_Error ''EGRESS_AUTH_BINDING_INVALID'')
        | Some sb \<Rightarrow>
           if sb_stable_key sb = [] \<or> sb_usage_purpose sb = [] then Inl (Plain_Error ''EGRESS_AUTH_BINDING_INVALID'')
           else let injection = object_fields (map_of (object_fields (Some (xt_monitoring t))) ''authInjection'');
                    headerName = lower_text (js_option_text (map_of injection ''headerName'')) in
             if headerName \<notin> {''authorization'', ''x-api-key''} then Inl (Plain_Error ''EGRESS_AUTH_INJECTION_POLICY_INVALID'')
             else bindE (revealForRuntimeBinding (ev_secret ev) now (fst ids) (snd ids) (secret_authority l) (sb_stable_key sb) (sb_usage_purpose sb) operation db)
               (\<lambda>(db1, secret, _). Inr (db1, jm_set headerName (scheme_prefix injection @ rv_value secret) headers))))"

record egress_plan =
  pl_binding :: target_binding_row
  pl_target :: external_target_row
  pl_policy :: egress_policy
  pl_method :: string
  pl_url :: js_url
  pl_headers :: "(string \<times> string) list"
  pl_body :: "byte list option"
  pl_secrets :: secret_db

definition prepare_request ::
  "egress_env \<Rightarrow> int \<Rightarrow> string \<times> string \<Rightarrow> execution_lineage \<Rightarrow> string \<Rightarrow> json_object \<Rightarrow> egress_world \<Rightarrow> egress_plan outcome" where
  "prepare_request ev now ids l operation payload w = (let bindingAlias = js_option_text (map_of payload ''bindingAlias'') in
     if \<not> is_binding_alias bindingAlias then Inl (Plain_Error ''EXTERNAL_BINDING_ALIAS_INVALID'')
     else (case egress_rows l operation bindingAlias w of
       [(b, t, s)] \<Rightarrow>
         if xt_circuit_state t \<notin> {''CLOSED'', ''HEALTHY''} then Inl (Plain_Error ''EGRESS_CIRCUIT_OPEN'')
         else let outgoing = object_fields (map_of payload ''request'');
                  http_method = upper_text (case requested outgoing ''method'' of None \<Rightarrow> ''GET'' | Some v \<Rightarrow> js_string v);
                  policy = egress_policy_of ev t in
           if http_method \<noteq> upper_text (tb_method b) then Inl (Plain_Error ''EGRESS_BINDING_METHOD_MISMATCH'')
           else bindE (authorized_url ev policy b (case requested outgoing ''path'' of None \<Rightarrow> ''/'' | Some v \<Rightarrow> js_string v) http_method) (\<lambda>url.
             bindE (request_headers (map_of outgoing ''headers'')) (\<lambda>headers.
             let body = request_body ev http_method (map_of outgoing ''body'') in
             if (case body of None \<Rightarrow> False | Some bytes \<Rightarrow> length bytes > ep_maxRequestBytes policy) then Inl (Plain_Error ''EGRESS_REQUEST_TOO_LARGE'')
             else bindE (inject_secret ev now ids l operation t s headers (ew_secrets w)) (\<lambda>(db, headers').
               Inr \<lparr>pl_binding = b, pl_target = t, pl_policy = policy, pl_method = http_method, pl_url = url, pl_headers = headers', pl_body = body, pl_secrets = db\<rparr>)))
     | _ \<Rightarrow> Inl (Plain_Error ''EXTERNAL_BINDING_NOT_AUTHORIZED'')))"

section \<open>Limits\<close>

record egress_limits =
  li_windowMs :: int
  li_requests :: int
  li_concurrency :: int

definition limits_of :: "egress_env \<Rightarrow> external_target_row \<Rightarrow> egress_limits" where
  "limits_of ev t = (let jc = bv_conversions (ev_broker ev); rate = object_fields (Some (xt_rate_limit t)) in
     \<lparr>li_windowMs = boundedInteger jc (map_of rate ''windowMs'') 60000 1000 3600000,
      li_requests = boundedInteger jc (map_of rate ''requests'') 60 1 10000,
      li_concurrency = boundedInteger jc (map_of rate ''maxConcurrency'') 4 1 64\<rparr>)"

definition recent_requests :: "int \<Rightarrow> egress_limits \<Rightarrow> string \<Rightarrow> egress_world \<Rightarrow> int list" where
  "recent_requests now li target w = filter (\<lambda>t. t > now - li_windowMs li) (case jm_get (ew_windows w) target of None \<Rightarrow> [] | Some ts \<Rightarrow> ts)"

definition inflight_of :: "egress_world \<Rightarrow> string \<Rightarrow> nat" where
  "inflight_of w target = (case jm_get (ew_inflight w) target of None \<Rightarrow> 0 | Some n \<Rightarrow> n)"

definition admit_request :: "int \<Rightarrow> egress_limits \<Rightarrow> string \<Rightarrow> egress_world \<Rightarrow> egress_world \<times> unit outcome" where
  "admit_request now li target w = (let recent = recent_requests now li target w in
     if int (length recent) \<ge> li_requests li then (w, Inl (Plain_Error ''EGRESS_RATE_LIMITED''))
     else let w1 = w\<lparr>ew_windows := jm_set target (recent @ [now]) (ew_windows w)\<rparr> in
       if int (inflight_of w target) \<ge> li_concurrency li then (w1, Inl (Plain_Error ''EGRESS_CONCURRENCY_LIMITED''))
       else (w1\<lparr>ew_inflight := jm_set target (inflight_of w target + 1) (ew_inflight w)\<rparr>, Inr ()))"

definition release_request :: "string \<Rightarrow> egress_world \<Rightarrow> egress_world" where
  "release_request target w = (let remaining = (case jm_get (ew_inflight w) target of None \<Rightarrow> 1 | Some n \<Rightarrow> n) - 1 in
     w\<lparr>ew_inflight := (if remaining > 0 then jm_set target remaining (ew_inflight w) else jm_delete target (ew_inflight w))\<rparr>)"

section \<open>Redirects\<close>

definition wire_result :: "egress_env \<Rightarrow> egress_plan \<Rightarrow> nat \<Rightarrow> js_url \<Rightarrow> pinned_response outcome option" where
  "wire_result ev p n url = (case performPinnedRequest (ev_isIP ev) (\<lambda>_. fst (ev_wire ev n url)) url (ep_maxResponseBytes (pl_policy p)) (snd (ev_wire ev n url)) of
     Inl e \<Rightarrow> Some (Inl e)
   | Inr (_, s) \<Rightarrow> (case ps_settled s of [] \<Rightarrow> None | r # _ \<Rightarrow> Some r))"

definition redirect_target :: "egress_env \<Rightarrow> egress_plan \<Rightarrow> js_url \<Rightarrow> response_headers \<Rightarrow> js_url outcome" where
  "redirect_target ev p url headers = (case map_of headers ''location'' of
     Some [location] \<Rightarrow> bindE (ev_redirect_url ev location url) (\<lambda>(redirected, search).
       bindE (ev_new_url ev (ep_baseUrl (pl_policy p))) (\<lambda>base.
         if url_origin redirected \<noteq> url_origin base then Inl (Plain_Error ''EGRESS_REDIRECT_TARGET_DENIED'')
         else authorized_url ev (pl_policy p) (pl_binding p) (url_pathname redirected @ search) (pl_method p)))
   | _ \<Rightarrow> Inl (Plain_Error ''EGRESS_REDIRECT_LOCATION_INVALID''))"

text \<open>The hops left count down from three; the second component lists the URLs requested.\<close>

fun follow :: "egress_env \<Rightarrow> egress_plan \<Rightarrow> nat \<Rightarrow> nat \<Rightarrow> js_url \<Rightarrow> (js_url \<times> nat \<times> pinned_response) outcome option \<times> js_url list" where
  "follow ev p left n url = (case wire_result ev p n url of
     None \<Rightarrow> (None, [url])
   | Some (Inl e) \<Rightarrow> (Some (Inl e), [url])
   | Some (Inr response) \<Rightarrow>
       if pr_status response \<notin> {301, 302, 303, 307, 308} then (Some (Inr (url, n, response)), [url])
       else if pr_status response \<notin> {307, 308} \<and> pl_method p \<notin> {''GET'', ''HEAD''} then (Some (Inl (Plain_Error ''EGRESS_REDIRECT_METHOD_CHANGE_DENIED'')), [url])
       else (case left of
           0 \<Rightarrow> (Some (Inl (Plain_Error ''EGRESS_REDIRECT_LIMIT_EXCEEDED'')), [url])
         | Suc fewer \<Rightarrow>
             (case redirect_target ev p url (pr_headers response) of
                Inl e \<Rightarrow> (Some (Inl e), [url])
              | Inr url' \<Rightarrow> (case follow ev p fewer (n + 1) url' of (r, urls) \<Rightarrow> (r, url # urls)))))"

declare follow.simps [simp del]

section \<open>The request as a whole\<close>

definition evidence_row :: "egress_env \<Rightarrow> egress_plan \<Rightarrow> js_url \<Rightarrow> nat \<Rightarrow> pinned_response \<Rightarrow> request_event_row" where
  "evidence_row ev p url redirects response = (let readOnly = (pl_method p \<in> {''GET'', ''HEAD''}) in
     \<lparr>re_target = xt_id (pl_target p), re_binding = tb_id (pl_binding p), re_path = url_pathname url, re_method = pl_method p,
      re_idempotency_key = jm_get (pl_headers p) ''idempotency-key'',
      re_request_digest = bv_sha256 (ev_broker ev) (case pl_body p of None \<Rightarrow> [] | Some b \<Rightarrow> b),
      re_response_digest = bv_sha256 (ev_broker ev) (pr_body response),
      re_outcome = (if readOnly then ''READ_ONLY_RESULT'' else ''UNKNOWN''), re_reconciliation = (if readOnly then ''NOT_REQUIRED'' else ''PENDING''),
      re_status = pr_status response, re_redirects = redirects\<rparr>)"

text \<open>None while the request has not been settled: it keeps its place among the running ones.\<close>

definition egressRequest ::
  "egress_env \<Rightarrow> int \<Rightarrow> string \<times> string \<Rightarrow> execution_lineage \<Rightarrow> string \<Rightarrow> json_object \<Rightarrow> egress_world
   \<Rightarrow> egress_world \<times> (egress_plan \<times> pinned_response) outcome option" where
  "egressRequest ev now ids l operation payload w = (case prepare_request ev now ids l operation payload w of
     Inl e \<Rightarrow> (w, Some (Inl e))
   | Inr p \<Rightarrow>
       (let w1 = w\<lparr>ew_secrets := pl_secrets p\<rparr>; target = xt_id (pl_target p) in
        case admit_request now (limits_of ev (pl_target p)) target w1 of
          (w2, Inl e) \<Rightarrow> (w2, Some (Inl e))
        | (w2, Inr _) \<Rightarrow>
            (case fst (follow ev p 3 0 (pl_url p)) of
               None \<Rightarrow> (w2, None)
             | Some (Inl e) \<Rightarrow> (release_request target w2, Some (Inl e))
             | Some (Inr (url, redirects, response)) \<Rightarrow>
                 ((release_request target w2)\<lparr>ew_events := ew_events w2 @ [evidence_row ev p url redirects response]\<rparr>, Some (Inr (p, response))))))"

section \<open>Dispatch\<close>

datatype broker_kind = Secret_Broker | State_Broker | Egress_Broker

datatype broker_reply =
    Reply_Secret revealed
  | Reply_Read "state_view option"
  | Reply_Write int
  | Reply_Egress pinned_response

record broker_world =
  bw_state :: broker_db
  bw_egress :: egress_world

text \<open>The fields of a payload; reading one of an absent payload or of null throws a type error.\<close>

definition payload_fields :: "cjson option \<Rightarrow> json_object outcome" where
  "payload_fields v = (case v of None \<Rightarrow> Inl (Plain_Error ''TypeError'') | Some CNull \<Rightarrow> Inl (Plain_Error ''TypeError'') | _ \<Rightarrow> Inr (object_fields v))"

definition secret_use ::
  "egress_env \<Rightarrow> int \<Rightarrow> string \<times> string \<Rightarrow> execution_lineage \<Rightarrow> string \<Rightarrow> json_object \<Rightarrow> secret_db \<Rightarrow> (secret_db \<times> revealed) outcome" where
  "secret_use ev now ids l operation payload db = bindE (revealForRuntimeBinding (ev_secret ev) now (fst ids) (snd ids) (secret_authority l)
       (js_option_text (map_of payload ''bindingAlias'')) (js_option_text (map_of payload ''purpose'')) operation db)
     (\<lambda>(db1, secret, _). Inr (db1, secret))"

definition serve_request ::
  "egress_env \<Rightarrow> int \<Rightarrow> string \<times> string \<times> string \<Rightarrow> broker_kind \<Rightarrow> bool \<Rightarrow> execution_lineage \<Rightarrow> capability_request \<Rightarrow> broker_world
   \<Rightarrow> broker_world \<times> broker_reply outcome option" where
  "serve_request ev now ids kind hasSecrets l r w = (let refuse = (\<lambda>m. (w, Some (Inl (Plain_Error m)))); E = bw_egress w in
     case kind of
       Secret_Broker \<Rightarrow>
         if cr_capability r \<noteq> ''SECRET_USE'' then refuse ''CAPABILITY_MISMATCH''
         else if \<not> hasSecrets then refuse ''SECRET_BROKER_CREDENTIAL_MISSING''
         else (case bindE (payload_fields (cr_payload r)) (\<lambda>payload. secret_use ev now (snd ids) l (cr_operation r) payload (ew_secrets E)) of
             Inl e \<Rightarrow> (w, Some (Inl e))
           | Inr (db, secret) \<Rightarrow> (w\<lparr>bw_egress := E\<lparr>ew_secrets := db\<rparr>\<rparr>, Some (Inr (Reply_Secret secret))))
     | State_Broker \<Rightarrow>
         if cr_capability r = ''STATE_READ'' then (w, Some (bindE (payload_fields (cr_payload r)) (\<lambda>payload.
             bindE (stateRead l payload (bw_state w)) (\<lambda>v. Inr (Reply_Read v)))))
         else if cr_capability r = ''STATE_WRITE'' then
           (case bindE (payload_fields (cr_payload r)) (\<lambda>payload. stateWrite (ev_broker ev) (int_text now) (fst ids) l payload (bw_state w)) of
             Inl e \<Rightarrow> (w, Some (Inl e))
           | Inr (db, n) \<Rightarrow> (w\<lparr>bw_state := db\<rparr>, Some (Inr (Reply_Write n))))
         else refuse ''CAPABILITY_MISMATCH''
     | Egress_Broker \<Rightarrow>
         if cr_capability r \<noteq> ''EGRESS_REQUEST'' then refuse ''CAPABILITY_MISMATCH''
         else if \<not> hasSecrets then refuse ''EGRESS_BROKER_CREDENTIAL_MISSING''
         else (case payload_fields (cr_payload r) of
             Inl e \<Rightarrow> (w, Some (Inl e))
           | Inr payload \<Rightarrow> (case egressRequest ev now (snd ids) l (cr_operation r) payload E of
               (E1, None) \<Rightarrow> (w\<lparr>bw_egress := E1\<rparr>, None)
             | (E1, Some (Inl e)) \<Rightarrow> (w\<lparr>bw_egress := E1\<rparr>, Some (Inl e))
             | (E1, Some (Inr (_, response))) \<Rightarrow> (w\<lparr>bw_egress := E1\<rparr>, Some (Inr (Reply_Egress response))))))"

definition handleBrokerRequest ::
  "egress_env \<Rightarrow> int \<Rightarrow> string \<times> string \<times> string \<Rightarrow> broker_kind \<Rightarrow> bool \<Rightarrow> capability_request \<Rightarrow> broker_world
   \<Rightarrow> broker_world \<times> broker_reply outcome option" where
  "handleBrokerRequest ev now ids kind hasSecrets r w = (case loadRuntimeExecutionLineage (ev_broker ev) (cr_executionId r) (bw_state w) of
     Inl e \<Rightarrow> (w, Some (Inl e))
   | Inr l \<Rightarrow> serve_request ev now ids kind hasSecrets l r w)"

section \<open>What a request reaches\<close>

text \<open>A URL the plan may request.\<close>

definition confined :: "egress_env \<Rightarrow> egress_plan \<Rightarrow> js_url \<Rightarrow> bool" where
  "confined ev p url = (\<exists>base. ev_new_url ev (ep_baseUrl (pl_policy p)) = Inr base \<and> url_origin url = url_origin base
     \<and> url_username url = [] \<and> url_password url = [] \<and> path_allowed (url_pathname url) (tb_route (pl_binding p))
     \<and> list_ex (path_allowed (url_pathname url)) (ep_allowedPaths (pl_policy p))
     \<and> upper_text (pl_method p) \<in> upper_text ` set (ep_allowedMethods (pl_policy p)))"

lemma authorized_url_confined:
  "authorized_url ev (pl_policy p) (pl_binding p) path (pl_method p) = Inr url \<Longrightarrow> confined ev p url"
  by (auto simp: authorized_url_def authorizeEgressUrl_def bindE_Inr_iff confined_def on_route_def split: if_split_asm)

lemma prepare_request_result:
  assumes "prepare_request ev now ids l operation payload w = Inr p"
  obtains s path headers where "egress_rows l operation (js_option_text (map_of payload ''bindingAlias'')) w = [(pl_binding p, pl_target p, s)]"
    "xt_circuit_state (pl_target p) \<in> {''CLOSED'', ''HEALTHY''}" "pl_policy p = egress_policy_of ev (pl_target p)" "pl_method p = upper_text (tb_method (pl_binding p))"
    "authorized_url ev (pl_policy p) (pl_binding p) path (pl_method p) = Inr (pl_url p)"
    "request_headers (map_of (object_fields (map_of payload ''request'')) ''headers'') = Inr headers"
    "inject_secret ev now ids l operation (pl_target p) s headers (ew_secrets w) = Inr (pl_secrets p, pl_headers p)"
    "case pl_body p of None \<Rightarrow> True | Some bytes \<Rightarrow> length bytes \<le> ep_maxRequestBytes (pl_policy p)"
proof -
  obtain b t s where rows: "egress_rows l operation (js_option_text (map_of payload ''bindingAlias'')) w = [(b, t, s)]"
    using assms unfolding prepare_request_def Let_def by (auto split: if_split_asm list.split_asm prod.split_asm)
  let ?m = "upper_text (case requested (object_fields (map_of payload ''request'')) ''method'' of None \<Rightarrow> ''GET'' | Some v \<Rightarrow> js_string v)"
  have "xt_circuit_state t \<in> {''CLOSED'', ''HEALTHY''}" and m: "?m = upper_text (tb_method b)"
    using assms unfolding prepare_request_def Let_def rows by (auto split: if_split_asm)
  moreover obtain url headers db headers' where "authorized_url ev (egress_policy_of ev t) b
        (case requested (object_fields (map_of payload ''request'')) ''path'' of None \<Rightarrow> ''/'' | Some v \<Rightarrow> js_string v) ?m = Inr url"
      "request_headers (map_of (object_fields (map_of payload ''request'')) ''headers'') = Inr headers"
      "inject_secret ev now ids l operation t s headers (ew_secrets w) = Inr (db, headers')"
    and body: "\<not> (case request_body ev ?m (map_of (object_fields (map_of payload ''request'')) ''body'') of None \<Rightarrow> False
        | Some bytes \<Rightarrow> length bytes > ep_maxRequestBytes (egress_policy_of ev t))"
    and p: "p = \<lparr>pl_binding = b, pl_target = t, pl_policy = egress_policy_of ev t, pl_method = ?m, pl_url = url, pl_headers = headers',
        pl_body = request_body ev ?m (map_of (object_fields (map_of payload ''request'')) ''body''), pl_secrets = db\<rparr>"
    using assms unfolding prepare_request_def Let_def rows by (auto simp: bindE_Inr_iff split: if_split_asm)
  ultimately show thesis
    using that [of s "case requested (object_fields (map_of payload ''request'')) ''path'' of None \<Rightarrow> ''/'' | Some v \<Rightarrow> js_string v" headers] rows
    by (auto simp: p split: option.split_asm)
qed

lemma redirect_target_confined: "redirect_target ev p url headers = Inr url' \<Longrightarrow> confined ev p url'"
  by (auto simp: redirect_target_def bindE_Inr_iff split: option.split_asm list.split_asm if_split_asm prod.split_asm intro: authorized_url_confined)

lemma follow_confined:
  assumes "confined ev p url" and "follow ev p left n url = (r, urls)"
  shows "length urls \<le> left + 1 \<and> list_all (confined ev p) urls"
  using assms
proof (induction left arbitrary: n url r urls)
  case 0
  then show ?case by (subst (asm) follow.simps) (auto split: option.split_asm sum.split_asm if_split_asm)
next
  case (Suc left)
  show ?case
  proof (cases "\<exists>response url'. wire_result ev p n url = Some (Inr response) \<and> redirect_target ev p url (pr_headers response) = Inr url' \<and> length urls > 1")
    case True
    then obtain response url' where w: "wire_result ev p n url = Some (Inr response)" and t: "redirect_target ev p url (pr_headers response) = Inr url'" and l: "length urls > 1"
      by blast
    obtain r' urls' where rest: "follow ev p left (n + 1) url' = (r', urls')" by fastforce
    have "urls = url # urls'" using Suc.prems(2) w t l rest by (subst (asm) follow.simps) (auto split: if_split_asm)
    then show ?thesis using Suc.IH [OF redirect_target_confined [OF t] rest] Suc.prems(1) by simp
  next
    case False
    then have "urls = [url]" using Suc.prems(2)
      by (subst (asm) follow.simps) (auto split: option.split_asm sum.split_asm if_split_asm prod.split_asm)
    then show ?thesis using Suc.prems(1) by simp
  qed
qed

text \<open>The peer a hop is answered by.\<close>

lemma wire_result_peer:
  assumes "wire_result ev p n url = Some (Inr response)"
  shows "pr_remoteAddress response \<in> la_address ` {a. \<exists>answers. fst (ev_wire ev n url) = Inr answers \<and> a \<in> set answers}
    \<and> \<not> isForbiddenEgressAddress (ev_isIP ev) (pr_remoteAddress response) \<and> length (pr_body response) \<le> ep_maxResponseBytes (pl_policy p)"
proof -
  let ?max = "ep_maxResponseBytes (pl_policy p)"
  obtain selected s where run: "performPinnedRequest (ev_isIP ev) (\<lambda>_. fst (ev_wire ev n url)) url ?max (snd (ev_wire ev n url)) = Inr (selected, s)"
    and settled: "\<exists>rs. ps_settled s = Inr response # rs"
    using assms by (auto simp: wire_result_def split: sum.split_asm list.split_asm)
  obtain answers addresses where a: "fst (ev_wire ev n url) = Inr answers" "assertPublicDnsAnswers (ev_isIP ev) answers = Inr addresses"
      and sel: "(case addresses of [] \<Rightarrow> Inl (Plain_Error ''EGRESS_DNS_EMPTY'')
         | selected # _ \<Rightarrow> Inr (selected, foldl (pinned_event ?max selected) pinned_start (snd (ev_wire ev n url)))) = Inr (selected, s)"
    using run unfolding performPinnedRequest_def resolvePublicAddresses_def bindE_Inr_iff by blast
  from sel have s: "s = foldl (pinned_event ?max selected) pinned_start (snd (ev_wire ev n url))" and "selected \<in> set addresses"
    by (auto split: list.split_asm)
  then have "selected \<in> set answers" "\<not> isForbiddenEgressAddress (ev_isIP ev) (la_address selected)"
    using dns_answers_public [OF a(2)] by (auto simp: list_all_iff)
  moreover have "response_ok ?max selected (Inr response)"
    using pinned_run_ok [of ?max selected "snd (ev_wire ev n url)"] settled by (auto simp: s [symmetric] pinned_ok_def)
  ultimately show ?thesis using a(1) by (auto simp: response_ok_def)
qed

section \<open>Headers\<close>

lemma add_header_ok:
  assumes "add_header headers h = Inr headers'"
  obtains v where "headers' = jm_set (lower_text (fst h)) v headers" "lower_text (fst h) \<in> set caller_headers" "CHR 0x0D \<notin> set v" "CHR 0x0A \<notin> set v"
  using assms by (auto simp: add_header_def split: cjson.split_asm if_split_asm)

definition plain_headers :: "(string \<times> string) list \<Rightarrow> bool" where
  "plain_headers hs = (\<forall>(k, v) \<in> set hs. k \<in> insert ''user-agent'' (set caller_headers) \<and> CHR 0x0D \<notin> set v \<and> CHR 0x0A \<notin> set v)"

lemma request_headers_plain: "request_headers v = Inr headers \<Longrightarrow> plain_headers headers"
proof -
  have start: "plain_headers default_headers" by (simp add: plain_headers_def default_headers_def caller_headers_def)
  have step: "plain_headers hs'" if plain: "plain_headers hs" and add: "add_header hs x = Inr hs'" for hs hs' x
  proof -
    obtain v where "hs' = jm_set (lower_text (fst x)) v hs" "lower_text (fst x) \<in> set caller_headers" "CHR 0x0D \<notin> set v" "CHR 0x0A \<notin> set v"
      using add by (rule add_header_ok)
    then show ?thesis using plain set_jm_set_subset [of "lower_text (fst x)" v hs] unfolding plain_headers_def by fastforce
  qed
  have "plain_headers hs'" if "forE add_header default_headers xs = Inr hs'" for xs hs'
    using that start by (rule forE_invariant [where P = plain_headers]) (rule step)
  then show "request_headers v = Inr headers \<Longrightarrow> plain_headers headers" by (auto simp: request_headers_def Let_def split: if_split_asm)
qed

lemma inject_secret_result:
  assumes "inject_secret ev now ids l operation t s headers db = Inr (db', headers')"
  obtains "xt_auth_binding t = None" "headers' = headers" "db' = db"
  | sb secret bid name scheme where "xt_auth_binding t \<noteq> None" "s = Some sb" "name \<in> {''authorization'', ''x-api-key''}"
      "revealForRuntimeBinding (ev_secret ev) now (fst ids) (snd ids) (secret_authority l) (sb_stable_key sb) (sb_usage_purpose sb) operation db = Inr (db', secret, bid)"
      "headers' = jm_set name (scheme @ rv_value secret) headers"
proof (cases "xt_auth_binding t")
  case None
  with assms that(1) show ?thesis by (simp add: inject_secret_def)
next
  case (Some a)
  let ?injection = "object_fields (map_of (object_fields (Some (xt_monitoring t))) ''authInjection'')"
  let ?name = "lower_text (js_option_text (map_of ?injection ''headerName''))"
  obtain sb where sb: "s = Some sb" using assms Some by (auto simp: inject_secret_def split: option.split_asm)
  have name: "?name \<in> {''authorization'', ''x-api-key''}"
    using assms Some sb unfolding inject_secret_def Let_def by (simp split: if_split_asm)
  obtain secret bid where "revealForRuntimeBinding (ev_secret ev) now (fst ids) (snd ids) (secret_authority l) (sb_stable_key sb) (sb_usage_purpose sb) operation db = Inr (db', secret, bid)"
      "headers' = jm_set ?name (scheme_prefix ?injection @ rv_value secret) headers"
    using assms Some sb name unfolding inject_secret_def Let_def by (simp add: bindE_Inr_iff split: if_split_asm) blast
  with that(2) [OF _ sb name] Some show ?thesis by blast
qed

section \<open>Limits under interleaving\<close>

text \<open>
  Requests of one process interleave: each is counted and later released. Beside the world of the code the state names the targets
  of the running requests and the times at which requests were counted. The limits of a target stay what they are and the
  clock does not go back.
\<close>

record limiter =
  lm_world :: egress_world
  lm_running :: "string list"
  lm_counted :: "(string \<times> int) list"
  lm_now :: int

definition counted_at :: "string \<Rightarrow> limiter \<Rightarrow> int list" where
  "counted_at target s = map snd (filter (\<lambda>c. fst c = target) (lm_counted s))"

inductive limiter_step :: "(string \<Rightarrow> egress_limits) \<Rightarrow> limiter \<Rightarrow> limiter \<Rightarrow> bool" for li where
  limiter_clock: "lm_now s \<le> now \<Longrightarrow> limiter_step li s (s\<lparr>lm_now := now\<rparr>)"
| limiter_admit: "admit_request (lm_now s) (li target) target (lm_world s) = (w, Inr ())
    \<Longrightarrow> limiter_step li s (s\<lparr>lm_world := w, lm_running := target # lm_running s, lm_counted := lm_counted s @ [(target, lm_now s)]\<rparr>)"
| limiter_refuse: "admit_request (lm_now s) (li target) target (lm_world s) = (w, Inl e)
    \<Longrightarrow> limiter_step li s (s\<lparr>lm_world := w,
          lm_counted := lm_counted s @ (if e = Plain_Error ''EGRESS_CONCURRENCY_LIMITED'' then [(target, lm_now s)] else [])\<rparr>)"
| limiter_release: "target \<in> set (lm_running s)
    \<Longrightarrow> limiter_step li s (s\<lparr>lm_world := release_request target (lm_world s), lm_running := remove1 target (lm_running s)\<rparr>)"
| limiter_other: "ew_windows w = ew_windows (lm_world s) \<Longrightarrow> ew_inflight w = ew_inflight (lm_world s) \<Longrightarrow> limiter_step li s (s\<lparr>lm_world := w\<rparr>)"

definition limiter_start :: "limiter \<Rightarrow> bool" where
  "limiter_start s = (ew_windows (lm_world s) = [] \<and> ew_inflight (lm_world s) = [] \<and> lm_running s = [] \<and> lm_counted s = [])"

interpretation egress_limiter: transition_system limiter_start "limiter_step li" for li .

definition window_bounded :: "int \<Rightarrow> int \<Rightarrow> int list \<Rightarrow> bool" where
  "window_bounded width m ts = (\<forall>u. int (length (filter (\<lambda>t. u - width < t \<and> t \<le> u) ts)) \<le> m)"

definition window_of :: "egress_world \<Rightarrow> string \<Rightarrow> int list" where
  "window_of w target = (case jm_get (ew_windows w) target of None \<Rightarrow> [] | Some ts \<Rightarrow> ts)"

definition target_counts :: "egress_limits \<Rightarrow> string \<Rightarrow> limiter \<Rightarrow> bool" where
  "target_counts l target s = (inflight_of (lm_world s) target = count_list (lm_running s) target
     \<and> int (count_list (lm_running s) target) \<le> max 0 (li_concurrency l)
     \<and> (\<forall>t \<in> set (counted_at target s). t \<le> lm_now s)
     \<and> (\<exists>c \<le> lm_now s - li_windowMs l. window_of (lm_world s) target = filter (\<lambda>t. c < t) (counted_at target s))
     \<and> window_bounded (li_windowMs l) (max 0 (li_requests l)) (counted_at target s))"

lemma window_bounded_append:
  assumes "window_bounded width m ts" and "\<forall>t \<in> set ts. t \<le> now" and "int (length (filter (\<lambda>t. now - width < t) ts)) < m"
  shows "window_bounded width m (ts @ [now])"
  unfolding window_bounded_def
proof
  fix u
  show "int (length (filter (\<lambda>t. u - width < t \<and> t \<le> u) (ts @ [now]))) \<le> m"
  proof (cases "u - width < now \<and> now \<le> u")
    case True
    have "length (filter (\<lambda>t. u - width < t \<and> t \<le> u) ts) \<le> length (filter (\<lambda>t. now - width < t) ts)"
      using True by (induction ts) auto
    then show ?thesis using assms(3) True by simp
  next
    case False
    then have "filter (\<lambda>t. u - width < t \<and> t \<le> u) (ts @ [now]) = filter (\<lambda>t. u - width < t \<and> t \<le> u) ts" by auto
    then show ?thesis using assms(1) by (simp only: window_bounded_def)
  qed
qed

lemma counted_append: "counted_at target (s\<lparr>lm_counted := lm_counted s @ [(target', now)]\<rparr>) = counted_at target s @ (if target' = target then [now] else [])"
  by (simp add: counted_at_def)

lemma counted_simps [simp]:
  "counted_at target (s\<lparr>lm_world := w\<rparr>) = counted_at target s" "counted_at target (s\<lparr>lm_running := rs\<rparr>) = counted_at target s"
  "counted_at target (s\<lparr>lm_now := n\<rparr>) = counted_at target s"
  by (simp_all add: counted_at_def)

lemma recent_is_window: "recent_requests now l target w = filter (\<lambda>t. now - li_windowMs l < t) (window_of w target)"
  by (simp add: recent_requests_def window_of_def)

text \<open>A counted request: the window of its target is cut to the current width and gets the new time.\<close>

lemma counted_window:
  assumes "target_counts l target s" and "\<not> int (length (recent_requests (lm_now s) l target (lm_world s))) \<ge> li_requests l" and "0 < li_windowMs l"
  shows "recent_requests (lm_now s) l target (lm_world s) @ [lm_now s]
      = filter (\<lambda>t. lm_now s - li_windowMs l < t) (counted_at target s @ [lm_now s])"
    and "window_bounded (li_windowMs l) (max 0 (li_requests l)) (counted_at target s @ [lm_now s])"
proof -
  obtain c where c: "c \<le> lm_now s - li_windowMs l" "window_of (lm_world s) target = filter (\<lambda>t. c < t) (counted_at target s)"
    using assms(1) by (auto simp: target_counts_def)
  have recent: "recent_requests (lm_now s) l target (lm_world s) = filter (\<lambda>t. lm_now s - li_windowMs l < t) (counted_at target s)"
    unfolding recent_is_window c(2) filter_filter using c(1) by (intro filter_cong refl) auto
  then show "recent_requests (lm_now s) l target (lm_world s) @ [lm_now s] = filter (\<lambda>t. lm_now s - li_windowMs l < t) (counted_at target s @ [lm_now s])"
    using assms(3) by simp
  show "window_bounded (li_windowMs l) (max 0 (li_requests l)) (counted_at target s @ [lm_now s])"
    using assms(1,2) unfolding recent by (intro window_bounded_append) (auto simp: target_counts_def)
qed

lemma admit_cases:
  assumes "admit_request now l target w = (w', r)"
  obtains (rate) "r = Inl (Plain_Error ''EGRESS_RATE_LIMITED'')" "w' = w"
  | (counted) "\<not> int (length (recent_requests now l target w)) \<ge> li_requests l"
      "ew_windows w' = jm_set target (recent_requests now l target w @ [now]) (ew_windows w)"
      "r = Inl (Plain_Error ''EGRESS_CONCURRENCY_LIMITED'') \<and> ew_inflight w' = ew_inflight w
        \<or> r = Inr () \<and> int (inflight_of w target) < li_concurrency l \<and> ew_inflight w' = jm_set target (inflight_of w target + 1) (ew_inflight w)"
  using assms by (auto simp: admit_request_def Let_def split: if_split_asm)

lemma window_of_set: "ew_windows w' = jm_set target ts (ew_windows w) \<Longrightarrow> window_of w' x = (if x = target then ts else window_of w x)"
  by (simp add: window_of_def jm_get_set)

lemma inflight_of_set: "ew_inflight w' = jm_set target n (ew_inflight w) \<Longrightarrow> inflight_of w' x = (if x = target then n else inflight_of w x)"
  by (simp add: inflight_of_def jm_get_set)

lemma inflight_of_release: "inflight_of (release_request target w) x = (if x = target then inflight_of w target - 1 else inflight_of w x)"
  by (auto simp: release_request_def inflight_of_def Let_def jm_get_set jm_get_def map_of_jm_delete map_of_jm_set split: option.split)

lemma counted_ok:
  assumes ok: "\<And>x. target_counts (li x) x s" and width: "0 < li_windowMs (li target)"
    and below: "\<not> int (length (recent_requests (lm_now s) (li target) target (lm_world s))) \<ge> li_requests (li target)"
    and window: "ew_windows w = jm_set target (recent_requests (lm_now s) (li target) target (lm_world s) @ [lm_now s]) (ew_windows (lm_world s))"
    and running: "inflight_of w x = count_list rs x" "int (count_list rs x) \<le> max 0 (li_concurrency (li x))"
  shows "target_counts (li x) x (s\<lparr>lm_world := w, lm_running := rs, lm_counted := lm_counted s @ [(target, lm_now s)]\<rparr>)"
proof (cases "x = target")
  case True
  let ?c = "lm_now s - li_windowMs (li target)"
  note counted = counted_window [OF ok below width]
  have at: "counted_at target (s\<lparr>lm_world := w, lm_running := rs, lm_counted := lm_counted s @ [(target, lm_now s)]\<rparr>) = counted_at target s @ [lm_now s]"
    by (simp add: counted_at_def)
  have "window_of w target = filter (\<lambda>t. ?c < t) (counted_at target s @ [lm_now s])" using window_of_set [OF window, of target] counted(1) by simp
  then have "\<exists>c \<le> ?c. window_of w target = filter (\<lambda>t. c < t) (counted_at target s @ [lm_now s])" by blast
  moreover have "\<forall>t \<in> set (counted_at target s). t \<le> lm_now s" using ok [of target] by (simp add: target_counts_def)
  ultimately show ?thesis unfolding True target_counts_def at using running counted(2) True by simp
next
  case False
  then have "counted_at x (s\<lparr>lm_world := w, lm_running := rs, lm_counted := lm_counted s @ [(target, lm_now s)]\<rparr>) = counted_at x s"
    by (simp add: counted_at_def)
  then show ?thesis using ok [of x] running window_of_set [OF window, of x] False by (simp add: target_counts_def)
qed

lemma limiter_step_ok:
  assumes "limiter_step li s s'" and "\<And>x. 0 < li_windowMs (li x)" and ok: "\<And>x. target_counts (li x) x s"
  shows "target_counts (li x) x s'"
  using assms(1)
proof cases
  case (limiter_clock now)
  obtain c where c: "c \<le> lm_now s - li_windowMs (li x)" "window_of (lm_world s) x = filter (\<lambda>t. c < t) (counted_at x s)" using ok [of x] by (auto simp: target_counts_def)
  have "c \<le> now - li_windowMs (li x)" using c(1) limiter_clock(2) by simp
  with c(2) show ?thesis using ok [of x] limiter_clock by (fastforce simp: target_counts_def)
next
  case (limiter_other w)
  then have "inflight_of w x = inflight_of (lm_world s) x" "window_of w x = window_of (lm_world s) x" by (simp_all add: inflight_of_def window_of_def)
  then show ?thesis using ok [of x] limiter_other by (simp add: target_counts_def)
next
  case (limiter_release target)
  have "window_of (release_request target (lm_world s)) x = window_of (lm_world s) x" by (simp add: window_of_def release_request_def Let_def)
  moreover have "count_list (remove1 target (lm_running s)) x = (if x = target then count_list (lm_running s) x - 1 else count_list (lm_running s) x)"
    by (induction "lm_running s" arbitrary: s) auto
  ultimately show ?thesis using ok [of x] limiter_release by (auto simp: target_counts_def inflight_of_release)
next
  case (limiter_refuse target w e)
  from limiter_refuse(2) show ?thesis
  proof (cases rule: admit_cases)
    case rate
    then show ?thesis using ok [of x] limiter_refuse(1) by (simp add: target_counts_def counted_at_def)
  next
    case counted
    then have "e = Plain_Error ''EGRESS_CONCURRENCY_LIMITED''" and "inflight_of w x = inflight_of (lm_world s) x" by (auto simp: inflight_of_def)
    then show ?thesis
      using counted_ok [where li = li and rs = "lm_running s" and w = w and x = x, OF ok assms(2) counted(1,2)] ok [of x] limiter_refuse(1)
      by (simp add: target_counts_def)
  qed
next
  case (limiter_admit target w)
  from limiter_admit(2) show ?thesis
  proof (cases rule: admit_cases)
    case counted
    then have below: "int (inflight_of (lm_world s) target) < li_concurrency (li target)"
      and inflight: "ew_inflight w = jm_set target (inflight_of (lm_world s) target + 1) (ew_inflight (lm_world s))" by auto
    show ?thesis unfolding limiter_admit(1)
      using ok [of x] below inflight_of_set [OF inflight, of x]
      by (intro counted_ok [where li = li, OF ok assms(2) counted(1,2)]) (auto simp: target_counts_def)
  qed simp
qed

lemma limiter_reachable:
  assumes "egress_limiter.reach li s" and "\<And>x. 0 < li_windowMs (li x)"
  shows "target_counts (li x) x s"
  using assms(1)
proof (induction arbitrary: x)
  case (reach_init s)
  then show ?case
    by (auto simp: limiter_start_def target_counts_def inflight_of_def window_of_def counted_at_def window_bounded_def jm_get_def intro: exI [of _ "lm_now s - li_windowMs (li x)"])
next
  case (reach_step s t)
  show ?case by (rule limiter_step_ok [OF reach_step(2) assms(2) reach_step.IH])
qed

lemma boundedInteger_range: "minimum \<le> fallback \<Longrightarrow> fallback \<le> maximum \<Longrightarrow> minimum \<le> boundedInteger jc v fallback minimum maximum \<and> boundedInteger jc v fallback minimum maximum \<le> maximum"
  by (auto simp: boundedInteger_def split: option.split)

lemma limits_range:
  "1000 \<le> li_windowMs (limits_of ev t)" "1 \<le> li_requests (limits_of ev t)" "li_requests (limits_of ev t) \<le> 10000"
  "1 \<le> li_concurrency (limits_of ev t)" "li_concurrency (limits_of ev t) \<le> 64"
  using boundedInteger_range [of 1000 60000 3600000] boundedInteger_range [of 1 60 10000] boundedInteger_range [of 1 4 64]
  by (simp_all add: limits_of_def Let_def)

lemma serve_refuses:
  assumes "cr_capability r \<notin> (case kind of Secret_Broker \<Rightarrow> {''SECRET_USE''} | State_Broker \<Rightarrow> {''STATE_READ'', ''STATE_WRITE''} | Egress_Broker \<Rightarrow> {''EGRESS_REQUEST''})"
  shows "serve_request ev now ids kind hasSecrets l r w = (w, Some (Inl (Plain_Error ''CAPABILITY_MISMATCH'')))"
  using assms by (cases kind) (simp_all add: serve_request_def Let_def)

lemma admit_then_release:
  assumes "admit_request now l t w = (w', r)"
  shows "inflight_of (if r = Inr () then release_request t w' else w') x = inflight_of w x"
  using assms
proof (cases rule: admit_cases)
  case counted
  from counted(3) show ?thesis
  proof (elim disjE conjE)
    assume "r = Inl (Plain_Error ''EGRESS_CONCURRENCY_LIMITED'')" "ew_inflight w' = ew_inflight w"
    then show ?thesis by (simp add: inflight_of_def)
  next
    assume "r = Inr ()" and counter: "ew_inflight w' = jm_set t (inflight_of w t + 1) (ew_inflight w)"
    then show ?thesis by (simp add: inflight_of_release inflight_of_set [OF counter])
  qed
qed simp

lemma settled_request_releases:
  assumes "egressRequest ev now ids l operation payload w = (w', Some r)"
  shows "inflight_of w' target = inflight_of w target"
proof (cases "prepare_request ev now ids l operation payload w")
  case (Inl e)
  with assms show ?thesis by (simp add: egressRequest_def)
next
  case (Inr p)
  let ?t = "xt_id (pl_target p)" and ?w1 = "w\<lparr>ew_secrets := pl_secrets p\<rparr>"
  have same: "inflight_of ?w1 x = inflight_of w x" and event: "inflight_of (v\<lparr>ew_events := es\<rparr>) x = inflight_of v x" for x v es
    by (simp_all add: inflight_of_def)
  obtain w2 a where admit: "admit_request now (limits_of ev (pl_target p)) ?t ?w1 = (w2, a)" by fastforce
  have "inflight_of w' target = inflight_of (if a = Inr () then release_request ?t w2 else w2) target"
    using assms Inr admit by (cases a) (auto simp: egressRequest_def Let_def event split: sum.splits option.splits prod.splits)
  then show ?thesis by (simp only: admit_then_release [OF admit] same)
qed

section \<open>Claims\<close>

text \<open>
  C25. Every URL an authorized request visits, redirects included, keeps the origin of the target, lies on the route of the binding and
  on an allowed path and carries no credentials; there are at most four of them, the method is that of the binding and allowed by
  the target, and a response comes from a public address the resolver gave and is no longer than the target allows.
\<close>

theorem egress_requests_confined:
  assumes prepared: "prepare_request ev now ids l operation payload w = Inr p" and followed: "follow ev p 3 0 (pl_url p) = (r, urls)"
  shows "length urls \<le> 4 \<and> pl_method p = upper_text (tb_method (pl_binding p))
    \<and> (\<forall>url \<in> set urls. \<exists>base. ev_new_url ev (xt_base_url (pl_target p)) = Inr base \<and> url_origin url = url_origin base
        \<and> url_username url = [] \<and> url_password url = [] \<and> path_allowed (url_pathname url) (tb_route (pl_binding p))
        \<and> list_ex (path_allowed (url_pathname url)) (ep_allowedPaths (pl_policy p))
        \<and> upper_text (pl_method p) \<in> upper_text ` set (xt_allowed_methods (pl_target p)))
    \<and> (\<forall>n url response. wire_result ev p n url = Some (Inr response) \<longrightarrow> \<not> isForbiddenEgressAddress (ev_isIP ev) (pr_remoteAddress response)
        \<and> pr_remoteAddress response \<in> la_address ` {a. \<exists>answers. fst (ev_wire ev n url) = Inr answers \<and> a \<in> set answers}
        \<and> length (pr_body response) \<le> ep_maxResponseBytes (pl_policy p))"
proof -
  obtain path where policy: "pl_policy p = egress_policy_of ev (pl_target p)" and http_method: "pl_method p = upper_text (tb_method (pl_binding p))"
    and url: "authorized_url ev (pl_policy p) (pl_binding p) path (pl_method p) = Inr (pl_url p)" by (rule prepare_request_result [OF prepared]) blast
  have "length urls \<le> 4 \<and> list_all (confined ev p) urls" using follow_confined [OF authorized_url_confined [OF url] followed] by simp
  moreover have "ep_baseUrl (pl_policy p) = xt_base_url (pl_target p)" "ep_allowedMethods (pl_policy p) = xt_allowed_methods (pl_target p)"
    by (simp_all add: policy egress_policy_of_def Let_def)
  ultimately show ?thesis using http_method wire_result_peer by (auto simp: list_all_iff confined_def)
qed

text \<open>
  C26. The runtime never supplies a credential: a header of a prepared request is either one of five harmless names with a value that
  cannot break the line, or a credential header of a target with an auth binding, whose value ends in the secret the secret
  manager released for that binding and this execution.
\<close>

theorem egress_credentials_injected:
  assumes "prepare_request ev now ids l operation payload w = Inr p" and "(name, v) \<in> set (pl_headers p)"
  shows "name \<in> {''user-agent'', ''accept'', ''content-type'', ''idempotency-key'', ''x-request-id''} \<and> CHR 0x0D \<notin> set v \<and> CHR 0x0A \<notin> set v
    \<or> name \<in> {''authorization'', ''x-api-key''} \<and> xt_auth_binding (pl_target p) \<noteq> None
      \<and> (\<exists>(sb :: secret_binding_row) secret bid scheme. xt_auth_binding (pl_target p) = Some (sb_id sb)
          \<and> revealForRuntimeBinding (ev_secret ev) now (fst ids) (snd ids) (secret_authority l) (sb_stable_key sb) (sb_usage_purpose sb) operation (ew_secrets w)
              = Inr (pl_secrets p, secret, bid) \<and> v = scheme @ rv_value secret)"
proof -
  obtain s headers where rows: "egress_rows l operation (js_option_text (map_of payload ''bindingAlias'')) w = [(pl_binding p, pl_target p, s)]"
    and plain: "request_headers (map_of (object_fields (map_of payload ''request'')) ''headers'') = Inr headers"
    and injected: "inject_secret ev now ids l operation (pl_target p) s headers (ew_secrets w) = Inr (pl_secrets p, pl_headers p)"
    by (rule prepare_request_result [OF assms(1)]) blast
  have harmless: "k \<in> {''user-agent'', ''accept'', ''content-type'', ''idempotency-key'', ''x-request-id''} \<and> CHR 0x0D \<notin> set u \<and> CHR 0x0A \<notin> set u"
    if "(k, u) \<in> set headers" for k u
    using request_headers_plain [OF plain] that unfolding plain_headers_def caller_headers_def by fastforce
  from injected show ?thesis
  proof (cases rule: inject_secret_result)
    case 1
    then show ?thesis using harmless assms(2) by simp
  next
    case (2 sb secret bid hname scheme)
    have "(pl_binding p, pl_target p, Some sb) \<in> set (egress_rows l operation (js_option_text (map_of payload ''bindingAlias'')) w)" using rows 2(2) by simp
    then have bound: "xt_auth_binding (pl_target p) = Some (sb_id sb)" by (auto simp: egress_rows_def left_join_def split: if_split_asm)
    have "(name, v) = (hname, scheme @ rv_value secret) \<or> (name, v) \<in> set headers"
      using assms(2) set_jm_set_subset [of hname "scheme @ rv_value secret" headers] by (auto simp: 2(5))
    then show ?thesis
    proof
      assume "(name, v) = (hname, scheme @ rv_value secret)"
      then have "name \<in> {''authorization'', ''x-api-key''}" "v = scheme @ rv_value secret" using 2(3) by simp_all
      then show ?thesis using 2(4) bound
        by (intro disjI2 conjI exI [of _ sb] exI [of _ secret] exI [of _ bid] exI [of _ scheme]) simp_all
    next
      assume "(name, v) \<in> set headers"
      from harmless [OF this] show ?thesis by (rule disjI1)
    qed
  qed
qed

text \<open>
  C27. However the requests of the broker interleave, the counter of a target is the number of its requests that run and never
  exceeds the concurrency limit, and in every interval of the length of its window no more requests are counted than its rate allows.
\<close>

theorem egress_limits_hold:
  assumes "egress_limiter.reach (\<lambda>target. limits_of ev (targets target)) s"
  shows "inflight_of (lm_world s) target = count_list (lm_running s) target
    \<and> int (count_list (lm_running s) target) \<le> li_concurrency (limits_of ev (targets target)) \<and> count_list (lm_running s) target \<le> 64
    \<and> (\<forall>u. int (length (filter (\<lambda>t. u - li_windowMs (limits_of ev (targets target)) < t \<and> t \<le> u) (counted_at target s)))
        \<le> li_requests (limits_of ev (targets target)))"
proof -
  have "0 < li_windowMs (limits_of ev (targets x))" for x using limits_range(1) [of ev "targets x"] by linarith
  then have "target_counts (limits_of ev (targets target)) target s" by (rule limiter_reachable [OF assms])
  then show ?thesis using limits_range [of ev "targets target"] by (auto simp: target_counts_def window_bounded_def)
qed


section \<open>Witnesses\<close>

definition sample_target_binding :: target_binding_row where
  "sample_target_binding = \<lparr>tb_id = ''tb'', tb_stable_key = ''api'', tb_lifecycle = ''ACTIVE'', tb_deleted = False, tb_source_component = ''a'',
     tb_source_revision = ''r'', tb_target_id = ''xt'', tb_revision = 1, tb_route = ''/v1'', tb_method = ''GET'', tb_activation_set = None,
     tb_activation_epoch = int_text 1, tb_incarnation = ''p'', tb_deployment = int_text 1\<rparr>"

definition sample_external_target :: external_target_row where
  "sample_external_target = \<lparr>xt_id = ''xt'', xt_base_url = ''https://h/v1'', xt_allowed_paths = CArr [CStr ''/v1''], xt_allowed_methods = [''GET''], xt_timeout_ms = 1000,
     xt_rate_limit = CNull, xt_circuit_state = ''CLOSED'', xt_auth_binding = None, xt_monitoring = CNull, xt_lifecycle = ''ACTIVE'', xt_deleted = False,
     xt_activation_epoch = int_text 1, xt_incarnation = ''p'', xt_deployment = int_text 1, xt_state_version = 1\<rparr>"

definition sample_egress_world :: "secret_db \<Rightarrow> egress_world" where
  "sample_egress_world db = \<lparr>ew_bindings = [sample_target_binding], ew_targets = [sample_external_target],
     ew_members = [\<lparr>em_revision = ''b'', em_kind = ''EXTERNAL_TARGET'', em_operation = ''op'', em_source_object = Some ''a'', em_source_revision = Some ''r'',
       em_target_binding = Some ''tb'', em_target = None\<rparr>], ew_secrets = db, ew_events = [], ew_windows = [], ew_inflight = []\<rparr>"

definition sample_egress_env :: "secret_services \<Rightarrow> egress_env" where
  "sample_egress_env sv = \<lparr>ev_broker = sample_broker_services, ev_secret = sv, ev_new_url = (\<lambda>_. Inr (sample_url ''/v1'')), ev_relative_url = (\<lambda>path _. Inr (sample_url path)),
     ev_redirect_url = (\<lambda>_ _. Inl (Plain_Error ''TypeError'')), ev_isIP = sample_isIP,
     ev_wire = (\<lambda>_ _. (Inr [\<lparr>la_address = ''1.1.1.1'', la_family = 4\<rparr>], [Response_Head 200 [], Response_Data [1, 2], Response_End])), ev_test = False\<rparr>"

definition sample_egress_payload :: json_object where
  "sample_egress_payload = [(''bindingAlias'', CStr ''api''), (''request'', CObj [(''path'', CStr ''/v1/x'')])]"

lemma sample_authorized:
  "authorizeEgressUrl (\<lambda>_. Inr (sample_url ''/v1'')) (\<lambda>path _. Inr (sample_url path)) (egress_policy_of (sample_egress_env sv) sample_external_target) ''/v1/x'' ''GET'' = Inr (sample_url ''/v1/x'')"
proof -
  have "\<not> has_scheme ''/v1/x''" "\<not> starts_with ''//'' ''/v1/x''" "path_allowed ''/v1/x'' ''/v1''" "upper_text ''GET'' = ''GET''" by code_simp+
  then show ?thesis by (simp add: authorizeEgressUrl_def egress_policy_of_def Let_def sample_external_target_def sample_url_def)
qed

lemma sample_prepared:
  obtains p where "prepare_request (sample_egress_env sv) 0 ids sample_execution_lineage ''op'' sample_egress_payload (sample_egress_world db) = Inr p"
    "pl_url p = sample_url ''/v1/x''" "pl_headers p = default_headers" "ep_maxResponseBytes (pl_policy p) = 2097152"
proof -
  have aliased: "is_binding_alias ''api''" and get: "upper_text ''GET'' = ''GET''" and route: "path_allowed ''/v1/x'' ''/v1''" by code_simp+
  have rows: "egress_rows sample_execution_lineage ''op'' ''api'' (sample_egress_world db) = [(sample_target_binding, sample_external_target, None)]"
    by (simp add: egress_rows_def sample_egress_world_def usable_target_def sample_target_binding_def sample_external_target_def egress_member_def
        left_join_def sample_execution_lineage_def raw_lineage_def sample_execution_def sample_broker_db_def)
  have url: "authorized_url (sample_egress_env sv) (egress_policy_of (sample_egress_env sv) sample_external_target) sample_target_binding ''/v1/x'' ''GET'' = Inr (sample_url ''/v1/x'')"
    using sample_authorized [of sv] route by (simp add: authorized_url_def sample_egress_env_def on_route_def sample_target_binding_def sample_url_def)
  have "ep_maxResponseBytes (egress_policy_of (sample_egress_env sv) sample_external_target) = 2097152"
    by (simp add: egress_policy_of_def Let_def sample_external_target_def object_fields_def boundedInteger_def)
  then show thesis
    using that rows url aliased get
    by (simp add: prepare_request_def sample_egress_payload_def js_option_text_def object_fields_def requested_def Let_def sample_external_target_def [THEN arg_cong, of xt_circuit_state]
        sample_external_target_def [THEN arg_cong, of xt_auth_binding] sample_target_binding_def [THEN arg_cong, of tb_method] request_headers_def object_entries_def js_sort_def request_body_def inject_secret_def)
qed

lemma sample_wire:
  assumes "ep_maxResponseBytes (pl_policy p) = 2097152"
  shows "\<exists>response. wire_result (sample_egress_env sv) p n url = Some (Inr response) \<and> pr_status response = 200"
proof -
  have public: "\<not> block_list_check (IPv4 (octets 1 1 1 1))" by (simp add: block_list_ipv4 reserved_v4_def in_range_v4_unat unat_octets)
  have quad: "mapped_text ''1.1.1.1'' = None" by code_simp
  show ?thesis
    using public quad assms
    by (simp add: wire_result_def performPinnedRequest_def resolvePublicAddresses_def assertPublicDnsAnswers_def isForbiddenEgressAddress_def sample_isIP_def jm_of_def
        sample_egress_env_def pinned_start_def)
qed

theorem egress_requests_confined_witness:
  "\<exists>p r urls. prepare_request (sample_egress_env sample_secrets) 0 (''i'', ''j'') sample_execution_lineage ''op'' sample_egress_payload (sample_egress_world sample_vault) = Inr p
    \<and> follow (sample_egress_env sample_secrets) p 3 0 (pl_url p) = (r, urls) \<and> length urls \<le> 4 \<and> (\<exists>response. r = Some (Inr response))"
proof -
  obtain p where p: "prepare_request (sample_egress_env sample_secrets) 0 (''i'', ''j'') sample_execution_lineage ''op'' sample_egress_payload (sample_egress_world sample_vault) = Inr p"
    and big: "ep_maxResponseBytes (pl_policy p) = 2097152" by (rule sample_prepared [of sample_secrets "(''i'', ''j'')" sample_vault])
  obtain r urls where f: "follow (sample_egress_env sample_secrets) p 3 0 (pl_url p) = (r, urls)" by fastforce
  obtain response where "wire_result (sample_egress_env sample_secrets) p 0 (pl_url p) = Some (Inr response)" "pr_status response = 200"
    using sample_wire [OF big] by blast
  then have "\<exists>response. r = Some (Inr response)" using f by (subst (asm) follow.simps) auto
  with egress_requests_confined [OF p f] p f show ?thesis by blast
qed

theorem egress_credentials_injected_witness:
  "\<exists>p. prepare_request (sample_egress_env sample_secrets) 0 (''i'', ''j'') sample_execution_lineage ''op'' sample_egress_payload (sample_egress_world sample_vault) = Inr p
    \<and> (''accept'', ''application/json'') \<in> set (pl_headers p) \<and> CHR 0x0A \<notin> set ''application/json''"
proof -
  obtain p where p: "prepare_request (sample_egress_env sample_secrets) 0 (''i'', ''j'') sample_execution_lineage ''op'' sample_egress_payload (sample_egress_world sample_vault) = Inr p"
    and "pl_headers p = default_headers" by (rule sample_prepared [of sample_secrets "(''i'', ''j'')" sample_vault])
  then have header: "(''accept'', ''application/json'') \<in> set (pl_headers p)" by (simp add: default_headers_def)
  from egress_credentials_injected [OF p header] p header show ?thesis by auto
qed

definition sample_limiter :: limiter where
  "sample_limiter = \<lparr>lm_world = sample_egress_world sample_vault, lm_running = [], lm_counted = [], lm_now = 5\<rparr>"

theorem egress_limits_hold_witness:
  "\<exists>s. egress_limiter.reach (\<lambda>target. limits_of (sample_egress_env sample_secrets) sample_external_target) s \<and> lm_running s = [''xt'']
    \<and> inflight_of (lm_world s) ''xt'' = 1 \<and> (\<forall>u. int (length (filter (\<lambda>t. u - 60000 < t \<and> t \<le> u) (counted_at ''xt'' s))) \<le> 60)"
proof -
  have limits: "limits_of (sample_egress_env sample_secrets) sample_external_target = \<lparr>li_windowMs = 60000, li_requests = 60, li_concurrency = 4\<rparr>"
    by (simp add: limits_of_def Let_def sample_external_target_def object_fields_def boundedInteger_def)
  let ?li = "\<lambda>target :: string. limits_of (sample_egress_env sample_secrets) sample_external_target"
  obtain w where "admit_request (lm_now sample_limiter) (?li ''xt'') ''xt'' (lm_world sample_limiter) = (w, Inr ())"
    by (simp add: admit_request_def limits recent_requests_def inflight_of_def sample_limiter_def sample_egress_world_def jm_get_def)
  from limiter_admit [where li = ?li, OF this] have step: "limiter_step ?li sample_limiter
      (sample_limiter\<lparr>lm_world := w, lm_running := ''xt'' # lm_running sample_limiter, lm_counted := lm_counted sample_limiter @ [(''xt'', lm_now sample_limiter)]\<rparr>)" .
  have "egress_limiter.reach ?li sample_limiter"
    by (rule egress_limiter.reach_init) (simp add: limiter_start_def sample_limiter_def sample_egress_world_def)
  from egress_limiter.reach_step [OF this step]
  obtain s where s: "egress_limiter.reach ?li s" "lm_running s = [''xt'']" by (auto simp: sample_limiter_def)
  from egress_limits_hold [OF s(1), of "''xt''"] s show ?thesis by (auto simp: limits)
qed

definition sample_capability_request :: capability_request where
  "sample_capability_request = \<lparr>cr_protocol = ''KCML-CAPABILITY-IPC/1'', cr_requestId = ''q'', cr_executionId = ''x'', cr_capability = ''STATE_READ'', cr_operation = ''op'',
     cr_channelGeneration = ''g'', cr_capabilityBinding = [], cr_issuedAt = [], cr_payload = Some (CObj [(''key'', CStr ''k'')]), cr_deadlineAt = [], cr_nonce = [], cr_mac = []\<rparr>"


end
