(* ===== verification/Spec2Isabelle.thy ===== *)
theory Spec2Isabelle
  imports RetryPlanner CapabilityRequests ContractPack BindingRegistry RecoveryOracle ClosurePredicates Database RuntimeGateway OwnerAuth EgressPolicy SecretManager OutboxDelivery StateBroker EgressBroker
begin

text \<open>
  Verification of the KajovoCML control plane.

  \<^bold>\<open>The program.\<close> KajovoCML runs generated components for one owner. A server (\<^verbatim>\<open>apps/server\<close>) accepts typed
  operations, checks them against a compiled contract pack and admits them as commands in PostgreSQL. Workers claim
  admitted commands, run their handler inside a transaction, checkpoint the result and complete the command; a scheduler
  turns persisted retry plans into successor commands. Effects outside the database (starting a runtime unit, calling out)
  pass through a ledger of intents, attempts and readback evidence, which a recovery oracle reads after a crash. Runtime
  hosts connect to a gateway over a framed protocol and reach capabilities through authenticated requests. Around this
  core stand the owner's authentication, the secrets, the audit chain and the egress policy. Everything is digested over
  canonical JSON and every failure is a code of a closed registry.

  \<^bold>\<open>The theories\<close>, in the order of the imports; paths are under \<^verbatim>\<open>src/packages\<close>.

  \<^item> \<^verbatim>\<open>Prelude\<close>: thrown errors as values (\<^verbatim>\<open>outcome\<close>, \<^verbatim>\<open>bindE\<close>), JavaScript's ordered map and stable sort, the rows and updates
    of SQL tables, text and digits. Two locales: \<^verbatim>\<open>keyed_store\<close>, the laws of a map, interpreted on the ordered map, and
    \<^verbatim>\<open>transition_system\<close>, reachable states and the induction over them, interpreted on the client channel, the state
    machines of the contract pack, the ledger, the gateway, the audit log, the secrets, the outbox, the state broker and the
    limits of the egress broker.
  \<^item> \<^verbatim>\<open>CanonicalJson\<close> (\<^verbatim>\<open>schemas/src/index.ts\<close>): \<^verbatim>\<open>toCanonicalJsonValue\<close> over a heap of JavaScript objects with cycles and aliasing,
    \<^verbatim>\<open>canonicalJson\<close> and the digests. Two values have the same text exactly when they are the same JSON up to the order of
    properties; conversion gives a well-formed value or an error.
  \<^item> \<^verbatim>\<open>ErrorRegistry\<close>, \<^verbatim>\<open>RetryPlanner\<close> (\<^verbatim>\<open>schemas/src/error-retry-registry.ts\<close>, \<^verbatim>\<open>domain/src/errors.ts\<close>, \<^verbatim>\<open>domain/src/retry-planner.ts\<close>): a failure
    becomes a registered, redacted view; automatic retries end.
  \<^item> \<^verbatim>\<open>StreamDecoder\<close>, \<^verbatim>\<open>RuntimeIpc\<close>, \<^verbatim>\<open>CapabilityChannel\<close>, \<^verbatim>\<open>CapabilityRequests\<close> (\<^verbatim>\<open>runtime-capability-ipc/src/index.ts\<close>): the locale
    \<^verbatim>\<open>incremental_decoder\<close> shows that a decoder depends on the bytes and not on the chunks a socket delivers; it is interpreted on the
    two decoders of the code. Frames survive the channel, a multiplexed request is settled at most once, a
    signed request is accepted at most once.
  \<^item> \<^verbatim>\<open>ContractPack\<close>, \<^verbatim>\<open>BindingRegistry\<close> (\<^verbatim>\<open>contract-pack/src/index.ts\<close>, \<^verbatim>\<open>domain/src/binding-registry.ts\<close>): the indices of the pack,
    exposure parity, state transitions, and the exact binding of an operation to its contract.
  \<^item> \<^verbatim>\<open>RecoveryOracle\<close>, \<^verbatim>\<open>ClosurePredicates\<close> (\<^verbatim>\<open>domain/src/recovery-oracle.ts\<close>, \<^verbatim>\<open>domain/src/closure-predicates.ts\<close>): the decision after a crash as a function of
    the evidence, and the terminal closure of an aggregate.
  \<^item> \<^verbatim>\<open>Database\<close> (\<^verbatim>\<open>database/src/index.ts\<close>): transactions over a pool, the retry of serialization failures, sequences, advisory
    locks and lock ordering. The locale \<^verbatim>\<open>transactional\<close> states all-or-nothing and is interpreted on the two transaction
    functions.
  \<^item> \<^verbatim>\<open>CommandValidation\<close>, \<^verbatim>\<open>CommandStore\<close>, \<^verbatim>\<open>CommandAdmission\<close>, \<^verbatim>\<open>CommandWorker\<close>, \<^verbatim>\<open>RetryScheduler\<close> (\<^verbatim>\<open>domain/src/operations.ts\<close>,
    \<^verbatim>\<open>recovery-authority.ts\<close>, \<^verbatim>\<open>operation-handler-catalog.ts\<close>, the checks of \<^verbatim>\<open>canonical-operation-handlers.ts\<close>): the tables of the pipeline as
    one record, and every transaction of admission, worker and scheduler as a function on it.
  \<^item> \<^verbatim>\<open>PipelineSafety\<close>, \<^verbatim>\<open>PipelineProgress\<close>: the transactions of any number of processes interleaved, with crashes between them
    and with workers that lost their lease. The abstract specification is the state of the guards (heads, admissions,
    claims, checkpoints) with five kinds of step; the pipeline refines it, hence the effect of a command is applied at
    most once, a superseded worker is fenced, the pending counters are exact. The locale \<^verbatim>\<open>recorded_effects\<close> carries the
    argument. Progress: a command whose worker crashed after its effect is completed without running the handler again.
  \<^item> \<^verbatim>\<open>SideEffectLedger\<close>, \<^verbatim>\<open>RuntimeLifecycle\<close> (\<^verbatim>\<open>domain/src/side-effect-ledger.ts\<close>, \<^verbatim>\<open>worker-runtime/src/runtime-systemd.ts\<close>): intents, attempts and
    evidence; the executor of runtime operations, which checkpoints only what a readback confirmed.
  \<^item> \<^verbatim>\<open>RuntimeGateway\<close> (\<^verbatim>\<open>worker-runtime/src/runtime-gateway.ts\<close>): the handshake, the liveness of connections and their replacement.
  \<^item> \<^verbatim>\<open>AuditChain\<close> (\<^verbatim>\<open>domain/src/audit-integrity.ts\<close> and the function \<^verbatim>\<open>kcml.append_audit_event\<close> of the baseline): an appended log verifies, on any page
    size, and the head determines the history as long as the hash has no collision among the hashed inputs.
  \<^item> \<^verbatim>\<open>OwnerCrypto\<close>, \<^verbatim>\<open>OwnerAuth\<close> (\<^verbatim>\<open>domain/src/crypto.ts\<close>, \<^verbatim>\<open>auth.ts\<close>): base32, one-time codes, envelopes, passwords; sessions, second
    factor, recovery codes, password change.
  \<^item> \<^verbatim>\<open>EgressPolicy\<close> (\<^verbatim>\<open>worker-runtime/src/egress-policy.ts\<close>): the address block list and the pinned request.
  \<^item> \<^verbatim>\<open>SecretManager\<close> (\<^verbatim>\<open>domain/src/secrets.ts\<close>, \<^verbatim>\<open>secret-operations.ts\<close>): versions, activation, reveal, use through a binding and the
    singleton API key.
  \<^item> \<^verbatim>\<open>OutboxDelivery\<close> (the relay of \<^verbatim>\<open>worker-runtime/src/index.ts\<close>): claims, leases and deliveries of the outbox under any
    interleaving. Consumption is at most once and in stream order, and a lone relay drains the outbox; with the columns of the
    baseline it delivers nothing, which is proved as well.
  \<^item> \<^verbatim>\<open>StateBroker\<close> (\<^verbatim>\<open>worker-runtime/src/broker-authority.ts\<close>, \<^verbatim>\<open>stateRead\<close> and \<^verbatim>\<open>stateWrite\<close> of \<^verbatim>\<open>index.ts\<close>): the lineage of an execution,
    loaded from the tables, and the versioned namespaces of runtimes. A runtime reads back what it wrote, no write is lost, and a
    namespace stays within its limits.
  \<^item> \<^verbatim>\<open>EgressBroker\<close> (\<^verbatim>\<open>egressRequest\<close> and \<^verbatim>\<open>handleBrokerRequest\<close> of \<^verbatim>\<open>index.ts\<close>): an outgoing request from its binding over the policy,
    the headers and the injected secret to its redirects and its evidence, the limits under interleaving, and the dispatch that
    joins the lineage, the three brokers and the secrets. Redirects are followed for three hops, the limit of the code, by
    structural recursion on the hops left.

  \<^bold>\<open>How code becomes definitions.\<close> A function that awaits queries in one transaction is a function from the tables to
  an error or the new tables and the result; PostgreSQL isolates transactions, so they are the atomic steps of the
  transition systems. Row locks are therefore not state, except in \<^verbatim>\<open>Database\<close>, whose lock manager they are. A thrown
  error is \<^verbatim>\<open>Inl\<close> of its code. JavaScript integers that stay safe integers are \<^verbatim>\<open>int\<close> or \<^verbatim>\<open>nat\<close> and \<^verbatim>\<open>BigInt\<close> is \<^verbatim>\<open>int\<close>;
  bytes, IPv4 addresses and the counters of one-time codes are words. Strings are lists of characters.

  \<^bold>\<open>Parameters.\<close> What the code calls and does not define is an argument, with the documented behaviour a theorem needs
  as a named hypothesis: SHA-256 and HMAC (length, no collision among given inputs), AES-GCM (decryption inverts
  encryption under the same associated data), Argon2, the collation of \<^verbatim>\<open>localeCompare\<close>, \<^verbatim>\<open>JSON.parse\<close>, the parsers of URLs and
  addresses, the resolver, the readback of systemd, clocks, random identifiers and tokens, and the handlers of operations.
  Every theorem with such a hypothesis has a witness with a concrete function.

  \<^bold>\<open>Loops.\<close> Loops are total functions with a measure: the decoder's over the pending bytes, the audit verifier's over
  the remaining sequence numbers, the transaction retry over the remaining attempts, recursion over JSON over its size.
  The conversion of JavaScript objects recurses over the objects not yet on its path, so it ends on a cyclic heap too.
  Polling loops (worker, scheduler, gateway watchdog) are steps of a transition system, not functions.

  \<^bold>\<open>Not modelled\<close>, and why: the handlers of the individual operations (\<^verbatim>\<open>exact-operation-handlers.ts\<close>, most of
  \<^verbatim>\<open>canonical-operation-handlers.ts\<close>, the component, runtime and monitor reports), which are SQL statements over tables the core
  does not read; their effect is the parameter \<^verbatim>\<open>apply_fn\<close> of the worker. The SQL subqueries of closure evaluation enter as
  the counts they return. HTTP routing and the browser user interface, the generated surface tables, the compilers and
  audits under \<^verbatim>\<open>scripts\<close>, the browser automation, the chat and model clients, the KCIP and provenance packages are input, output or generated data
  around the core. Concurrency inside one Node process is modelled where the code depends on it (the client channel and
  the gateway); elsewhere one call runs to its next transaction.
\<close>

end
